(* ===== verification/Prelude.thy ===== *)
theory Prelude
  imports Main "HOL-Library.AList" "HOL-Library.Multiset"
begin

text \<open>
  Shared material of the development: results with errors, the Python idioms the
  services use (loops with an early exit, \<^verbatim>\<open>list.index\<close>, \<^verbatim>\<open>max(..., default=d)\<close>,
  \<^verbatim>\<open>str.upper\<close>, \<^verbatim>\<open>str(int)\<close>, insertion-ordered dictionaries) and the generic lemmas
  on lists, sums and sorting the component theories rest on.

  Conventions used throughout: Python integers are \<open>int\<close>; \<^verbatim>\<open>sorted(xs, key=f)\<close> is
  \<^term>\<open>sort_key f xs\<close> (both are stable); \<^verbatim>\<open>next((x for x in xs if P(x)), None)\<close> is
  \<^term>\<open>List.find P xs\<close>; a dictionary whose order is observed is an association list
  written by \<^const>\<open>AList.update\<close>, which keeps the position of an existing key and
  appends a new one, as Python does.
\<close>

named_theorems bindE_simps \<open>case analysis of sequenced fallible computations\<close>
named_theorems update_first_simps \<open>effect of a loop that changes the first match and breaks\<close>


section \<open>Fallible computations\<close>

definition bindE :: "'e + 'a \<Rightarrow> ('a \<Rightarrow> 'e + 'b) \<Rightarrow> 'e + 'b" where
  "bindE r f = (case r of Inl e \<Rightarrow> Inl e | Inr x \<Rightarrow> f x)"

lemma bindE_Inl [simp, bindE_simps]: "bindE (Inl e) f = Inl e"
  by (simp add: bindE_def)

lemma bindE_Inr [simp, bindE_simps]: "bindE (Inr x) f = f x"
  by (simp add: bindE_def)

lemma bindE_eq_Inr [bindE_simps]: "bindE r f = Inr y \<longleftrightarrow> (\<exists>x. r = Inr x \<and> f x = Inr y)"
  by (cases r) auto

lemma bindE_eq_Inl [bindE_simps]:
  "bindE r f = Inl e \<longleftrightarrow> r = Inl e \<or> (\<exists>x. r = Inr x \<and> f x = Inl e)"
  by (cases r) auto

lemma bindE_assoc: "bindE (bindE r f) g = bindE r (\<lambda>x. bindE (f x) g)"
  by (cases r) auto

text \<open>For evaluation, sequencing is a case distinction: the continuation is entered only with a value.\<close>

lemma bindE_unfold [code_unfold]: "bindE r f = case_sum Inl f r"
  by (cases r) simp_all

text \<open>Likewise a pair is computed before it is taken apart.\<close>

lemma case_prod_unfold_let [code_unfold]: "case_prod f p = (let q = p in f (fst q) (snd q))"
  by (simp add: case_prod_unfold)

definition mapE :: "('a \<Rightarrow> 'b) \<Rightarrow> 'e + 'a \<Rightarrow> 'e + 'b" where
  "mapE f r = bindE r (\<lambda>x. Inr (f x))"

lemma mapE_simps [simp]: "mapE f (Inl e) = Inl e" "mapE f (Inr x) = Inr (f x)"
  by (simp_all add: mapE_def)

lemma mapE_eq_Inr [bindE_simps]: "mapE f r = Inr y \<longleftrightarrow> (\<exists>x. r = Inr x \<and> y = f x)"
  by (cases r) auto

text \<open>The result of a computation that is known to succeed, for concrete inputs.\<close>

primrec is_ok :: "'e + 'a \<Rightarrow> bool" where
  "is_ok (Inl e) = False"
| "is_ok (Inr x) = True"

abbreviation the_ok :: "'e + 'a \<Rightarrow> 'a" where
  "the_ok \<equiv> Sum_Type.projr"

lemma is_okD: "is_ok r \<Longrightarrow> r = Inr (the_ok r)"
  by (cases r) auto

lemma is_ok_iff: "is_ok r \<longleftrightarrow> (\<exists>x. r = Inr x)"
  by (cases r) auto

text \<open>A \<^verbatim>\<open>for\<close> loop whose body may raise: the first error ends it.\<close>

fun foldE :: "('s \<Rightarrow> 'a \<Rightarrow> 'e + 's) \<Rightarrow> 's \<Rightarrow> 'a list \<Rightarrow> 'e + 's" where
  "foldE f s [] = Inr s"
| "foldE f s (x # xs) = bindE (f s x) (\<lambda>s'. foldE f s' xs)"

lemma foldE_append: "foldE f s (xs @ ys) = bindE (foldE f s xs) (\<lambda>s'. foldE f s' ys)"
  by (induction xs arbitrary: s) (auto simp: bindE_assoc)

lemma foldE_invariant:
  assumes "foldE f s xs = Inr t" and "I s"
    and "\<And>s x s'. x \<in> set xs \<Longrightarrow> I s \<Longrightarrow> f s x = Inr s' \<Longrightarrow> I s'"
  shows "I t"
  using assms
proof (induction xs arbitrary: s)
  case Nil
  then show ?case by simp
next
  case (Cons x xs)
  from Cons.prems(1) obtain s' where s': "f s x = Inr s'" "foldE f s' xs = Inr t"
    by (auto simp: bindE_simps)
  from Cons.prems(2,3) s'(1) have "I s'" by force
  with s'(2) Cons.prems(3) show ?case by (intro Cons.IH [of s']) auto
qed

text \<open>A loop that only checks: \<^verbatim>\<open>for x in xs: ... raise ...\<close>.\<close>

fun check_all :: "('a \<Rightarrow> 'e + unit) \<Rightarrow> 'a list \<Rightarrow> 'e + unit" where
  "check_all f [] = Inr ()"
| "check_all f (x # xs) = bindE (f x) (\<lambda>_. check_all f xs)"

lemma check_all_ok [bindE_simps]:
  "check_all f xs = Inr u \<longleftrightarrow> (\<forall>x \<in> set xs. f x = Inr ())"
  by (induction xs) (auto simp: bindE_simps)

definition raise_if :: "bool \<Rightarrow> 'e \<Rightarrow> 'e + unit" where
  "raise_if b e = (if b then Inl e else Inr ())"

lemma raise_if_Inr [simp, bindE_simps]: "raise_if b e = Inr u \<longleftrightarrow> \<not> b"
  by (simp add: raise_if_def)

lemma raise_if_Inl [simp, bindE_simps]: "raise_if b e = Inl e' \<longleftrightarrow> b \<and> e' = e"
  by (auto simp: raise_if_def)


section \<open>Loops that stop at the first match\<close>

text \<open>
  \<^verbatim>\<open>for x in xs: if P(x): mutate(x); break\<close>
\<close>

fun update_first :: "('a \<Rightarrow> bool) \<Rightarrow> ('a \<Rightarrow> 'a) \<Rightarrow> 'a list \<Rightarrow> 'a list" where
  "update_first P f [] = []"
| "update_first P f (x # xs) = (if P x then f x # xs else x # update_first P f xs)"

lemma update_first_none [update_first_simps]:
  "List.find P xs = None \<Longrightarrow> update_first P f xs = xs"
  by (induction xs) (auto split: if_splits)

lemma length_update_first [simp, update_first_simps]: "length (update_first P f xs) = length xs"
  by (induction xs) auto

lemma map_update_first [update_first_simps]:
  assumes "\<And>x. P x \<Longrightarrow> g (f x) = g x"
  shows "map g (update_first P f xs) = map g xs"
  using assms by (induction xs) auto

lemma set_update_first:
  "y \<in> set (update_first P f xs) \<Longrightarrow> y \<in> set xs \<or> (\<exists>x \<in> set xs. P x \<and> y = f x)"
  by (induction xs) (auto split: if_splits)

lemma sum_update_first [update_first_simps]:
  fixes g :: "'a \<Rightarrow> int"
  assumes "List.find P xs = Some x"
  shows "sum_list (map g (update_first P f xs)) = sum_list (map g xs) - g x + g (f x)"
  using assms by (induction xs) (auto split: if_splits)

lemma find_update_first [update_first_simps]:
  assumes "List.find P xs = Some x" and "P (f x)"
  shows "List.find P (update_first P f xs) = Some (f x)"
  using assms by (induction xs) (auto split: if_splits)

lemma update_first_map_if:
  assumes "distinct (map k xs)"
  shows "update_first (\<lambda>x. k x = a) f xs = map (\<lambda>x. if k x = a then f x else x) xs"
  using assms
proof (induction xs)
  case Nil
  then show ?case by simp
next
  case (Cons x xs)
  then have "k x = a \<Longrightarrow> y \<in> set xs \<Longrightarrow> k y \<noteq> a" for y
    by (simp add: image_iff) metis
  then have "k x = a \<Longrightarrow> map (\<lambda>y. if k y = a then f y else y) xs = xs"
    by (intro map_idI) simp
  with Cons show ?case by auto
qed

lemma find_Some_mem: "List.find P xs = Some x \<Longrightarrow> x \<in> set xs \<and> P x"
  by (induction xs) (auto split: if_splits)

lemma find_None_mem: "List.find P xs = None \<longleftrightarrow> (\<forall>x \<in> set xs. \<not> P x)"
  by (induction xs) auto

lemma find_key_unique:
  assumes "distinct (map k xs)" and "x \<in> set xs" and "k x = a"
  shows "List.find (\<lambda>y. k y = a) xs = Some x"
  using assms by (induction xs) (auto split: if_splits simp: image_iff)

lemma distinct_key_eq: "distinct (map k xs) \<Longrightarrow> x \<in> set xs \<Longrightarrow> y \<in> set xs \<Longrightarrow> k x = k y \<Longrightarrow> x = y"
  by (auto simp: distinct_map dest: inj_onD)

lemma find_map: "List.find P (map f xs) = map_option f (List.find (\<lambda>x. P (f x)) xs)"
  by (induction xs) auto

lemma map_option_find_update:
  assumes "\<And>x. k (f x) = k x"
  shows "List.find (\<lambda>x. k x = a) (map f xs) = map_option f (List.find (\<lambda>x. k x = a) xs)"
  using assms by (simp add: find_map)


section \<open>Python list operations\<close>

text \<open>\<^verbatim>\<open>xs.index(x)\<close>, with \<open>None\<close> for the ValueError.\<close>

fun index_of :: "'a list \<Rightarrow> 'a \<Rightarrow> nat option" where
  "index_of [] a = None"
| "index_of (x # xs) a = (if x = a then Some 0 else map_option Suc (index_of xs a))"

lemma index_of_Some: "index_of xs a = Some i \<Longrightarrow> i < length xs \<and> xs ! i = a"
  by (induction xs arbitrary: i) (auto split: if_splits)

lemma index_of_None: "index_of xs a = None \<longleftrightarrow> a \<notin> set xs"
  by (induction xs) auto

lemma index_of_mem: "a \<in> set xs \<Longrightarrow> \<exists>i. index_of xs a = Some i"
  by (metis index_of_None not_None_eq)

lemma index_of_nth: "distinct xs \<Longrightarrow> i < length xs \<Longrightarrow> index_of xs (xs ! i) = Some i"
proof (induction xs arbitrary: i)
  case Nil
  then show ?case by simp
next
  case (Cons x xs)
  then show ?case by (cases i) auto
qed

text \<open>\<^verbatim>\<open>max(xs, default=d)\<close>.\<close>

fun max_default :: "int \<Rightarrow> int list \<Rightarrow> int" where
  "max_default d [] = d"
| "max_default d [x] = x"
| "max_default d (x # xs) = max x (max_default d xs)"

lemma max_default_ge: "x \<in> set xs \<Longrightarrow> x \<le> max_default d xs"
  by (induction d xs rule: max_default.induct) auto

lemma max_default_in: "xs \<noteq> [] \<Longrightarrow> max_default d xs \<in> set xs"
  by (induction d xs rule: max_default.induct) (auto simp: max_def)

lemma max_default_le: "xs \<noteq> [] \<Longrightarrow> (\<And>x. x \<in> set xs \<Longrightarrow> x \<le> b) \<Longrightarrow> max_default d xs \<le> b"
  using max_default_in by blast

text \<open>The elements of a list in the order first met: \<^verbatim>\<open>seen\<close> set and \<^verbatim>\<open>out\<close> list.\<close>

fun unique_acc :: "'a set \<Rightarrow> 'a list \<Rightarrow> 'a list" where
  "unique_acc seen [] = []"
| "unique_acc seen (x # xs) =
     (if x \<in> seen then unique_acc seen xs else x # unique_acc (insert x seen) xs)"

lemma set_unique_acc: "set (unique_acc seen xs) = set xs - seen"
  by (induction seen xs rule: unique_acc.induct) auto

lemma distinct_unique_acc: "distinct (unique_acc seen xs)"
  by (induction seen xs rule: unique_acc.induct) (auto simp: set_unique_acc)

lemma unique_acc_id: "distinct xs \<Longrightarrow> set xs \<inter> seen = {} \<Longrightarrow> unique_acc seen xs = xs"
  by (induction xs arbitrary: seen) auto


section \<open>Sums and sorting\<close>

lemma sum_list_mono2:
  fixes f :: "'a \<Rightarrow> int"
  assumes "\<And>x. x \<in> set xs \<Longrightarrow> f x \<le> g x"
  shows "sum_list (map f xs) \<le> sum_list (map g xs)"
  using assms by (induction xs) (auto intro: add_mono)

lemma sum_list_map_nonneg:
  fixes f :: "'a \<Rightarrow> int"
  assumes "\<And>x. x \<in> set xs \<Longrightarrow> 0 \<le> f x"
  shows "0 \<le> sum_list (map f xs)"
  using assms by (induction xs) auto

lemma member_le_sum_list:
  fixes f :: "'a \<Rightarrow> int"
  assumes "x \<in> set xs" and "\<And>y. y \<in> set xs \<Longrightarrow> 0 \<le> f y"
  shows "f x \<le> sum_list (map f xs)"
  using assms by (induction xs) (fastforce intro: add_nonneg_nonneg sum_list_map_nonneg)+

lemma sum_list_map_sort_key:
  fixes f :: "'a \<Rightarrow> int"
  shows "sum_list (map f (sort_key k xs)) = sum_list (map f xs)"
  by (metis mset_map mset_sort sum_mset_sum_list)

lemma sum_list_filter_split:
  fixes f :: "'a \<Rightarrow> int"
  shows "sum_list (map f xs) = sum_list (map f (filter P xs)) + sum_list (map f (filter (\<lambda>x. \<not> P x) xs))"
  by (induction xs) auto

lemma length_filter_sum: "int (length (filter P xs)) * c = sum_list (map (\<lambda>x. if P x then c else 0) xs)"
  by (induction xs) (auto simp: algebra_simps)

lemma sum_list_map_add:
  fixes f :: "'a \<Rightarrow> int"
  shows "sum_list (map (\<lambda>x. f x + g x) xs) = sum_list (map f xs) + sum_list (map g xs)"
  by (induction xs) auto

lemma sum_list_if_key:
  fixes f :: "'a \<Rightarrow> int"
  assumes "distinct (map k xs)"
  shows "sum_list (map (\<lambda>x. if k x = a then f x else g x) xs) =
    sum_list (map g xs) + (case List.find (\<lambda>x. k x = a) xs of None \<Rightarrow> 0 | Some x \<Rightarrow> f x - g x)"
  using assms
proof (induction xs)
  case Nil
  then show ?case by simp
next
  case (Cons x xs)
  then have "k x = a \<Longrightarrow> List.find (\<lambda>x. k x = a) xs = None"
    by (simp add: find_None_mem image_iff) metis
  with Cons show ?case by (auto split: option.splits)
qed


section \<open>Insertion-ordered dictionaries\<close>

text \<open>\<^verbatim>\<open>d[k]\<close> of a dictionary with a default, and the sum over its values.\<close>

definition dict_get :: "('k \<times> 'v) list \<Rightarrow> 'k \<Rightarrow> 'v option" where
  "dict_get d k = map_of d k"

definition dict_set :: "'k \<Rightarrow> 'v \<Rightarrow> ('k \<times> 'v) list \<Rightarrow> ('k \<times> 'v) list" where
  "dict_set = AList.update"

lemma dict_get_set [simp]: "dict_get (dict_set k v d) k' = (if k' = k then Some v else dict_get d k')"
  by (simp add: dict_get_def dict_set_def update_conv')

lemma dict_get_Nil [simp]: "dict_get [] k = None"
  by (simp add: dict_get_def)

lemma dict_keys_set: "fst ` set (dict_set k v d) = insert k (fst ` set d)"
  by (simp add: dict_set_def dom_update)

lemma distinct_dict_set: "distinct (map fst d) \<Longrightarrow> distinct (map fst (dict_set k v d))"
  by (simp add: dict_set_def distinct_update)

lemma dict_get_None_iff: "dict_get d k = None \<longleftrightarrow> k \<notin> fst ` set d"
  by (simp add: dict_get_def map_of_eq_None_iff)

lemma sum_dict_set:
  fixes f :: "'v \<Rightarrow> int"
  assumes "distinct (map fst d)"
  shows "sum_list (map (f \<circ> snd) (dict_set k v d)) =
    sum_list (map (f \<circ> snd) d) + f v - (case dict_get d k of None \<Rightarrow> 0 | Some w \<Rightarrow> f w)"
  using assms unfolding dict_set_def dict_get_def
  by (induction d) (auto simp: map_of_eq_None_iff image_iff split: option.splits)


section \<open>Strings\<close>

text \<open>\<^verbatim>\<open>str.upper\<close> on ASCII text.\<close>

definition upper_char :: "char \<Rightarrow> char" where
  "upper_char c = (if 97 \<le> (of_char c :: nat) \<and> (of_char c :: nat) \<le> 122
     then char_of ((of_char c :: nat) - 32) else c)"

definition upper :: "string \<Rightarrow> string" where
  "upper s = map upper_char s"

text \<open>The same on the bits of the character, for evaluation: only the letters a to z have their case bit cleared.\<close>

lemma upper_char_code [code]:
  "upper_char (Char b0 b1 b2 b3 b4 b5 b6 b7) =
     (if \<not> b7 \<and> b6 \<and> b5 \<and> (b0 \<or> b1 \<or> b2 \<or> b3 \<or> b4) \<and> \<not> (b4 \<and> b3 \<and> (b2 \<or> b1 \<and> b0))
      then Char b0 b1 b2 b3 b4 False b6 b7 else Char b0 b1 b2 b3 b4 b5 b6 b7)"
  by (cases b0; cases b1; cases b2; cases b3; cases b4; cases b5; cases b6; cases b7) (simp_all add: upper_char_def char_of_def bit_0)

lemma upper_char_idem [simp]: "upper_char (upper_char c) = upper_char c"
proof (cases "97 \<le> (of_char c :: nat) \<and> (of_char c :: nat) \<le> 122")
  case True
  then have "(of_char (char_of ((of_char c :: nat) - 32) :: char) :: nat) = of_char c - 32"
    by (auto simp: of_char_of)
  with True show ?thesis by (auto simp: upper_char_def)
next
  case False
  then have "upper_char c = c" by (auto simp: upper_char_def)
  then show ?thesis by simp
qed

lemma upper_idem [simp]: "upper (upper s) = upper s"
  by (simp add: upper_def)

text \<open>\<^verbatim>\<open>str(n)\<close>.\<close>

definition digit_char :: "nat \<Rightarrow> char" where
  "digit_char d = ''0123456789'' ! d"

fun str_nat :: "nat \<Rightarrow> string" where
  "str_nat n = (if n < 10 then [digit_char n] else str_nat (n div 10) @ [digit_char (n mod 10)])"

declare str_nat.simps [simp del]

fun divmod10 :: "nat \<Rightarrow> nat \<times> nat" where
  "divmod10 n = (if n < 10 then (0, n) else case divmod10 (n - 10) of (q, r) \<Rightarrow> (Suc q, r))"

declare divmod10.simps [simp del]

lemma divmod10_eq: "divmod10 n = (n div 10, n mod 10)"
proof (induction n rule: divmod10.induct)
  case (1 n)
  show ?case
  proof (cases "n < 10")
    case False
    with 1 have "divmod10 n = (Suc ((n - 10) div 10), (n - 10) mod 10)" by (simp add: divmod10.simps [of n])
    with False show ?thesis by (simp add: le_div_geq le_mod_geq)
  qed (simp add: divmod10.simps)
qed

lemma str_nat_code [code]:
  "str_nat n = (if n < 10 then [digit_char n] else case divmod10 n of (q, r) \<Rightarrow> str_nat q @ [digit_char r])"
  by (simp add: str_nat.simps [of n] divmod10_eq)

definition str_int :: "int \<Rightarrow> string" where
  "str_int i = (if i < 0 then ''-'' @ str_nat (nat (- i)) else str_nat (nat i))"

fun join :: "string \<Rightarrow> string list \<Rightarrow> string" where
  "join sep [] = []"
| "join sep [x] = x"
| "join sep (x # xs) = x @ sep @ join sep xs"

text \<open>\<^verbatim>\<open>str.strip\<close>, on ASCII text.\<close>

definition is_space :: "char \<Rightarrow> bool" where
  "is_space c \<longleftrightarrow> c \<in> {CHR '' '', CHR 0x09, CHR 0x0A, CHR 0x0B, CHR 0x0C, CHR 0x0D, CHR 0x1C, CHR 0x1D, CHR 0x1E, CHR 0x1F}"

definition strip :: "string \<Rightarrow> string" where
  "strip s = rev (dropWhile is_space (rev (dropWhile is_space s)))"

end
