(* ===== verification/Domain_Types.thy ===== *)
theory Domain_Types
  imports Prelude
begin

text \<open>
  The vocabulary of game-service: the enumerations of \<^verbatim>\<open>domain/constants.py\<close>, the
  exception hierarchy of \<^verbatim>\<open>domain/exceptions.py\<close>, and the rules profile of
  \<^verbatim>\<open>domain/rules.py\<close>.

  A \<^verbatim>\<open>StrEnum\<close> is a datatype with a \<open>_value\<close> function giving the string of each
  member. An exception is a value: its class and its message. Identifiers
  (player, round, game, room, bet and ledger-entry ids) are strings.
\<close>

type_synonym player_id = string
type_synonym round_id = string
type_synonym game_id = string
type_synonym room_id = string


section \<open>domain/constants.py\<close>

datatype GameStatus = WAITING | ACTIVE | PAUSED | FINISHED

primrec GameStatus_value :: "GameStatus \<Rightarrow> string" where
  "GameStatus_value WAITING = ''WAITING''"
| "GameStatus_value ACTIVE = ''ACTIVE''"
| "GameStatus_value PAUSED = ''PAUSED''"
| "GameStatus_value FINISHED = ''FINISHED''"

datatype RoundStatus = ROUND_ACTIVE | ROUND_COMPLETED

primrec RoundStatus_value :: "RoundStatus \<Rightarrow> string" where
  "RoundStatus_value ROUND_ACTIVE = ''ACTIVE''"
| "RoundStatus_value ROUND_COMPLETED = ''COMPLETED''"

datatype Street = PRE_FLOP | FLOP | TURN | RIVER | SHOWDOWN

primrec Street_value :: "Street \<Rightarrow> string" where
  "Street_value PRE_FLOP = ''PRE_FLOP''"
| "Street_value FLOP = ''FLOP''"
| "Street_value TURN = ''TURN''"
| "Street_value RIVER = ''RIVER''"
| "Street_value SHOWDOWN = ''SHOWDOWN''"

datatype StreetAdvanceAction = NEXT_STREET | SETTLE_HAND | GO_SHOWDOWN

primrec StreetAdvanceAction_value :: "StreetAdvanceAction \<Rightarrow> string" where
  "StreetAdvanceAction_value NEXT_STREET = ''NEXT_STREET''"
| "StreetAdvanceAction_value SETTLE_HAND = ''SETTLE_HAND''"
| "StreetAdvanceAction_value GO_SHOWDOWN = ''SHOWDOWN''"

datatype LedgerEntryType =
    BLIND_POSTED | ANTE_POSTED | BET_PLACED | STREET_DEALT | PAYOUT_AWARDED
  | LEDGER_ROUND_COMPLETED | ACTION_REVERSED | STACK_ADJUSTED | HAND_REOPENED | PAYOUT_CORRECTED

primrec LedgerEntryType_value :: "LedgerEntryType \<Rightarrow> string" where
  "LedgerEntryType_value BLIND_POSTED = ''BLIND_POSTED''"
| "LedgerEntryType_value ANTE_POSTED = ''ANTE_POSTED''"
| "LedgerEntryType_value BET_PLACED = ''BET_PLACED''"
| "LedgerEntryType_value STREET_DEALT = ''STREET_DEALT''"
| "LedgerEntryType_value PAYOUT_AWARDED = ''PAYOUT_AWARDED''"
| "LedgerEntryType_value LEDGER_ROUND_COMPLETED = ''ROUND_COMPLETED''"
| "LedgerEntryType_value ACTION_REVERSED = ''ACTION_REVERSED''"
| "LedgerEntryType_value STACK_ADJUSTED = ''STACK_ADJUSTED''"
| "LedgerEntryType_value HAND_REOPENED = ''HAND_REOPENED''"
| "LedgerEntryType_value PAYOUT_CORRECTED = ''PAYOUT_CORRECTED''"

definition CORRECTION_ENTRY_TYPES :: "LedgerEntryType set" where
  "CORRECTION_ENTRY_TYPES = {ACTION_REVERSED, STACK_ADJUSTED, HAND_REOPENED, PAYOUT_CORRECTED}"

datatype BetAction = FOLD | CHECK | CALL | BET | RAISE | ALL_IN

primrec BetAction_value :: "BetAction \<Rightarrow> string" where
  "BetAction_value FOLD = ''FOLD''"
| "BetAction_value CHECK = ''CHECK''"
| "BetAction_value CALL = ''CALL''"
| "BetAction_value BET = ''BET''"
| "BetAction_value RAISE = ''RAISE''"
| "BetAction_value ALL_IN = ''ALL_IN''"

definition BET_ACTIONS :: "BetAction list" where
  "BET_ACTIONS = [FOLD, CHECK, CALL, BET, RAISE, ALL_IN]"

definition VALID_BET_ACTIONS :: "string set" where
  "VALID_BET_ACTIONS = set (map BetAction_value BET_ACTIONS)"

text \<open>A \<^verbatim>\<open>StrEnum\<close> member equals its string: \<^verbatim>\<open>action_upper == BetAction.X\<close>.\<close>

definition BetAction_of :: "string \<Rightarrow> BetAction option" where
  "BetAction_of s = List.find (\<lambda>a. BetAction_value a = s) BET_ACTIONS"

lemma BetAction_of_value [simp]: "BetAction_of (BetAction_value a) = Some a"
  by (cases a) (simp_all add: BetAction_of_def BET_ACTIONS_def)

lemma BetAction_of_Some: "BetAction_of s = Some a \<longleftrightarrow> s = BetAction_value a"
proof
  assume "BetAction_of s = Some a"
  then show "s = BetAction_value a"
    using find_Some_mem [of "\<lambda>a. BetAction_value a = s" BET_ACTIONS a] by (simp add: BetAction_of_def)
qed simp

lemma upper_BetAction_value [simp]: "upper (BetAction_value a) = BetAction_value a"
  by (cases a) (simp_all add: upper_def upper_char_def)

lemma VALID_BET_ACTIONS_iff: "s \<in> VALID_BET_ACTIONS \<longleftrightarrow> (\<exists>a. s = BetAction_value a)"
proof
  assume "s \<in> VALID_BET_ACTIONS"
  then show "\<exists>a. s = BetAction_value a" by (auto simp: VALID_BET_ACTIONS_def)
next
  assume "\<exists>a. s = BetAction_value a"
  then obtain a where "s = BetAction_value a" ..
  then show "s \<in> VALID_BET_ACTIONS"
    by (cases a) (simp_all add: VALID_BET_ACTIONS_def BET_ACTIONS_def)
qed

datatype GameEventType =
    STARTED | ROUND_STARTED | EVENT_ROUND_COMPLETED | STREET_ADVANCED | BLINDS_INCREASED
  | CORRECTION_APPLIED | EVENT_BET_PLACED | GAME_FINISHED

primrec GameEventType_value :: "GameEventType \<Rightarrow> string" where
  "GameEventType_value STARTED = ''game.started''"
| "GameEventType_value ROUND_STARTED = ''game.round_started''"
| "GameEventType_value EVENT_ROUND_COMPLETED = ''game.round_completed''"
| "GameEventType_value STREET_ADVANCED = ''game.street_advanced''"
| "GameEventType_value BLINDS_INCREASED = ''game.blinds_increased''"
| "GameEventType_value CORRECTION_APPLIED = ''game.correction_applied''"
| "GameEventType_value EVENT_BET_PLACED = ''bet.placed''"
| "GameEventType_value GAME_FINISHED = ''game.finished''"

text \<open>\<^verbatim>\<open>DataKey\<close>: the keys of an event's data; \<^verbatim>\<open>Key\<close> is a key the code writes as a literal.\<close>

datatype DataKey =
    GAME_ID | ROOM_ID | ROUND_ID | PLAYER_ID | ROUND_NUMBER | DEALER_SEAT | SMALL_BLIND_SEAT | BIG_BLIND_SEAT
  | SMALL_BLIND_AMOUNT | BIG_BLIND_AMOUNT | ANTE_AMOUNT | BLIND_LEVEL | WINNER_PLAYER_ID | POT_AMOUNT
  | PAYOUTS | STATUS | BET_ID | ACTION | AMOUNT | Key string

primrec DataKey_value :: "DataKey \<Rightarrow> string" where
  "DataKey_value GAME_ID = ''game_id''"
| "DataKey_value ROOM_ID = ''room_id''"
| "DataKey_value ROUND_ID = ''round_id''"
| "DataKey_value PLAYER_ID = ''player_id''"
| "DataKey_value ROUND_NUMBER = ''round_number''"
| "DataKey_value DEALER_SEAT = ''dealer_seat''"
| "DataKey_value SMALL_BLIND_SEAT = ''small_blind_seat''"
| "DataKey_value BIG_BLIND_SEAT = ''big_blind_seat''"
| "DataKey_value SMALL_BLIND_AMOUNT = ''small_blind_amount''"
| "DataKey_value BIG_BLIND_AMOUNT = ''big_blind_amount''"
| "DataKey_value ANTE_AMOUNT = ''ante_amount''"
| "DataKey_value BLIND_LEVEL = ''blind_level''"
| "DataKey_value WINNER_PLAYER_ID = ''winner_player_id''"
| "DataKey_value POT_AMOUNT = ''pot_amount''"
| "DataKey_value PAYOUTS = ''payouts''"
| "DataKey_value STATUS = ''status''"
| "DataKey_value BET_ID = ''bet_id''"
| "DataKey_value ACTION = ''action''"
| "DataKey_value AMOUNT = ''amount''"
| "DataKey_value (Key k) = k"

datatype (plugins only: code size) ErrorMessage =
    GAME_NOT_FOUND | ROOM_NOT_FOUND | ROOM_SNAPSHOT_NOT_FOUND | ROUND_NOT_FOUND
  | GAME_NOT_ACTIVE | GAME_NOT_PAUSED | ROUND_NOT_ACTIVE | NO_ACTIVE_ROUND
  | GAME_ALREADY_EXISTS | NO_BLIND_LEVELS | ACTIVE_PLAYERS_REQUIRED | MAX_BLIND_LEVEL_REACHED
  | PAYOUT_TOTAL_EXCEEDS_POT | PAYOUT_EMPTY | ALREADY_AT_SHOWDOWN | LEDGER_ENTRY_NOT_FOUND
  | ENTRY_ALREADY_REVERSED | CANNOT_REVERSE_CORRECTION | ROUND_NOT_COMPLETED
  | ROUND_ALREADY_ACTIVE | ROUND_START_NOT_ALLOWED | BET_NOT_FOUND | INVALID_ACTION
  | PLAYER_ALREADY_FOLDED | RAISE_AMOUNT_TOO_LOW | ACTION_CLOSED | NOT_YOUR_TURN
  | PLAYER_NOT_IN_HAND | PLAYER_ALL_IN | CHECK_NOT_ALLOWED | CALL_NOT_ALLOWED
  | BET_NOT_ALLOWED | RAISE_NOT_ALLOWED | RAISE_BELOW_MINIMUM | AMOUNT_EXCEEDS_STACK
  | BET_AMOUNT_TOO_LOW | BET_BELOW_MINIMUM | RAISE_EXCEEDS_STACK | NOT_ENOUGH_ACTIVE_PLAYERS
  | SESSION_NOT_PAUSED | SEAT_NOT_ACTIVE | SEAT_NOT_SITTING_OUT | SEAT_NOT_FOUND

text \<open>
  Messages with a placeholder (\<^verbatim>\<open>{game_id}\<close>, \<^verbatim>\<open>{seat_number}\<close>) are given as prefix and
  suffix around the formatted argument by \<open>format_message\<close> below.
\<close>

primrec ErrorMessage_value :: "ErrorMessage \<Rightarrow> string" where
  "ErrorMessage_value GAME_NOT_FOUND = ''Game not found''"
| "ErrorMessage_value ROOM_NOT_FOUND = ''Room not found''"
| "ErrorMessage_value ROOM_SNAPSHOT_NOT_FOUND = ''Room snapshot not found for game {game_id}''"
| "ErrorMessage_value ROUND_NOT_FOUND = ''Round not found''"
| "ErrorMessage_value GAME_NOT_ACTIVE = ''Game is not in ACTIVE status''"
| "ErrorMessage_value GAME_NOT_PAUSED = ''Game is not paused''"
| "ErrorMessage_value ROUND_NOT_ACTIVE = ''Round is not in ACTIVE status''"
| "ErrorMessage_value NO_ACTIVE_ROUND = ''No active round found''"
| "ErrorMessage_value GAME_ALREADY_EXISTS = ''An active game already exists for this room''"
| "ErrorMessage_value NO_BLIND_LEVELS = ''No blind levels configured for this room''"
| "ErrorMessage_value ACTIVE_PLAYERS_REQUIRED = ''At least 2 active players are required''"
| "ErrorMessage_value MAX_BLIND_LEVEL_REACHED = ''Already at the maximum blind level''"
| "ErrorMessage_value PAYOUT_TOTAL_EXCEEDS_POT = ''Total payouts exceed pot amount''"
| "ErrorMessage_value PAYOUT_EMPTY = ''At least one pot payout is required''"
| "ErrorMessage_value ALREADY_AT_SHOWDOWN = ''Cannot advance street: round is already at showdown''"
| "ErrorMessage_value LEDGER_ENTRY_NOT_FOUND = ''Ledger entry not found''"
| "ErrorMessage_value ENTRY_ALREADY_REVERSED = ''This ledger entry has already been reversed''"
| "ErrorMessage_value CANNOT_REVERSE_CORRECTION = ''Cannot reverse a correction entry''"
| "ErrorMessage_value ROUND_NOT_COMPLETED = ''Round must be completed before applying this correction''"
| "ErrorMessage_value ROUND_ALREADY_ACTIVE = ''Round is already active''"
| "ErrorMessage_value ROUND_START_NOT_ALLOWED = ''Round can only be started by the table controller or the player on the current button seat''"
| "ErrorMessage_value BET_NOT_FOUND = ''Bet not found''"
| "ErrorMessage_value INVALID_ACTION = ''Invalid bet action''"
| "ErrorMessage_value PLAYER_ALREADY_FOLDED = ''Player has already folded this round''"
| "ErrorMessage_value RAISE_AMOUNT_TOO_LOW = ''Raise amount must be greater than 0''"
| "ErrorMessage_value ACTION_CLOSED = ''Betting action is closed for this street''"
| "ErrorMessage_value NOT_YOUR_TURN = ''It is not your turn to act''"
| "ErrorMessage_value PLAYER_NOT_IN_HAND = ''Player is not in this hand''"
| "ErrorMessage_value PLAYER_ALL_IN = ''Player is already all-in''"
| "ErrorMessage_value CHECK_NOT_ALLOWED = ''Cannot check when there is a bet to call''"
| "ErrorMessage_value CALL_NOT_ALLOWED = ''Nothing to call - use check instead''"
| "ErrorMessage_value BET_NOT_ALLOWED = ''Cannot bet - there is already a bet on this street; use raise''"
| "ErrorMessage_value RAISE_NOT_ALLOWED = ''Cannot raise - no previous bet to raise; use bet''"
| "ErrorMessage_value RAISE_BELOW_MINIMUM = ''Raise amount is below the minimum raise''"
| "ErrorMessage_value AMOUNT_EXCEEDS_STACK = ''Bet amount exceeds remaining stack''"
| "ErrorMessage_value BET_AMOUNT_TOO_LOW = ''Bet amount must be greater than 0''"
| "ErrorMessage_value BET_BELOW_MINIMUM = ''Bet amount is below the minimum''"
| "ErrorMessage_value RAISE_EXCEEDS_STACK = ''Raise amount exceeds remaining stack''"
| "ErrorMessage_value NOT_ENOUGH_ACTIVE_PLAYERS = ''Need at least 2 active players''"
| "ErrorMessage_value SESSION_NOT_PAUSED = ''Can only resume a paused session''"
| "ErrorMessage_value SEAT_NOT_ACTIVE = ''Seat {seat_number} is not active''"
| "ErrorMessage_value SEAT_NOT_SITTING_OUT = ''Seat {seat_number} is not sitting out''"
| "ErrorMessage_value SEAT_NOT_FOUND = ''Seat {seat_number} not found''"

declare ErrorMessage_value.simps [simp del]

text \<open>\<^verbatim>\<open>str.format\<close> with one named placeholder: the text from the first opening to the
  first closing brace is replaced.\<close>

definition format_message :: "ErrorMessage \<Rightarrow> string \<Rightarrow> string" where
  "format_message m arg = (let s = ErrorMessage_value m in
     takeWhile (\<lambda>c. c \<noteq> CHR ''{'') s @ arg @ drop 1 (dropWhile (\<lambda>c. c \<noteq> CHR ''}'') s))"


section \<open>domain/exceptions.py\<close>

text \<open>The subclasses of \<^verbatim>\<open>DomainError\<close>; those of \<^verbatim>\<open>TableRuntimeError\<close> are the last five.\<close>

datatype (plugins only: code size) exc_class =
    RoundNotActive | ActionClosed | RoundNotCompleted | RoundAlreadyActive | AlreadyAtShowdown
  | PlayerNotInHand | PlayerAlreadyFolded | PlayerAlreadyAllIn | NotYourTurn | IllegalAction
  | CheckNotAllowed | CallNotAllowed | BetNotAllowed | RaiseNotAllowed | RaiseBelowMinimum
  | AmountExceedsStack | InvalidAmount | GameNotActive | GameAlreadyExists | RoundStartNotAllowed
  | NotFound | LedgerEntryNotFound | EntryAlreadyReversed | CannotReverseCorrection
  | PayoutExceedsPot | PayoutEmpty | PayoutMismatch | StaleStateError | DuplicateActionError
  | IdempotencyConflict | TableRuntimeError | NotEnoughActivePlayers | SessionNotPaused
  | SeatNotActive | SeatNotSittingOut | SeatNotFound

text \<open>
  Everything that can be raised: a domain error (class and message), an HTTP error a
  service raises itself (status and detail), the errors of the language the code can
  hit, the errors of the database layer (a row query that finds several rows, a violated
  constraint), those of the HTTP client (a bad status, no response), and a request object
  whose fields violate its schema.
\<close>

datatype error =
    DomainError exc_class string
  | HTTPException int string
  | AssertionError
  | IndexError
  | ZeroDivisionError
  | MultipleResultsFound
  | IntegrityError
  | HTTPStatusError int
  | TransportError
  | ValidationError
  | RuntimeError string
  | ValueError

type_synonym 'a result = "error + 'a"

definition raise :: "exc_class \<Rightarrow> ErrorMessage \<Rightarrow> 'a result" where
  "raise c m = Inl (DomainError c (ErrorMessage_value m))"

lemma raise_neq_Inr [simp]: "raise c m \<noteq> Inr x" "Inr x \<noteq> raise c m"
  by (simp_all add: raise_def)

lemma raise_inject [simp]:
  "raise c m = raise c' m' \<longleftrightarrow> c = c' \<and> ErrorMessage_value m = ErrorMessage_value m'"
  by (simp add: raise_def)

lemma bindE_raise [simp, bindE_simps]: "bindE (raise c m) f = raise c m"
  by (simp add: raise_def)

fun error_class :: "error \<Rightarrow> exc_class option" where
  "error_class (DomainError c m) = Some c"
| "error_class _ = None"

definition raises :: "'a result \<Rightarrow> exc_class \<Rightarrow> bool" where
  "raises r c = (case r of Inl e \<Rightarrow> error_class e = Some c | Inr x \<Rightarrow> False)"

lemma raises_raise [simp]: "raises (raise c m) c' \<longleftrightarrow> c = c'"
  by (simp add: raises_def raise_def)

lemma raises_Inr [simp]: "\<not> raises (Inr x) c"
  by (simp add: raises_def)

lemma raises_DomainError [simp]: "raises (Inl (DomainError c m)) c' \<longleftrightarrow> c = c'"
  by (simp add: raises_def)

lemma raises_not_Inr: "raises r c \<Longrightarrow> r \<noteq> Inr x"
  by auto


section \<open>domain/rules.py\<close>

record RulesProfile =
  rules_name :: string
  rules_betting_structure :: string
  rules_forced_bets :: string
  rules_min_players :: int
  rules_max_players :: int
  rules_streets :: "Street list"
  rules_min_raise_equals_last_raise :: bool
  rules_unlimited_raises :: bool
  rules_max_raises_per_street :: "int option"
  rules_all_in_reopens_action :: bool
  rules_dead_button_rule :: bool
  rules_engine_version :: string

definition NO_LIMIT_HOLDEM :: RulesProfile where
  "NO_LIMIT_HOLDEM = \<lparr>
     rules_name = ''No-Limit Texas Hold'' @ [CHR 0x27] @ ''em'',
     rules_betting_structure = ''no_limit'',
     rules_forced_bets = ''blinds'',
     rules_min_players = 2,
     rules_max_players = 10,
     rules_streets = [PRE_FLOP, FLOP, TURN, RIVER, SHOWDOWN],
     rules_min_raise_equals_last_raise = True,
     rules_unlimited_raises = True,
     rules_max_raises_per_street = None,
     rules_all_in_reopens_action = False,
     rules_dead_button_rule = False,
     rules_engine_version = ''0.15.0''\<rparr>"

end
