(* ===== verification/Positions.thy ===== *)
theory Positions
  imports Domain_Types
begin

text \<open>
  \<^verbatim>\<open>domain/engine/positions.py\<close>: where the dealer button and the two blinds sit at the
  start of a game (\<open>assign_positions\<close>) and how they move between hands
  (\<open>rotate_positions\<close>). Seats are the active seats in ascending order; the functions
  return (dealer, small blind, big blind).
\<close>

section \<open>The functions\<close>

text \<open>\<^verbatim>\<open>a % n\<close> on indices: Python raises on \<^verbatim>\<open>n = 0\<close>.\<close>

definition idx_mod :: "nat \<Rightarrow> nat \<Rightarrow> nat result" where
  "idx_mod a n = (if n = 0 then Inl ZeroDivisionError else Inr (a mod n))"

lemma idx_mod_pos [simp]: "0 < n \<Longrightarrow> idx_mod a n = Inr (a mod n)"
  by (simp add: idx_mod_def)

definition index_or_zero :: "int list \<Rightarrow> int \<Rightarrow> nat" where
  "index_or_zero seats d = (case index_of seats d of Some i \<Rightarrow> i | None \<Rightarrow> 0)"

definition assign_positions :: "int list \<Rightarrow> int \<Rightarrow> (int \<times> int \<times> int) result" where
  "assign_positions active_seats starting_dealer =
     (if length active_seats = 2 then
        (let dealer_idx = index_or_zero active_seats starting_dealer;
             sb_idx = dealer_idx
         in bindE (idx_mod (dealer_idx + 1) (length active_seats)) (\<lambda>bb_idx.
            Inr (active_seats ! dealer_idx, active_seats ! sb_idx, active_seats ! bb_idx)))
      else
        (let dealer_idx = index_or_zero active_seats starting_dealer
         in bindE (idx_mod (dealer_idx + 1) (length active_seats)) (\<lambda>sb_idx.
            bindE (idx_mod (dealer_idx + 2) (length active_seats)) (\<lambda>bb_idx.
            Inr (active_seats ! dealer_idx, active_seats ! sb_idx, active_seats ! bb_idx)))))"

definition rotate_positions :: "int list \<Rightarrow> int \<Rightarrow> (int \<times> int \<times> int) result" where
  "rotate_positions active_seats current_dealer =
     bindE (case index_of active_seats current_dealer of
              Some current_idx \<Rightarrow> idx_mod (current_idx + 1) (length active_seats)
            | None \<Rightarrow> Inr 0) (\<lambda>new_dealer_idx.
     bindE (if length active_seats = 2
            then bindE (idx_mod (new_dealer_idx + 1) (length active_seats)) (\<lambda>bb_idx.
                 Inr (new_dealer_idx, bb_idx))
            else bindE (idx_mod (new_dealer_idx + 1) (length active_seats)) (\<lambda>sb_idx.
                 bindE (idx_mod (new_dealer_idx + 2) (length active_seats)) (\<lambda>bb_idx.
                 Inr (sb_idx, bb_idx)))) (\<lambda>(sb_idx, bb_idx).
     Inr (active_seats ! new_dealer_idx, active_seats ! sb_idx, active_seats ! bb_idx)))"


section \<open>The ring of seats\<close>

text \<open>
  A placement by index: the button at index \<open>i\<close> of the ring, blinds as the number of
  seats demands. Both functions are this placement at different indices.
\<close>

definition place_at :: "int list \<Rightarrow> nat \<Rightarrow> int \<times> int \<times> int" where
  "place_at seats i = (let n = length seats in
     if n = 2 then (seats ! (i mod n), seats ! (i mod n), seats ! ((i + 1) mod n))
     else (seats ! (i mod n), seats ! ((i + 1) mod n), seats ! ((i + 2) mod n)))"

lemma index_or_zero_lt: "seats \<noteq> [] \<Longrightarrow> index_or_zero seats d < length seats"
  by (auto simp: index_or_zero_def dest: index_of_Some split: option.splits)

lemma assign_positions_place:
  "seats \<noteq> [] \<Longrightarrow> assign_positions seats d = Inr (place_at seats (index_or_zero seats d))"
  using index_or_zero_lt [of seats d]
  by (simp add: assign_positions_def place_at_def Let_def)

lemma ring_mod:
  "Suc (i mod n) mod n = Suc i mod n" "Suc (Suc (i mod n)) mod n = Suc (Suc i) mod n" for n :: nat
  by (metis mod_Suc_eq) (metis mod_Suc_eq)

lemma rotate_positions_place:
  "seats \<noteq> [] \<Longrightarrow> rotate_positions seats d =
     Inr (place_at seats (case index_of seats d of Some i \<Rightarrow> i + 1 | None \<Rightarrow> 0))"
  by (cases "index_of seats d") (simp_all add: rotate_positions_def place_at_def Let_def ring_mod)

lemma nth_ring_eq:
  assumes "distinct seats" and "seats \<noteq> []"
  shows "seats ! (i mod length seats) = seats ! (j mod length seats) \<longleftrightarrow> i mod length seats = j mod length seats"
  using assms by (simp add: nth_eq_iff_index_eq)

lemma mod_shift_neq:
  assumes "0 < k" and "k < (n :: nat)"
  shows "i mod n \<noteq> (i + k) mod n"
proof
  assume "i mod n = (i + k) mod n"
  then have "n dvd k" by (metis add_diff_cancel_left' mod_eq_dvd_iff_nat le_add1)
  with assms show False using nat_dvd_not_less by blast
qed

lemma place_at_in_seats:
  "seats \<noteq> [] \<Longrightarrow> place_at seats i = (d, sb, bb) \<Longrightarrow> {d, sb, bb} \<subseteq> set seats"
  by (auto simp: place_at_def Let_def split: if_splits)

lemma place_at_distinct:
  assumes "distinct seats" and "2 \<le> length seats" and "place_at seats i = (d, sb, bb)"
  shows "sb \<noteq> bb \<and> d \<noteq> bb \<and> (d = sb \<longleftrightarrow> length seats = 2)"
proof -
  have "seats \<noteq> []" using assms(2) by auto
  note ring = nth_ring_eq [OF assms(1) this]
  have "i mod length seats \<noteq> (i + 1) mod length seats"
    using mod_shift_neq [of 1 "length seats" i] assms(2) by simp
  moreover have "length seats \<noteq> 2 \<Longrightarrow> i mod length seats \<noteq> (i + 2) mod length seats"
    using mod_shift_neq [of 2 "length seats" i] assms(2) by simp
  moreover have "(i + 1) mod length seats \<noteq> (i + 2) mod length seats"
    using mod_shift_neq [of 1 "length seats" "i + 1"] assms(2) by simp
  ultimately show ?thesis
    using assms(3) ring by (auto simp: place_at_def Let_def split: if_splits)
qed

lemma place_at_mod [simp]: "place_at seats (i mod length seats) = place_at seats i"
  by (simp add: place_at_def Let_def ring_mod)

lemma fst_place_at: "fst (place_at seats i) = seats ! (i mod length seats)"
  by (simp add: place_at_def Let_def)


section \<open>Successive hands\<close>

text \<open>The button seats of \<open>k\<close> hands played in a row with the same active seats.\<close>

fun button_run :: "int list \<Rightarrow> int \<Rightarrow> nat \<Rightarrow> int list" where
  "button_run seats d 0 = []"
| "button_run seats d (Suc k) =
     (case rotate_positions seats d of
        Inl e \<Rightarrow> []
      | Inr (d', sb, bb) \<Rightarrow> d' # button_run seats d' k)"

lemma rotate_from_nth:
  assumes "distinct seats" and "seats \<noteq> []"
  shows "\<exists>sb bb. rotate_positions seats (seats ! (i mod length seats)) =
    Inr (seats ! (Suc i mod length seats), sb, bb)"
proof -
  have "index_of seats (seats ! (i mod length seats)) = Some (i mod length seats)"
    using assms by (intro index_of_nth) auto
  moreover obtain d sb bb where "place_at seats (Suc i) = (d, sb, bb)"
    by (cases "place_at seats (Suc i)")
  moreover have "place_at seats (Suc (i mod length seats)) = place_at seats (Suc i)"
    by (metis mod_Suc_eq place_at_mod)
  ultimately show ?thesis
    using rotate_positions_place [OF assms(2)] fst_place_at [of seats "Suc i"] by simp
qed

lemma button_run_nth:
  assumes "distinct seats" and "seats \<noteq> []"
  shows "button_run seats (seats ! (i mod length seats)) k =
    map (\<lambda>j. seats ! ((i + 1 + j) mod length seats)) [0..<k]"
proof (induction k arbitrary: i)
  case 0
  then show ?case by simp
next
  case (Suc k)
  from rotate_from_nth [OF assms, of i] obtain sb bb where
    "rotate_positions seats (seats ! (i mod length seats)) = Inr (seats ! (Suc i mod length seats), sb, bb)"
    by blast
  then show ?case
    using Suc [of "Suc i"] by (simp add: upt_conv_Cons map_Suc_upt [symmetric] del: upt_Suc)
qed

lemma ring_shift_perm:
  assumes "distinct seats" and "seats \<noteq> []"
  shows "mset (map (\<lambda>j. seats ! ((i + j) mod length seats)) [0..<length seats]) = mset seats"
proof -
  let ?n = "length seats"
  have "map (\<lambda>j. seats ! ((i + j) mod ?n)) [0..<?n] = rotate i seats"
    by (rule nth_equalityI) (auto simp: nth_rotate)
  moreover have "mset (rotate i seats) = mset seats"
    using assms(1) by (simp add: set_eq_iff_mset_eq_distinct [symmetric])
  ultimately show ?thesis by simp
qed


section \<open>Properties\<close>

text \<open>
  The first placement. With at least two distinct active seats
  \<^verbatim>\<open>assign_positions\<close> succeeds; the three positions are active seats; the button is the
  requested starting dealer when that seat is active; small and big blind differ, the
  button is never the big blind, and button and small blind coincide exactly heads-up.
\<close>

theorem assign_positions_correct:
  assumes "distinct seats" and "2 \<le> length seats"
  shows "\<exists>d sb bb. assign_positions seats s = Inr (d, sb, bb) \<and> {d, sb, bb} \<subseteq> set seats \<and>
    (d = (if s \<in> set seats then s else hd seats)) \<and>
    sb \<noteq> bb \<and> d \<noteq> bb \<and> (d = sb \<longleftrightarrow> length seats = 2)"
proof -
  have ne: "seats \<noteq> []" using assms(2) by auto
  obtain d sb bb where p: "place_at seats (index_or_zero seats s) = (d, sb, bb)"
    by (cases "place_at seats (index_or_zero seats s)")
  have "d = seats ! index_or_zero seats s"
    using fst_place_at [of seats "index_or_zero seats s"] p index_or_zero_lt [OF ne] by simp
  also have "\<dots> = (if s \<in> set seats then s else hd seats)"
    using ne by (auto simp: index_or_zero_def hd_conv_nth index_of_None dest: index_of_Some split: option.splits)
  finally show ?thesis
    using assign_positions_place [OF ne] p place_at_in_seats [OF ne p] place_at_distinct [OF assms p]
    by auto
qed

theorem assign_positions_correct_witness:
  "\<exists>d sb bb. assign_positions [1, 3, 6] 3 = Inr (d, sb, bb) \<and> {d, sb, bb} \<subseteq> set [1, 3, 6] \<and>
    (d = (if 3 \<in> set [1, 3, 6 :: int] then 3 else hd [1, 3, 6])) \<and>
    sb \<noteq> bb \<and> d \<noteq> bb \<and> (d = sb \<longleftrightarrow> length [1, 3, 6 :: int] = 2)"
  by (rule assign_positions_correct) simp_all

text \<open>
  C33: the button is fair. Over as many consecutive hands as there are active seats, with
  the seats unchanged, \<^verbatim>\<open>rotate_positions\<close> gives every seat the button exactly once, and
  the button moves one seat clockwise each hand.
\<close>

theorem rotate_positions_fair:
  assumes "distinct seats" and "i < length seats"
  shows "button_run seats (seats ! i) (length seats) =
      map (\<lambda>j. seats ! ((i + 1 + j) mod length seats)) [0..<length seats] \<and>
    mset (button_run seats (seats ! i) (length seats)) = mset seats"
proof -
  have ne: "seats \<noteq> []" using assms(2) by auto
  have "button_run seats (seats ! i) (length seats) =
      map (\<lambda>j. seats ! ((i + 1 + j) mod length seats)) [0..<length seats]"
    using button_run_nth [OF assms(1) ne, of i "length seats"] assms(2) by simp
  with ring_shift_perm [OF assms(1) ne, of "i + 1"] show ?thesis by simp
qed

theorem rotate_positions_fair_witness:
  "button_run [2, 5, 9] ([2, 5, 9] ! 1) (length [2, 5, 9 :: int]) =
      map (\<lambda>j. [2, 5, 9] ! ((1 + 1 + j) mod length [2, 5, 9 :: int])) [0..<length [2, 5, 9 :: int]] \<and>
    mset (button_run [2, 5, 9] ([2, 5, 9] ! 1) (length [2, 5, 9 :: int])) = mset [2, 5, 9]"
  by (rule rotate_positions_fair) simp_all

end
