(* ===== verification/Blind_Posting.thy ===== *)
theory Blind_Posting
  imports Domain_Types
begin

text \<open>
  \<^verbatim>\<open>domain/engine/blind_posting.py\<close>: antes and blinds are taken from the stacks at the
  start of a hand, each capped by what the player has left.
\<close>

section \<open>Data\<close>

record SeatPlayer =
  seat_player_id :: player_id
  seat_seat_number :: int
  seat_stack :: int

record PostedPlayer =
  posted_player_id :: player_id
  posted_seat_number :: int
  posted_stack_remaining :: int
  posted_committed_this_street :: int
  posted_committed_this_hand :: int
  posted_is_all_in :: bool

record BlindPostingResult =
  posting_players :: "PostedPlayer list"
  posting_pot_total :: int
  posting_current_highest_bet :: int


section \<open>Posting\<close>

text \<open>The body of the loop for one player, on the pair (committed, remaining).\<close>

definition pay :: "int \<Rightarrow> int \<times> int \<Rightarrow> int \<times> int" where
  "pay due cr = (case cr of (committed, remaining) \<Rightarrow>
     (let paid = min due remaining in (committed + paid, remaining - paid)))"

definition post_player :: "int \<Rightarrow> int \<Rightarrow> int \<Rightarrow> int \<Rightarrow> int \<Rightarrow> SeatPlayer \<Rightarrow> PostedPlayer" where
  "post_player small_blind_seat big_blind_seat small_blind_amount big_blind_amount ante_amount p =
     (let s0 = (0, seat_stack p);
          s1 = (if ante_amount > 0 then pay ante_amount s0 else s0);
          s2 = (if seat_seat_number p = small_blind_seat then pay small_blind_amount s1
                else if seat_seat_number p = big_blind_seat then pay big_blind_amount s1
                else s1);
          committed = fst s2; remaining = snd s2
      in \<lparr>posted_player_id = seat_player_id p,
          posted_seat_number = seat_seat_number p,
          posted_stack_remaining = remaining,
          posted_committed_this_street = committed,
          posted_committed_this_hand = committed,
          posted_is_all_in = (remaining = 0 \<and> committed > 0)\<rparr>)"

definition post_blinds_and_antes ::
    "SeatPlayer list \<Rightarrow> int \<Rightarrow> int \<Rightarrow> int \<Rightarrow> int \<Rightarrow> int \<Rightarrow> BlindPostingResult" where
  "post_blinds_and_antes players small_blind_seat big_blind_seat small_blind_amount big_blind_amount ante_amount =
     (let posted = map (post_player small_blind_seat big_blind_seat small_blind_amount
                          big_blind_amount ante_amount) players
      in \<lparr>posting_players = posted,
          posting_pot_total = sum_list (map posted_committed_this_street posted),
          posting_current_highest_bet = max_default 0 (map posted_committed_this_street posted)\<rparr>)"


section \<open>What a player owes\<close>

text \<open>
  The specification of one posting: the ante plus the blind of the seat (the small blind
  wins when a seat is named as both).
\<close>

definition blind_due :: "int \<Rightarrow> int \<Rightarrow> int \<Rightarrow> int \<Rightarrow> int \<Rightarrow> int" where
  "blind_due sb_seat bb_seat sb bb seat = (if seat = sb_seat then sb else if seat = bb_seat then bb else 0)"

lemma pay_conserves: "fst (pay d cr) + snd (pay d cr) = fst cr + snd cr"
  by (simp add: pay_def Let_def split: prod.splits)

lemma post_player_conserves:
  "posted_stack_remaining (post_player sbs bbs sb bb ante p) +
   posted_committed_this_hand (post_player sbs bbs sb bb ante p) = seat_stack p"
  by (simp add: post_player_def Let_def pay_def split: prod.splits)

lemma post_player_ids [simp]:
  "posted_player_id (post_player sbs bbs sb bb ante p) = seat_player_id p"
  "posted_seat_number (post_player sbs bbs sb bb ante p) = seat_seat_number p"
  "posted_committed_this_street (post_player sbs bbs sb bb ante p) =
   posted_committed_this_hand (post_player sbs bbs sb bb ante p)"
  "posted_is_all_in (post_player sbs bbs sb bb ante p) \<longleftrightarrow>
   posted_stack_remaining (post_player sbs bbs sb bb ante p) = 0 \<and>
   0 < posted_committed_this_hand (post_player sbs bbs sb bb ante p)"
  by (simp_all add: post_player_def Let_def)

lemma post_player_committed:
  assumes "0 \<le> seat_stack p" and "0 \<le> sb" and "0 \<le> bb"
  shows "posted_committed_this_hand (post_player sbs bbs sb bb ante p) =
    min (seat_stack p) (max 0 ante + blind_due sbs bbs sb bb (seat_seat_number p))"
  using assms by (auto simp: post_player_def Let_def pay_def blind_due_def)

lemma post_player_bounds:
  assumes "0 \<le> seat_stack p" and "0 \<le> sb" and "0 \<le> bb"
  shows "0 \<le> posted_stack_remaining (post_player sbs bbs sb bb ante p)"
    and "0 \<le> posted_committed_this_hand (post_player sbs bbs sb bb ante p)"
  using assms post_player_conserves [of sbs bbs sb bb ante p] post_player_committed [OF assms, of sbs bbs ante]
  by (auto simp: blind_due_def)

lemma posting_players_eq:
  "posting_players (post_blinds_and_antes ps sbs bbs sb bb ante) = map (post_player sbs bbs sb bb ante) ps"
  by (simp add: post_blinds_and_antes_def Let_def)

lemma posting_pot_total_eq:
  "posting_pot_total (post_blinds_and_antes ps sbs bbs sb bb ante) =
   sum_list (map posted_committed_this_hand (posting_players (post_blinds_and_antes ps sbs bbs sb bb ante)))"
  by (simp add: post_blinds_and_antes_def Let_def comp_def)

lemma posting_chips:
  "sum_list (map posted_stack_remaining (posting_players (post_blinds_and_antes ps sbs bbs sb bb ante))) +
   posting_pot_total (post_blinds_and_antes ps sbs bbs sb bb ante) = sum_list (map seat_stack ps)"
  unfolding posting_pot_total_eq posting_players_eq
  by (induction ps) (simp_all add: post_player_conserves [of sbs bbs sb bb ante, symmetric])


section \<open>Properties\<close>

text \<open>
  C32: posting blinds and antes. Every player pays exactly the ante plus the blind of the
  seat, capped by the stack; no stack goes negative; a player is marked all-in exactly
  when a non-empty stack was used up; the pot holds what was paid, so the chips on the
  table (stacks and pot) are those brought to it; and the highest bet is the largest
  single commitment.
\<close>

theorem post_blinds_and_antes_correct:
  assumes "\<And>p. p \<in> set ps \<Longrightarrow> 0 \<le> seat_stack p" and "0 \<le> sb" and "0 \<le> bb"
    and "R = post_blinds_and_antes ps sbs bbs sb bb ante"
  shows "map posted_committed_this_hand (posting_players R) =
      map (\<lambda>p. min (seat_stack p) (max 0 ante + blind_due sbs bbs sb bb (seat_seat_number p))) ps \<and>
    map posted_stack_remaining (posting_players R) =
      map (\<lambda>p. max 0 (seat_stack p - (max 0 ante + blind_due sbs bbs sb bb (seat_seat_number p)))) ps \<and>
    map posted_is_all_in (posting_players R) =
      map (\<lambda>p. 0 < seat_stack p \<and> seat_stack p \<le> max 0 ante + blind_due sbs bbs sb bb (seat_seat_number p)) ps \<and>
    sum_list (map posted_stack_remaining (posting_players R)) + posting_pot_total R =
      sum_list (map seat_stack ps) \<and>
    posting_current_highest_bet R = max_default 0 (map posted_committed_this_hand (posting_players R))"
proof -
  let ?post = "post_player sbs bbs sb bb ante"
  let ?due = "\<lambda>p. max 0 ante + blind_due sbs bbs sb bb (seat_seat_number p)"
  have c: "posted_committed_this_hand (?post p) = min (seat_stack p) (?due p)" if "p \<in> set ps" for p
    using post_player_committed assms(1) [OF that] assms(2,3) by blast
  have s: "posted_stack_remaining (?post p) = max 0 (seat_stack p - ?due p)" if "p \<in> set ps" for p
    using post_player_conserves [of sbs bbs sb bb ante p] c [OF that] by auto
  have "posted_is_all_in (?post p) \<longleftrightarrow> 0 < seat_stack p \<and> seat_stack p \<le> ?due p" if "p \<in> set ps" for p
    using s [OF that] c [OF that] assms(1) [OF that] by auto
  moreover have "posting_current_highest_bet R = max_default 0 (map posted_committed_this_hand (posting_players R))"
    by (simp add: assms(4) post_blinds_and_antes_def Let_def comp_def)
  ultimately show ?thesis
    using c s posting_chips by (auto simp: assms(4) posting_players_eq)
qed

definition example_seats :: "SeatPlayer list" where
  "example_seats = [\<lparr>seat_player_id = ''a'', seat_seat_number = 1, seat_stack = 3\<rparr>,
     \<lparr>seat_player_id = ''b'', seat_seat_number = 2, seat_stack = 100\<rparr>]"

theorem post_blinds_and_antes_correct_witness:
  "let R = post_blinds_and_antes example_seats 1 2 5 10 1
   in map posted_committed_this_hand (posting_players R) =
        map (\<lambda>p. min (seat_stack p) (max 0 1 + blind_due 1 2 5 10 (seat_seat_number p))) example_seats \<and>
      map posted_is_all_in (posting_players R) = [True, False]"
proof -
  have "0 \<le> seat_stack p" if "p \<in> set example_seats" for p
    using that by (auto simp: example_seats_def)
  note c = post_blinds_and_antes_correct [of example_seats 5 10 _ 1 2 1, OF this _ _ refl]
  have "map (\<lambda>p. 0 < seat_stack p \<and> seat_stack p \<le> max 0 1 + blind_due 1 2 5 10 (seat_seat_number p))
      example_seats = [True, False]"
    by (simp add: example_seats_def blind_due_def)
  with c show ?thesis by (simp add: Let_def)
qed

end
