(* ===== verification/Street_Progression.thy ===== *)
theory Street_Progression
  imports Domain_Types
begin

text \<open>
  \<^verbatim>\<open>domain/engine/street_progression.py\<close>: what follows the end of a betting street, and
  who opens the next one.
\<close>

section \<open>Data\<close>

definition STREET_ORDER :: "Street list" where
  "STREET_ORDER = [PRE_FLOP, FLOP, TURN, RIVER, SHOWDOWN]"

record PlayerSeat =
  st_player_id :: player_id
  st_seat_number :: int
  st_has_folded :: bool
  st_is_all_in :: bool
  st_is_active_in_hand :: bool

record StreetAdvanceResult =
  sa_action :: StreetAdvanceAction
  sa_next_street :: "Street option"
  sa_acting_player_id :: "player_id option"
  sa_winning_player_id :: "player_id option"


section \<open>The functions\<close>

definition next_street :: "Street \<Rightarrow> Street option" where
  "next_street current =
     (case index_of STREET_ORDER current of
        None \<Rightarrow> None
      | Some idx \<Rightarrow>
          let next_idx = idx + 1 in
          if next_idx \<ge> length STREET_ORDER then None else Some (STREET_ORDER ! next_idx))"

definition find_first_to_act :: "PlayerSeat list \<Rightarrow> int \<Rightarrow> player_id option" where
  "find_first_to_act eligible reference_seat =
     (if eligible = [] then None
      else
        let sorted_players = sort_key st_seat_number eligible in
        case List.find (\<lambda>p. st_seat_number p > reference_seat) sorted_players of
          Some p \<Rightarrow> Some (st_player_id p)
        | None \<Rightarrow> Some (st_player_id (sorted_players ! 0)))"

definition evaluate_street_end :: "Street \<Rightarrow> int \<Rightarrow> int \<Rightarrow> PlayerSeat list \<Rightarrow> StreetAdvanceResult" where
  "evaluate_street_end current_street dealer_seat big_blind_seat players =
     (let not_folded = filter (\<lambda>p. \<not> st_has_folded p \<and> st_is_active_in_hand p) players in
      if length not_folded \<le> 1 then
        \<lparr>sa_action = SETTLE_HAND, sa_next_street = None, sa_acting_player_id = None,
         sa_winning_player_id = (if not_folded \<noteq> [] then Some (st_player_id (not_folded ! 0)) else None)\<rparr>
      else if current_street \<in> {RIVER, SHOWDOWN} then
        \<lparr>sa_action = GO_SHOWDOWN, sa_next_street = Some SHOWDOWN, sa_acting_player_id = None,
         sa_winning_player_id = None\<rparr>
      else
        let can_act = filter (\<lambda>p. \<not> st_is_all_in p) not_folded in
        if length can_act \<le> 1 then
          \<lparr>sa_action = GO_SHOWDOWN, sa_next_street = Some SHOWDOWN, sa_acting_player_id = None,
           sa_winning_player_id = None\<rparr>
        else
          \<lparr>sa_action = NEXT_STREET, sa_next_street = next_street current_street,
           sa_acting_player_id = find_first_to_act can_act dealer_seat, sa_winning_player_id = None\<rparr>)"


section \<open>Lemmas\<close>

definition street_index :: "Street \<Rightarrow> nat" where
  "street_index s = (case s of PRE_FLOP \<Rightarrow> 0 | FLOP \<Rightarrow> 1 | TURN \<Rightarrow> 2 | RIVER \<Rightarrow> 3 | SHOWDOWN \<Rightarrow> 4)"

lemma next_street_simps [simp]:
  "next_street PRE_FLOP = Some FLOP" "next_street FLOP = Some TURN" "next_street TURN = Some RIVER"
  "next_street RIVER = Some SHOWDOWN" "next_street SHOWDOWN = None"
  by (simp_all add: next_street_def STREET_ORDER_def)

lemma next_street_index: "next_street s = Some t \<Longrightarrow> street_index t = street_index s + 1"
  by (cases s) (auto simp: street_index_def)

definition live_seat :: "PlayerSeat \<Rightarrow> bool" where
  "live_seat p \<longleftrightarrow> \<not> st_has_folded p \<and> st_is_active_in_hand p"

definition first_clockwise :: "int \<Rightarrow> PlayerSeat list \<Rightarrow> PlayerSeat \<Rightarrow> bool" where
  "first_clockwise ref eligible p \<longleftrightarrow> p \<in> set eligible \<and>
     (if \<exists>q \<in> set eligible. st_seat_number q > ref
      then st_seat_number p > ref \<and> (\<forall>q \<in> set eligible. st_seat_number q > ref \<longrightarrow> st_seat_number p \<le> st_seat_number q)
      else (\<forall>q \<in> set eligible. st_seat_number p \<le> st_seat_number q))"

lemma find_sorted_least:
  assumes "sorted (map f xs)" and "List.find P xs = Some p" and "q \<in> set xs" and "P q"
  shows "f p \<le> f q"
  using assms by (induction xs) (auto split: if_splits)

lemma find_first_to_act_first:
  assumes "eligible \<noteq> []"
  shows "\<exists>p. find_first_to_act eligible ref = Some (st_player_id p) \<and> first_clockwise ref eligible p"
proof -
  let ?s = "sort_key st_seat_number eligible"
  have sorted: "sorted (map st_seat_number ?s)" by (rule sorted_sort_key)
  show ?thesis
  proof (cases "List.find (\<lambda>p. st_seat_number p > ref) ?s")
    case (Some p)
    then have "p \<in> set eligible" "st_seat_number p > ref"
      using find_Some_mem [OF Some] by auto
    moreover have "st_seat_number p \<le> st_seat_number q" if "q \<in> set eligible" "st_seat_number q > ref" for q
      using find_sorted_least [OF sorted Some] that by simp
    ultimately show ?thesis
      using Some assms by (auto simp: find_first_to_act_def first_clockwise_def Let_def)
  next
    case None
    then have none: "\<not> (\<exists>q \<in> set eligible. st_seat_number q > ref)" by (simp add: find_None_mem)
    have ne: "?s \<noteq> []" using assms by (metis mset_sort mset_zero_iff)
    then have "?s ! 0 \<in> set eligible" by (metis length_greater_0_conv nth_mem set_sort)
    moreover have "st_seat_number (?s ! 0) \<le> st_seat_number q" if "q \<in> set eligible" for q
    proof -
      from that obtain i where "i < length ?s" "q = ?s ! i" by (metis in_set_conv_nth set_sort)
      moreover have "0 < length ?s" using ne by blast
      ultimately show ?thesis using sorted_nth_mono [OF sorted, of 0 i] by (simp only: length_map nth_map le0)
    qed
    ultimately show ?thesis
      using None none assms by (intro exI [of _ "?s ! 0"]) (simp add: find_first_to_act_def first_clockwise_def)
  qed
qed


section \<open>Properties\<close>

text \<open>
  What follows a street. The hand is settled without showdown exactly when at most one
  live player is left, and then that player is the winner; otherwise it goes to showdown
  exactly when the street was the river or later or at most one live player still has
  chips to bet; otherwise the next of the five streets is dealt and the first live player
  with chips clockwise from the button acts.
\<close>

theorem evaluate_street_end_correct:
  assumes "R = evaluate_street_end s dealer bb players" and "live = filter live_seat players"
    and "betting = filter (\<lambda>p. \<not> st_is_all_in p) live"
  shows "(sa_action R = SETTLE_HAND \<longleftrightarrow> length live \<le> 1) \<and>
    (sa_action R = SETTLE_HAND \<longrightarrow> sa_winning_player_id R = map_option st_player_id (List.find live_seat players)) \<and>
    (sa_action R = GO_SHOWDOWN \<longleftrightarrow> 2 \<le> length live \<and> (3 \<le> street_index s \<or> length betting \<le> 1)) \<and>
    (sa_action R = NEXT_STREET \<longleftrightarrow> street_index s < 3 \<and> 2 \<le> length betting) \<and>
    (sa_action R = NEXT_STREET \<longrightarrow> (\<exists>t p. sa_next_street R = Some t \<and> street_index t = street_index s + 1 \<and>
       sa_acting_player_id R = Some (st_player_id p) \<and> first_clockwise dealer betting p))"
proof -
  have live: "filter (\<lambda>p. \<not> st_has_folded p \<and> st_is_active_in_hand p) players = live"
    using assms(2) by (simp add: live_seat_def [abs_def])
  have len: "length betting \<le> length live" using assms(3) by simp
  have idx: "s \<in> {RIVER, SHOWDOWN} \<longleftrightarrow> 3 \<le> street_index s" by (cases s) (auto simp: street_index_def)
  have win: "map_option st_player_id (List.find live_seat players) =
      (if live \<noteq> [] then Some (st_player_id (live ! 0)) else None)"
    unfolding assms(2) by (induction players) auto
  have nxt: "street_index s < 3 \<Longrightarrow> \<exists>t. next_street s = Some t \<and> street_index t = street_index s + 1"
    by (cases s) (auto simp: street_index_def)
  have first: "2 \<le> length betting \<Longrightarrow> \<exists>p. find_first_to_act betting dealer = Some (st_player_id p) \<and>
      first_clockwise dealer betting p"
    by (rule find_first_to_act_first) auto
  show ?thesis
    unfolding assms(1) evaluate_street_end_def live assms(3) [symmetric] Let_def idx
    using len win nxt first by auto
qed

definition example_street_seats :: "PlayerSeat list" where
  "example_street_seats =
    [\<lparr>st_player_id = ''a'', st_seat_number = 5, st_has_folded = False, st_is_all_in = False, st_is_active_in_hand = True\<rparr>,
     \<lparr>st_player_id = ''b'', st_seat_number = 2, st_has_folded = False, st_is_all_in = True, st_is_active_in_hand = True\<rparr>,
     \<lparr>st_player_id = ''c'', st_seat_number = 3, st_has_folded = False, st_is_all_in = False, st_is_active_in_hand = True\<rparr>]"

theorem evaluate_street_end_correct_witness:
  "sa_action (evaluate_street_end FLOP 3 2 example_street_seats) = NEXT_STREET \<and>
   (\<exists>t p. sa_next_street (evaluate_street_end FLOP 3 2 example_street_seats) = Some t \<and>
      sa_acting_player_id (evaluate_street_end FLOP 3 2 example_street_seats) = Some (st_player_id p) \<and>
      first_clockwise 3 (filter (\<lambda>p. \<not> st_is_all_in p) (filter live_seat example_street_seats)) p)"
proof -
  have "sa_action (evaluate_street_end FLOP 3 2 example_street_seats) = NEXT_STREET" by code_simp
  with evaluate_street_end_correct [OF refl refl refl, of FLOP 3 2 example_street_seats] show ?thesis by blast
qed

end
