(* ===== verification/Models.thy ===== *)
theory Models
  imports Domain_Types
begin

text \<open>
  The tables of \<^verbatim>\<open>domain/models.py\<close> as records. The surrogate \<^verbatim>\<open>id\<close> columns are the
  positions of the rows in their tables; the server-side \<^verbatim>\<open>created_at\<close> stamps, which no
  code reads back except to order bets (insertion order here), are left out.
  \<open>state_version\<close> is optional because a \<^verbatim>\<open>Round\<close> object that was never flushed has
  none (the code reads it as \<^verbatim>\<open>game_round.state_version or 1\<close>).

  The check constraints of each table are the \<open>_ck\<close> predicates: a flush of a row that
  violates them raises an IntegrityError.
\<close>

section \<open>Time\<close>

text \<open>
  A Python datetime: naive, or aware (held as its UTC instant); both in microseconds,
  the resolution of the type. \<open>ensure_utc\<close> is \<^verbatim>\<open>shared/core/time.py\<close>, with the
  current time as an argument.
\<close>

datatype datetime = Naive int | Aware int

definition ensure_utc :: "int \<Rightarrow> datetime option \<Rightarrow> datetime" where
  "ensure_utc now v = (case v of
     None \<Rightarrow> Aware now
   | Some (Naive t) \<Rightarrow> Aware t
   | Some (Aware t) \<Rightarrow> Aware t)"

fun instant :: "datetime \<Rightarrow> int" where
  "instant (Naive t) = t"
| "instant (Aware t) = t"


section \<open>JSON values\<close>

datatype json = JNone | JInt int | JBool bool | JStr string | JList "json list" | JObj "(string \<times> json) list"

definition JStr_opt :: "string option \<Rightarrow> json" where
  "JStr_opt v = (case v of None \<Rightarrow> JNone | Some s \<Rightarrow> JStr s)"

definition JInt_opt :: "int option \<Rightarrow> json" where
  "JInt_opt v = (case v of None \<Rightarrow> JNone | Some i \<Rightarrow> JInt i)"


section \<open>Games and rounds\<close>

record Game =
  g_game_id :: game_id
  g_room_id :: room_id
  g_status :: GameStatus
  g_current_blind_level :: int
  g_level_started_at :: "datetime option"
  g_current_dealer_seat :: int
  g_current_small_blind_seat :: int
  g_current_big_blind_seat :: int
  g_hands_played :: int
  g_hands_at_current_level :: int

definition Game_ck :: "Game \<Rightarrow> bool" where
  "Game_ck g \<longleftrightarrow> 1 \<le> g_current_blind_level g \<and> 0 \<le> g_hands_played g \<and> 0 \<le> g_hands_at_current_level g"

record Round =
  r_round_id :: round_id
  r_game_id :: game_id
  r_round_number :: int
  r_dealer_seat :: int
  r_small_blind_seat :: int
  r_big_blind_seat :: int
  r_small_blind_amount :: int
  r_big_blind_amount :: int
  r_ante_amount :: int
  r_status :: RoundStatus
  r_pot_amount :: int
  r_street :: Street
  r_acting_player_id :: "player_id option"
  r_current_highest_bet :: int
  r_minimum_raise_amount :: int
  r_is_action_closed :: bool
  r_last_aggressor_seat :: "int option"
  r_engine_version :: string
  r_state_version :: "int option"
  r_completed_at :: "datetime option"

definition Round_ck :: "Round \<Rightarrow> bool" where
  "Round_ck r \<longleftrightarrow> 0 \<le> r_pot_amount r \<and> 0 \<le> r_current_highest_bet r \<and>
     0 \<le> r_minimum_raise_amount r \<and> (\<exists>v. r_state_version r = Some v \<and> 1 \<le> v)"

lemma Round_ck_code [code]:
  "Round_ck r \<longleftrightarrow> 0 \<le> r_pot_amount r \<and> 0 \<le> r_current_highest_bet r \<and>
     0 \<le> r_minimum_raise_amount r \<and> (case r_state_version r of None \<Rightarrow> False | Some v \<Rightarrow> 1 \<le> v)"
  by (auto simp: Round_ck_def split: option.splits)

text \<open>\<^verbatim>\<open>game_round.state_version or 1\<close>\<close>

definition version_or_1 :: "Round \<Rightarrow> int" where
  "version_or_1 r = (case r_state_version r of None \<Rightarrow> 1 | Some v \<Rightarrow> if v = 0 then 1 else v)"

record RoundPlayer =
  rp_round_id :: round_id
  rp_player_id :: player_id
  rp_seat_number :: int
  rp_stack_remaining :: int
  rp_committed_this_street :: int
  rp_committed_this_hand :: int
  rp_has_folded :: bool
  rp_is_all_in :: bool
  rp_is_active_in_hand :: bool

definition RoundPlayer_ck :: "RoundPlayer \<Rightarrow> bool" where
  "RoundPlayer_ck p \<longleftrightarrow> 0 \<le> rp_stack_remaining p \<and> 0 \<le> rp_committed_this_street p \<and>
     0 \<le> rp_committed_this_hand p"

record RoundPayout =
  po_round_id :: round_id
  po_pot_index :: int
  po_pot_type :: string
  po_player_id :: player_id
  po_amount :: int

definition RoundPayout_ck :: "RoundPayout \<Rightarrow> bool" where
  "RoundPayout_ck p \<longleftrightarrow> 0 \<le> po_amount p"

record Bet =
  b_bet_id :: string
  b_round_id :: round_id
  b_player_id :: player_id
  b_action :: BetAction
  b_amount :: int
  b_idempotency_key :: "string option"

definition Bet_ck :: "Bet \<Rightarrow> bool" where
  "Bet_ck b \<longleftrightarrow> 0 \<le> b_amount b"


section \<open>Ledger entries\<close>

text \<open>
  The JSON \<^verbatim>\<open>detail\<close> of an entry. Three keys are read back by the code and typed here
  (\<^verbatim>\<open>street\<close>, \<^verbatim>\<open>old_player_id\<close>, \<^verbatim>\<open>old_amount\<close>; the last two are written from a request
  whose schema fixes their types); the keys that are only stored stay a list.
\<close>

record Detail =
  d_street :: "string option"
  d_old_player_id :: "player_id option"
  d_old_amount :: "int option"
  d_other :: "(string \<times> json) list"

definition empty_detail :: Detail where
  "empty_detail = \<lparr>d_street = None, d_old_player_id = None, d_old_amount = None, d_other = []\<rparr>"

definition detail_of :: "(string \<times> json) list \<Rightarrow> Detail" where
  "detail_of kvs = empty_detail\<lparr>d_other := kvs\<rparr>"

record HandLedgerEntry =
  le_entry_id :: string
  le_round_id :: round_id
  le_entry_type :: LedgerEntryType
  le_player_id :: "player_id option"
  le_amount :: "int option"
  le_detail :: "Detail option"
  le_original_entry_id :: "string option"
  le_dealer_id :: "string option"


section \<open>Room snapshots\<close>

record RoomSnapshot =
  s_game_id :: game_id
  s_room_id :: room_id
  s_starting_dealer_seat :: int
  s_antes_enabled :: bool

record RoomSnapshotPlayer =
  sp_game_id :: game_id
  sp_player_id :: player_id
  sp_seat_number :: int
  sp_chip_count :: int
  sp_is_active :: bool
  sp_is_eliminated :: bool

definition RoomSnapshotPlayer_ck :: "RoomSnapshotPlayer \<Rightarrow> bool" where
  "RoomSnapshotPlayer_ck p \<longleftrightarrow> 0 \<le> sp_chip_count p"

record RoomSnapshotBlindLevel =
  sb_game_id :: game_id
  sb_level :: int
  sb_small_blind :: int
  sb_big_blind :: int
  sb_ante :: int
  sb_duration_minutes :: "int option"


section \<open>Outbox\<close>

text \<open>
  An event as built by \<^verbatim>\<open>make_event_builder\<close> and its outbox row, over the service's event types
  and data. The status column holds the three strings the worker writes.
\<close>

record ('t, 'd) Event =
  ev_event_id :: string
  ev_event_type :: 't
  ev_occurred_at :: int
  ev_source :: string
  ev_data :: 'd

datatype OutboxStatus = PENDING | SENT | FAILED

record ('t, 'd) OutboxEvent =
  ox_event_id :: string
  ox_event_type :: 't
  ox_routing_key :: 't
  ox_payload :: "('t, 'd) Event"
  ox_status :: OutboxStatus
  ox_attempts :: int
  ox_last_error :: "string option"
  ox_published_at :: "int option"

type_synonym event_data = "(DataKey \<times> json) list"
type_synonym game_event = "(GameEventType, event_data) Event"

end
