(* ===== verification/Turn_Engine.thy ===== *)
theory Turn_Engine
  imports Domain_Types
begin

text \<open>
  \<^verbatim>\<open>domain/engine/turn_engine.py\<close>: who acts next on a street, or that the street is
  closed. The code sorts the players able to act, finds the first seat behind the current
  actor and walks once around the table by index arithmetic; \<open>next_actor_spec\<close> is the
  same decision on the list of able players in clockwise order, and the interface other
  components rely on is the locale \<open>turn_order\<close>.
\<close>

section \<open>Data\<close>

record ActionSeat =
  as_player_id :: player_id
  as_seat_number :: int
  as_has_folded :: bool
  as_is_all_in :: bool
  as_is_active_in_hand :: bool
  as_committed_this_street :: int

record NextActorResult =
  na_player_id :: "player_id option"
  na_seat_number :: "int option"
  na_is_round_closed :: bool

definition closed_result :: NextActorResult where
  "closed_result = \<lparr>na_player_id = None, na_seat_number = None, na_is_round_closed = True\<rparr>"


section \<open>The decision as the code takes it\<close>

definition can_act :: "ActionSeat \<Rightarrow> bool" where
  "can_act p \<longleftrightarrow> as_is_active_in_hand p \<and> \<not> as_has_folded p \<and> \<not> as_is_all_in p"

definition needs_action :: "ActionSeat \<Rightarrow> int \<Rightarrow> bool" where
  "needs_action p highest_bet \<longleftrightarrow> can_act p \<and> as_committed_this_street p < highest_bet"

text \<open>\<^verbatim>\<open>for i, p in enumerate(ordered): if p.seat_number > current_actor_seat: ... else: 0\<close>\<close>

fun start_index :: "int \<Rightarrow> nat \<Rightarrow> ActionSeat list \<Rightarrow> nat" where
  "start_index cur i [] = 0"
| "start_index cur i (p # ps) = (if as_seat_number p > cur then i else start_index cur (i + 1) ps)"

text \<open>\<^verbatim>\<open>for step in range(n): ...\<close>\<close>

fun scan_seats :: "ActionSeat list \<Rightarrow> nat \<Rightarrow> int option \<Rightarrow> int \<Rightarrow> nat list \<Rightarrow> NextActorResult" where
  "scan_seats ordered start_idx agg highest [] = closed_result"
| "scan_seats ordered start_idx agg highest (step # steps) =
     (let idx = (start_idx + step) mod length ordered; candidate = ordered ! idx in
      if agg \<noteq> None \<and> Some (as_seat_number candidate) = agg then closed_result
      else if needs_action candidate highest then
        \<lparr>na_player_id = Some (as_player_id candidate),
         na_seat_number = Some (as_seat_number candidate),
         na_is_round_closed = False\<rparr>
      else scan_seats ordered start_idx agg highest steps)"

definition next_to_act :: "ActionSeat list \<Rightarrow> int \<Rightarrow> int option \<Rightarrow> int \<Rightarrow> NextActorResult" where
  "next_to_act players current_actor_seat last_aggressor_seat current_highest_bet =
     (let eligible = filter can_act players in
      if length eligible < 2 then closed_result
      else
        (let ordered = sort_key as_seat_number eligible;
             n = length ordered;
             start_idx = start_index current_actor_seat 0 ordered
         in scan_seats ordered start_idx last_aggressor_seat current_highest_bet [0..<n]))"


section \<open>The decision on the clockwise list\<close>

text \<open>The players able to act, clockwise, starting with the first seat after \<open>cur\<close>.\<close>

definition clockwise :: "ActionSeat list \<Rightarrow> int \<Rightarrow> ActionSeat list" where
  "clockwise players cur = (let s = sort_key as_seat_number (filter can_act players) in
     filter (\<lambda>p. as_seat_number p > cur) s @ filter (\<lambda>p. \<not> as_seat_number p > cur) s)"

definition actor_result :: "ActionSeat \<Rightarrow> NextActorResult" where
  "actor_result p = \<lparr>na_player_id = Some (as_player_id p), na_seat_number = Some (as_seat_number p),
     na_is_round_closed = False\<rparr>"

definition stops_at :: "int option \<Rightarrow> int \<Rightarrow> ActionSeat \<Rightarrow> bool" where
  "stops_at agg highest p \<longleftrightarrow> Some (as_seat_number p) = agg \<or> needs_action p highest"

definition next_actor_spec :: "ActionSeat list \<Rightarrow> int \<Rightarrow> int option \<Rightarrow> int \<Rightarrow> NextActorResult" where
  "next_actor_spec players cur agg highest =
     (if length (filter can_act players) < 2 then closed_result
      else case List.find (stops_at agg highest) (clockwise players cur) of
             None \<Rightarrow> closed_result
           | Some p \<Rightarrow> if Some (as_seat_number p) = agg then closed_result else actor_result p)"

lemma set_clockwise: "set (clockwise players cur) = set (filter can_act players)"
  by (auto simp: clockwise_def Let_def)

lemma start_index_takeWhile:
  "start_index cur i ps = (if \<exists>p \<in> set ps. as_seat_number p > cur
     then i + length (takeWhile (\<lambda>p. \<not> as_seat_number p > cur) ps) else 0)"
  by (induction ps arbitrary: i) auto

lemma sorted_split:
  assumes "sorted (map f ps)"
  shows "takeWhile (\<lambda>p. \<not> f p > c) ps = filter (\<lambda>p. \<not> f p > c) ps"
    and "dropWhile (\<lambda>p. \<not> f p > c) ps = filter (\<lambda>p. f p > (c :: int)) ps"
  using assms by (induction ps) (auto intro!: sym [OF filter_True] sym [OF filter_False])

lemma rotate_start:
  assumes "sorted (map as_seat_number ps)"
  shows "rotate (start_index cur 0 ps) ps =
    filter (\<lambda>p. as_seat_number p > cur) ps @ filter (\<lambda>p. \<not> as_seat_number p > cur) ps"
proof (cases "\<exists>p \<in> set ps. as_seat_number p > cur")
  case True
  let ?t = "takeWhile (\<lambda>p. \<not> as_seat_number p > cur) ps"
  let ?d = "dropWhile (\<lambda>p. \<not> as_seat_number p > cur) ps"
  have "rotate (length ?t) (?t @ ?d) = ?d @ ?t" by (rule rotate_append)
  moreover have "start_index cur 0 ps = length ?t"
    using True unfolding start_index_takeWhile by simp
  moreover have "?t @ ?d = ps" by (rule takeWhile_dropWhile_id)
  ultimately show ?thesis using sorted_split [OF assms, of cur] by metis
next
  case False
  then have "start_index cur 0 ps = 0" by (simp add: start_index_takeWhile)
  moreover from False have "filter (\<lambda>p. as_seat_number p > cur) ps = []" by (simp add: filter_empty_conv)
  moreover from False have "filter (\<lambda>p. \<not> as_seat_number p > cur) ps = ps" by (simp add: filter_id_conv)
  ultimately show ?thesis by simp
qed

lemma scan_seats_find:
  "scan_seats ordered start agg highest steps =
    (case List.find (stops_at agg highest) (map (\<lambda>k. ordered ! ((start + k) mod length ordered)) steps) of
       None \<Rightarrow> closed_result
     | Some p \<Rightarrow> if Some (as_seat_number p) = agg then closed_result else actor_result p)"
  by (induction steps) (auto simp: Let_def stops_at_def actor_result_def)

lemma map_ring: "map (\<lambda>k. xs ! ((s + k) mod length xs)) [0..<length xs] = rotate s xs"
  by (rule nth_equalityI) (auto simp: nth_rotate)

lemma next_to_act_eq_spec: "next_to_act players cur agg highest = next_actor_spec players cur agg highest"
proof -
  let ?o = "sort_key as_seat_number (filter can_act players)"
  have "map (\<lambda>k. ?o ! ((start_index cur 0 ?o + k) mod length ?o)) [0..<length ?o] = clockwise players cur"
    by (simp only: map_ring rotate_start [OF sorted_sort_key] clockwise_def Let_def)
  then show ?thesis
    unfolding next_to_act_def next_actor_spec_def Let_def scan_seats_find by simp
qed


section \<open>The aggressor check\<close>

text \<open>
  The walk stops when it meets the last aggressor. That is only right when nobody behind
  the aggressor still owes chips, which is what a street keeps true: \<open>settled_behind\<close>.
\<close>

definition settled_behind :: "ActionSeat list \<Rightarrow> int \<Rightarrow> int option \<Rightarrow> int \<Rightarrow> bool" where
  "settled_behind players cur agg highest \<longleftrightarrow>
     (\<forall>p \<in> set (dropWhile (\<lambda>p. Some (as_seat_number p) \<noteq> agg) (clockwise players cur)).
        \<not> needs_action p highest)"

lemma dropWhile_True: "dropWhile (\<lambda>p. True) xs = []"
  by (induction xs) auto

lemma settled_behind_None [simp]: "settled_behind players cur None highest"
  by (simp add: settled_behind_def dropWhile_True)

lemma find_stops_at:
  assumes "\<forall>p \<in> set (dropWhile (\<lambda>p. Some (as_seat_number p) \<noteq> agg) ring). \<not> needs_action p highest"
  shows "(case List.find (stops_at agg highest) ring of
       None \<Rightarrow> closed_result
     | Some p \<Rightarrow> if Some (as_seat_number p) = agg then closed_result else actor_result p) =
    (case List.find (\<lambda>p. needs_action p highest) ring of
       None \<Rightarrow> closed_result | Some p \<Rightarrow> actor_result p)"
  using assms
proof (induction ring)
  case Nil
  then show ?case by simp
next
  case (Cons p ring)
  show ?case
  proof (cases "Some (as_seat_number p) = agg")
    case True
    with Cons.prems have "List.find (\<lambda>p. needs_action p highest) (p # ring) = None"
      by (auto simp: find_None_mem simp del: List.find.simps)
    with True show ?thesis by (auto simp: stops_at_def split: option.splits)
  next
    case False
    with Cons show ?thesis by (auto simp: stops_at_def split: option.splits)
  qed
qed

lemma next_to_act_settled:
  assumes "settled_behind players cur agg highest"
  shows "next_to_act players cur agg highest =
    (if length (filter can_act players) < 2 then closed_result
     else case List.find (\<lambda>p. needs_action p highest) (clockwise players cur) of
       None \<Rightarrow> closed_result | Some p \<Rightarrow> actor_result p)"
  using find_stops_at assms by (simp add: next_to_act_eq_spec next_actor_spec_def settled_behind_def)


section \<open>The interface\<close>

text \<open>
  What the betting pipeline relies on: the result names a player exactly when the street
  is open; that player is one of the seats, is able to act and owes chips; and when
  nobody is behind a settled aggressor, a street with two able players closes only if
  nobody owes.
\<close>

locale turn_order =
  fixes nxt :: "ActionSeat list \<Rightarrow> int \<Rightarrow> int option \<Rightarrow> int \<Rightarrow> NextActorResult"
  assumes closed_iff: "na_is_round_closed (nxt ps c a h) \<longleftrightarrow> na_player_id (nxt ps c a h) = None"
    and actor_owes: "na_player_id (nxt ps c a h) = Some x \<Longrightarrow>
      \<exists>p \<in> set ps. as_player_id p = x \<and> needs_action p h \<and> na_seat_number (nxt ps c a h) = Some (as_seat_number p)"
    and too_few: "length (filter can_act ps) < 2 \<Longrightarrow> na_is_round_closed (nxt ps c a h)"
    and closes_settled: "settled_behind ps c a h \<Longrightarrow> 2 \<le> length (filter can_act ps) \<Longrightarrow>
      na_is_round_closed (nxt ps c a h) \<longleftrightarrow> (\<forall>p \<in> set ps. \<not> needs_action p h)"
begin

lemma open_has_actor:
  assumes "\<not> na_is_round_closed (nxt ps c a h)"
  shows "\<exists>p \<in> set ps. na_player_id (nxt ps c a h) = Some (as_player_id p) \<and> needs_action p h"
  using assms closed_iff [of ps c a h] actor_owes [of ps c a h] by (metis not_None_eq)

lemma open_two_able: "\<not> na_is_round_closed (nxt ps c a h) \<Longrightarrow> 2 \<le> length (filter can_act ps)"
  using too_few [of ps c a h] by linarith

lemma no_bet_closes:
  assumes "\<And>p. p \<in> set ps \<Longrightarrow> h \<le> as_committed_this_street p"
  shows "na_is_round_closed (nxt ps c a h)"
  using assms open_has_actor [of ps c a h] by (fastforce simp: needs_action_def)

lemma able_all_matched:
  assumes "settled_behind ps c a h" and "na_is_round_closed (nxt ps c a h)"
    and "2 \<le> length (filter can_act ps)" and "p \<in> set ps" and "can_act p"
  shows "h \<le> as_committed_this_street p"
  using closes_settled [OF assms(1,3)] assms(2,4,5) by (auto simp: needs_action_def)

end

lemma next_to_act_cases:
  obtains "next_to_act ps c a h = closed_result"
  | p where "next_to_act ps c a h = actor_result p" "p \<in> set ps" "needs_action p h"
      "2 \<le> length (filter can_act ps)"
      "List.find (stops_at a h) (clockwise ps c) = Some p" "Some (as_seat_number p) \<noteq> a"
proof (cases "List.find (stops_at a h) (clockwise ps c)")
  case None
  with that(1) show ?thesis by (simp add: next_to_act_eq_spec next_actor_spec_def)
next
  case (Some p)
  then have p: "p \<in> set ps" "stops_at a h p"
    using find_Some_mem [OF Some] by (auto simp: set_clockwise)
  show ?thesis
  proof (cases "length (filter can_act ps) < 2 \<or> Some (as_seat_number p) = a")
    case True
    with Some show ?thesis by (intro that(1)) (auto simp: next_to_act_eq_spec next_actor_spec_def)
  next
    case False
    with Some p show ?thesis
      by (intro that(2) [of p]) (auto simp: next_to_act_eq_spec next_actor_spec_def stops_at_def)
  qed
qed

lemma find_closed_iff:
  "na_is_round_closed (case List.find P ring of None \<Rightarrow> closed_result | Some p \<Rightarrow> actor_result p) \<longleftrightarrow>
    (\<forall>p \<in> set ring. \<not> P p)"
proof (cases "List.find P ring")
  case None
  then have "\<forall>p \<in> set ring. \<not> P p" by (simp add: find_None_mem)
  with None show ?thesis by (simp add: closed_result_def)
next
  case (Some p)
  with find_Some_mem [OF Some] show ?thesis by (auto simp: actor_result_def)
qed

interpretation engine: turn_order next_to_act
proof
  fix ps c a h x
  show "na_is_round_closed (next_to_act ps c a h) \<longleftrightarrow> na_player_id (next_to_act ps c a h) = None"
    by (rule next_to_act_cases [of ps c a h]) (simp_all add: closed_result_def actor_result_def)
  show "na_player_id (next_to_act ps c a h) = Some x \<Longrightarrow>
      \<exists>p \<in> set ps. as_player_id p = x \<and> needs_action p h \<and>
        na_seat_number (next_to_act ps c a h) = Some (as_seat_number p)"
    by (rule next_to_act_cases [of ps c a h]) (auto simp: closed_result_def actor_result_def)
  show "length (filter can_act ps) < 2 \<Longrightarrow> na_is_round_closed (next_to_act ps c a h)"
    by (simp add: next_to_act_def closed_result_def)
  show "settled_behind ps c a h \<Longrightarrow> 2 \<le> length (filter can_act ps) \<Longrightarrow>
      na_is_round_closed (next_to_act ps c a h) \<longleftrightarrow> (\<forall>p \<in> set ps. \<not> needs_action p h)"
    by (auto simp: next_to_act_settled find_closed_iff set_clockwise needs_action_def)
qed


section \<open>How the walk moves on\<close>

text \<open>
  The clockwise list from behind a seat and from the seat itself differ only in where the
  players of that seat stand.
\<close>

definition others :: "ActionSeat list \<Rightarrow> int \<Rightarrow> ActionSeat list" where
  "others ps s = sort_key as_seat_number (filter (\<lambda>p. can_act p \<and> as_seat_number p > s) ps) @
     sort_key as_seat_number (filter (\<lambda>p. can_act p \<and> as_seat_number p < s) ps)"

definition at_seat :: "ActionSeat list \<Rightarrow> int \<Rightarrow> ActionSeat list" where
  "at_seat ps s = sort_key as_seat_number (filter (\<lambda>p. can_act p \<and> as_seat_number p = s) ps)"

lemma sorted_split_at:
  assumes "sorted (map f xs)"
  shows "filter (\<lambda>p. \<not> f p > s) xs = filter (\<lambda>p. f p < (s :: int)) xs @ filter (\<lambda>p. f p = s) xs"
    and "filter (\<lambda>p. f p > s - 1) xs = filter (\<lambda>p. f p = s) xs @ filter (\<lambda>p. f p > s) xs"
proof -
  have below: "filter (\<lambda>p. f p < b) xs = []" if "\<forall>x \<in> set xs. b \<le> f x" for b and xs :: "'a list"
    using that by (auto simp: filter_empty_conv)
  have equal: "filter (\<lambda>p. f p = b) xs = []" if "\<forall>x \<in> set xs. c \<le> f x" "b < c" for b c and xs :: "'a list"
    using that by (auto simp: filter_empty_conv)
  show "filter (\<lambda>p. \<not> f p > s) xs = filter (\<lambda>p. f p < s) xs @ filter (\<lambda>p. f p = s) xs"
    using assms by (induction xs) (auto simp: below)
  show "filter (\<lambda>p. f p > s - 1) xs = filter (\<lambda>p. f p = s) xs @ filter (\<lambda>p. f p > s) xs"
    using assms by (induction xs) (auto simp: equal)
qed

lemma filter_clockwise:
  "filter P (sort_key as_seat_number (filter can_act ps)) = sort_key as_seat_number (filter (\<lambda>p. can_act p \<and> P p) ps)"
  by (simp add: filter_sort)

lemma clockwise_behind: "clockwise ps s = others ps s @ at_seat ps s"
  unfolding clockwise_def Let_def sorted_split_at(1) [OF sorted_sort_key]
  by (simp add: others_def at_seat_def filter_clockwise)

lemma clockwise_from: "clockwise ps (s - 1) = at_seat ps s @ others ps s"
proof -
  have lt: "(\<lambda>p. \<not> as_seat_number p > s - 1) = (\<lambda>p. as_seat_number p < s)" by auto
  show ?thesis
    unfolding clockwise_def Let_def sorted_split_at(2) [OF sorted_sort_key] lt
    by (simp add: others_def at_seat_def filter_clockwise)
qed

lemma set_dropWhile_append: "set (dropWhile P (xs @ ys)) \<subseteq> set (dropWhile P xs) \<union> set ys"
  by (induction xs) (auto dest: set_dropWhileD)

lemma set_dropWhile_suffix: "set (dropWhile P ys) \<subseteq> set (dropWhile P (xs @ ys))"
  by (induction xs) (auto dest: set_dropWhileD)

lemma settled_after_passive:
  assumes "settled_behind ps (s - 1) a h" and "others ps' s = others ps s"
    and "\<And>p. p \<in> set (at_seat ps' s) \<Longrightarrow> \<not> needs_action p h"
  shows "settled_behind ps' s a h"
proof -
  let ?P = "\<lambda>p. Some (as_seat_number p) \<noteq> a"
  have "set (dropWhile ?P (clockwise ps' s)) \<subseteq> set (dropWhile ?P (others ps s)) \<union> set (at_seat ps' s)"
    using set_dropWhile_append assms(2) by (simp add: clockwise_behind)
  moreover have "set (dropWhile ?P (others ps s)) \<subseteq> set (dropWhile ?P (clockwise ps (s - 1)))"
    using set_dropWhile_suffix by (simp add: clockwise_from)
  ultimately show ?thesis using assms(1,3) unfolding settled_behind_def by blast
qed

lemma settled_after_aggression:
  assumes "\<And>p. p \<in> set (at_seat ps' s) \<Longrightarrow> \<not> needs_action p h"
  shows "settled_behind ps' s (Some s) h"
proof -
  let ?P = "\<lambda>p. Some (as_seat_number p) \<noteq> Some s"
  have "dropWhile ?P (others ps' s) = []" by (auto simp: dropWhile_eq_Nil_conv others_def)
  then have "set (dropWhile ?P (clockwise ps' s)) \<subseteq> set (at_seat ps' s)"
    using set_dropWhile_append [of ?P "others ps' s" "at_seat ps' s"] unfolding clockwise_behind
    by (metis Un_empty_left list.set(1))
  with assms show ?thesis unfolding settled_behind_def by blast
qed

lemma ring_restart:
  fixes f :: "'a \<Rightarrow> int"
  assumes "sorted_wrt (\<lambda>p q. f p < f q) s"
    and "filter (\<lambda>p. f p > c) s @ filter (\<lambda>p. \<not> f p > c) s = A @ y # B"
  shows "filter (\<lambda>p. f p > f y - 1) s @ filter (\<lambda>p. \<not> f p > f y - 1) s = y # B @ A"
proof -
  let ?G = "filter (\<lambda>p. f p > c) s" and ?L = "filter (\<lambda>p. \<not> f p > c) s"
  have sorted: "sorted (map f s)" using assms(1) by (simp add: sorted_wrt_map strict_sorted_imp_sorted sorted_wrt_mono_rel [of s "\<lambda>p q. f p < f q"])
  have s_LG: "s = ?L @ ?G" using sorted_split [OF sorted, of c] by (metis takeWhile_dropWhile_id)
  have "y \<in> set (?G @ ?L)" unfolding assms(2) by simp
  then have "y \<in> set s" by auto
  then obtain P Q where PQ: "s = P @ y # Q" by (meson split_list)
  have fP: "p \<in> set P \<Longrightarrow> f p < f y" and fQ: "q \<in> set Q \<Longrightarrow> f y < f q" for p q
    using assms(1) PQ by (auto simp: sorted_wrt_append)
  have "filter (\<lambda>p. f p > f y - 1) P = []" "filter (\<lambda>p. f p > f y - 1) Q = Q"
    "filter (\<lambda>p. \<not> f p > f y - 1) P = P" "filter (\<lambda>p. \<not> f p > f y - 1) Q = []"
    using fP fQ by (force simp: filter_empty_conv filter_id_conv)+
  then have "filter (\<lambda>p. f p > f y - 1) s = y # Q" "filter (\<lambda>p. \<not> f p > f y - 1) s = P"
    by (simp_all add: PQ)
  moreover have "Q @ P = B @ A"
  proof -
    have new: "y \<notin> set P" "y \<notin> set Q" using fP fQ by blast+
    from assms(2) have "\<exists>us. ?G = A @ us \<and> us @ ?L = y # B \<or> ?G @ us = A \<and> ?L = us @ y # B"
      by (simp only: append_eq_append_conv2)
    then consider us where "?G @ us = A" "?L = us @ y # B"
      | us where "?G = A @ y # us" "B = us @ ?L"
      by (metis append_Nil append_Nil2 Cons_eq_append_conv)
    then show ?thesis
    proof cases
      case 1
      then have "P @ y # Q = us @ y # (B @ ?G)" using s_LG PQ by (metis append_Cons append_assoc)
      with append_Cons_eq_iff [OF new] have "P = us" "Q = B @ ?G" by blast+
      with 1(1) show ?thesis by (metis append_assoc)
    next
      case 2
      then have "P @ y # Q = (?L @ A) @ y # us" using s_LG PQ by (metis append_assoc)
      with append_Cons_eq_iff [OF new] have "P = ?L @ A" "Q = us" by blast+
      with 2(2) show ?thesis by (metis append_assoc)
    qed
  qed
  ultimately show ?thesis by simp
qed


lemma clockwise_restart:
  assumes "distinct (map as_seat_number (filter can_act ps))" and "clockwise ps c = A @ y # B"
  shows "clockwise ps (as_seat_number y - 1) = y # B @ A"
proof -
  let ?s = "sort_key as_seat_number (filter can_act ps)"
  have "distinct (map as_seat_number ?s)"
    using assms(1) by (metis distinct_map distinct_sort set_sort)
  with sorted_sort_key [of as_seat_number "filter can_act ps"]
  have "sorted_wrt (<) (map as_seat_number ?s)" by (simp add: strict_sorted_iff)
  then have "sorted_wrt (\<lambda>p q. as_seat_number p < as_seat_number q) ?s" by (simp add: sorted_wrt_map)
  from ring_restart [OF this] assms(2) show ?thesis by (simp add: clockwise_def Let_def)
qed

lemma find_split:
  "List.find P xs = Some x \<Longrightarrow> \<exists>A B. xs = A @ x # B \<and> (\<forall>a \<in> set A. \<not> P a) \<and> P x"
proof (induction xs)
  case Nil
  then show ?case by simp
next
  case (Cons z zs)
  show ?case
  proof (cases "P z")
    case True
    with Cons.prems show ?thesis by (intro exI [of _ "[]"] exI [of _ zs]) simp
  next
    case False
    with Cons obtain A B where "zs = A @ x # B" "\<forall>a \<in> set A. \<not> P a" "P x" by auto
    with False show ?thesis by (intro exI [of _ "z # A"] exI [of _ B]) simp
  qed
qed

text \<open>The player found behind \<open>c\<close> starts the next walk with the same guarantee.\<close>

lemma settled_next:
  assumes "distinct (map as_seat_number (filter can_act ps))" and "settled_behind ps c a h"
    and "List.find (stops_at a h) (clockwise ps c) = Some y" and "Some (as_seat_number y) \<noteq> a"
  shows "settled_behind ps (as_seat_number y - 1) a h"
proof -
  let ?P = "\<lambda>p. Some (as_seat_number p) \<noteq> a"
  from find_split [OF assms(3)] obtain A B where
    AB: "clockwise ps c = A @ y # B" "\<forall>p \<in> set A. \<not> stops_at a h p" by blast
  have A: "?P p" "\<not> needs_action p h" if "p \<in> set A" for p
    using AB(2) that by (auto simp: stops_at_def)
  have "dropWhile ?P (A @ y # B) = dropWhile ?P (y # B)"
    using A(1) by (intro dropWhile_append2) auto
  then have "\<forall>p \<in> set (dropWhile ?P (y # B)). \<not> needs_action p h"
    using assms(2) AB(1) by (simp add: settled_behind_def)
  moreover have "set (dropWhile ?P (y # B @ A)) \<subseteq> set (dropWhile ?P (y # B)) \<union> set A"
    using set_dropWhile_append [of ?P "y # B" A] by simp
  ultimately show ?thesis
    using A(2) unfolding settled_behind_def clockwise_restart [OF assms(1) AB(1)] by blast
qed


section \<open>Properties\<close>

text \<open>
  C17: the index walk is the clockwise walk. \<^verbatim>\<open>next_to_act\<close>, which sorts, looks for a start
  index and steps through indices modulo the number of able players, decides exactly as
  the first player in clockwise order from behind the current seat who is the last
  aggressor (street closed) or owes chips (that player acts).
\<close>

theorem next_to_act_clockwise:
  "next_to_act players cur agg highest =
    (if length (filter can_act players) < 2 then closed_result
     else case List.find (stops_at agg highest) (clockwise players cur) of
            None \<Rightarrow> closed_result
          | Some p \<Rightarrow> if Some (as_seat_number p) = agg then closed_result else actor_result p)"
  using next_to_act_eq_spec by (simp add: next_actor_spec_def)

end
