(* ===== verification/Validator.thy ===== *)
theory Validator
  imports Domain_Types
begin

text \<open>
  \<^verbatim>\<open>domain/engine/validator.py\<close>: whether a player may take an action, and which effective
  action and chip amount it becomes. A request for BET, RAISE or CALL that uses the whole
  stack becomes ALL_IN; the amount of a RAISE is the total the player wants in front of
  him, the validated amount is what leaves the stack. The \<^verbatim>\<open>rules\<close> argument is passed
  through the pipeline and not read by the function.

  The rules the pipeline relies on are the locale \<open>bet_validator\<close>.
\<close>

section \<open>Data\<close>

record PlayerState =
  ps_player_id :: player_id
  ps_seat_number :: int
  ps_stack_remaining :: int
  ps_committed_this_street :: int
  ps_committed_this_hand :: int
  ps_has_folded :: bool
  ps_is_all_in :: bool
  ps_is_active_in_hand :: bool

record HandContext =
  ctx_round_id :: round_id
  ctx_status :: RoundStatus
  ctx_street :: Street
  ctx_acting_player_id :: "player_id option"
  ctx_current_highest_bet :: int
  ctx_minimum_raise_amount :: int
  ctx_is_action_closed :: bool
  ctx_players :: "PlayerState list"

definition get_player :: "HandContext \<Rightarrow> player_id \<Rightarrow> PlayerState option" where
  "get_player ctx pid = List.find (\<lambda>p. ps_player_id p = pid) (ctx_players ctx)"

record ValidatedAction =
  va_action :: BetAction
  va_amount :: int

abbreviation validated :: "BetAction \<Rightarrow> int \<Rightarrow> ValidatedAction result" where
  "validated a n \<equiv> Inr \<lparr>va_action = a, va_amount = n\<rparr>"


section \<open>The validator\<close>

text \<open>The guards before the action is looked at, and the player they let through.\<close>

definition validate_actor :: "HandContext \<Rightarrow> player_id \<Rightarrow> PlayerState result" where
  "validate_actor ctx pid =
     (if ctx_status ctx \<noteq> ROUND_ACTIVE then raise RoundNotActive ROUND_NOT_ACTIVE
      else if ctx_is_action_closed ctx then raise ActionClosed ACTION_CLOSED
      else case get_player ctx pid of
        None \<Rightarrow> raise PlayerNotInHand PLAYER_NOT_IN_HAND
      | Some player \<Rightarrow>
          if \<not> ps_is_active_in_hand player then raise PlayerNotInHand PLAYER_NOT_IN_HAND
          else if ps_has_folded player then raise PlayerAlreadyFolded PLAYER_ALREADY_FOLDED
          else if ps_is_all_in player then raise PlayerAlreadyAllIn PLAYER_ALL_IN
          else if ctx_acting_player_id ctx \<noteq> None \<and> ctx_acting_player_id ctx \<noteq> Some pid
            then raise NotYourTurn NOT_YOUR_TURN
          else Inr player)"

text \<open>The chain of \<^verbatim>\<open>if action_upper == BetAction.X\<close> tests.\<close>

definition validate_action :: "HandContext \<Rightarrow> PlayerState \<Rightarrow> string \<Rightarrow> int \<Rightarrow> ValidatedAction result" where
  "validate_action ctx player action amount =
     (let call_amount = max 0 (ctx_current_highest_bet ctx - ps_committed_this_street player);
          stack = ps_stack_remaining player;
          action_upper = upper action
      in
      if action_upper = BetAction_value FOLD then validated FOLD 0
      else if action_upper = BetAction_value CHECK then
        (if call_amount > 0 then raise CheckNotAllowed CHECK_NOT_ALLOWED else validated CHECK 0)
      else if action_upper = BetAction_value CALL then
        (if call_amount = 0 then raise CallNotAllowed CALL_NOT_ALLOWED
         else let effective = min call_amount stack in
           if effective = stack then validated ALL_IN effective else validated CALL effective)
      else if action_upper = BetAction_value BET then
        (if ctx_current_highest_bet ctx > 0 then raise BetNotAllowed BET_NOT_ALLOWED
         else if amount \<le> 0 then raise InvalidAmount BET_AMOUNT_TOO_LOW
         else if amount > stack then raise AmountExceedsStack AMOUNT_EXCEEDS_STACK
         else if amount < ctx_minimum_raise_amount ctx \<and> amount \<noteq> stack
           then raise RaiseBelowMinimum BET_BELOW_MINIMUM
         else if amount = stack then validated ALL_IN amount
         else validated BET amount)
      else if action_upper = BetAction_value RAISE then
        (if ctx_current_highest_bet ctx = 0 then raise RaiseNotAllowed RAISE_NOT_ALLOWED
         else if amount \<le> 0 then raise InvalidAmount RAISE_AMOUNT_TOO_LOW
         else
           let total_to_commit = amount;
               additional_chips = total_to_commit - ps_committed_this_street player
           in
           if additional_chips \<le> 0 then raise InvalidAmount RAISE_AMOUNT_TOO_LOW
           else if additional_chips > stack then raise AmountExceedsStack RAISE_EXCEEDS_STACK
           else
             let raise_increment = total_to_commit - ctx_current_highest_bet ctx in
             if raise_increment < ctx_minimum_raise_amount ctx \<and> additional_chips \<noteq> stack
               then raise RaiseBelowMinimum RAISE_BELOW_MINIMUM
             else if additional_chips = stack then validated ALL_IN additional_chips
             else validated RAISE additional_chips)
      else if action_upper = BetAction_value ALL_IN then
        (if stack \<le> 0 then raise PlayerAlreadyAllIn PLAYER_ALL_IN else validated ALL_IN stack)
      else Inl (DomainError IllegalAction (ErrorMessage_value INVALID_ACTION @ '': '' @ action)))"

definition validate_bet ::
    "HandContext \<Rightarrow> player_id \<Rightarrow> string \<Rightarrow> int \<Rightarrow> RulesProfile \<Rightarrow> ValidatedAction result" where
  "validate_bet ctx pid action amount rules =
     bindE (validate_actor ctx pid) (\<lambda>player. validate_action ctx player action amount)"


section \<open>The rules of betting\<close>

text \<open>Who may act: a live player of the hand whose turn it is, on an open street.\<close>

definition may_act :: "HandContext \<Rightarrow> player_id \<Rightarrow> PlayerState \<Rightarrow> bool" where
  "may_act ctx pid p \<longleftrightarrow> ctx_status ctx = ROUND_ACTIVE \<and> \<not> ctx_is_action_closed ctx \<and>
     get_player ctx pid = Some p \<and> ps_is_active_in_hand p \<and> \<not> ps_has_folded p \<and> \<not> ps_is_all_in p \<and>
     (ctx_acting_player_id ctx = None \<or> ctx_acting_player_id ctx = Some pid)"

definition owed :: "HandContext \<Rightarrow> PlayerState \<Rightarrow> int" where
  "owed ctx p = max 0 (ctx_current_highest_bet ctx - ps_committed_this_street p)"

text \<open>
  When an action is legal, and how many chips it moves: the betting rules as a table. A
  bet or raise below the minimum is legal only with the whole stack.
\<close>

fun legal :: "HandContext \<Rightarrow> PlayerState \<Rightarrow> BetAction \<Rightarrow> int \<Rightarrow> bool" where
  "legal ctx p FOLD n = True"
| "legal ctx p CHECK n = (owed ctx p = 0)"
| "legal ctx p CALL n = (owed ctx p > 0)"
| "legal ctx p BET n = (ctx_current_highest_bet ctx \<le> 0 \<and> 0 < n \<and> n \<le> ps_stack_remaining p \<and>
     (ctx_minimum_raise_amount ctx \<le> n \<or> n = ps_stack_remaining p))"
| "legal ctx p RAISE n = (ctx_current_highest_bet ctx \<noteq> 0 \<and> 0 < n \<and> ps_committed_this_street p < n \<and>
     n - ps_committed_this_street p \<le> ps_stack_remaining p \<and>
     (ctx_current_highest_bet ctx + ctx_minimum_raise_amount ctx \<le> n \<or>
      n - ps_committed_this_street p = ps_stack_remaining p))"
| "legal ctx p ALL_IN n = (0 < ps_stack_remaining p)"

fun chips_moved :: "HandContext \<Rightarrow> PlayerState \<Rightarrow> BetAction \<Rightarrow> int \<Rightarrow> int" where
  "chips_moved ctx p FOLD n = 0"
| "chips_moved ctx p CHECK n = 0"
| "chips_moved ctx p CALL n = min (owed ctx p) (ps_stack_remaining p)"
| "chips_moved ctx p BET n = n"
| "chips_moved ctx p RAISE n = n - ps_committed_this_street p"
| "chips_moved ctx p ALL_IN n = ps_stack_remaining p"

definition effective :: "HandContext \<Rightarrow> PlayerState \<Rightarrow> BetAction \<Rightarrow> int \<Rightarrow> ValidatedAction" where
  "effective ctx p a n = (let m = chips_moved ctx p a n in
     \<lparr>va_action = (if a \<notin> {FOLD, CHECK} \<and> m = ps_stack_remaining p then ALL_IN else a), va_amount = m\<rparr>)"

lemma validate_actor_iff: "validate_actor ctx pid = Inr p \<longleftrightarrow> may_act ctx pid p"
  by (auto simp: validate_actor_def may_act_def split: option.splits if_splits)

lemma BetAction_value_eq [simp]: "BetAction_value a = BetAction_value b \<longleftrightarrow> a = b"
  by (cases a; cases b; simp)

declare BetAction_value.simps [simp del]

lemma validate_action_known:
  assumes "upper x = BetAction_value a"
  shows "validate_action ctx p x n = validate_action ctx p (BetAction_value a) n"
  using assms by (cases a) (simp_all add: validate_action_def)

lemma validate_action_iff:
  "validate_action ctx p (BetAction_value a) n = Inr v \<longleftrightarrow> legal ctx p a n \<and> v = effective ctx p a n"
proof (cases a)
  case CALL
  then show ?thesis by (auto simp: validate_action_def Let_def owed_def effective_def)
next
  case BET
  then show ?thesis by (auto simp: validate_action_def Let_def effective_def)
next
  case RAISE
  then show ?thesis by (auto simp: validate_action_def Let_def effective_def)
qed (auto simp: validate_action_def Let_def owed_def effective_def)

lemma validate_action_accepts:
  "validate_action ctx p x n = Inr v \<longleftrightarrow>
    (\<exists>a. BetAction_of (upper x) = Some a \<and> legal ctx p a n \<and> v = effective ctx p a n)"
proof (cases "BetAction_of (upper x)")
  case None
  then have "upper x \<noteq> BetAction_value a" for a
    using BetAction_of_Some by fastforce
  with None show ?thesis by (simp add: validate_action_def Let_def)
next
  case (Some a)
  then have "upper x = BetAction_value a" by (simp add: BetAction_of_Some)
  note known = validate_action_known [OF this]
  from Some show ?thesis unfolding known validate_action_iff by simp
qed

lemma validate_action_unknown:
  assumes "BetAction_of (upper x) = None"
  shows "validate_action ctx p x n = Inl (DomainError IllegalAction (ErrorMessage_value INVALID_ACTION @ '': '' @ x))"
proof -
  from assms have "upper x \<noteq> BetAction_value a" for a
    using BetAction_of_Some by fastforce
  then show ?thesis by (simp add: validate_action_def Let_def)
qed

lemma VALID_BET_ACTIONS_of: "x \<in> VALID_BET_ACTIONS \<longleftrightarrow> BetAction_of x \<noteq> None"
  using BetAction_of_Some by (auto simp: VALID_BET_ACTIONS_iff)

lemma validate_bet_accepts:
  "validate_bet ctx pid x n rules = Inr v \<longleftrightarrow>
    (\<exists>p a. may_act ctx pid p \<and> BetAction_of (upper x) = Some a \<and> legal ctx p a n \<and> v = effective ctx p a n)"
  by (auto simp: validate_bet_def bindE_simps validate_actor_iff validate_action_accepts)


section \<open>The interface\<close>

text \<open>
  What the pipeline relies on: an accepted action belongs to a player of the context who
  is able to act; with a non-negative stack it moves between nothing and the whole stack;
  it is ALL_IN exactly when a chip-moving action uses the whole stack; a call matches the
  highest bet, and a bet or raise that is not all-in reaches at least the highest bet.
\<close>

locale bet_validator =
  fixes validate :: "HandContext \<Rightarrow> player_id \<Rightarrow> string \<Rightarrow> int \<Rightarrow> RulesProfile \<Rightarrow> ValidatedAction result"
  assumes actor_able: "validate ctx pid x n rules = Inr v \<Longrightarrow> \<exists>p. may_act ctx pid p"
    and no_chips: "validate ctx pid x n rules = Inr v \<Longrightarrow> va_action v \<in> {FOLD, CHECK} \<Longrightarrow> va_amount v = 0"
    and amount_bounds: "validate ctx pid x n rules = Inr v \<Longrightarrow> may_act ctx pid p \<Longrightarrow>
      0 \<le> ps_stack_remaining p \<Longrightarrow> 0 \<le> va_amount v \<and> va_amount v \<le> ps_stack_remaining p"
    and all_in_stack: "validate ctx pid x n rules = Inr v \<Longrightarrow> may_act ctx pid p \<Longrightarrow>
      va_action v \<notin> {FOLD, CHECK} \<Longrightarrow> va_action v = ALL_IN \<longleftrightarrow> va_amount v = ps_stack_remaining p"
    and check_matched: "validate ctx pid x n rules = Inr v \<Longrightarrow> may_act ctx pid p \<Longrightarrow>
      va_action v = CHECK \<Longrightarrow> ctx_current_highest_bet ctx \<le> ps_committed_this_street p"
    and call_matches: "validate ctx pid x n rules = Inr v \<Longrightarrow> may_act ctx pid p \<Longrightarrow>
      va_action v = CALL \<Longrightarrow> ps_committed_this_street p + va_amount v = ctx_current_highest_bet ctx"
    and raise_reaches: "validate ctx pid x n rules = Inr v \<Longrightarrow> may_act ctx pid p \<Longrightarrow>
      va_action v \<in> {BET, RAISE} \<Longrightarrow> 0 \<le> ps_committed_this_street p \<Longrightarrow> 0 \<le> ctx_minimum_raise_amount ctx \<Longrightarrow>
      ctx_current_highest_bet ctx \<le> ps_committed_this_street p + va_amount v"
begin

lemma stack_left:
  assumes "validate ctx pid x n rules = Inr v" and "may_act ctx pid p" and "0 \<le> ps_stack_remaining p"
  shows "0 \<le> ps_stack_remaining p - va_amount v"
  using amount_bounds [OF assms] by simp

text \<open>A player who stays in without going all-in keeps chips and has matched the highest bet.\<close>

lemma still_able_keeps_chips:
  assumes "validate ctx pid x n rules = Inr v" and "may_act ctx pid p" and "0 < ps_stack_remaining p"
    and "va_action v \<noteq> ALL_IN"
  shows "0 < ps_stack_remaining p - va_amount v"
proof (cases "va_action v \<in> {FOLD, CHECK}")
  case True
  with no_chips [OF assms(1)] assms(3) show ?thesis by simp
next
  case False
  then have "va_amount v \<noteq> ps_stack_remaining p" using all_in_stack [OF assms(1,2)] assms(4) by auto
  with amount_bounds [OF assms(1,2)] assms(3) show ?thesis by simp
qed

lemma still_able_matched:
  assumes "validate ctx pid x n rules = Inr v" and "may_act ctx pid p"
    and "va_action v \<notin> {FOLD, ALL_IN}" and "0 \<le> ps_committed_this_street p" and "0 \<le> ctx_minimum_raise_amount ctx"
  shows "ctx_current_highest_bet ctx \<le> ps_committed_this_street p + va_amount v"
proof (cases "va_action v")
  case CHECK
  with check_matched [OF assms(1,2)] no_chips [OF assms(1)] show ?thesis by simp
next
  case CALL
  with call_matches [OF assms(1,2)] show ?thesis by simp
qed (use assms raise_reaches [OF assms(1,2)] in auto)

lemma all_in_amount:
  assumes "validate ctx pid x n rules = Inr v" and "may_act ctx pid p" and "va_action v = ALL_IN"
  shows "va_amount v = ps_stack_remaining p"
  using all_in_stack [OF assms(1,2)] assms(3) by simp

end

lemma may_act_unique: "may_act ctx pid p \<Longrightarrow> may_act ctx pid q \<Longrightarrow> p = q"
  by (simp add: may_act_def)

lemma validate_bet_effective:
  assumes "validate_bet ctx pid x n rules = Inr v" and "may_act ctx pid p"
  obtains a where "legal ctx p a n" "v = effective ctx p a n"
  using assms by (auto simp: validate_bet_accepts dest: may_act_unique)

lemmas effective_simps = effective_def owed_def Let_def

lemma effective_bounds:
  "legal ctx p a n \<Longrightarrow> 0 \<le> ps_stack_remaining p \<Longrightarrow>
    0 \<le> va_amount (effective ctx p a n) \<and> va_amount (effective ctx p a n) \<le> ps_stack_remaining p"
  by (cases a) (auto simp: effective_simps)

interpretation no_limit: bet_validator validate_bet
proof
  fix ctx pid x n rules v p
  assume ok: "validate_bet ctx pid x n rules = Inr v"
  from ok show "\<exists>p. may_act ctx pid p" by (auto simp: validate_bet_accepts)
  from ok show "va_action v \<in> {FOLD, CHECK} \<Longrightarrow> va_amount v = 0"
    by (auto simp: validate_bet_accepts effective_simps split: if_splits)
  assume able: "may_act ctx pid p"
  from ok able obtain a where a: "legal ctx p a n" and v: "v = effective ctx p a n"
    by (rule validate_bet_effective)
  show "0 \<le> ps_stack_remaining p \<Longrightarrow> 0 \<le> va_amount v \<and> va_amount v \<le> ps_stack_remaining p"
    using effective_bounds [OF a] v by simp
  show "va_action v \<notin> {FOLD, CHECK} \<Longrightarrow> va_action v = ALL_IN \<longleftrightarrow> va_amount v = ps_stack_remaining p"
    using a v by (cases a) (auto simp: effective_simps)
  show "va_action v = CHECK \<Longrightarrow> ctx_current_highest_bet ctx \<le> ps_committed_this_street p"
    using a v by (cases a) (auto simp: effective_simps split: if_splits)
  show "va_action v = CALL \<Longrightarrow> ps_committed_this_street p + va_amount v = ctx_current_highest_bet ctx"
    using a v by (cases a) (auto simp: effective_simps split: if_splits)
  show "va_action v \<in> {BET, RAISE} \<Longrightarrow> 0 \<le> ps_committed_this_street p \<Longrightarrow> 0 \<le> ctx_minimum_raise_amount ctx \<Longrightarrow>
      ctx_current_highest_bet ctx \<le> ps_committed_this_street p + va_amount v"
    using a v by (cases a) (auto simp: effective_simps split: if_splits)
qed


section \<open>Properties\<close>

text \<open>
  C15: the validator accepts exactly the legal actions. \<^verbatim>\<open>validate_bet\<close> succeeds iff the
  round is active, the street open, the player is live and it is his turn, the action
  word (in any case) is one of the six, and the betting table allows it; it then returns
  the table's effective action and chip amount.
\<close>

theorem validate_bet_iff_legal:
  "validate_bet ctx pid x n rules = Inr v \<longleftrightarrow>
    (\<exists>p a. may_act ctx pid p \<and> BetAction_of (upper x) = Some a \<and> legal ctx p a n \<and> v = effective ctx p a n)"
  by (rule validate_bet_accepts)

text \<open>
  C16: why an action is refused. Every error \<^verbatim>\<open>validate_bet\<close> can raise is raised exactly
  in its situation. First come, in this order, a round that is not active, a closed
  street, a player who is not in the hand, one who has folded, one who is all-in, and one
  whose turn it is not. For a player who may act: an unknown word (\<open>IllegalAction\<close>), a
  check while chips are owed, a call while none are, a bet against a bet, a raise against
  none; then an amount that is not positive or not above what already lies on the table,
  one that exceeds the stack, and one that is below the minimum and not the whole stack;
  and an all-in without chips. No other error is raised.
\<close>

theorem validate_bet_refusals:
  "let R = raises (validate_bet ctx pid x n rules); h = ctx_current_highest_bet ctx;
       minimum = ctx_minimum_raise_amount ctx;
       playing = (ctx_status ctx = ROUND_ACTIVE \<and> \<not> ctx_is_action_closed ctx);
       seated = (\<lambda>p. playing \<and> get_player ctx pid = Some p \<and> ps_is_active_in_hand p);
       tries = (\<lambda>a p. may_act ctx pid p \<and> BetAction_of (upper x) = Some a)
   in (R RoundNotActive \<longleftrightarrow> ctx_status ctx \<noteq> ROUND_ACTIVE) \<and>
     (R ActionClosed \<longleftrightarrow> ctx_status ctx = ROUND_ACTIVE \<and> ctx_is_action_closed ctx) \<and>
     (R PlayerNotInHand \<longleftrightarrow> playing \<and> (\<nexists>p. seated p)) \<and>
     (R PlayerAlreadyFolded \<longleftrightarrow> (\<exists>p. seated p \<and> ps_has_folded p)) \<and>
     (R PlayerAlreadyAllIn \<longleftrightarrow> (\<exists>p. seated p \<and> \<not> ps_has_folded p \<and> ps_is_all_in p) \<or>
        (\<exists>p. tries ALL_IN p \<and> ps_stack_remaining p \<le> 0)) \<and>
     (R NotYourTurn \<longleftrightarrow> (\<exists>p q. seated p \<and> \<not> ps_has_folded p \<and> \<not> ps_is_all_in p \<and>
        ctx_acting_player_id ctx = Some q \<and> q \<noteq> pid)) \<and>
     (R IllegalAction \<longleftrightarrow> (\<exists>p. may_act ctx pid p) \<and> upper x \<notin> VALID_BET_ACTIONS) \<and>
     (R CheckNotAllowed \<longleftrightarrow> (\<exists>p. tries CHECK p \<and> 0 < owed ctx p)) \<and>
     (R CallNotAllowed \<longleftrightarrow> (\<exists>p. tries CALL p \<and> owed ctx p = 0)) \<and>
     (R BetNotAllowed \<longleftrightarrow> (\<exists>p. tries BET p \<and> 0 < h)) \<and>
     (R RaiseNotAllowed \<longleftrightarrow> (\<exists>p. tries RAISE p \<and> h = 0)) \<and>
     (R InvalidAmount \<longleftrightarrow> (\<exists>p. tries BET p \<and> h \<le> 0 \<and> n \<le> 0) \<or>
        (\<exists>p. tries RAISE p \<and> h \<noteq> 0 \<and> n \<le> max 0 (ps_committed_this_street p))) \<and>
     (R AmountExceedsStack \<longleftrightarrow> (\<exists>p. tries BET p \<and> h \<le> 0 \<and> 0 < n \<and> ps_stack_remaining p < n) \<or>
        (\<exists>p. tries RAISE p \<and> h \<noteq> 0 \<and> 0 < n \<and> ps_committed_this_street p < n \<and>
           ps_committed_this_street p + ps_stack_remaining p < n)) \<and>
     (R RaiseBelowMinimum \<longleftrightarrow>
        (\<exists>p. tries BET p \<and> h \<le> 0 \<and> 0 < n \<and> n < ps_stack_remaining p \<and> n < minimum) \<or>
        (\<exists>p. tries RAISE p \<and> h \<noteq> 0 \<and> 0 < n \<and> ps_committed_this_street p < n \<and>
           n < ps_committed_this_street p + ps_stack_remaining p \<and> n < h + minimum)) \<and>
     (is_ok (validate_bet ctx pid x n rules) \<or>
        (\<exists>c \<in> {RoundNotActive, ActionClosed, PlayerNotInHand, PlayerAlreadyFolded, PlayerAlreadyAllIn, NotYourTurn,
           IllegalAction, CheckNotAllowed, CallNotAllowed, BetNotAllowed, RaiseNotAllowed, InvalidAmount,
           AmountExceedsStack, RaiseBelowMinimum}. R c))"
proof (cases "validate_actor ctx pid")
  case (Inl e)
  then have none: "may_act ctx pid p = False" for p using validate_actor_iff [of ctx pid p] by simp
  from Inl have R: "raises (validate_bet ctx pid x n rules) c = raises (Inl e :: ValidatedAction result) c"
    "validate_bet ctx pid x n rules = Inl e" for c by (simp_all add: validate_bet_def)
  from Inl show ?thesis unfolding Let_def R none
    by (auto simp: validate_actor_def raise_def split: if_splits option.splits)
next
  case (Inr p)
  then have p: "may_act ctx pid p" by (simp add: validate_actor_iff)
  then have only: "may_act ctx pid q \<longleftrightarrow> q = p" for q using may_act_unique by blast
  note able = p [unfolded may_act_def]
  have R: "validate_bet ctx pid x n rules = validate_action ctx p x n"
    using Inr by (simp add: validate_bet_def)
  show ?thesis
  proof (cases "BetAction_of (upper x)")
    case None
    then show ?thesis unfolding R Let_def validate_action_unknown [OF None] only
      using able by (auto simp: VALID_BET_ACTIONS_of)
  next
    case (Some a)
    then have "upper x = BetAction_value a" by (simp add: BetAction_of_Some)
    note known = validate_action_known [OF this]
    from Some show ?thesis unfolding R Let_def known only
      using able by (cases a) (auto simp: validate_action_def owed_def Let_def VALID_BET_ACTIONS_of)
  qed
qed

text \<open>
  Bounds of an accepted action. The chips moved lie between nothing and the stack; a
  chip-moving action is ALL_IN exactly when it takes the whole stack; an accepted BET
  meets the minimum, an accepted RAISE raises the highest bet by at least the minimum
  raise, and a CALL brings the player level with the highest bet.
\<close>

theorem validate_bet_bounds:
  assumes "validate_bet ctx pid x n rules = Inr v" and "get_player ctx pid = Some p"
    and "0 \<le> ps_stack_remaining p"
  shows "0 \<le> va_amount v \<and> va_amount v \<le> ps_stack_remaining p \<and>
    (va_action v = ALL_IN \<longrightarrow> va_amount v = ps_stack_remaining p) \<and>
    (va_action v \<in> {CALL, BET, RAISE} \<longrightarrow> va_amount v < ps_stack_remaining p) \<and>
    (va_action v = BET \<longrightarrow> ctx_minimum_raise_amount ctx \<le> va_amount v) \<and>
    (va_action v = RAISE \<longrightarrow>
      ctx_current_highest_bet ctx + ctx_minimum_raise_amount ctx \<le> ps_committed_this_street p + va_amount v) \<and>
    (va_action v = CALL \<longrightarrow> ps_committed_this_street p + va_amount v = ctx_current_highest_bet ctx)"
proof -
  from no_limit.actor_able [OF assms(1)] assms(2) have able: "may_act ctx pid p"
    by (auto simp: may_act_def)
  obtain a where a: "legal ctx p a n" and v: "v = effective ctx p a n"
    using validate_bet_effective [OF assms(1) able] .
  have "(va_action v = BET \<longrightarrow> ctx_minimum_raise_amount ctx \<le> va_amount v) \<and> (va_action v = RAISE \<longrightarrow>
      ctx_current_highest_bet ctx + ctx_minimum_raise_amount ctx \<le> ps_committed_this_street p + va_amount v)"
    using a v by (cases a) (auto simp: effective_simps split: if_splits)
  moreover have "va_action v \<in> {CALL, BET, RAISE} \<longrightarrow> va_amount v < ps_stack_remaining p"
    using no_limit.all_in_stack [OF assms(1) able] no_limit.amount_bounds [OF assms(1) able assms(3)] by auto
  ultimately show ?thesis
    using no_limit.amount_bounds [OF assms(1) able assms(3)] no_limit.all_in_amount [OF assms(1) able]
      no_limit.call_matches [OF assms(1) able] by auto
qed

definition example_ctx :: HandContext where
  "example_ctx = \<lparr>ctx_round_id = ''r'', ctx_status = ROUND_ACTIVE, ctx_street = FLOP,
     ctx_acting_player_id = Some ''a'', ctx_current_highest_bet = 20, ctx_minimum_raise_amount = 20,
     ctx_is_action_closed = False,
     ctx_players = [\<lparr>ps_player_id = ''a'', ps_seat_number = 1, ps_stack_remaining = 80, ps_committed_this_street = 0,
       ps_committed_this_hand = 20, ps_has_folded = False, ps_is_all_in = False, ps_is_active_in_hand = True\<rparr>]\<rparr>"

theorem validate_bet_bounds_witness:
  "\<exists>v p. validate_bet example_ctx ''a'' ''raise'' 50 NO_LIMIT_HOLDEM = Inr v \<and>
    get_player example_ctx ''a'' = Some p \<and> va_action v = RAISE \<and>
    ctx_current_highest_bet example_ctx + ctx_minimum_raise_amount example_ctx \<le>
      ps_committed_this_street p + va_amount v"
proof -
  define v p where "v = \<lparr>va_action = RAISE, va_amount = 50\<rparr>" and "p = hd (ctx_players example_ctx)"
  have "validate_bet example_ctx ''a'' ''raise'' 50 NO_LIMIT_HOLDEM = Inr v"
    and "get_player example_ctx ''a'' = Some p" and "0 \<le> ps_stack_remaining p"
    unfolding v_def p_def by code_simp+
  from validate_bet_bounds [OF this] this show ?thesis by (auto simp: v_def)
qed

end
