(* ===== verification/Action_Pipeline.thy ===== *)
theory Action_Pipeline
  imports Models Turn_Engine Validator
begin

text \<open>
  \<^verbatim>\<open>domain/engine/action_pipeline.py\<close>: one betting action on a live hand. The code
  validates the action, computes the mutations of the player and of the round together
  with the next actor (\<open>transition_hand_state\<close>), and applies them to the rows
  (\<open>apply_transition\<close>). \<open>apply_action\<close> returns its result with the mutated rows.

  The invariant of a live hand is \<open>hand_ok\<close>.
\<close>

section \<open>Data\<close>

record PlayerMutation =
  pm_player_id :: player_id
  pm_stack_delta :: int
  pm_street_commit_delta :: int
  pm_hand_commit_delta :: int
  pm_should_fold :: bool
  pm_should_all_in :: bool

record RoundMutation =
  rm_pot_delta :: int
  rm_new_highest_bet :: "int option"
  rm_new_min_raise :: "int option"
  rm_new_acting_player_id :: "player_id option"
  rm_new_last_aggressor_seat :: "int option"
  rm_is_action_closed :: bool

record HandTransition =
  ht_action :: BetAction
  ht_amount :: int
  ht_is_round_closed :: bool
  ht_next_player_id :: "player_id option"
  ht_player_mutation :: PlayerMutation
  ht_round_mutation :: RoundMutation

record ApplyActionResult =
  ar_action :: BetAction
  ar_amount :: int
  ar_is_round_closed :: bool
  ar_next_player_id :: "player_id option"


section \<open>The transition\<close>

definition or_else :: "'a option \<Rightarrow> 'a option \<Rightarrow> 'a option" where
  "or_else a b = (case a of Some x \<Rightarrow> Some x | None \<Rightarrow> b)"

definition value_or :: "'a option \<Rightarrow> 'a \<Rightarrow> 'a" where
  "value_or a d = (case a of Some x \<Rightarrow> x | None \<Rightarrow> d)"

text \<open>The seat handed to the turn engine, the acting player's already updated.\<close>

definition action_seat :: "player_id \<Rightarrow> bool \<Rightarrow> bool \<Rightarrow> int \<Rightarrow> PlayerState \<Rightarrow> ActionSeat" where
  "action_seat pid should_fold should_all_in commit_delta p =
     (let me = (ps_player_id p = pid) in
      \<lparr>as_player_id = ps_player_id p,
       as_seat_number = ps_seat_number p,
       as_has_folded = (if me \<and> should_fold then True else ps_has_folded p),
       as_is_all_in = (if me \<and> should_all_in then True else ps_is_all_in p),
       as_is_active_in_hand = (if me \<and> should_fold then False else ps_is_active_in_hand p),
       as_committed_this_street = ps_committed_this_street p + (if me then commit_delta else 0)\<rparr>)"

definition transition_hand_state ::
    "HandContext \<Rightarrow> player_id \<Rightarrow> string \<Rightarrow> int \<Rightarrow> int option \<Rightarrow> RulesProfile \<Rightarrow> HandTransition result" where
  "transition_hand_state ctx pid action amount last_aggressor_seat rules =
     bindE (validate_bet ctx pid action amount rules) (\<lambda>res.
     case get_player ctx pid of None \<Rightarrow> Inl AssertionError | Some player \<Rightarrow>
     (let effective_action = va_action res;
          effective_amount = va_amount res;
          should_fold = (effective_action = FOLD);
          should_all_in = (effective_action = ALL_IN);
          moves = (effective_action \<in> {CALL, BET, RAISE, ALL_IN});
          stack_delta = (if moves then - effective_amount else 0);
          commit_delta = (if moves then effective_amount else 0);
          player_mutation =
            \<lparr>pm_player_id = pid, pm_stack_delta = stack_delta, pm_street_commit_delta = commit_delta,
             pm_hand_commit_delta = commit_delta, pm_should_fold = should_fold,
             pm_should_all_in = should_all_in\<rparr>;
          post_committed = ps_committed_this_street player + commit_delta;
          aggressive = (effective_action \<in> {BET, RAISE, ALL_IN});
          above = (aggressive \<and> post_committed > ctx_current_highest_bet ctx);
          raise_increment = post_committed - ctx_current_highest_bet ctx;
          new_highest_bet = (if above then Some post_committed else None);
          new_min_raise = (if above \<and> raise_increment > ctx_minimum_raise_amount ctx
                           then Some raise_increment else None);
          new_aggressor_seat = (if aggressive then Some (ps_seat_number player) else None);
          action_seats = map (action_seat pid should_fold should_all_in commit_delta) (ctx_players ctx);
          resolved_aggressor = or_else new_aggressor_seat last_aggressor_seat;
          nta = next_to_act action_seats (ps_seat_number player) resolved_aggressor
                  (value_or new_highest_bet (ctx_current_highest_bet ctx));
          round_mutation =
            \<lparr>rm_pot_delta = effective_amount, rm_new_highest_bet = new_highest_bet,
             rm_new_min_raise = new_min_raise,
             rm_new_acting_player_id = (if \<not> na_is_round_closed nta then na_player_id nta else None),
             rm_new_last_aggressor_seat = new_aggressor_seat,
             rm_is_action_closed = na_is_round_closed nta\<rparr>
      in Inr \<lparr>ht_action = effective_action, ht_amount = effective_amount,
              ht_is_round_closed = na_is_round_closed nta,
              ht_next_player_id = na_player_id nta,
              ht_player_mutation = player_mutation, ht_round_mutation = round_mutation\<rparr>))"

definition player_state_of :: "RoundPlayer \<Rightarrow> PlayerState" where
  "player_state_of rp =
     \<lparr>ps_player_id = rp_player_id rp, ps_seat_number = rp_seat_number rp,
      ps_stack_remaining = rp_stack_remaining rp, ps_committed_this_street = rp_committed_this_street rp,
      ps_committed_this_hand = rp_committed_this_hand rp, ps_has_folded = rp_has_folded rp,
      ps_is_all_in = rp_is_all_in rp, ps_is_active_in_hand = rp_is_active_in_hand rp\<rparr>"

definition build_hand_context :: "Round \<Rightarrow> RoundPlayer list \<Rightarrow> HandContext" where
  "build_hand_context game_round round_players =
     \<lparr>ctx_round_id = r_round_id game_round, ctx_status = r_status game_round,
      ctx_street = r_street game_round, ctx_acting_player_id = r_acting_player_id game_round,
      ctx_current_highest_bet = r_current_highest_bet game_round,
      ctx_minimum_raise_amount = r_minimum_raise_amount game_round,
      ctx_is_action_closed = r_is_action_closed game_round,
      ctx_players = map player_state_of round_players\<rparr>"


section \<open>Applying it\<close>

definition mutate_player :: "PlayerMutation \<Rightarrow> RoundPlayer \<Rightarrow> RoundPlayer" where
  "mutate_player pm rp =
     (let rp1 = rp\<lparr>rp_stack_remaining := rp_stack_remaining rp + pm_stack_delta pm,
                   rp_committed_this_street := rp_committed_this_street rp + pm_street_commit_delta pm,
                   rp_committed_this_hand := rp_committed_this_hand rp + pm_hand_commit_delta pm\<rparr>;
          rp2 = (if pm_should_fold pm then rp1\<lparr>rp_has_folded := True, rp_is_active_in_hand := False\<rparr> else rp1)
      in if pm_should_all_in pm then rp2\<lparr>rp_is_all_in := True\<rparr> else rp2)"

definition mutate_round :: "RoundMutation \<Rightarrow> Round \<Rightarrow> Round" where
  "mutate_round rm r =
     r\<lparr>r_pot_amount := r_pot_amount r + rm_pot_delta rm,
       r_current_highest_bet := value_or (rm_new_highest_bet rm) (r_current_highest_bet r),
       r_minimum_raise_amount := value_or (rm_new_min_raise rm) (r_minimum_raise_amount r),
       r_last_aggressor_seat := or_else (rm_new_last_aggressor_seat rm) (r_last_aggressor_seat r),
       r_acting_player_id := (if rm_is_action_closed rm then None else rm_new_acting_player_id rm),
       r_is_action_closed := rm_is_action_closed rm,
       r_state_version := Some (version_or_1 r + 1)\<rparr>"

definition apply_transition :: "Round \<Rightarrow> RoundPlayer list \<Rightarrow> HandTransition \<Rightarrow> Round \<times> RoundPlayer list" where
  "apply_transition game_round round_players transition =
     (let pm = ht_player_mutation transition; rm = ht_round_mutation transition in
      (mutate_round rm game_round,
       update_first (\<lambda>rp. rp_player_id rp = pm_player_id pm) (mutate_player pm) round_players))"

definition stale_message :: "int \<Rightarrow> int \<Rightarrow> string" where
  "stale_message expected current =
     ''Expected state_version='' @ str_int expected @ '', current='' @ str_int current"

definition apply_action ::
    "Round \<Rightarrow> RoundPlayer list \<Rightarrow> player_id \<Rightarrow> string \<Rightarrow> int \<Rightarrow> RulesProfile \<Rightarrow> int option \<Rightarrow>
     (ApplyActionResult \<times> Round \<times> RoundPlayer list) result" where
  "apply_action game_round round_players pid action amount rules expected_version =
     bindE (case expected_version of
              None \<Rightarrow> Inr ()
            | Some expected \<Rightarrow>
                let current = version_or_1 game_round in
                raise_if (current \<noteq> expected) (DomainError StaleStateError (stale_message expected current)))
     (\<lambda>_. let ctx = build_hand_context game_round round_players in
     bindE (transition_hand_state ctx pid action amount (r_last_aggressor_seat game_round) rules)
     (\<lambda>transition. Inr
        (\<lparr>ar_action = ht_action transition, ar_amount = ht_amount transition,
          ar_is_round_closed = ht_is_round_closed transition,
          ar_next_player_id = ht_next_player_id transition\<rparr>,
         apply_transition game_round round_players transition)))"


section \<open>What an accepted action does\<close>

text \<open>
  The effect of a validated action \<open>v\<close> of player \<open>p\<close>, as plain functions of the rows.
\<close>

definition seat_of :: "RoundPlayer \<Rightarrow> ActionSeat" where
  "seat_of rp = \<lparr>as_player_id = rp_player_id rp, as_seat_number = rp_seat_number rp,
     as_has_folded = rp_has_folded rp, as_is_all_in = rp_is_all_in rp,
     as_is_active_in_hand = rp_is_active_in_hand rp,
     as_committed_this_street = rp_committed_this_street rp\<rparr>"

definition able :: "RoundPlayer \<Rightarrow> bool" where
  "able rp \<longleftrightarrow> rp_is_active_in_hand rp \<and> \<not> rp_has_folded rp \<and> \<not> rp_is_all_in rp"

definition acted :: "ValidatedAction \<Rightarrow> RoundPlayer \<Rightarrow> RoundPlayer" where
  "acted v rp = rp\<lparr>rp_stack_remaining := rp_stack_remaining rp - va_amount v,
     rp_committed_this_street := rp_committed_this_street rp + va_amount v,
     rp_committed_this_hand := rp_committed_this_hand rp + va_amount v,
     rp_has_folded := (rp_has_folded rp \<or> va_action v = FOLD),
     rp_is_active_in_hand := (rp_is_active_in_hand rp \<and> va_action v \<noteq> FOLD),
     rp_is_all_in := (rp_is_all_in rp \<or> va_action v = ALL_IN)\<rparr>"

definition aggressive :: "ValidatedAction \<Rightarrow> bool" where
  "aggressive v \<longleftrightarrow> va_action v \<in> {BET, RAISE, ALL_IN}"

definition highest_after :: "ValidatedAction \<Rightarrow> RoundPlayer \<Rightarrow> Round \<Rightarrow> int" where
  "highest_after v p r = (if aggressive v
     then max (r_current_highest_bet r) (rp_committed_this_street p + va_amount v)
     else r_current_highest_bet r)"

definition min_raise_after :: "ValidatedAction \<Rightarrow> RoundPlayer \<Rightarrow> Round \<Rightarrow> int" where
  "min_raise_after v p r = (let inc = highest_after v p r - r_current_highest_bet r in
     if 0 < inc \<and> r_minimum_raise_amount r < inc then inc else r_minimum_raise_amount r)"

definition aggressor_after :: "ValidatedAction \<Rightarrow> RoundPlayer \<Rightarrow> Round \<Rightarrow> int option" where
  "aggressor_after v p r = (if aggressive v then Some (rp_seat_number p) else r_last_aggressor_seat r)"

definition players_after :: "ValidatedAction \<Rightarrow> player_id \<Rightarrow> RoundPlayer list \<Rightarrow> RoundPlayer list" where
  "players_after v pid ps = update_first (\<lambda>rp. rp_player_id rp = pid) (acted v) ps"

definition next_after :: "ValidatedAction \<Rightarrow> RoundPlayer \<Rightarrow> Round \<Rightarrow> RoundPlayer list \<Rightarrow> NextActorResult" where
  "next_after v p r ps' = next_to_act (map seat_of ps') (rp_seat_number p) (aggressor_after v p r) (highest_after v p r)"

definition round_after :: "ValidatedAction \<Rightarrow> RoundPlayer \<Rightarrow> Round \<Rightarrow> RoundPlayer list \<Rightarrow> Round" where
  "round_after v p r ps' = r\<lparr>r_pot_amount := r_pot_amount r + va_amount v,
     r_current_highest_bet := highest_after v p r,
     r_minimum_raise_amount := min_raise_after v p r,
     r_last_aggressor_seat := aggressor_after v p r,
     r_acting_player_id := na_player_id (next_after v p r ps'),
     r_is_action_closed := na_is_round_closed (next_after v p r ps'),
     r_state_version := Some (version_or_1 r + 1)\<rparr>"

lemma can_act_seat_of [simp]: "can_act (seat_of p) = able p"
  by (simp add: can_act_def able_def seat_of_def)

lemma seat_of_simps [simp]:
  "as_player_id (seat_of p) = rp_player_id p" "as_seat_number (seat_of p) = rp_seat_number p"
  "as_committed_this_street (seat_of p) = rp_committed_this_street p"
  by (simp_all add: seat_of_def)

lemma player_state_of_simps [simp]:
  "ps_player_id (player_state_of p) = rp_player_id p" "ps_seat_number (player_state_of p) = rp_seat_number p"
  "ps_stack_remaining (player_state_of p) = rp_stack_remaining p"
  "ps_committed_this_street (player_state_of p) = rp_committed_this_street p"
  "ps_has_folded (player_state_of p) = rp_has_folded p" "ps_is_all_in (player_state_of p) = rp_is_all_in p"
  "ps_is_active_in_hand (player_state_of p) = rp_is_active_in_hand p"
  by (simp_all add: player_state_of_def)

lemma acted_simps [simp]:
  "rp_player_id (acted v p) = rp_player_id p" "rp_seat_number (acted v p) = rp_seat_number p"
  "rp_round_id (acted v p) = rp_round_id p"
  "rp_stack_remaining (acted v p) = rp_stack_remaining p - va_amount v"
  "rp_committed_this_street (acted v p) = rp_committed_this_street p + va_amount v"
  "rp_committed_this_hand (acted v p) = rp_committed_this_hand p + va_amount v"
  "rp_has_folded (acted v p) = (rp_has_folded p \<or> va_action v = FOLD)"
  "rp_is_active_in_hand (acted v p) = (rp_is_active_in_hand p \<and> va_action v \<noteq> FOLD)"
  "rp_is_all_in (acted v p) = (rp_is_all_in p \<or> va_action v = ALL_IN)"
  by (simp_all add: acted_def)

lemma get_player_context:
  "get_player (build_hand_context r ps) pid = map_option player_state_of (List.find (\<lambda>rp. rp_player_id rp = pid) ps)"
  by (simp add: get_player_def build_hand_context_def find_map)

lemma may_act_context:
  assumes "may_act (build_hand_context r ps) pid q"
  obtains p where "List.find (\<lambda>rp. rp_player_id rp = pid) ps = Some p" "q = player_state_of p" "able p"
    "p \<in> set ps" "rp_player_id p = pid" "r_status r = ROUND_ACTIVE" "\<not> r_is_action_closed r"
    "r_acting_player_id r = None \<or> r_acting_player_id r = Some pid"
proof -
  from assms obtain p where p: "List.find (\<lambda>rp. rp_player_id rp = pid) ps = Some p" "q = player_state_of p"
    by (auto simp: may_act_def get_player_context)
  with assms find_Some_mem [OF p(1)] show ?thesis
    by (intro that [of p]) (auto simp: may_act_def able_def build_hand_context_def)
qed

lemma update_first_cong:
  assumes "List.find P xs = Some x" and "f x = g x"
  shows "update_first P f xs = update_first P g xs"
  using assms by (induction xs) (auto split: if_splits)

lemma action_seats_after:
  assumes "distinct (map rp_player_id ps)"
  shows "map (action_seat pid (va_action v = FOLD) (va_action v = ALL_IN) (va_amount v)) (map player_state_of ps) =
    map seat_of (players_after v pid ps)"
  unfolding players_after_def update_first_map_if [OF assms]
  by (simp add: action_seat_def seat_of_def Let_def)


definition transition_after ::
    "ValidatedAction \<Rightarrow> RoundPlayer \<Rightarrow> Round \<Rightarrow> RoundPlayer list \<Rightarrow> player_id \<Rightarrow> HandTransition" where
  "transition_after v p r ps' pid = (let nta = next_after v p r ps' in
     \<lparr>ht_action = va_action v, ht_amount = va_amount v,
      ht_is_round_closed = na_is_round_closed nta, ht_next_player_id = na_player_id nta,
      ht_player_mutation =
        \<lparr>pm_player_id = pid, pm_stack_delta = - va_amount v, pm_street_commit_delta = va_amount v,
         pm_hand_commit_delta = va_amount v, pm_should_fold = (va_action v = FOLD),
         pm_should_all_in = (va_action v = ALL_IN)\<rparr>,
      ht_round_mutation =
        \<lparr>rm_pot_delta = va_amount v,
         rm_new_highest_bet = (if r_current_highest_bet r < highest_after v p r then Some (highest_after v p r) else None),
         rm_new_min_raise = (if r_current_highest_bet r < highest_after v p r \<and>
             r_minimum_raise_amount r < highest_after v p r - r_current_highest_bet r
           then Some (highest_after v p r - r_current_highest_bet r) else None),
         rm_new_acting_player_id = na_player_id nta,
         rm_new_last_aggressor_seat = (if aggressive v then Some (rp_seat_number p) else None),
         rm_is_action_closed = na_is_round_closed nta\<rparr>\<rparr>)"

lemma transition_hand_state_after:
  assumes "distinct (map rp_player_id ps)"
    and "validate_bet (build_hand_context r ps) pid x n rules = Inr v"
    and "List.find (\<lambda>rp. rp_player_id rp = pid) ps = Some p"
  shows "transition_hand_state (build_hand_context r ps) pid x n (r_last_aggressor_seat r) rules =
    Inr (transition_after v p r (players_after v pid ps) pid)"
proof -
  have zero: "va_action v \<in> {FOLD, CHECK} \<Longrightarrow> va_amount v = 0"
    using no_limit.no_chips [OF assms(2)] .
  have delta: "(if va_action v \<in> {CALL, BET, RAISE, ALL_IN} then va_amount v else 0) = va_amount v"
    "(if va_action v \<in> {CALL, BET, RAISE, ALL_IN} then - va_amount v else 0) = - va_amount v"
    using zero by (cases "va_action v"; simp)+
  have high: "value_or (if aggressive v \<and> r_current_highest_bet r < rp_committed_this_street p + va_amount v
      then Some (rp_committed_this_street p + va_amount v) else None) (r_current_highest_bet r) = highest_after v p r"
    by (auto simp: value_or_def highest_after_def)
  have agg: "or_else (if aggressive v then Some (rp_seat_number p) else None) (r_last_aggressor_seat r) =
      aggressor_after v p r"
    by (simp add: or_else_def aggressor_after_def)
  have above: "r_current_highest_bet r < highest_after v p r \<longleftrightarrow>
      aggressive v \<and> r_current_highest_bet r < rp_committed_this_street p + va_amount v"
    by (auto simp: highest_after_def)
  have nid: "(if \<not> na_is_round_closed nt then na_player_id nt else None) = na_player_id nt"
    if "nt = next_after v p r qs" for nt qs
    using that engine.closed_iff by (simp add: next_after_def)
  show ?thesis
    unfolding transition_hand_state_def assms(2) get_player_context assms(3) Let_def bindE_Inr
      option.map option.case delta player_state_of_simps aggressive_def [symmetric]
    unfolding build_hand_context_def HandContext.simps action_seats_after [OF assms(1)] high agg
      next_after_def [symmetric] nid [OF refl] transition_after_def Let_def above
    by (auto simp: highest_after_def)
qed

lemma mutate_player_after:
  "mutate_player (ht_player_mutation (transition_after v p r ps' pid)) = acted v"
  by (rule ext) (simp add: mutate_player_def transition_after_def acted_def Let_def)

lemma mutate_round_after:
  "mutate_round (ht_round_mutation (transition_after v p r ps' pid)) r = round_after v p r ps'"
proof -
  have "na_is_round_closed (next_after v p r ps') \<Longrightarrow> na_player_id (next_after v p r ps') = None"
    using engine.closed_iff by (simp add: next_after_def)
  moreover have "r_current_highest_bet r \<le> highest_after v p r" by (simp add: highest_after_def)
  ultimately show ?thesis
    by (auto simp: mutate_round_def transition_after_def round_after_def value_or_def or_else_def
        min_raise_after_def aggressor_after_def Let_def)
qed

text \<open>The elimination rule the proofs about one action start from.\<close>

lemma apply_action_cases:
  assumes "apply_action r ps pid x n rules ev = Inr (res, r', ps')" and "distinct (map rp_player_id ps)"
  obtains p v where "List.find (\<lambda>rp. rp_player_id rp = pid) ps = Some p"
    and "validate_bet (build_hand_context r ps) pid x n rules = Inr v"
    and "may_act (build_hand_context r ps) pid (player_state_of p)"
    and "ps' = players_after v pid ps" and "r' = round_after v p r ps'"
    and "res = \<lparr>ar_action = va_action v, ar_amount = va_amount v,
           ar_is_round_closed = r_is_action_closed r', ar_next_player_id = r_acting_player_id r'\<rparr>"
    and "ev \<noteq> None \<Longrightarrow> ev = Some (version_or_1 r)"
proof -
  let ?ctx = "build_hand_context r ps"
  from assms(1) obtain t where t: "transition_hand_state ?ctx pid x n (r_last_aggressor_seat r) rules = Inr t"
    and out: "(r', ps') = apply_transition r ps t"
      "res = \<lparr>ar_action = ht_action t, ar_amount = ht_amount t, ar_is_round_closed = ht_is_round_closed t,
        ar_next_player_id = ht_next_player_id t\<rparr>"
    and ev: "ev \<noteq> None \<Longrightarrow> ev = Some (version_or_1 r)"
    by (auto simp: apply_action_def bindE_simps Let_def split: option.splits)
  from t obtain v where v: "validate_bet ?ctx pid x n rules = Inr v"
    by (auto simp: transition_hand_state_def bindE_simps)
  from no_limit.actor_able [OF v] obtain q where "may_act ?ctx pid q" by blast
  with may_act_context obtain p where p: "List.find (\<lambda>rp. rp_player_id rp = pid) ps = Some p"
    "may_act ?ctx pid (player_state_of p)" by metis
  have t_eq: "t = transition_after v p r (players_after v pid ps) pid"
    using t transition_hand_state_after [OF assms(2) v p(1)] by simp
  have "pm_player_id (ht_player_mutation t) = pid" by (simp add: t_eq transition_after_def Let_def)
  then have "ps' = players_after v pid ps"
    using out(1) by (simp add: apply_transition_def Let_def t_eq mutate_player_after players_after_def)
  moreover have "r' = round_after v p r (players_after v pid ps)"
    using out(1) by (simp add: apply_transition_def Let_def t_eq mutate_round_after)
  ultimately show ?thesis
    using that [OF p(1) v p(2)] out(2) ev by (simp add: t_eq transition_after_def round_after_def Let_def)
qed


section \<open>The invariant of a live hand\<close>

text \<open>
  A player row: no negative amounts, the street's commitment is part of the hand's and
  at most the highest bet; an all-in player has no chips left, an able one has some; a
  player is out of the hand exactly when he has folded.
\<close>

definition player_ok :: "int \<Rightarrow> RoundPlayer \<Rightarrow> bool" where
  "player_ok highest p \<longleftrightarrow> 0 \<le> rp_stack_remaining p \<and> 0 \<le> rp_committed_this_street p \<and>
     rp_committed_this_street p \<le> rp_committed_this_hand p \<and> rp_committed_this_street p \<le> highest \<and>
     (rp_is_all_in p \<longrightarrow> rp_stack_remaining p = 0) \<and> (able p \<longrightarrow> 0 < rp_stack_remaining p) \<and>
     (rp_has_folded p \<longleftrightarrow> \<not> rp_is_active_in_hand p)"

text \<open>
  The turn: a closed street has no actor; the actor is a player able to act; and whoever
  may act next, nobody behind the last aggressor on the walk from his seat owes chips.
\<close>

definition turn_ok :: "Round \<Rightarrow> RoundPlayer list \<Rightarrow> bool" where
  "turn_ok r ps \<longleftrightarrow>
     (r_is_action_closed r \<longrightarrow> r_acting_player_id r = None) \<and>
     (\<forall>a. r_acting_player_id r = Some a \<longrightarrow> (\<exists>p \<in> set ps. rp_player_id p = a \<and> able p)) \<and>
     (\<forall>p \<in> set ps. \<not> r_is_action_closed r \<and> able p \<and>
        (r_acting_player_id r = None \<or> r_acting_player_id r = Some (rp_player_id p)) \<longrightarrow>
        settled_behind (map seat_of ps) (rp_seat_number p - 1) (r_last_aggressor_seat r) (r_current_highest_bet r))"

definition hand_ok :: "Round \<Rightarrow> RoundPlayer list \<Rightarrow> bool" where
  "hand_ok r ps \<longleftrightarrow> distinct (map rp_player_id ps) \<and> distinct (map rp_seat_number ps) \<and>
     (\<forall>p \<in> set ps. player_ok (r_current_highest_bet r) p) \<and>
     r_pot_amount r = sum_list (map rp_committed_this_hand ps) \<and>
     0 \<le> r_current_highest_bet r \<and> 0 \<le> r_minimum_raise_amount r \<and> turn_ok r ps"

definition chips_in_play :: "Round \<Rightarrow> RoundPlayer list \<Rightarrow> int" where
  "chips_in_play r ps = sum_list (map rp_stack_remaining ps) + r_pot_amount r"

lemma players_after_ids [simp]:
  "map rp_player_id (players_after v pid ps) = map rp_player_id ps"
  "map rp_seat_number (players_after v pid ps) = map rp_seat_number ps"
  "length (players_after v pid ps) = length ps"
  by (simp_all add: players_after_def map_update_first)

lemma players_after_sums:
  assumes "List.find (\<lambda>rp. rp_player_id rp = pid) ps = Some p"
  shows "sum_list (map rp_stack_remaining (players_after v pid ps)) = sum_list (map rp_stack_remaining ps) - va_amount v"
    and "sum_list (map rp_committed_this_hand (players_after v pid ps)) =
      sum_list (map rp_committed_this_hand ps) + va_amount v"
  unfolding players_after_def using sum_update_first [OF assms] by simp_all

lemma filter_update_first:
  assumes "List.find P xs = Some x" and "\<not> Q x" and "\<not> Q (f x)"
  shows "filter Q (update_first P f xs) = filter Q xs"
  using assms by (induction xs) (auto split: if_splits)

lemma in_players_after:
  assumes "distinct (map rp_player_id ps)" and "List.find (\<lambda>rp. rp_player_id rp = pid) ps = Some p"
    and "q \<in> set (players_after v pid ps)"
  shows "q = acted v p \<or> q \<in> set ps \<and> rp_player_id q \<noteq> pid"
  using assms(3) find_key_unique [OF assms(1)] assms(2)
  unfolding players_after_def update_first_map_if [OF assms(1)]
  by (auto split: if_splits)

lemma acted_in_players_after:
  assumes "List.find (\<lambda>rp. rp_player_id rp = pid) ps = Some p"
  shows "acted v p \<in> set (players_after v pid ps)"
  unfolding players_after_def using assms by (induction ps) (auto split: if_splits)

lemma others_after:
  assumes "List.find (\<lambda>rp. rp_player_id rp = pid) ps = Some p"
  shows "others (map seat_of (players_after v pid ps)) (rp_seat_number p) = others (map seat_of ps) (rp_seat_number p)"
  unfolding others_def players_after_def filter_map comp_def
  by (simp add: filter_update_first [OF assms])


text \<open>The situation in which an accepted action is carried out.\<close>

definition accepted :: "Round \<Rightarrow> RoundPlayer list \<Rightarrow> player_id \<Rightarrow> RoundPlayer \<Rightarrow> ValidatedAction \<Rightarrow> bool" where
  "accepted r ps pid p v \<longleftrightarrow> hand_ok r ps \<and> List.find (\<lambda>rp. rp_player_id rp = pid) ps = Some p \<and>
     (\<exists>x n rules. validate_bet (build_hand_context r ps) pid x n rules = Inr v) \<and>
     may_act (build_hand_context r ps) pid (player_state_of p)"

lemma acceptedD:
  assumes "accepted r ps pid p v"
  shows "hand_ok r ps" "List.find (\<lambda>rp. rp_player_id rp = pid) ps = Some p" "p \<in> set ps" "rp_player_id p = pid"
    "player_ok (r_current_highest_bet r) p" "able p" "\<not> r_is_action_closed r"
    "r_acting_player_id r = None \<or> r_acting_player_id r = Some pid"
  using assms find_Some_mem [of "\<lambda>rp. rp_player_id rp = pid" ps p]
  by (auto simp: accepted_def hand_ok_def may_act_def able_def build_hand_context_def)

lemma accepted_amount:
  assumes "accepted r ps pid p v"
  shows "0 \<le> va_amount v" "va_amount v \<le> rp_stack_remaining p"
    "va_action v = ALL_IN \<Longrightarrow> va_amount v = rp_stack_remaining p"
    "va_action v \<noteq> ALL_IN \<Longrightarrow> va_amount v < rp_stack_remaining p"
proof -
  from assms obtain x n rules where v: "validate_bet (build_hand_context r ps) pid x n rules = Inr v"
    and able: "may_act (build_hand_context r ps) pid (player_state_of p)" by (auto simp: accepted_def)
  have stack: "0 < ps_stack_remaining (player_state_of p)"
    using acceptedD(5,6) [OF assms] by (auto simp: player_ok_def)
  show "0 \<le> va_amount v" "va_amount v \<le> rp_stack_remaining p"
    using no_limit.amount_bounds [OF v able] stack by auto
  show "va_action v = ALL_IN \<Longrightarrow> va_amount v = rp_stack_remaining p"
    using no_limit.all_in_amount [OF v able] by simp
  show "va_action v \<noteq> ALL_IN \<Longrightarrow> va_amount v < rp_stack_remaining p"
    using no_limit.still_able_keeps_chips [OF v able stack] by simp
qed

lemma accepted_matched:
  assumes "accepted r ps pid p v" and "able (acted v p)"
  shows "highest_after v p r \<le> rp_committed_this_street p + va_amount v"
proof -
  from assms(1) obtain x n rules where v: "validate_bet (build_hand_context r ps) pid x n rules = Inr v"
    and able: "may_act (build_hand_context r ps) pid (player_state_of p)" by (auto simp: accepted_def)
  have "va_action v \<notin> {FOLD, ALL_IN}" using assms(2) by (auto simp: able_def)
  moreover have "0 \<le> rp_committed_this_street p" "0 \<le> r_minimum_raise_amount r"
    using acceptedD(1,5) [OF assms(1)] by (auto simp: player_ok_def hand_ok_def)
  ultimately have "r_current_highest_bet r \<le> rp_committed_this_street p + va_amount v"
    using no_limit.still_able_matched [OF v able] by (simp add: build_hand_context_def)
  then show ?thesis by (simp add: highest_after_def)
qed

lemma call_reaches_highest:
  assumes "accepted r ps pid p v" and "\<not> aggressive v"
  shows "rp_committed_this_street p + va_amount v \<le> r_current_highest_bet r"
proof -
  from assms(1) obtain x n rules where v: "validate_bet (build_hand_context r ps) pid x n rules = Inr v"
    and able: "may_act (build_hand_context r ps) pid (player_state_of p)" by (auto simp: accepted_def)
  have "rp_committed_this_street p \<le> r_current_highest_bet r"
    using acceptedD(5) [OF assms(1)] by (simp add: player_ok_def)
  with assms(2) no_limit.call_matches [OF v able] no_limit.no_chips [OF v] show ?thesis
    by (cases "va_action v") (auto simp: aggressive_def build_hand_context_def)
qed

lemma highest_after_ge: "r_current_highest_bet r \<le> highest_after v p r"
  by (simp add: highest_after_def)

lemma player_ok_mono: "player_ok h p \<Longrightarrow> h \<le> h' \<Longrightarrow> player_ok h' p"
  by (auto simp: player_ok_def)

lemma acted_ok:
  assumes "accepted r ps pid p v"
  shows "player_ok (highest_after v p r) (acted v p)"
proof -
  have "rp_committed_this_street p + va_amount v \<le> highest_after v p r"
    using call_reaches_highest [OF assms] by (auto simp: highest_after_def)
  with acceptedD(5,6) [OF assms] accepted_amount [OF assms] show ?thesis
    by (auto simp: player_ok_def able_def)
qed

lemma players_after_ok:
  assumes "accepted r ps pid p v" and "q \<in> set (players_after v pid ps)"
  shows "player_ok (highest_after v p r) q"
proof -
  note ok = acceptedD(1) [OF assms(1)]
  from ok in_players_after [OF _ acceptedD(2) [OF assms(1)] assms(2)]
  consider "q = acted v p" | "q \<in> set ps" by (auto simp: hand_ok_def)
  then show ?thesis
  proof cases
    case 1
    with acted_ok [OF assms(1)] show ?thesis by simp
  next
    case 2
    with ok highest_after_ge player_ok_mono show ?thesis unfolding hand_ok_def by blast
  qed
qed

lemma at_seat_after:
  assumes "accepted r ps pid p v" and "s \<in> set (at_seat (map seat_of (players_after v pid ps)) (rp_seat_number p))"
  shows "\<not> needs_action s (highest_after v p r)"
proof -
  from assms(2) obtain q where q: "q \<in> set (players_after v pid ps)" "s = seat_of q" "able q"
    "rp_seat_number q = rp_seat_number p" by (auto simp: at_seat_def)
  have "distinct (map rp_seat_number (players_after v pid ps))"
    using acceptedD(1) [OF assms(1)] by (simp add: hand_ok_def)
  from distinct_key_eq [OF this q(1) acted_in_players_after [OF acceptedD(2) [OF assms(1)], of v]] q(4)
  have "q = acted v p" by simp
  with accepted_matched [OF assms(1)] q show ?thesis by (simp add: needs_action_def)
qed

lemma settled_after:
  assumes "accepted r ps pid p v"
  shows "settled_behind (map seat_of (players_after v pid ps)) (rp_seat_number p)
    (aggressor_after v p r) (highest_after v p r)"
proof (cases "aggressive v")
  case True
  then show ?thesis using settled_after_aggression at_seat_after [OF assms] by (simp add: aggressor_after_def)
next
  case False
  have "turn_ok r ps" using acceptedD(1) [OF assms] by (simp add: hand_ok_def)
  then have "settled_behind (map seat_of ps) (rp_seat_number p - 1) (r_last_aggressor_seat r) (r_current_highest_bet r)"
    using acceptedD(3-8) [OF assms] unfolding turn_ok_def by blast
  with settled_after_passive [OF _ others_after [OF acceptedD(2) [OF assms]]] at_seat_after [OF assms] False
  show ?thesis by (simp add: aggressor_after_def highest_after_def)
qed

lemma turn_ok_after:
  assumes "accepted r ps pid p v" and "ps' = players_after v pid ps"
  shows "turn_ok (round_after v p r ps') ps'"
proof -
  let ?a = "aggressor_after v p r" and ?h = "highest_after v p r"
  let ?seats = "map seat_of ps'"
  have dist: "distinct (map rp_seat_number ps')" "distinct (map rp_player_id ps')"
    using acceptedD(1) [OF assms(1)] assms(2) by (simp_all add: hand_ok_def)
  then have "distinct (map as_seat_number (filter can_act ?seats))"
    by (simp add: filter_map comp_def distinct_map_filter)
  note next_settled = settled_next [OF this settled_after [OF assms(1), folded assms(2)]]
  show ?thesis
  proof (rule next_to_act_cases [of ?seats "rp_seat_number p" ?a ?h])
    assume "next_to_act ?seats (rp_seat_number p) ?a ?h = closed_result"
    then show ?thesis by (simp add: turn_ok_def round_after_def next_after_def closed_result_def)
  next
    fix s
    assume s: "next_to_act ?seats (rp_seat_number p) ?a ?h = actor_result s" "s \<in> set ?seats" "needs_action s ?h"
      "List.find (stops_at ?a ?h) (clockwise ?seats (rp_seat_number p)) = Some s" "Some (as_seat_number s) \<noteq> ?a"
    then obtain q where q: "q \<in> set ps'" "s = seat_of q" "able q" by (auto simp: needs_action_def)
    have only: "q' = q" if "q' \<in> set ps'" "rp_player_id q' = rp_player_id q" for q'
      using distinct_key_eq [OF dist(2) that(1) q(1) that(2)] .
    have "settled_behind ?seats (rp_seat_number q - 1) ?a ?h"
      using next_settled [OF s(4,5)] q(2) by simp
    moreover have "r_acting_player_id (round_after v p r ps') = Some (rp_player_id q)"
      "\<not> r_is_action_closed (round_after v p r ps')"
      using s(1) q(2) by (simp_all add: round_after_def next_after_def actor_result_def)
    moreover have "r_last_aggressor_seat (round_after v p r ps') = ?a"
      "r_current_highest_bet (round_after v p r ps') = ?h" by (simp_all add: round_after_def)
    ultimately show ?thesis
      unfolding turn_ok_def using only q(1,3) by (metis option.inject option.distinct(1))
  qed
qed

lemma hand_ok_after:
  assumes "accepted r ps pid p v" and "ps' = players_after v pid ps"
  shows "hand_ok (round_after v p r ps') ps'"
proof -
  have ok: "hand_ok r ps" using acceptedD(1) [OF assms(1)] .
  then have "0 \<le> highest_after v p r" "0 \<le> min_raise_after v p r"
    using highest_after_ge [of r v p] by (auto simp: hand_ok_def min_raise_after_def Let_def)
  moreover have "r_pot_amount r + va_amount v = sum_list (map rp_committed_this_hand ps')"
    using ok players_after_sums(2) [OF acceptedD(2) [OF assms(1)]] assms(2) by (simp add: hand_ok_def)
  ultimately show ?thesis
    using ok turn_ok_after [OF assms] players_after_ok [OF assms(1)] assms(2)
    by (auto simp: hand_ok_def round_after_def)
qed

lemma apply_action_accepted:
  assumes "apply_action r ps pid x n rules ev = Inr (res, r', ps')" and "hand_ok r ps"
  obtains p v where "accepted r ps pid p v" "ps' = players_after v pid ps" "r' = round_after v p r ps'"
    "ar_action res = va_action v" "ar_amount res = va_amount v"
    "validate_bet (build_hand_context r ps) pid x n rules = Inr v"
proof -
  have "distinct (map rp_player_id ps)" using assms(2) by (simp add: hand_ok_def)
  from assms(1) this show ?thesis
  proof (rule apply_action_cases)
    fix p v assume "List.find (\<lambda>rp. rp_player_id rp = pid) ps = Some p"
      "validate_bet (build_hand_context r ps) pid x n rules = Inr v"
      "may_act (build_hand_context r ps) pid (player_state_of p)"
      "ps' = players_after v pid ps" "r' = round_after v p r ps'"
      "res = \<lparr>ar_action = va_action v, ar_amount = va_amount v,
           ar_is_round_closed = r_is_action_closed r', ar_next_player_id = r_acting_player_id r'\<rparr>"
    with assms(2) show ?thesis by (intro that [of p v]) (auto simp: accepted_def)
  qed
qed


section \<open>Properties\<close>

text \<open>An open flop between three players, and the rows after a bet and an all-in.\<close>

definition example_player :: "player_id \<Rightarrow> int \<Rightarrow> int \<Rightarrow> int \<Rightarrow> RoundPlayer" where
  "example_player pid seat stack committed =
     \<lparr>rp_round_id = ''r'', rp_player_id = pid, rp_seat_number = seat, rp_stack_remaining = stack,
      rp_committed_this_street = committed, rp_committed_this_hand = committed, rp_has_folded = False,
      rp_is_all_in = False, rp_is_active_in_hand = True\<rparr>"

definition example_players :: "RoundPlayer list" where
  "example_players = [example_player ''a'' 1 100 0, example_player ''b'' 2 50 0, example_player ''c'' 3 80 0]"

definition example_round :: Round where
  "example_round = \<lparr>r_round_id = ''r'', r_game_id = ''g'', r_round_number = 1, r_dealer_seat = 3,
     r_small_blind_seat = 1, r_big_blind_seat = 2, r_small_blind_amount = 5, r_big_blind_amount = 10,
     r_ante_amount = 0, r_status = ROUND_ACTIVE, r_pot_amount = 0, r_street = FLOP,
     r_acting_player_id = Some ''a'', r_current_highest_bet = 0, r_minimum_raise_amount = 10,
     r_is_action_closed = False, r_last_aggressor_seat = None, r_engine_version = ''0.15.0'',
     r_state_version = Some 4, r_completed_at = None\<rparr>"

lemma example_hand_ok: "hand_ok example_round example_players"
  by (auto simp: hand_ok_def turn_ok_def player_ok_def able_def example_round_def example_players_def
      example_player_def)

definition example_bet :: "(ApplyActionResult \<times> Round \<times> RoundPlayer list) result" where
  "example_bet = apply_action example_round example_players ''a'' ''bet'' 30 NO_LIMIT_HOLDEM (Some 4)"

definition after_bet :: "ApplyActionResult \<times> Round \<times> RoundPlayer list" where
  "after_bet = the_ok example_bet"

lemma example_bet_ok:
  "apply_action example_round example_players ''a'' ''bet'' 30 NO_LIMIT_HOLDEM (Some 4) =
    Inr (fst after_bet, fst (snd after_bet), snd (snd after_bet))"
proof -
  have "is_ok example_bet" by code_simp
  from is_okD [OF this] show ?thesis by (simp add: after_bet_def example_bet_def)
qed

text \<open>
  C3: a betting action keeps the hand well-formed. From a well-formed hand an accepted
  action leads to a well-formed hand: distinct players and seats, no negative amounts, an
  all-in player without chips and an able one with chips, the pot equal to everything
  committed in the hand, no commitment above the highest bet, the actor able to act, and
  nobody behind the last aggressor owing chips.
\<close>

theorem apply_action_preserves_hand_ok:
  assumes "hand_ok r ps" and "apply_action r ps pid x n rules ev = Inr (res, r', ps')"
  shows "hand_ok r' ps'"
  using assms(2,1)
proof (rule apply_action_accepted)
  fix p v assume "accepted r ps pid p v" "ps' = players_after v pid ps" "r' = round_after v p r ps'"
  then show "hand_ok r' ps'" using hand_ok_after by simp
qed

theorem apply_action_preserves_hand_ok_witness: "hand_ok (fst (snd after_bet)) (snd (snd after_bet))"
  using apply_action_preserves_hand_ok [OF example_hand_ok example_bet_ok] .

text \<open>
  A betting action moves chips and nothing else. The chips of stacks and pot together
  are unchanged; the reported amount leaves the acting player's stack and enters his
  commitments and the pot; every other row stays as it was; the version goes up by one.
\<close>

theorem apply_action_effect:
  assumes "distinct (map rp_player_id ps)" and "apply_action r ps pid x n rules ev = Inr (res, r', ps')"
  shows "chips_in_play r' ps' = chips_in_play r ps \<and>
    r_pot_amount r' = r_pot_amount r + ar_amount res \<and>
    r_state_version r' = Some (version_or_1 r + 1) \<and>
    filter (\<lambda>q. rp_player_id q \<noteq> pid) ps' = filter (\<lambda>q. rp_player_id q \<noteq> pid) ps \<and>
    (\<exists>p p'. List.find (\<lambda>q. rp_player_id q = pid) ps = Some p \<and> List.find (\<lambda>q. rp_player_id q = pid) ps' = Some p' \<and>
       rp_stack_remaining p' = rp_stack_remaining p - ar_amount res \<and>
       rp_committed_this_street p' = rp_committed_this_street p + ar_amount res \<and>
       rp_committed_this_hand p' = rp_committed_this_hand p + ar_amount res \<and>
       rp_has_folded p' = (rp_has_folded p \<or> ar_action res = FOLD) \<and>
       rp_is_all_in p' = (rp_is_all_in p \<or> ar_action res = ALL_IN))"
  using assms(2,1)
proof (rule apply_action_cases)
  fix p v
  assume p: "List.find (\<lambda>rp. rp_player_id rp = pid) ps = Some p"
    and out: "ps' = players_after v pid ps" "r' = round_after v p r ps'"
      "res = \<lparr>ar_action = va_action v, ar_amount = va_amount v,
           ar_is_round_closed = r_is_action_closed r', ar_next_player_id = r_acting_player_id r'\<rparr>"
  have "List.find (\<lambda>q. rp_player_id q = pid) ps' = Some (acted v p)"
    using find_update_first [OF p, of "acted v"] find_Some_mem [OF p] out(1) by (simp add: players_after_def)
  moreover have "filter (\<lambda>q. rp_player_id q \<noteq> pid) ps' = filter (\<lambda>q. rp_player_id q \<noteq> pid) ps"
    using filter_update_first [OF p, of "\<lambda>q. rp_player_id q \<noteq> pid" "acted v"] find_Some_mem [OF p] out(1)
    by (simp add: players_after_def)
  ultimately show ?thesis
    using p out players_after_sums(1) [OF p, of v] by (simp add: chips_in_play_def round_after_def)
qed

theorem apply_action_effect_witness:
  "chips_in_play (fst (snd after_bet)) (snd (snd after_bet)) = chips_in_play example_round example_players \<and>
    r_state_version (fst (snd after_bet)) = Some (version_or_1 example_round + 1)"
proof -
  have "distinct (map rp_player_id example_players)" by code_simp
  from apply_action_effect [OF this example_bet_ok] show ?thesis by blast
qed

lemma action_closing:
  assumes "hand_ok r ps" and "apply_action r ps pid x n rules ev = Inr (res, r', ps')"
  shows "(2 \<le> length (filter able ps') \<longrightarrow> (r_is_action_closed r' \<longleftrightarrow>
       (\<forall>q \<in> set ps'. able q \<longrightarrow> rp_committed_this_street q = r_current_highest_bet r'))) \<and>
    (\<not> r_is_action_closed r' \<longrightarrow> (\<exists>q \<in> set ps'. r_acting_player_id r' = Some (rp_player_id q) \<and> able q \<and>
       rp_committed_this_street q < r_current_highest_bet r')) \<and>
    (length (filter able ps') < 2 \<longrightarrow> r_is_action_closed r' \<and> r_acting_player_id r' = None)"
  using assms(2,1)
proof (rule apply_action_accepted)
  fix p v
  assume acc: "accepted r ps pid p v" and out: "ps' = players_after v pid ps" "r' = round_after v p r ps'"
  let ?a = "aggressor_after v p r" and ?h = "highest_after v p r" and ?seats = "map seat_of ps'"
  have len: "length (filter can_act ?seats) = length (filter able ps')"
    by (simp add: filter_map comp_def)
  have closed: "r_is_action_closed r' = na_is_round_closed (next_to_act ?seats (rp_seat_number p) ?a ?h)"
    and acting: "r_acting_player_id r' = na_player_id (next_to_act ?seats (rp_seat_number p) ?a ?h)"
    and high: "r_current_highest_bet r' = ?h"
    using out(2) by (simp_all add: round_after_def next_after_def)
  have bound: "rp_committed_this_street q \<le> ?h" if "q \<in> set ps'" for q
    using players_after_ok [OF acc] that out(1) by (simp add: player_ok_def)
  have "2 \<le> length (filter able ps') \<Longrightarrow> r_is_action_closed r' \<longleftrightarrow> (\<forall>s \<in> set ?seats. \<not> needs_action s ?h)"
    using engine.closes_settled [OF settled_after [OF acc, folded out(1)]] len closed by simp
  moreover have "(\<forall>s \<in> set ?seats. \<not> needs_action s ?h) \<longleftrightarrow>
      (\<forall>q \<in> set ps'. able q \<longrightarrow> rp_committed_this_street q = ?h)"
    using bound by (fastforce simp: needs_action_def)
  moreover have "\<not> r_is_action_closed r' \<Longrightarrow> \<exists>s \<in> set ?seats.
      r_acting_player_id r' = Some (as_player_id s) \<and> needs_action s ?h"
    unfolding closed acting by (rule engine.open_has_actor)
  moreover have "length (filter able ps') < 2 \<Longrightarrow> r_is_action_closed r' \<and> r_acting_player_id r' = None"
    using engine.too_few [of ?seats] engine.closed_iff len closed acting by simp
  ultimately show ?thesis using high by (auto simp: needs_action_def)
qed

text \<open>
  C4: when the street closes. After an accepted action on a well-formed hand, if two or
  more players are still able to act, the street is closed exactly when each of them has
  put in the highest bet; if it stays open, the next actor is a player able to act who
  still owes chips; and with fewer than two able players it is closed.
\<close>

theorem apply_action_closing:
  assumes "hand_ok r ps" and "apply_action r ps pid x n rules ev = Inr (res, r', ps')"
  shows "(2 \<le> length (filter able ps') \<longrightarrow> (r_is_action_closed r' \<longleftrightarrow>
       (\<forall>q \<in> set ps'. able q \<longrightarrow> rp_committed_this_street q = r_current_highest_bet r'))) \<and>
    (\<not> r_is_action_closed r' \<longrightarrow> (\<exists>q \<in> set ps'. r_acting_player_id r' = Some (rp_player_id q) \<and> able q \<and>
       rp_committed_this_street q < r_current_highest_bet r')) \<and>
    (length (filter able ps') < 2 \<longrightarrow> r_is_action_closed r' \<and> r_acting_player_id r' = None)"
  using assms by (rule action_closing)

theorem apply_action_closing_witness:
  "\<not> r_is_action_closed (fst (snd after_bet)) \<and>
   (\<exists>q \<in> set (snd (snd after_bet)). r_acting_player_id (fst (snd after_bet)) = Some (rp_player_id q) \<and> able q)"
proof -
  have "\<not> r_is_action_closed (fst (snd after_bet))" by code_simp
  with apply_action_closing [OF example_hand_ok example_bet_ok] show ?thesis by blast
qed


lemma apply_action_Inl:
  "apply_action r ps pid x n rules ev = Inl e \<longleftrightarrow>
    (\<exists>k. ev = Some k \<and> k \<noteq> version_or_1 r \<and> e = DomainError StaleStateError (stale_message k (version_or_1 r))) \<or>
    ((ev = None \<or> ev = Some (version_or_1 r)) \<and> validate_bet (build_hand_context r ps) pid x n rules = Inl e)"
proof -
  let ?ctx = "build_hand_context r ps"
  have "transition_hand_state ?ctx pid x n agg rules = Inl e \<longleftrightarrow> validate_bet ?ctx pid x n rules = Inl e" for agg
  proof (cases "validate_bet ?ctx pid x n rules")
    case (Inr v)
    from no_limit.actor_able [OF Inr] obtain q where "get_player ?ctx pid = Some q"
      by (auto simp: may_act_def)
    with Inr show ?thesis by (simp add: transition_hand_state_def Let_def)
  qed (simp add: transition_hand_state_def)
  then show ?thesis
    by (cases ev) (auto simp: apply_action_def bindE_simps Let_def)
qed

text \<open>
  Why an action fails. \<^verbatim>\<open>apply_action\<close> fails exactly when the caller's expected version
  is not the current one (StaleStateError, whatever the action) or when the validator
  refuses, with the validator's error; in particular its assertion never fires.
\<close>

theorem apply_action_errors:
  "apply_action r ps pid x n rules ev = Inl e \<longleftrightarrow>
    (\<exists>k. ev = Some k \<and> k \<noteq> version_or_1 r \<and> e = DomainError StaleStateError (stale_message k (version_or_1 r))) \<or>
    ((ev = None \<or> ev = Some (version_or_1 r)) \<and> validate_bet (build_hand_context r ps) pid x n rules = Inl e)"
  by (rule apply_action_Inl)

text \<open>
  Optimistic concurrency on the rows. Two actions prepared for the same version cannot
  both be applied: after one succeeds, any other action expecting that version is refused
  as stale.
\<close>

theorem apply_action_once_per_version:
  assumes "distinct (map rp_player_id ps)" and "apply_action r ps pid x n rules (Some k) = Inr (res, r', ps')"
    and "1 \<le> k"
  shows "raises (apply_action r' ps'' pid' x' n' rules' (Some k)) StaleStateError"
  using assms(2,1)
proof (rule apply_action_cases)
  fix p v
  assume "r' = round_after v p r ps'" and "Some k \<noteq> None \<Longrightarrow> Some k = Some (version_or_1 r)"
  then have "version_or_1 r' = k + 1" using assms(3) by (simp add: version_or_1_def round_after_def)
  then show ?thesis by (simp add: apply_action_def raise_if_def Let_def)
qed

theorem apply_action_once_per_version_witness:
  "raises (apply_action (fst (snd after_bet)) (snd (snd after_bet)) ''b'' ''call'' 0 NO_LIMIT_HOLDEM (Some 4)) StaleStateError"
proof -
  have "distinct (map rp_player_id example_players)" by code_simp
  from apply_action_once_per_version [OF this example_bet_ok] show ?thesis by simp
qed

text \<open>
  One check ends an unopened street. On a well-formed hand with no bet on the street,
  an accepted CHECK closes the action at once, whoever else was still to act: a player
  who owes nothing is never asked.
\<close>

theorem check_closes_unopened_street:
  assumes "hand_ok r ps" and "r_current_highest_bet r = 0"
    and "apply_action r ps pid ''CHECK'' n rules ev = Inr (res, r', ps')"
  shows "r_is_action_closed r' \<and> r_acting_player_id r' = None"
  using assms(3,1)
proof (rule apply_action_accepted)
  fix p v
  assume acc: "accepted r ps pid p v" and out: "ps' = players_after v pid ps" "r' = round_after v p r ps'"
    and v: "validate_bet (build_hand_context r ps) pid ''CHECK'' n rules = Inr v"
  have "BetAction_of (upper ''CHECK'') = Some CHECK" by code_simp
  with v have "va_action v = CHECK" by (auto simp: validate_bet_accepts effective_def Let_def)
  then have "highest_after v p r = 0" using assms(2) by (simp add: highest_after_def aggressive_def)
  then have "0 \<le> rp_committed_this_street q \<and> highest_after v p r \<le> rp_committed_this_street q" if "q \<in> set ps'" for q
    using players_after_ok [OF acc] that out(1) by (simp add: player_ok_def)
  then have "na_is_round_closed (next_after v p r ps')"
    unfolding next_after_def by (intro engine.no_bet_closes) auto
  with out(2) engine.closed_iff show ?thesis by (simp add: round_after_def next_after_def)
qed

definition example_check :: "ApplyActionResult \<times> Round \<times> RoundPlayer list" where
  "example_check = the_ok (apply_action example_round example_players ''a'' ''CHECK'' 0 NO_LIMIT_HOLDEM None)"

theorem check_closes_unopened_street_witness:
  "length (filter able (snd (snd example_check))) = 3 \<and> r_is_action_closed (fst (snd example_check))"
proof -
  have "is_ok (apply_action example_round example_players ''a'' ''CHECK'' 0 NO_LIMIT_HOLDEM None)" by code_simp
  from is_okD [OF this] have ok: "apply_action example_round example_players ''a'' ''CHECK'' 0 NO_LIMIT_HOLDEM None =
    Inr (fst example_check, fst (snd example_check), snd (snd example_check))" by (simp add: example_check_def)
  have "r_current_highest_bet example_round = 0" by (simp add: example_round_def)
  note closed = check_closes_unopened_street [OF example_hand_ok this ok]
  have "length (filter able (snd (snd example_check))) = 3" by code_simp
  with closed show ?thesis by blast
qed

text \<open>
  An all-in ends a heads-up street with the opponent owing. There is a well-formed
  hand in which one of two players goes all-in, the other is able to act and has put in
  less than the highest bet, and the street is closed with nobody to act: the opponent can
  neither call nor fold.
\<close>

definition heads_up_all_in :: "ApplyActionResult \<times> Round \<times> RoundPlayer list" where
  "heads_up_all_in = the_ok (apply_action example_round (take 2 example_players) ''a'' ''all_in'' 0 NO_LIMIT_HOLDEM None)"

theorem all_in_closes_with_opponent_owing:
  "\<exists>r ps res r' ps' q. hand_ok r ps \<and>
    apply_action r ps ''a'' ''all_in'' 0 NO_LIMIT_HOLDEM None = Inr (res, r', ps') \<and>
    r_is_action_closed r' \<and> r_acting_player_id r' = None \<and>
    q \<in> set ps' \<and> able q \<and> rp_committed_this_street q < r_current_highest_bet r'"
proof -
  let ?ps = "take 2 example_players" and ?out = heads_up_all_in
  have "hand_ok example_round ?ps"
    by (auto simp: hand_ok_def turn_ok_def player_ok_def able_def example_round_def example_players_def
        example_player_def)
  moreover have "is_ok (apply_action example_round ?ps ''a'' ''all_in'' 0 NO_LIMIT_HOLDEM None)" by code_simp
  from is_okD [OF this] have "apply_action example_round ?ps ''a'' ''all_in'' 0 NO_LIMIT_HOLDEM None =
    Inr (fst ?out, fst (snd ?out), snd (snd ?out))" by (simp add: heads_up_all_in_def)
  moreover have "r_is_action_closed (fst (snd ?out)) \<and> r_acting_player_id (fst (snd ?out)) = None" by code_simp
  moreover have "\<exists>q \<in> set (snd (snd ?out)). able q \<and> rp_committed_this_street q < r_current_highest_bet (fst (snd ?out))"
    by code_simp
  ultimately show ?thesis by blast
qed

end
