(* ===== verification/Side_Pots.thy ===== *)
theory Side_Pots
  imports Domain_Types
begin

text \<open>
  \<^verbatim>\<open>domain/engine/side_pots.py\<close>: the layered pots of a hand, from what each player has
  committed. The players are sorted by commitment; every distinct positive level closes a
  layer to which all players above the previous level contribute; layers nobody can win
  are merged into a neighbour.

  What the settlement code relies on is the locale \<open>pot_calculator\<close>.
\<close>

section \<open>Data\<close>

record PlayerContribution =
  pc_player_id :: player_id
  pc_committed_this_hand :: int
  pc_has_folded :: bool
  pc_reached_showdown :: bool

record Pot =
  pot_index :: int
  pot_amount :: int
  pot_contributor_player_ids :: "player_id list"
  pot_eligible_winner_player_ids :: "player_id list"

text \<open>The dictionaries of \<^verbatim>\<open>raw_pots\<close>.\<close>

record RawPot =
  raw_amount :: int
  raw_contributors :: "player_id list"
  raw_eligible :: "player_id list"


section \<open>The functions\<close>

definition unique_ordered :: "player_id list \<Rightarrow> player_id list" where
  "unique_ordered items = unique_acc {} items"

text \<open>The inner loop: the layer between two levels.\<close>

definition layer :: "PlayerContribution list \<Rightarrow> int \<Rightarrow> int \<Rightarrow> RawPot" where
  "layer sorted_players previous_level current_level =
     (let above = filter (\<lambda>p. pc_committed_this_hand p > previous_level) sorted_players;
          contributors = map pc_player_id above;
          eligible = map pc_player_id (filter (\<lambda>p. \<not> pc_has_folded p \<and> pc_reached_showdown p) above);
          slice_per_player = current_level - previous_level
      in \<lparr>raw_amount = slice_per_player * int (length contributors),
          raw_contributors = contributors, raw_eligible = eligible\<rparr>)"

text \<open>The outer loop.\<close>

fun layers :: "PlayerContribution list \<Rightarrow> int \<Rightarrow> PlayerContribution list \<Rightarrow> RawPot list" where
  "layers sorted_players previous_level [] = []"
| "layers sorted_players previous_level (player # rest) =
     (let current_level = pc_committed_this_hand player in
      if current_level \<le> previous_level then layers sorted_players previous_level rest
      else layer sorted_players previous_level current_level # layers sorted_players current_level rest)"

text \<open>The loop of \<^verbatim>\<open>_merge_dead_pots\<close>, with its accumulators (result, carry).\<close>

fun merge_loop :: "RawPot list \<Rightarrow> int \<Rightarrow> player_id list \<Rightarrow> RawPot list \<Rightarrow> RawPot list \<times> int \<times> player_id list" where
  "merge_loop res carry_amount carry_contributors [] = (res, carry_amount, carry_contributors)"
| "merge_loop res carry_amount carry_contributors (pot # pots) =
     (let combined_amount = raw_amount pot + carry_amount;
          combined_contributors = unique_ordered (carry_contributors @ raw_contributors pot)
      in if raw_eligible pot \<noteq> []
         then merge_loop (res @ [\<lparr>raw_amount = combined_amount, raw_contributors = combined_contributors,
                                  raw_eligible = raw_eligible pot\<rparr>]) 0 [] pots
         else merge_loop res combined_amount combined_contributors pots)"

definition merge_dead_pots :: "RawPot list \<Rightarrow> RawPot list" where
  "merge_dead_pots raw_pots =
     (if raw_pots = [] then []
      else case merge_loop [] 0 [] raw_pots of (res, carry_amount, carry_contributors) \<Rightarrow>
        if carry_amount > 0 \<and> res \<noteq> [] then
          (let lst = last res in
           butlast res @ [\<lparr>raw_amount = raw_amount lst + carry_amount,
             raw_contributors = unique_ordered (raw_contributors lst @ carry_contributors),
             raw_eligible = raw_eligible lst\<rparr>])
        else if carry_amount > 0 then
          res @ [\<lparr>raw_amount = carry_amount, raw_contributors = carry_contributors, raw_eligible = []\<rparr>]
        else res)"

definition pot_of :: "nat \<times> RawPot \<Rightarrow> Pot" where
  "pot_of ip = (case ip of (idx, p) \<Rightarrow>
     \<lparr>pot_index = int idx, pot_amount = raw_amount p, pot_contributor_player_ids = raw_contributors p,
      pot_eligible_winner_player_ids = raw_eligible p\<rparr>)"

definition calculate_side_pots :: "PlayerContribution list \<Rightarrow> Pot list" where
  "calculate_side_pots players =
     (if players = [] then []
      else
        let sorted_players = sort_key pc_committed_this_hand players;
            raw_pots = layers sorted_players 0 sorted_players;
            merged = merge_dead_pots raw_pots
        in map pot_of (List.enumerate 0 merged))"


section \<open>Layers by their levels\<close>

abbreviation committed :: "PlayerContribution \<Rightarrow> int" where
  "committed \<equiv> pc_committed_this_hand"

definition live_player :: "PlayerContribution \<Rightarrow> bool" where
  "live_player p \<longleftrightarrow> \<not> pc_has_folded p \<and> pc_reached_showdown p"

text \<open>The bounds of the layers: \<open>(previous_level, current_level)\<close>.\<close>

fun bounds :: "int \<Rightarrow> PlayerContribution list \<Rightarrow> (int \<times> int) list" where
  "bounds lo [] = []"
| "bounds lo (p # ps) = (if committed p \<le> lo then bounds lo ps else (lo, committed p) # bounds (committed p) ps)"

lemma layers_bounds: "layers all lo ps = map (\<lambda>(l, h). layer all l h) (bounds lo ps)"
  by (induction lo ps rule: bounds.induct) (auto simp: Let_def)

lemma bounds_lower: "(l, h) \<in> set (bounds lo ps) \<Longrightarrow> lo \<le> l \<and> l < h"
  by (induction lo ps rule: bounds.induct) (auto split: if_splits)

lemma bounds_sorted: "sorted (map fst (bounds lo ps))"
  by (induction lo ps rule: bounds.induct) (auto dest: bounds_lower)

lemma bounds_gap:
  assumes "(l, h) \<in> set (bounds lo ps)" and "sorted (map committed ps)" and "q \<in> set ps" and "l < committed q"
  shows "h \<le> committed q"
  using assms
proof (induction lo ps rule: bounds.induct)
  case (1 lo)
  then show ?case by simp
next
  case (2 lo p ps)
  show ?case
  proof (cases "committed p \<le> lo")
    case True
    with 2 bounds_lower [of l h lo ps] show ?thesis by (auto split: if_splits)
  next
    case False
    with 2 bounds_lower [of l h "committed p" ps] show ?thesis by (auto split: if_splits)
  qed
qed

lemma bounds_hi: "(l, h) \<in> set (bounds lo ps) \<Longrightarrow> \<exists>q \<in> set ps. h = committed q"
  by (induction lo ps rule: bounds.induct) (auto split: if_splits)

lemma bounds_first: "p \<in> set ps \<Longrightarrow> lo < committed p \<Longrightarrow> \<exists>h. (lo, h) \<in> set (bounds lo ps)"
  by (induction lo ps rule: bounds.induct) (auto split: if_splits)

lemma bounds_next:
  assumes "(l, h) \<in> set (bounds lo ps)" and "sorted (map committed ps)" and "q \<in> set ps" and "h < committed q"
  shows "\<exists>h'. (h, h') \<in> set (bounds lo ps)"
  using assms
proof (induction lo ps rule: bounds.induct)
  case (1 lo)
  then show ?case by simp
next
  case (2 lo p ps)
  show ?case
  proof (cases "committed p \<le> lo")
    case True
    with 2 bounds_lower [of l h lo ps] show ?thesis by (auto split: if_splits)
  next
    case False
    with 2 bounds_lower [of l h "committed p" ps] bounds_first [of q ps "committed p"] show ?thesis
      by (auto split: if_splits)
  qed
qed

definition layer_amount :: "PlayerContribution list \<Rightarrow> int \<times> int \<Rightarrow> int" where
  "layer_amount all lh = (snd lh - fst lh) * int (length (filter (\<lambda>p. committed p > fst lh) all))"

lemma raw_amount_layer: "raw_amount (layer all l h) = layer_amount all (l, h)"
  by (simp add: layer_def layer_amount_def Let_def)

text \<open>
  The layers below a level \<open>t\<close> that is somebody's commitment (or above all) hold what
  everybody committed up to \<open>t\<close>.
\<close>

lemma layers_below:
  assumes "all = ys @ ps" and "sorted (map committed all)" and "\<And>y. y \<in> set ys \<Longrightarrow> committed y \<le> lo"
    and "t \<in> committed ` set all \<or> (\<forall>q \<in> set all. committed q \<le> t)"
  shows "sum_list (map (layer_amount all) (filter (\<lambda>lh. fst lh < t) (bounds lo ps))) =
    sum_list (map (\<lambda>q. max 0 (min (committed q) t - lo)) all)"
  using assms
proof (induction lo ps arbitrary: ys rule: bounds.induct)
  case (1 lo)
  have "max 0 (min (committed q) t - lo) = 0" if "q \<in> set all" for q
    using 1(3) [of q] 1(1) that by simp
  then have "map (\<lambda>q. max 0 (min (committed q) t - lo)) all = map (\<lambda>q. 0) all" by simp
  then show ?case by (simp only:) simp
next
  case (2 lo p ps)
  have all: "all = (ys @ [p]) @ ps" using 2(3) by simp
  show ?case
  proof (cases "committed p \<le> lo")
    case True
    have "\<And>y. y \<in> set (ys @ [p]) \<Longrightarrow> committed y \<le> lo" using True 2(5) by auto
    from 2(1) [OF True all 2(4) this 2(6)] True show ?thesis by simp
  next
    case False
    then have lo: "lo < committed p" by simp
    have sorted: "committed p \<le> committed q" if "q \<in> set ps" for q
      using 2(3,4) that by (auto simp: sorted_append)
    have above: "committed p \<le> committed q" if "q \<in> set all" "lo < committed q" for q
      using that 2(3,5) sorted by fastforce
    have ys: "\<And>y. y \<in> set (ys @ [p]) \<Longrightarrow> committed y \<le> committed p"
      using 2(5) lo by fastforce
    note IH = 2(2) [OF False all 2(4) ys 2(6)]
    show ?thesis
    proof (cases "lo < t")
      case True
      with above have t: "committed p \<le> t" using 2(6) 2(3) by fastforce
      have "layer_amount all (lo, committed p) =
          sum_list (map (\<lambda>q. if lo < committed q then committed p - lo else 0) all)"
        using length_filter_sum [of "\<lambda>q. lo < committed q" all "committed p - lo"]
        by (simp add: layer_amount_def mult.commute)
      then have "layer_amount all (lo, committed p) + sum_list (map (\<lambda>q. max 0 (min (committed q) t - committed p)) all) =
          sum_list (map (\<lambda>q. (if lo < committed q then committed p - lo else 0) +
            max 0 (min (committed q) t - committed p)) all)"
        by (simp add: sum_list_map_add)
      also have "\<dots> = sum_list (map (\<lambda>q. max 0 (min (committed q) t - lo)) all)"
        using above t lo by (intro arg_cong [of _ _ sum_list] map_cong refl) fastforce
      finally show ?thesis using IH False True by simp
    next
      case ge: False
      have "filter (\<lambda>lh. fst lh < t) (bounds (committed p) ps) = []"
        using ge lo bounds_lower by (fastforce simp: filter_empty_conv)
      moreover have "max 0 (min (committed q) t - lo) = 0" for q using ge by simp
      ultimately show ?thesis using False ge by simp
    qed
  qed
qed


corollary layers_up_to:
  assumes "sorted (map committed all)" and "t \<in> committed ` set all \<or> (\<forall>q \<in> set all. committed q \<le> t)"
  shows "sum_list (map (layer_amount all) (filter (\<lambda>lh. fst lh < t) (bounds 0 all))) =
    sum_list (map (\<lambda>q. max 0 (min (committed q) t)) all)"
  using layers_below [of all "[]" all 0 t] assms by simp

lemma layer_positive:
  assumes "(l, h) \<in> set (bounds 0 all)"
  shows "0 < raw_amount (layer all l h)"
proof -
  from bounds_hi [OF assms] obtain q where "q \<in> set all" "h = committed q" by blast
  with bounds_lower [OF assms] have "filter (\<lambda>p. committed p > l) all \<noteq> []" by (auto simp: filter_empty_conv)
  with bounds_lower [OF assms] show ?thesis by (simp add: raw_amount_layer layer_amount_def)
qed

lemma raw_eligible_layer:
  "raw_eligible (layer all l h) = map pc_player_id (filter (\<lambda>p. live_player p \<and> l < committed p) all)"
  by (simp add: layer_def Let_def live_player_def conj_commute)


section \<open>Merging\<close>

definition total_raw :: "RawPot list \<Rightarrow> int" where
  "total_raw ps = sum_list (map raw_amount ps)"

lemma merge_loop_total:
  "merge_loop res ca cc pots = (res', ca', cc') \<Longrightarrow> total_raw res' + ca' = total_raw res + ca + total_raw pots"
  by (induction res ca cc pots rule: merge_loop.induct) (auto simp: Let_def total_raw_def split: if_splits)

lemma merge_loop_nonneg:
  "merge_loop res ca cc pots = (res', ca', cc') \<Longrightarrow> 0 \<le> ca \<Longrightarrow> (\<And>p. p \<in> set pots \<Longrightarrow> 0 \<le> raw_amount p) \<Longrightarrow> 0 \<le> ca'"
  by (induction res ca cc pots rule: merge_loop.induct) (auto simp: Let_def split: if_splits)

lemma total_butlast: "res \<noteq> [] \<Longrightarrow> total_raw (butlast res) + raw_amount (last res) = total_raw res"
  by (induction res) (auto simp: total_raw_def)

lemma merge_total:
  assumes "\<And>p. p \<in> set pots \<Longrightarrow> 0 \<le> raw_amount p"
  shows "total_raw (merge_dead_pots pots) = total_raw pots"
proof -
  obtain res ca cc where m: "merge_loop [] 0 [] pots = (res, ca, cc)" by (cases "merge_loop [] 0 [] pots") auto
  have "total_raw res + ca = total_raw pots" using merge_loop_total [OF m] by (simp add: total_raw_def)
  moreover have "0 \<le> ca" using merge_loop_nonneg [OF m] assms by simp
  ultimately show ?thesis
    using m total_butlast [of res] by (auto simp: merge_dead_pots_def Let_def) (auto simp: total_raw_def)
qed

text \<open>
  The dead layers are those above the last live level, so the merge sees live layers
  first: it keeps them and gives the rest to the last one.
\<close>

definition unique_pot :: "RawPot \<Rightarrow> RawPot" where
  "unique_pot p = p\<lparr>raw_contributors := unique_ordered (raw_contributors p)\<rparr>"

lemma unique_pot_eq: "unique_pot p = \<lparr>raw_amount = raw_amount p,
    raw_contributors = unique_ordered (raw_contributors p), raw_eligible = raw_eligible p\<rparr>"
  by (cases p) (simp add: unique_pot_def)

lemma merge_loop_live:
  "\<forall>p \<in> set L. raw_eligible p \<noteq> [] \<Longrightarrow> merge_loop res 0 [] (L @ D) = merge_loop (res @ map unique_pot L) 0 [] D"
  by (induction L arbitrary: res) (auto simp: Let_def unique_pot_eq)

lemma merge_loop_dead:
  "\<forall>p \<in> set D. raw_eligible p = [] \<Longrightarrow> \<exists>cc'. merge_loop res ca cc D = (res, ca + total_raw D, cc')"
proof (induction D arbitrary: ca cc)
  case Nil
  then show ?case by (simp add: total_raw_def)
next
  case (Cons p D)
  then obtain cc' where "merge_loop res (raw_amount p + ca) (unique_ordered (cc @ raw_contributors p)) D =
      (res, raw_amount p + ca + total_raw D, cc')" by fastforce
  with Cons.prems show ?case by (simp add: Let_def total_raw_def algebra_simps)
qed

definition share :: "player_id \<Rightarrow> RawPot list \<Rightarrow> int" where
  "share w ps = sum_list (map (\<lambda>p. if w \<in> set (raw_eligible p) then raw_amount p else 0) ps)"

lemma share_append [simp]: "share w (xs @ ys) = share w xs + share w ys"
  by (simp add: share_def)

lemma share_Nil [simp]: "share w [] = 0"
  by (simp add: share_def)

lemma share_unique: "share w (map unique_pot L) = share w L"
  by (induction L) (auto simp: share_def unique_pot_def)

lemma share_merge:
  assumes "\<forall>p \<in> set L. raw_eligible p \<noteq> []" and "\<forall>p \<in> set D. raw_eligible p = []" and "L \<noteq> []"
    and "\<forall>p \<in> set D. 0 < raw_amount p"
  shows "share w (merge_dead_pots (L @ D)) =
    share w L + (if w \<in> set (raw_eligible (last L)) then total_raw D else 0)"
proof -
  from merge_loop_dead [OF assms(2), of "map unique_pot L" 0 "[]"] obtain cc where
    m: "merge_loop [] 0 [] (L @ D) = (map unique_pot L, total_raw D, cc)"
    using merge_loop_live [OF assms(1), of "[]" D] by auto
  have nn: "0 \<le> total_raw D" unfolding total_raw_def using assms(4) by (intro sum_list_map_nonneg) fastforce
  let ?l = "last (map unique_pot L)"
  have split: "share w (map unique_pot L) = share w (butlast (map unique_pot L)) + share w [?l]"
    using assms(3) by (metis append_butlast_last_id map_is_Nil_conv share_append)
  have "raw_eligible ?l = raw_eligible (last L)" using assms(3) by (simp add: last_map unique_pot_def)
  with nn split show ?thesis
    using assms(3) m share_unique [of w L]
    by (cases "total_raw D > 0") (auto simp: merge_dead_pots_def Let_def share_def)
qed


section \<open>The pots of a hand\<close>

definition total_pots :: "Pot list \<Rightarrow> int" where
  "total_pots pots = sum_list (map pot_amount pots)"

definition winnable :: "player_id \<Rightarrow> Pot list \<Rightarrow> int" where
  "winnable w pots = sum_list (map (\<lambda>p. if w \<in> set (pot_eligible_winner_player_ids p) then pot_amount p else 0) pots)"

lemma pots_of_raw:
  "total_pots (map pot_of (List.enumerate n ps)) = total_raw ps"
  "winnable w (map pot_of (List.enumerate n ps)) = share w ps"
  by (induction ps arbitrary: n) (auto simp: total_pots_def total_raw_def winnable_def share_def pot_of_def)

definition raw_layers :: "PlayerContribution list \<Rightarrow> RawPot list" where
  "raw_layers players = (let all = sort_key committed players in map (\<lambda>(l, h). layer all l h) (bounds 0 all))"

lemma calculate_side_pots_raw:
  "calculate_side_pots players = map pot_of (List.enumerate 0 (merge_dead_pots (raw_layers players)))"
  by (simp add: calculate_side_pots_def raw_layers_def layers_bounds Let_def merge_dead_pots_def)

lemma raw_layers_positive: "p \<in> set (raw_layers players) \<Longrightarrow> 0 < raw_amount p"
  by (auto simp: raw_layers_def Let_def layer_positive)

lemma total_raw_layers: "total_raw (raw_layers players) = sum_list (map (\<lambda>p. max 0 (committed p)) players)"
proof -
  let ?all = "sort_key committed players"
  let ?t = "max_default 1 (map committed ?all)"
  have le: "committed q \<le> ?t" if "q \<in> set ?all" for q
    using that by (intro max_default_ge) simp
  have "filter (\<lambda>lh. fst lh < ?t) (bounds 0 ?all) = bounds 0 ?all"
    using bounds_lower bounds_hi le by (fastforce simp: filter_id_conv)
  moreover have "map (\<lambda>q. max 0 (min (committed q) ?t)) ?all = map (\<lambda>q. max 0 (committed q)) ?all"
    using le by (intro map_cong refl) (simp add: min_def)
  ultimately have "sum_list (map (layer_amount ?all) (bounds 0 ?all)) = sum_list (map (\<lambda>q. max 0 (committed q)) ?all)"
    using layers_up_to [of ?all ?t] le by (metis sorted_sort_key)
  moreover have "raw_amount (case lh of (l, h) \<Rightarrow> layer ?all l h) = layer_amount ?all lh" for lh
    by (cases lh) (simp add: raw_amount_layer)
  ultimately show ?thesis
    by (simp add: total_raw_def raw_layers_def comp_def sum_list_map_sort_key Let_def)
qed

lemma calculate_side_pots_total:
  "total_pots (calculate_side_pots players) = sum_list (map (\<lambda>p. max 0 (committed p)) players)"
  using merge_total [of "raw_layers players"] raw_layers_positive
  by (simp add: calculate_side_pots_raw pots_of_raw total_raw_layers less_imp_le)

definition top_live :: "PlayerContribution list \<Rightarrow> int" where
  "top_live players = max_default 0 (map committed (filter live_player players))"

lemma top_live_ge: "p \<in> set players \<Longrightarrow> live_player p \<Longrightarrow> committed p \<le> top_live players"
  unfolding top_live_def by (intro max_default_ge) auto

lemma top_live_attained: "p \<in> set players \<Longrightarrow> live_player p \<Longrightarrow>
    \<exists>q \<in> set players. live_player q \<and> committed q = top_live players"
proof -
  assume "p \<in> set players" "live_player p"
  then have "map committed (filter live_player players) \<noteq> []" by (auto simp: filter_empty_conv)
  from max_default_in [OF this, of 0] show ?thesis by (auto simp: top_live_def)
qed

lemma filter_lt_append: "sorted (map f xs) \<Longrightarrow> filter (\<lambda>x. f x < (c :: int)) xs @ filter (\<lambda>x. \<not> f x < c) xs = xs"
proof (induction xs)
  case Nil
  then show ?case by simp
next
  case (Cons a xs)
  then have "c \<le> f a \<Longrightarrow> filter (\<lambda>x. f x < c) (a # xs) = []" by (auto simp: filter_empty_conv)
  with Cons show ?case by (cases "f a < c") auto
qed

lemma raw_layers_split:
  assumes "w \<in> set players" and "live_player w" and "0 < committed w"
    and "all = sort_key committed players" and "M = top_live players"
    and "L = map (\<lambda>(l, h). layer all l h) (filter (\<lambda>lh. fst lh < M) (bounds 0 all))"
    and "D = map (\<lambda>(l, h). layer all l h) (filter (\<lambda>lh. \<not> fst lh < M) (bounds 0 all))"
  shows "raw_layers players = L @ D" and "\<forall>p \<in> set L. raw_eligible p \<noteq> []"
    and "\<forall>p \<in> set D. raw_eligible p = []" and "L \<noteq> []"
proof -
  from top_live_attained [OF assms(1,2)] assms(5) obtain m where
    m: "m \<in> set players" "live_player m" "committed m = M" by blast
  show "raw_layers players = L @ D"
    unfolding raw_layers_def Let_def assms(4,6,7) map_append [symmetric]
    using filter_lt_append [of fst "bounds 0 (sort_key committed players)" M] bounds_sorted by simp
  show "\<forall>p \<in> set L. raw_eligible p \<noteq> []"
    using m by (auto simp: assms(4,6) raw_eligible_layer filter_empty_conv)
  have "\<not> (live_player p \<and> l < committed p)" if "p \<in> set players" "\<not> l < M" for p l
    using top_live_ge [OF that(1)] that(2) assms(5) by auto
  then show "\<forall>p \<in> set D. raw_eligible p = []"
    by (auto simp: assms(4,7) raw_eligible_layer filter_empty_conv)
  have "0 < M" using top_live_ge [OF assms(1,2)] assms(3,5) by simp
  moreover obtain h where "(0, h) \<in> set (bounds 0 all)" using bounds_first [of w all 0] assms(1,3,4) by auto
  ultimately show "L \<noteq> []" unfolding assms(6) by (force simp: filter_empty_conv)
qed


lemma sorted_last_max: "sorted (map fst xs) \<Longrightarrow> (a, b) \<in> set xs \<Longrightarrow> last xs = (l, h) \<Longrightarrow> a \<le> (l :: int)"
proof (induction xs)
  case Nil
  then show ?case by simp
next
  case (Cons x xs)
  then have "xs \<noteq> [] \<Longrightarrow> (l, h) \<in> set xs" by (metis last.simps last_in_set)
  with Cons show ?case by (force split: if_splits)
qed

lemma eligible_for_layer:
  assumes "distinct (map pc_player_id players)" and "w \<in> set players" and "live_player w"
  shows "pc_player_id w \<in> set (raw_eligible (layer (sort_key committed players) l h)) \<longleftrightarrow> l < committed w"
proof -
  have only: "q = w" if "q \<in> set players" "pc_player_id q = pc_player_id w" for q
    using distinct_key_eq [OF assms(1) that(1) assms(2) that(2)] .
  have "pc_player_id w \<in> set (raw_eligible (layer (sort_key committed players) l h)) \<longleftrightarrow>
      (\<exists>q \<in> set players. pc_player_id q = pc_player_id w \<and> live_player q \<and> l < committed q)"
    unfolding raw_eligible_layer by (rule iffI) (clarsimp, metis, clarsimp simp: image_iff, metis)
  also have "\<dots> \<longleftrightarrow> l < committed w" using only assms(2,3) by metis
  finally show ?thesis .
qed

lemma share_layers:
  assumes "distinct (map pc_player_id players)" and "w \<in> set players" and "live_player w"
    and "all = sort_key committed players"
  shows "share (pc_player_id w) (map (\<lambda>(l, h). layer all l h) bs) =
    sum_list (map (layer_amount all) (filter (\<lambda>lh. fst lh < committed w) bs))"
  unfolding share_def assms(4)
  by (induction bs) (auto simp: eligible_for_layer [OF assms(1-3)] raw_amount_layer)

lemma winnable_exact:
  assumes "distinct (map pc_player_id players)" and "w \<in> set players" and "live_player w" and "0 < committed w"
  shows "winnable (pc_player_id w) (calculate_side_pots players) =
    sum_list (map (\<lambda>q. max 0 (min (committed q) (committed w))) players) +
    (if committed w = top_live players
     then sum_list (map (\<lambda>q. max 0 (committed q - committed w)) players) else 0)"
proof -
  define all where "all = sort_key committed players"
  define M where "M = top_live players"
  define B where "B = filter (\<lambda>lh. fst lh < M) (bounds 0 all)"
  define L where "L = map (\<lambda>(l, h). layer all l h) B"
  define D where "D = map (\<lambda>(l, h). layer all l h) (filter (\<lambda>lh. \<not> fst lh < M) (bounds 0 all))"
  note split = raw_layers_split [OF assms(2-4) all_def M_def L_def [unfolded B_def] D_def]
  have sorted: "sorted (map committed all)" by (simp add: all_def)
  have wM: "committed w \<le> M" using top_live_ge [OF assms(2,3)] by (simp add: M_def)
  have below: "sum_list (map (layer_amount all) (filter (\<lambda>lh. fst lh < committed q) (bounds 0 all))) =
      sum_list (map (\<lambda>p. max 0 (min (committed p) (committed q))) players)" if "q \<in> set players" for q
    using layers_up_to [OF sorted] that sum_list_map_sort_key by (simp add: all_def)
  have "filter (\<lambda>lh. fst lh < committed w) B = filter (\<lambda>lh. fst lh < committed w) (bounds 0 all)"
    unfolding B_def filter_filter using wM by (intro filter_cong) auto
  then have share_L: "share (pc_player_id w) L = sum_list (map (\<lambda>q. max 0 (min (committed q) (committed w))) players)"
    unfolding L_def share_layers [OF assms(1-3) all_def] using below [OF assms(2)] by simp
  from top_live_attained [OF assms(2,3)] obtain m where m: "m \<in> set players" "committed m = M"
    by (auto simp: M_def)
  have "total_raw L = sum_list (map (layer_amount all) B)"
    unfolding total_raw_def L_def by (induction B) (auto simp: raw_amount_layer)
  then have "total_raw L = sum_list (map (\<lambda>q. max 0 (min (committed q) M)) players)"
    using below [OF m(1)] m(2) by (simp add: B_def)
  moreover have "max 0 (committed q) = max 0 (min (committed q) M) + max 0 (committed q - M)" for q
    using wM assms(4) by simp
  then have "sum_list (map (\<lambda>q. max 0 (committed q)) players) =
      sum_list (map (\<lambda>q. max 0 (min (committed q) M)) players) + sum_list (map (\<lambda>q. max 0 (committed q - M)) players)"
    by (simp add: sum_list_map_add [symmetric])
  ultimately have D: "total_raw D = sum_list (map (\<lambda>q. max 0 (committed q - M)) players)"
    using total_raw_layers [of players] split(1) by (simp add: total_raw_def)
  obtain l h where lh: "last B = (l, h)" by (cases "last B")
  have "B \<noteq> []" using split(4) by (auto simp: L_def)
  with lh have in_B: "(l, h) \<in> set B" by (metis last_in_set)
  have "sorted (map fst B)" unfolding B_def using bounds_sorted by (simp add: sorted_filter)
  note maximal = sorted_last_max [OF this _ lh]
  have "pc_player_id w \<in> set (raw_eligible (last L)) \<longleftrightarrow> l < committed w"
    using \<open>B \<noteq> []\<close> lh eligible_for_layer [OF assms(1-3)] by (simp add: L_def last_map all_def)
  also have "\<dots> \<longleftrightarrow> committed w = M"
  proof
    assume "l < committed w"
    then have h: "h \<le> committed w" using bounds_gap [OF _ sorted, of l h 0 w] in_B assms(2) by (simp add: B_def all_def)
    show "committed w = M"
    proof (rule ccontr)
      assume "committed w \<noteq> M"
      with h wM have "h < M" by simp
      with bounds_next [OF _ sorted, of l h 0 m] in_B m obtain h' where "(h, h') \<in> set B" by (auto simp: B_def all_def)
      from maximal [OF this] bounds_lower [of l h 0 all] in_B show False by (simp add: B_def)
    qed
  qed (use in_B in \<open>simp add: B_def\<close>)
  finally have "pc_player_id w \<in> set (raw_eligible (last L)) \<longleftrightarrow> committed w = M" .
  then show ?thesis
    using share_merge [OF split(2,3,4), of "pc_player_id w"] raw_layers_positive [of _ players] split(1) share_L D
    by (auto simp: calculate_side_pots_raw pots_of_raw M_def)
qed


section \<open>Well-formed pots\<close>

definition merged_ok :: "PlayerContribution list \<Rightarrow> RawPot \<Rightarrow> bool" where
  "merged_ok players p \<longleftrightarrow> 0 < raw_amount p \<and>
     set (raw_eligible p) \<subseteq> pc_player_id ` {q \<in> set players. live_player q \<and> 0 < committed q} \<and>
     set (raw_contributors p) \<subseteq> pc_player_id ` {q \<in> set players. 0 < committed q}"

lemma raw_layers_ok:
  assumes "p \<in> set (raw_layers players)"
  shows "merged_ok players p"
proof -
  from assms obtain l h where lh: "(l, h) \<in> set (bounds 0 (sort_key committed players))"
    "p = layer (sort_key committed players) l h" by (auto simp: raw_layers_def Let_def)
  have "0 \<le> l" using bounds_lower [OF lh(1)] by simp
  then have "set (raw_eligible p) \<subseteq> pc_player_id ` {q \<in> set players. live_player q \<and> 0 < committed q}"
    unfolding lh(2) raw_eligible_layer by fastforce
  moreover have "set (raw_contributors p) \<subseteq> pc_player_id ` {q \<in> set players. 0 < committed q}"
    unfolding lh(2) using \<open>0 \<le> l\<close> by (fastforce simp: layer_def Let_def)
  ultimately show ?thesis using raw_layers_positive [OF assms] by (simp add: merged_ok_def)
qed

lemma set_unique_ordered [simp]: "set (unique_ordered xs) = set xs"
  by (simp add: unique_ordered_def set_unique_acc)

lemma merge_loop_ok:
  assumes "merge_loop res ca cc pots = (res', ca', cc')" and "\<forall>p \<in> set res \<union> set pots. merged_ok players p"
    and "0 \<le> ca" and "set cc \<subseteq> pc_player_id ` {q \<in> set players. 0 < committed q}"
  shows "(\<forall>p \<in> set res'. merged_ok players p) \<and> set cc' \<subseteq> pc_player_id ` {q \<in> set players. 0 < committed q}"
  using assms
proof (induction res ca cc pots rule: merge_loop.induct)
  case (1 res ca cc)
  then show ?case by simp
next
  case (2 res ca cc pot pots)
  then have pot: "merged_ok players pot" by simp
  show ?case
  proof (cases "raw_eligible pot = []")
    case True
    have "set (unique_ordered (cc @ raw_contributors pot)) \<subseteq> pc_player_id ` {q \<in> set players. 0 < committed q}"
      using 2(6) pot by (auto simp: merged_ok_def)
    moreover have "merge_loop res (raw_amount pot + ca) (unique_ordered (cc @ raw_contributors pot)) pots = (res', ca', cc')"
      using 2(3) True by (simp add: Let_def)
    moreover have "0 \<le> raw_amount pot + ca" using 2(5) pot by (simp add: merged_ok_def)
    ultimately show ?thesis using True 2(4) by (intro 2(2) [OF refl refl]) simp_all
  next
    case False
    have "merged_ok players \<lparr>raw_amount = raw_amount pot + ca,
        raw_contributors = unique_ordered (cc @ raw_contributors pot), raw_eligible = raw_eligible pot\<rparr>"
      using pot 2(5,6) by (auto simp: merged_ok_def)
    moreover have "merge_loop (res @ [\<lparr>raw_amount = raw_amount pot + ca,
        raw_contributors = unique_ordered (cc @ raw_contributors pot), raw_eligible = raw_eligible pot\<rparr>]) 0 [] pots =
        (res', ca', cc')"
      using 2(3) False by (simp add: Let_def)
    ultimately show ?thesis using 2(4) by (intro 2(1) [OF refl refl False]) simp_all
  qed
qed

lemma merge_ok:
  assumes "p \<in> set (merge_dead_pots (raw_layers players))"
  shows "merged_ok players p"
proof -
  obtain res ca cc where m: "merge_loop [] 0 [] (raw_layers players) = (res, ca, cc)"
    by (cases "merge_loop [] 0 [] (raw_layers players)") auto
  from merge_loop_ok [OF m, of players] raw_layers_ok [of _ players]
  have ok: "\<forall>p \<in> set res. merged_ok players p" "set cc \<subseteq> pc_player_id ` {q \<in> set players. 0 < committed q}"
    by simp_all
  have "merged_ok players p" if "p \<in> set (butlast res)" for p
    using ok(1) that by (metis in_set_butlastD)
  moreover have "merged_ok players \<lparr>raw_amount = raw_amount (last res) + ca,
      raw_contributors = unique_ordered (raw_contributors (last res) @ cc), raw_eligible = raw_eligible (last res)\<rparr>"
    if "res \<noteq> []" "0 < ca"
  proof -
    have "merged_ok players (last res)" using ok(1) that(1) by simp
    with that(2) ok(2) show ?thesis by (simp add: merged_ok_def)
  qed
  moreover have "merged_ok players \<lparr>raw_amount = ca, raw_contributors = cc, raw_eligible = []\<rparr>" if "0 < ca"
    using that ok(2) by (simp add: merged_ok_def)
  ultimately show ?thesis
    using assms m ok(1) by (auto simp: merge_dead_pots_def Let_def split: if_splits)
qed


text \<open>A live contributor of a pot is eligible for it; what is carried from dead pots has no live contributor.\<close>

definition live_eligible :: "PlayerContribution list \<Rightarrow> RawPot \<Rightarrow> bool" where
  "live_eligible players p \<longleftrightarrow> (\<forall>q \<in> set players. live_player q \<longrightarrow>
     pc_player_id q \<in> set (raw_contributors p) \<longrightarrow> pc_player_id q \<in> set (raw_eligible p))"

definition no_live :: "PlayerContribution list \<Rightarrow> player_id list \<Rightarrow> bool" where
  "no_live players ids \<longleftrightarrow> (\<forall>q \<in> set players. live_player q \<longrightarrow> pc_player_id q \<notin> set ids)"

lemma raw_layers_live_eligible:
  assumes "distinct (map pc_player_id players)" and "p \<in> set (raw_layers players)"
  shows "live_eligible players p"
  unfolding live_eligible_def
proof (intro ballI impI)
  fix q assume q: "q \<in> set players" "live_player q" "pc_player_id q \<in> set (raw_contributors p)"
  from assms(2) obtain l h where p: "p = layer (sort_key committed players) l h"
    by (auto simp: raw_layers_def Let_def)
  from q(3) obtain q' where q': "q' \<in> set players" "l < committed q'" "pc_player_id q' = pc_player_id q"
    unfolding p by (auto simp: layer_def Let_def)
  with distinct_key_eq [OF assms(1) q'(1) q(1)] have "l < committed q" by simp
  then show "pc_player_id q \<in> set (raw_eligible p)"
    unfolding p eligible_for_layer [OF assms(1) q(1,2)] .
qed

lemma merge_loop_live_eligible:
  assumes "merge_loop res ca cc pots = (res', ca', cc')" and "\<forall>p \<in> set res \<union> set pots. live_eligible players p"
    and "no_live players cc"
  shows "(\<forall>p \<in> set res'. live_eligible players p) \<and> no_live players cc'"
  using assms
proof (induction res ca cc pots rule: merge_loop.induct)
  case (1 res ca cc)
  then show ?case by simp
next
  case (2 res ca cc pot pots)
  then have pot: "live_eligible players pot" by simp
  show ?case
  proof (cases "raw_eligible pot = []")
    case True
    have "no_live players (unique_ordered (cc @ raw_contributors pot))"
      using 2(5) pot True by (auto simp: no_live_def live_eligible_def)
    moreover have "merge_loop res (raw_amount pot + ca) (unique_ordered (cc @ raw_contributors pot)) pots = (res', ca', cc')"
      using 2(3) True by (simp add: Let_def)
    ultimately show ?thesis using True 2(4) by (intro 2(2) [OF refl refl]) simp_all
  next
    case False
    have "live_eligible players \<lparr>raw_amount = raw_amount pot + ca,
        raw_contributors = unique_ordered (cc @ raw_contributors pot), raw_eligible = raw_eligible pot\<rparr>"
      using pot 2(5) by (auto simp: no_live_def live_eligible_def)
    moreover have "merge_loop (res @ [\<lparr>raw_amount = raw_amount pot + ca,
        raw_contributors = unique_ordered (cc @ raw_contributors pot), raw_eligible = raw_eligible pot\<rparr>]) 0 [] pots =
        (res', ca', cc')"
      using 2(3) False by (simp add: Let_def)
    ultimately show ?thesis using 2(4) by (intro 2(1) [OF refl refl False]) (simp_all add: no_live_def)
  qed
qed

lemma merge_live_eligible:
  assumes "distinct (map pc_player_id players)" and "p \<in> set (merge_dead_pots (raw_layers players))"
  shows "live_eligible players p"
proof -
  obtain res ca cc where m: "merge_loop [] 0 [] (raw_layers players) = (res, ca, cc)"
    by (cases "merge_loop [] 0 [] (raw_layers players)") auto
  from merge_loop_live_eligible [OF m, of players] raw_layers_live_eligible [OF assms(1)]
  have ok: "\<forall>p \<in> set res. live_eligible players p" "no_live players cc" by (simp_all add: no_live_def)
  have "live_eligible players p" if "p \<in> set (butlast res)" for p
    using ok(1) that by (metis in_set_butlastD)
  moreover have "live_eligible players \<lparr>raw_amount = raw_amount (last res) + ca,
      raw_contributors = unique_ordered (raw_contributors (last res) @ cc), raw_eligible = raw_eligible (last res)\<rparr>"
    if "res \<noteq> []"
    using ok(1) [rule_format, of "last res"] that ok(2) by (auto simp: live_eligible_def no_live_def)
  moreover have "live_eligible players \<lparr>raw_amount = ca, raw_contributors = cc, raw_eligible = []\<rparr>"
    using ok(2) by (auto simp: live_eligible_def no_live_def)
  ultimately show ?thesis
    using assms(2) m ok(1) by (auto simp: merge_dead_pots_def Let_def split: if_splits)
qed


section \<open>The interface\<close>

text \<open>
  What settlement relies on: the pots are numbered from 0, hold exactly the chips
  committed, and only live players who put chips in can win them.
\<close>

locale pot_calculator =
  fixes pots_of :: "PlayerContribution list \<Rightarrow> Pot list"
  assumes conserves: "total_pots (pots_of players) = sum_list (map (\<lambda>p. max 0 (committed p)) players)"
    and indices: "map pot_index (pots_of players) = map int [0..<length (pots_of players)]"
    and positive: "p \<in> set (pots_of players) \<Longrightarrow> 0 < pot_amount p"
    and eligible: "p \<in> set (pots_of players) \<Longrightarrow> w \<in> set (pot_eligible_winner_player_ids p) \<Longrightarrow>
      \<exists>q \<in> set players. pc_player_id q = w \<and> live_player q \<and> 0 < committed q"
    and live_contributor: "distinct (map pc_player_id players) \<Longrightarrow> p \<in> set (pots_of players) \<Longrightarrow>
      q \<in> set players \<Longrightarrow> live_player q \<Longrightarrow> pc_player_id q \<in> set (pot_contributor_player_ids p) \<Longrightarrow>
      pc_player_id q \<in> set (pot_eligible_winner_player_ids p)"
    and contributor: "p \<in> set (pots_of players) \<Longrightarrow> w \<in> set (pot_contributor_player_ids p) \<Longrightarrow>
      \<exists>q \<in> set players. pc_player_id q = w \<and> 0 < committed q"
begin

lemma distinct_indices: "distinct (map pot_index (pots_of players))"
  unfolding indices by (simp add: distinct_map)

lemma pot_at_index:
  assumes "p \<in> set (pots_of players)" and "q \<in> set (pots_of players)" and "pot_index p = pot_index q"
  shows "p = q"
  using distinct_key_eq [OF distinct_indices assms] .

text \<open>
  Claims on distinct pots, each within a weight of its pot, together stay within the
  weights of all pots; with the amount as weight, within the chips committed.
\<close>

lemma claims_weighted:
  fixes g :: "Pot \<Rightarrow> int"
  assumes "distinct (map fst claims)" and "\<And>p. p \<in> set (pots_of players) \<Longrightarrow> 0 \<le> g p"
    and "\<And>i n. (i, n) \<in> set claims \<Longrightarrow> \<exists>p \<in> set (pots_of players). pot_index p = i \<and> n \<le> g p"
  shows "sum_list (map snd claims) \<le> sum_list (map g (pots_of players))"
proof -
  define amt where "amt i = sum_list (map (\<lambda>p. if pot_index p = i then g p else 0) (pots_of players))" for i
  have amt: "amt (pot_index p) = g p" if "p \<in> set (pots_of players)" for p
    using sum_list_if_key [OF distinct_indices, where a = "pot_index p" and f = g and g = "\<lambda>_. 0"]
      find_key_unique [OF distinct_indices that refl] by (simp add: amt_def)
  have nonneg: "0 \<le> amt i" for i
    unfolding amt_def using assms(2) by (intro sum_list_map_nonneg) auto
  have le: "n \<le> amt i" if "(i, n) \<in> set claims" for i n
    using assms(3) [OF that] amt by auto
  have "sum_list (map snd claims) \<le> sum_list (map (\<lambda>c. amt (fst c)) claims)"
    using le by (intro sum_list_mono2) auto
  also have "\<dots> = sum amt (fst ` set claims)"
    using sum_list_distinct_conv_sum_set [OF assms(1), of amt] by (simp add: comp_def)
  also have "\<dots> \<le> sum amt (pot_index ` set (pots_of players))"
    using assms(3) nonneg by (intro sum_mono2) force+
  also have "\<dots> = sum_list (map amt (map pot_index (pots_of players)))"
    using sum_list_distinct_conv_sum_set [OF distinct_indices, of amt players] by simp
  also have "\<dots> = sum_list (map g (pots_of players))"
    unfolding map_map using amt by (intro arg_cong [of _ _ sum_list] map_cong) simp_all
  finally show ?thesis .
qed

lemma claims_within:
  assumes "distinct (map fst claims)"
    and "\<And>i n. (i, n) \<in> set claims \<Longrightarrow> \<exists>p \<in> set (pots_of players). pot_index p = i \<and> n \<le> pot_amount p"
  shows "sum_list (map snd claims) \<le> sum_list (map (\<lambda>p. max 0 (committed p)) players)"
  using claims_weighted [OF assms(1), of players pot_amount] assms(2) positive conserves [of players]
  by (simp add: less_imp_le total_pots_def)

lemma claims_winnable:
  assumes "distinct (map fst claims)"
    and "\<And>i n. (i, n) \<in> set claims \<Longrightarrow> \<exists>p \<in> set (pots_of players). pot_index p = i \<and>
      n \<le> (if w \<in> set (pot_eligible_winner_player_ids p) then pot_amount p else 0)"
  shows "sum_list (map snd claims) \<le> winnable w (pots_of players)"
  unfolding winnable_def using assms positive by (intro claims_weighted) (auto simp: less_imp_le)

end

lemma map_pot_of:
  "map pot_index (map pot_of (List.enumerate n ps)) = map int [n..<n + length ps]"
  by (induction ps arbitrary: n) (auto simp: pot_of_def upt_conv_Cons simp del: upt_Suc)

lemma in_calculated:
  assumes "p \<in> set (calculate_side_pots players)"
  obtains q where "q \<in> set (merge_dead_pots (raw_layers players))" "pot_amount p = raw_amount q"
    "pot_eligible_winner_player_ids p = raw_eligible q" "pot_contributor_player_ids p = raw_contributors q"
proof -
  from assms obtain i where "i < length (merge_dead_pots (raw_layers players))"
    "p = pot_of (i, merge_dead_pots (raw_layers players) ! i)"
    by (auto simp: calculate_side_pots_raw in_set_enumerate_eq)
  then show ?thesis by (intro that [of "merge_dead_pots (raw_layers players) ! i"]) (simp_all add: pot_of_def)
qed

interpretation side_pots: pot_calculator calculate_side_pots
proof
  fix players p w pl
  show "total_pots (calculate_side_pots players) = sum_list (map (\<lambda>p. max 0 (committed p)) players)"
    by (rule calculate_side_pots_total)
  show "map pot_index (calculate_side_pots players) = map int [0..<length (calculate_side_pots players)]"
    using map_pot_of [of 0] by (simp add: calculate_side_pots_raw del: map_map)
  assume p: "p \<in> set (calculate_side_pots players)"
  then obtain q where q: "q \<in> set (merge_dead_pots (raw_layers players))" "pot_amount p = raw_amount q"
    "pot_eligible_winner_player_ids p = raw_eligible q" "pot_contributor_player_ids p = raw_contributors q"
    by (rule in_calculated)
  show "w \<in> set (pot_contributor_player_ids p) \<Longrightarrow> \<exists>q \<in> set players. pc_player_id q = w \<and> 0 < committed q"
    using q(4) merge_ok [OF q(1)] by (auto simp: merged_ok_def)
  show "distinct (map pc_player_id players) \<Longrightarrow> pl \<in> set players \<Longrightarrow> live_player pl \<Longrightarrow>
      pc_player_id pl \<in> set (pot_contributor_player_ids p) \<Longrightarrow> pc_player_id pl \<in> set (pot_eligible_winner_player_ids p)"
    using q(3,4) merge_live_eligible [OF _ q(1)] by (simp add: live_eligible_def)
  from q merge_ok [OF q(1)] show "0 < pot_amount p" by (simp add: merged_ok_def)
  assume "w \<in> set (pot_eligible_winner_player_ids p)"
  with q(3) merge_ok [OF q(1)] show "\<exists>q \<in> set players. pc_player_id q = w \<and> live_player q \<and> 0 < committed q"
    by (auto simp: merged_ok_def)
qed


section \<open>Properties\<close>

text \<open>
  C14: no chip is lost or made. The side pots of any list of contributions add up to
  exactly the chips committed (a non-positive commitment counts as none).
\<close>

theorem side_pots_conserve_chips:
  "sum_list (map pot_amount (calculate_side_pots players)) = sum_list (map (\<lambda>p. max 0 (pc_committed_this_hand p)) players)"
  using side_pots.conserves by (simp add: total_pots_def)

text \<open>
  C13: what a player can win. A live player who put \<open>c\<close> chips in is eligible for pots that
  together hold exactly \<open>min c c'\<close> from every player who put in \<open>c'\<close>; the live player with the
  largest commitment can in addition win whatever anybody put in above it.
\<close>

theorem side_pots_winnable:
  assumes "distinct (map pc_player_id players)" and "w \<in> set players"
    and "\<not> pc_has_folded w" and "pc_reached_showdown w" and "0 < pc_committed_this_hand w"
  shows "winnable (pc_player_id w) (calculate_side_pots players) =
    sum_list (map (\<lambda>q. max 0 (min (pc_committed_this_hand q) (pc_committed_this_hand w))) players) +
    (if pc_committed_this_hand w = top_live players
     then sum_list (map (\<lambda>q. max 0 (pc_committed_this_hand q - pc_committed_this_hand w)) players) else 0)"
  using winnable_exact [OF assms(1,2) _ assms(5)] assms(3,4) by (simp add: live_player_def)

definition example_contributions :: "PlayerContribution list" where
  "example_contributions =
    [\<lparr>pc_player_id = ''a'', pc_committed_this_hand = 50, pc_has_folded = False, pc_reached_showdown = True\<rparr>,
     \<lparr>pc_player_id = ''b'', pc_committed_this_hand = 120, pc_has_folded = True, pc_reached_showdown = False\<rparr>,
     \<lparr>pc_player_id = ''c'', pc_committed_this_hand = 100, pc_has_folded = False, pc_reached_showdown = True\<rparr>]"

theorem side_pots_winnable_witness:
  "winnable ''a'' (calculate_side_pots example_contributions) = 150 \<and>
   winnable ''c'' (calculate_side_pots example_contributions) = 270"
proof -
  have d: "distinct (map pc_player_id example_contributions)" by code_simp
  have top: "top_live example_contributions = 100" by code_simp
  have "example_contributions ! 0 \<in> set example_contributions" "example_contributions ! 2 \<in> set example_contributions"
    by (simp_all add: example_contributions_def)
  from this [THEN side_pots_winnable [OF d]] top show ?thesis by (simp add: example_contributions_def)
qed

text \<open>
  The pots are well-formed. Pots are numbered consecutively from 0, each holds chips,
  and whoever is listed as able to win one is a player who has not folded, reached
  showdown and put chips in; contributors have put chips in.
\<close>

theorem side_pots_well_formed:
  "map pot_index (calculate_side_pots players) = map int [0..<length (calculate_side_pots players)] \<and>
   (\<forall>p \<in> set (calculate_side_pots players). 0 < pot_amount p \<and>
      set (pot_eligible_winner_player_ids p) \<subseteq>
        pc_player_id ` {q \<in> set players. \<not> pc_has_folded q \<and> pc_reached_showdown q \<and> 0 < pc_committed_this_hand q} \<and>
      set (pot_contributor_player_ids p) \<subseteq> pc_player_id ` {q \<in> set players. 0 < pc_committed_this_hand q})"
proof (intro conjI ballI)
  fix p assume "p \<in> set (calculate_side_pots players)"
  then obtain q where q: "q \<in> set (merge_dead_pots (raw_layers players))" "pot_amount p = raw_amount q"
    "pot_eligible_winner_player_ids p = raw_eligible q" "pot_contributor_player_ids p = raw_contributors q"
    by (rule in_calculated)
  from merge_ok [OF q(1)] q(2-) show "0 < pot_amount p"
    "set (pot_eligible_winner_player_ids p) \<subseteq>
      pc_player_id ` {q \<in> set players. \<not> pc_has_folded q \<and> pc_reached_showdown q \<and> 0 < committed q}"
    "set (pot_contributor_player_ids p) \<subseteq> pc_player_id ` {q \<in> set players. 0 < committed q}"
    by (simp_all add: merged_ok_def live_player_def conj_assoc)
qed (rule side_pots.indices)

theorem side_pots_well_formed_witness:
  "list_all (\<lambda>p. 0 < pot_amount p) (calculate_side_pots example_contributions)"
  using side_pots_well_formed [of example_contributions] by (simp add: list_all_iff)

end
