(* ===== verification/Payout_Validation.thy ===== *)
theory Payout_Validation
  imports Models Side_Pots
begin

text \<open>
  \<^verbatim>\<open>domain/engine/payout_validation.py\<close>: the payouts a dealer submits against the side
  pots computed from the rows. The submitted dictionaries are the records of the request
  (\<^verbatim>\<open>WinnerShare\<close>, \<^verbatim>\<open>PotPayout\<close> of \<^verbatim>\<open>shared/schemas/games.py\<close>).
\<close>

section \<open>Data\<close>

record WinnerShare =
  ws_player_id :: player_id
  ws_amount :: int

record PotPayout =
  px_pot_index :: int
  px_pot_type :: string
  px_amount :: int
  px_winners :: "WinnerShare list"

definition winners_total :: "PotPayout \<Rightarrow> int" where
  "winners_total px = sum_list (map ws_amount (px_winners px))"


section \<open>The validation\<close>

definition contribution_of :: "RoundPlayer \<Rightarrow> PlayerContribution" where
  "contribution_of rp =
     \<lparr>pc_player_id = rp_player_id rp, pc_committed_this_hand = rp_committed_this_hand rp,
      pc_has_folded = rp_has_folded rp,
      pc_reached_showdown = (\<not> rp_has_folded rp \<and> rp_is_active_in_hand rp)\<rparr>"

definition no_such_pot :: "int \<Rightarrow> error" where
  "no_such_pot idx = DomainError PayoutMismatch
     (''Submitted pot_index '' @ str_int idx @ '' does not exist in the computed pot structure'')"

definition pot_exceeded :: "int \<Rightarrow> int \<Rightarrow> int \<Rightarrow> error" where
  "pot_exceeded idx submitted_total amount = DomainError PayoutExceedsPot
     (''Pot '' @ str_int idx @ '' payout ('' @ str_int submitted_total @ '') exceeds computed pot ('' @
      str_int amount @ '')'')"

definition not_eligible :: "player_id \<Rightarrow> int \<Rightarrow> error" where
  "not_eligible pid idx = DomainError PayoutMismatch
     (''Player '' @ pid @ '' is not eligible to win pot '' @ str_int idx)"

definition check_submitted :: "(int \<times> Pot) list \<Rightarrow> PotPayout \<Rightarrow> unit result" where
  "check_submitted computed_map submitted =
     (let idx = px_pot_index submitted in
      case dict_get computed_map idx of
        None \<Rightarrow> Inl (no_such_pot idx)
      | Some computed \<Rightarrow>
          let submitted_total = winners_total submitted in
          if submitted_total > pot_amount computed
            then Inl (pot_exceeded idx submitted_total (pot_amount computed))
          else check_all (\<lambda>w. raise_if (ws_player_id w \<notin> set (pot_eligible_winner_player_ids computed))
                 (not_eligible (ws_player_id w) idx)) (px_winners submitted))"

definition validate_payouts_against_side_pots ::
    "RoundPlayer list \<Rightarrow> PotPayout list \<Rightarrow> int \<Rightarrow> Pot list result" where
  "validate_payouts_against_side_pots round_players submitted_payouts total_pot =
     (let computed_pots = calculate_side_pots (map contribution_of round_players) in
      if computed_pots = [] then Inr computed_pots
      else
        let computed_map = foldl (\<lambda>m p. dict_set (pot_index p) p m) [] computed_pots in
        bindE (check_all (check_submitted computed_map) submitted_payouts) (\<lambda>_. Inr computed_pots))"


section \<open>Lemmas\<close>

lemma foldl_dict_set:
  assumes "distinct (map k xs)"
  shows "dict_get (foldl (\<lambda>m x. dict_set (k x) x m) m xs) i =
    (case List.find (\<lambda>x. k x = i) xs of Some x \<Rightarrow> Some x | None \<Rightarrow> dict_get m i)"
  using assms
proof (induction xs arbitrary: m)
  case Nil
  then show ?case by simp
next
  case (Cons x xs)
  then have "k x = i \<Longrightarrow> List.find (\<lambda>x. k x = i) xs = None" by (auto simp: find_None_mem image_iff)
  with Cons show ?case by (auto split: option.splits)
qed

text \<open>What a valid submission for one pot is.\<close>

definition payout_ok :: "Pot list \<Rightarrow> PotPayout \<Rightarrow> bool" where
  "payout_ok pots px \<longleftrightarrow> (\<exists>p \<in> set pots. pot_index p = px_pot_index px \<and> winners_total px \<le> pot_amount p \<and>
     (\<forall>w \<in> set (px_winners px). ws_player_id w \<in> set (pot_eligible_winner_player_ids p)))"

lemma validate_ok_iff:
  assumes "pots = calculate_side_pots (map contribution_of rps)"
  shows "validate_payouts_against_side_pots rps submitted tp = Inr res \<longleftrightarrow>
    res = pots \<and> (pots = [] \<or> (\<forall>px \<in> set submitted. payout_ok pots px))"
proof -
  let ?map = "foldl (\<lambda>m p. dict_set (pot_index p) p m) [] pots"
  have dist: "distinct (map pot_index pots)" using side_pots.distinct_indices assms by simp
  have get: "dict_get ?map i = List.find (\<lambda>p. pot_index p = i) pots" for i
    using foldl_dict_set [OF dist, of "[]" i] by (simp split: option.splits)
  have "check_submitted ?map px = Inr () \<longleftrightarrow> payout_ok pots px" for px
  proof (cases "List.find (\<lambda>p. pot_index p = px_pot_index px) pots")
    case None
    then have "\<not> payout_ok pots px" by (auto simp: payout_ok_def find_None_mem)
    with None show ?thesis by (simp add: check_submitted_def get Let_def)
  next
    case (Some p)
    have "q = p" if "q \<in> set pots" "pot_index q = px_pot_index px" for q
      using find_key_unique [OF dist that] Some by simp
    with find_Some_mem [OF Some] have "payout_ok pots px \<longleftrightarrow> winners_total px \<le> pot_amount p \<and>
        (\<forall>w \<in> set (px_winners px). ws_player_id w \<in> set (pot_eligible_winner_player_ids p))"
      unfolding payout_ok_def by metis
    with Some show ?thesis by (simp add: check_submitted_def get Let_def bindE_simps not_less)
  qed
  then show ?thesis
    by (auto simp: validate_payouts_against_side_pots_def assms [symmetric] Let_def bindE_simps)
qed

definition paid_to :: "player_id \<Rightarrow> PotPayout list \<Rightarrow> int" where
  "paid_to pid pxs = sum_list (map (\<lambda>px. sum_list (map ws_amount (filter (\<lambda>w. ws_player_id w = pid) (px_winners px)))) pxs)"

definition total_paid :: "PotPayout list \<Rightarrow> int" where
  "total_paid pxs = sum_list (map winners_total pxs)"

lemma contributions_committed:
  assumes "\<And>p. p \<in> set rps \<Longrightarrow> 0 \<le> rp_committed_this_hand p"
  shows "sum_list (map (\<lambda>c. max 0 (pc_committed_this_hand c)) (map contribution_of rps)) =
    sum_list (map rp_committed_this_hand rps)"
  using assms by (induction rps) (auto simp: contribution_of_def)


lemma paid_to_single:
  assumes "\<And>w. w \<in> set (px_winners px) \<Longrightarrow> 0 \<le> ws_amount w"
  shows "sum_list (map ws_amount (filter (\<lambda>w. ws_player_id w = pid) (px_winners px))) \<le>
    (if pid \<in> ws_player_id ` set (px_winners px) then winners_total px else 0)"
proof (cases "pid \<in> ws_player_id ` set (px_winners px)")
  case True
  have "0 \<le> sum_list (map ws_amount (filter (\<lambda>w. ws_player_id w \<noteq> pid) (px_winners px)))"
    using assms by (intro sum_list_map_nonneg) simp
  then show ?thesis
    using True sum_list_filter_split [of ws_amount "px_winners px" "\<lambda>w. ws_player_id w = pid"]
    by (simp add: winners_total_def)
next
  case False
  then have "filter (\<lambda>w. ws_player_id w = pid) (px_winners px) = []" by (auto simp: filter_empty_conv)
  with False show ?thesis by simp
qed

lemma paid_within:
  assumes "pots = calculate_side_pots (map contribution_of rps)" and "pots \<noteq> []"
    and "\<And>px. px \<in> set submitted \<Longrightarrow> payout_ok pots px" and "distinct (map px_pot_index submitted)"
    and "\<And>px w. px \<in> set submitted \<Longrightarrow> w \<in> set (px_winners px) \<Longrightarrow> 0 \<le> ws_amount w"
  shows "total_paid submitted \<le> total_pots pots" and "paid_to pid submitted \<le> winnable pid pots"
proof -
  have "sum_list (map snd (map (\<lambda>px. (px_pot_index px, winners_total px)) submitted)) \<le> sum_list (map pot_amount pots)"
    unfolding assms(1) using assms(1,3,4) side_pots.positive
    by (intro side_pots.claims_weighted) (fastforce simp: comp_def payout_ok_def less_imp_le)+
  then show "total_paid submitted \<le> total_pots pots" by (simp add: total_paid_def total_pots_def comp_def)
  let ?claims = "map (\<lambda>px. (px_pot_index px,
      sum_list (map ws_amount (filter (\<lambda>w. ws_player_id w = pid) (px_winners px))))) submitted"
  have "sum_list (map snd ?claims) \<le> winnable pid (calculate_side_pots (map contribution_of rps))"
  proof (rule side_pots.claims_winnable)
    show "distinct (map fst ?claims)" using assms(4) by (simp add: comp_def)
    fix i n assume "(i, n) \<in> set ?claims"
    then obtain px where px: "px \<in> set submitted" "i = px_pot_index px"
      "n = sum_list (map ws_amount (filter (\<lambda>w. ws_player_id w = pid) (px_winners px)))" by auto
    from assms(3) [OF px(1)] obtain p where p: "p \<in> set pots" "pot_index p = i" "winners_total px \<le> pot_amount p"
      "\<forall>w \<in> set (px_winners px). ws_player_id w \<in> set (pot_eligible_winner_player_ids p)"
      unfolding payout_ok_def px(2) by blast
    have "0 < pot_amount p" using side_pots.positive p(1) assms(1) by simp
    with paid_to_single [of px pid, OF assms(5) [OF px(1)]] p(3,4) px(3)
    have "n \<le> (if pid \<in> set (pot_eligible_winner_player_ids p) then pot_amount p else 0)"
      by (force split: if_splits)
    with p(1,2) assms(1) show "\<exists>p \<in> set (calculate_side_pots (map contribution_of rps)). pot_index p = i \<and>
        n \<le> (if pid \<in> set (pot_eligible_winner_player_ids p) then pot_amount p else 0)" by blast
  qed
  then show "paid_to pid submitted \<le> winnable pid pots" by (simp add: paid_to_def comp_def assms(1))
qed


section \<open>Properties\<close>

text \<open>
  What the payout validation accepts. Unless the hand has no pots at all (then nothing
  is checked), a submission passes exactly when each submitted pot index exists, the
  winners of the submission get at most that pot, and each winner is eligible for it; the
  computed pots are returned. The pot total the caller passes plays no part.
\<close>

theorem validate_payouts_iff:
  "validate_payouts_against_side_pots rps submitted tp = Inr res \<longleftrightarrow>
    res = calculate_side_pots (map contribution_of rps) \<and>
    (res = [] \<or> list_all (payout_ok res) submitted)"
  using validate_ok_iff [OF refl, of rps submitted tp res] by (auto simp: list_all_iff)

text \<open>
  C31: valid payouts stay within the pots. There are no pots exactly when nobody committed
  a chip, and then nothing is checked. Otherwise, when an accepted submission names each
  pot at most once and awards no negative amounts, the whole payout is at most the chips
  committed in the hand, and no player receives more than the pots he is eligible for.
  Commitments are taken not to be negative, which the schema checks.
\<close>

theorem valid_payouts_within_pots:
  assumes "validate_payouts_against_side_pots rps submitted tp = Inr pots"
    and "distinct (map px_pot_index submitted)"
    and "\<And>px w. px \<in> set submitted \<Longrightarrow> w \<in> set (px_winners px) \<Longrightarrow> 0 \<le> ws_amount w"
    and "\<And>p. p \<in> set rps \<Longrightarrow> 0 \<le> rp_committed_this_hand p"
  shows "(pots = [] \<longleftrightarrow> sum_list (map rp_committed_this_hand rps) = 0) \<and>
    (pots \<noteq> [] \<longrightarrow> total_paid submitted \<le> sum_list (map rp_committed_this_hand rps) \<and>
      paid_to pid submitted \<le> winnable pid pots)"
proof -
  have pots: "pots = calculate_side_pots (map contribution_of rps)"
    using assms(1) validate_ok_iff [OF refl, of rps submitted tp pots] by auto
  have total: "total_pots pots = sum_list (map rp_committed_this_hand rps)"
    unfolding pots side_pots.conserves by (rule contributions_committed [OF assms(4)])
  have bounds: "total_paid submitted \<le> sum_list (map rp_committed_this_hand rps) \<and>
      paid_to pid submitted \<le> winnable pid pots" if "pots \<noteq> []"
  proof -
    have "\<And>px. px \<in> set submitted \<Longrightarrow> payout_ok pots px"
      using assms(1) that validate_ok_iff [OF refl, of rps submitted tp pots] by auto
    with paid_within(1) [OF pots that _ assms(2)] paid_within(2) [OF pots that _ assms(2), of pid]
      total assms(3) show ?thesis by simp
  qed
  have "0 < total_pots pots" if "pots \<noteq> []"
  proof -
    obtain q qs where "pots = q # qs" using \<open>pots \<noteq> []\<close> by (cases pots) auto
    moreover have "0 < pot_amount x" if "x \<in> set pots" for x using that side_pots.positive unfolding pots by blast
    ultimately show ?thesis
      using sum_list_map_nonneg [of qs pot_amount] by (fastforce simp: total_pots_def less_imp_le intro: add_pos_nonneg)
  qed
  moreover have "total_pots [] = 0" by (simp add: total_pots_def)
  ultimately have "pots = [] \<longleftrightarrow> sum_list (map rp_committed_this_hand rps) = 0" using total by force
  with bounds show ?thesis by blast
qed

definition example_rows :: "RoundPlayer list" where
  "example_rows = map (\<lambda>(pid, seat, c). \<lparr>rp_round_id = ''r'', rp_player_id = pid, rp_seat_number = seat,
     rp_stack_remaining = 0, rp_committed_this_street = 0, rp_committed_this_hand = c, rp_has_folded = False,
     rp_is_all_in = True, rp_is_active_in_hand = True\<rparr>) [(''a'', 1, 50), (''b'', 2, 100), (''c'', 3, 100)]"

definition pay_out :: "int \<Rightarrow> player_id \<Rightarrow> int \<Rightarrow> PotPayout" where
  "pay_out i pid n = \<lparr>px_pot_index = i, px_pot_type = ''main'', px_amount = n,
     px_winners = [\<lparr>ws_player_id = pid, ws_amount = n\<rparr>]\<rparr>"

definition example_pots :: "Pot list" where
  "example_pots = calculate_side_pots (map contribution_of example_rows)"

theorem valid_payouts_within_pots_witness:
  "total_paid [pay_out 0 ''a'' 150, pay_out 1 ''b'' 100] \<le> sum_list (map rp_committed_this_hand example_rows) \<and>
   paid_to ''a'' [pay_out 0 ''a'' 150, pay_out 1 ''b'' 100] \<le> winnable ''a'' example_pots"
proof -
  have "list_all (payout_ok example_pots) [pay_out 0 ''a'' 150, pay_out 1 ''b'' 100]" by code_simp
  then have "validate_payouts_against_side_pots example_rows [pay_out 0 ''a'' 150, pay_out 1 ''b'' 100] 250 = Inr example_pots"
    using validate_ok_iff [OF refl] by (auto simp: example_pots_def list_all_iff)
  moreover have "sum_list (map rp_committed_this_hand example_rows) \<noteq> 0" by code_simp
  moreover have "distinct (map px_pot_index [pay_out 0 ''a'' 150, pay_out 1 ''b'' 100])" by code_simp
  moreover have "0 \<le> ws_amount w" if "px \<in> set [pay_out 0 ''a'' 150, pay_out 1 ''b'' 100]" "w \<in> set (px_winners px)" for px w
    using that by (auto simp: pay_out_def)
  moreover have "0 \<le> rp_committed_this_hand p" if "p \<in> set example_rows" for p
    using that by (auto simp: example_rows_def)
  ultimately show ?thesis using valid_payouts_within_pots by blast
qed

text \<open>
  A pot named twice is paid twice. There is an accepted submission, with a total no
  larger than the chips in the hand and every winner eligible for the pot named, that pays
  a player more than the pots he is eligible for: each entry is compared with the full pot
  and entries for the same pot are not added up.
\<close>

theorem duplicate_pot_index_overpays:
  "\<exists>submitted pots. validate_payouts_against_side_pots example_rows submitted 250 = Inr pots \<and>
     total_paid submitted \<le> sum_list (map rp_committed_this_hand example_rows) \<and>
     winnable ''a'' pots < paid_to ''a'' submitted"
proof -
  let ?s = "[pay_out 0 ''a'' 125, pay_out 0 ''a'' 125]"
  have "list_all (payout_ok example_pots) ?s" by code_simp
  then have "validate_payouts_against_side_pots example_rows ?s 250 = Inr example_pots"
    using validate_ok_iff [OF refl] by (auto simp: example_pots_def list_all_iff)
  moreover have "total_paid ?s \<le> sum_list (map rp_committed_this_hand example_rows)" by code_simp
  moreover have "winnable ''a'' example_pots < paid_to ''a'' ?s" by code_simp
  ultimately show ?thesis by blast
qed

end
