(* ===== verification/Settlement_Explainer.thy ===== *)
theory Settlement_Explainer
  imports Payout_Validation
begin

text \<open>
  \<^verbatim>\<open>domain/reporting/settlement_explainer.py\<close>: the pots of a hand with who may win them and
  why not, what was awarded, and the narrative lines. The submitted payouts are given as
  (pot index, winners); no payouts is the empty list.
\<close>

section \<open>Data\<close>

record WinnerDetail =
  wd_player_id :: player_id
  wd_amount :: int

record PotExplanation =
  px_index :: int
  px_label :: string
  px_pot :: int
  px_contributors :: "player_id list"
  px_eligible :: "player_id list"
  px_ineligible_reasons :: "(player_id \<times> string) list"
  px_winner_details :: "WinnerDetail list"
  px_awarded_total :: int
  px_unclaimed :: int

record SettlementExplanation =
  se_total_pot :: int
  se_total_awarded :: int
  se_total_unclaimed :: int
  se_pots :: "PotExplanation list"
  se_narrative :: "string list"


section \<open>The functions\<close>

definition ineligible_reason :: "(player_id \<times> PlayerContribution) list \<Rightarrow> player_id \<Rightarrow> string" where
  "ineligible_reason player_status cid = (case dict_get player_status cid of
     Some pc \<Rightarrow> if pc_has_folded pc then ''folded''
                else if \<not> pc_reached_showdown pc then ''did not reach showdown''
                else ''ineligible''
   | None \<Rightarrow> ''ineligible'')"

definition explain_pot ::
    "(player_id \<times> PlayerContribution) list \<Rightarrow> (int \<times> WinnerShare list) list \<Rightarrow> Pot \<Rightarrow> PotExplanation" where
  "explain_pot player_status payout_map pot =
     (let pot_label = (if pot_index pot = 0 then ''Main Pot'' else ''Side Pot '' @ str_int (pot_index pot));
          ineligible = foldl (\<lambda>d cid. if cid \<notin> set (pot_eligible_winner_player_ids pot)
                                      then dict_set cid (ineligible_reason player_status cid) d else d)
                         [] (pot_contributor_player_ids pot);
          pot_winners = (case dict_get payout_map (pot_index pot) of Some ws \<Rightarrow> ws | None \<Rightarrow> []);
          winners = map (\<lambda>w. \<lparr>wd_player_id = ws_player_id w, wd_amount = ws_amount w\<rparr>) pot_winners;
          awarded = sum_list (map wd_amount winners)
      in \<lparr>px_index = pot_index pot, px_label = pot_label, px_pot = pot_amount pot,
          px_contributors = pot_contributor_player_ids pot, px_eligible = pot_eligible_winner_player_ids pot,
          px_ineligible_reasons = ineligible, px_winner_details = winners,
          px_awarded_total = awarded, px_unclaimed = pot_amount pot - awarded\<rparr>)"

definition pot_lines :: "PotExplanation \<Rightarrow> string list" where
  "pot_lines p =
     [px_label p @ '': '' @ str_int (px_pot p) @ '' chips from '' @ str_int (int (length (px_contributors p))) @
      '' contributors.''] @
     (if px_eligible p \<noteq> [] then [''  Eligible: '' @ join '', '' (px_eligible p) @ ''.''] else []) @
     map (\<lambda>(pid, reason). ''  '' @ pid @ '' ineligible ('' @ reason @ '').'') (px_ineligible_reasons p) @
     (if px_winner_details p \<noteq> [] then
        map (\<lambda>w. ''  -> '' @ wd_player_id w @ '' wins '' @ str_int (wd_amount w) @ '' chips.'') (px_winner_details p)
      else if px_eligible p \<noteq> [] then [''  No winners submitted yet.'']
      else [''  No eligible winners - dead pot.'']) @
     (if px_unclaimed p > 0 \<and> px_winner_details p \<noteq> []
      then [''  Unclaimed remainder: '' @ str_int (px_unclaimed p) @ '' chips.''] else [])"

definition build_narrative :: "SettlementExplanation \<Rightarrow> string list" where
  "build_narrative e =
     [''Total pot: '' @ str_int (se_total_pot e) @ '' chips.''] @
     (if length (se_pots e) = 1 then [''Single pot (no side pots).'']
      else [str_int (int (length (se_pots e))) @ '' pots (1 main + '' @ str_int (int (length (se_pots e)) - 1) @ '' side).'']) @
     concat (map pot_lines (se_pots e)) @
     (if se_total_unclaimed e > 0 \<and> se_total_awarded e > 0
      then [''Total unclaimed: '' @ str_int (se_total_unclaimed e) @ '' chips.''] else [])"

definition explain_settlement ::
    "PlayerContribution list \<Rightarrow> (int \<times> WinnerShare list) list \<Rightarrow> SettlementExplanation" where
  "explain_settlement contributions submitted_payouts =
     (let computed_pots = calculate_side_pots contributions;
          payout_map = foldl (\<lambda>m sp. dict_set (fst sp) (snd sp) m) [] submitted_payouts;
          player_status = foldl (\<lambda>m c. dict_set (pc_player_id c) c m) [] contributions;
          pots = map (explain_pot player_status payout_map) computed_pots;
          total_pot = sum_list (map px_pot pots);
          total_awarded = sum_list (map px_awarded_total pots);
          result = \<lparr>se_total_pot = total_pot, se_total_awarded = total_awarded,
                    se_total_unclaimed = total_pot - total_awarded, se_pots = pots, se_narrative = []\<rparr>
      in result\<lparr>se_narrative := build_narrative result\<rparr>)"


section \<open>Lemmas\<close>

lemma foldl_reasons:
  "dict_get (foldl (\<lambda>d c. if c \<notin> E then dict_set c (f c) d else d) d cs) x =
    (if x \<in> set cs \<and> x \<notin> E then Some (f x) else dict_get d x)"
  by (induction cs arbitrary: d) auto

lemma explain_pot_simps [simp]:
  "px_pot (explain_pot ps m p) = pot_amount p" "px_index (explain_pot ps m p) = pot_index p"
  "px_contributors (explain_pot ps m p) = pot_contributor_player_ids p"
  "px_eligible (explain_pot ps m p) = pot_eligible_winner_player_ids p"
  "px_awarded_total (explain_pot ps m p) + px_unclaimed (explain_pot ps m p) = pot_amount p"
  by (simp_all add: explain_pot_def Let_def)

lemma explain_pot_reasons:
  "dict_get (px_ineligible_reasons (explain_pot ps m p)) x =
    (if x \<in> set (pot_contributor_player_ids p) \<and> x \<notin> set (pot_eligible_winner_player_ids p)
     then Some (ineligible_reason ps x) else None)"
  by (simp add: explain_pot_def Let_def foldl_reasons)

lemma explain_settlement_pots:
  "se_pots (explain_settlement cs subs) =
    map (explain_pot (foldl (\<lambda>m c. dict_set (pc_player_id c) c m) [] cs)
      (foldl (\<lambda>m sp. dict_set (fst sp) (snd sp) m) [] subs)) (calculate_side_pots cs)"
  by (simp add: explain_settlement_def Let_def)


section \<open>Properties\<close>

text \<open>
  The explanation accounts for every chip. Its pots are the computed side pots in
  order; the total is what was committed; in each pot and overall, awarded and unclaimed
  chips make up the pot.
\<close>

theorem explanation_accounts:
  "se_total_pot (explain_settlement cs subs) = sum_list (map (\<lambda>c. max 0 (pc_committed_this_hand c)) cs) \<and>
   se_total_awarded (explain_settlement cs subs) + se_total_unclaimed (explain_settlement cs subs) =
     se_total_pot (explain_settlement cs subs) \<and>
   se_total_unclaimed (explain_settlement cs subs) = sum_list (map px_unclaimed (se_pots (explain_settlement cs subs))) \<and>
   map px_index (se_pots (explain_settlement cs subs)) = map pot_index (calculate_side_pots cs) \<and>
   map px_pot (se_pots (explain_settlement cs subs)) = map pot_amount (calculate_side_pots cs) \<and>
   map (\<lambda>p. px_awarded_total p + px_unclaimed p) (se_pots (explain_settlement cs subs)) = map pot_amount (calculate_side_pots cs)"
proof -
  let ?E = "explain_settlement cs subs"
  obtain ps m where pots: "se_pots ?E = map (explain_pot ps m) (calculate_side_pots cs)"
    using that explain_settlement_pots by blast
  have tot: "se_total_pot ?E = sum_list (map px_pot (se_pots ?E))"
    "se_total_awarded ?E = sum_list (map px_awarded_total (se_pots ?E))"
    "se_total_unclaimed ?E = se_total_pot ?E - se_total_awarded ?E"
    by (simp_all add: explain_settlement_def Let_def)
  have "se_total_pot ?E = total_pots (calculate_side_pots cs)"
    unfolding tot(1) pots by (simp add: total_pots_def comp_def)
  moreover have "sum_list (map px_awarded_total (se_pots ?E)) + sum_list (map px_unclaimed (se_pots ?E)) =
      sum_list (map px_pot (se_pots ?E))"
    unfolding sum_list_map_add [symmetric] pots by (simp add: comp_def)
  ultimately show ?thesis
    using tot pots side_pots.conserves by (simp add: comp_def)
qed

text \<open>
  Every contributor is eligible or told why not. For players with distinct ids, each
  contributor of a pot either is listed as eligible and has no reason, or has a reason:
  that he folded when he did, otherwise that he did not reach showdown, which is then the
  case. The third reason of the code, a bare \<open>ineligible\<close>, never appears.
\<close>

theorem explanation_reasons:
  assumes "distinct (map pc_player_id cs)" and "p \<in> set (se_pots (explain_settlement cs subs))"
    and "x \<in> set (px_contributors p)"
  shows "(x \<in> set (px_eligible p) \<longleftrightarrow> dict_get (px_ineligible_reasons p) x = None) \<and>
    (x \<notin> set (px_eligible p) \<longrightarrow> (\<exists>c \<in> set cs. pc_player_id c = x \<and>
       dict_get (px_ineligible_reasons p) x = Some (if pc_has_folded c then ''folded'' else ''did not reach showdown'') \<and>
       (pc_has_folded c \<or> \<not> pc_reached_showdown c)))"
proof -
  define st where "st = foldl (\<lambda>m c. dict_set (pc_player_id c) c m) [] cs"
  obtain m pot where pot: "pot \<in> set (calculate_side_pots cs)" "p = explain_pot st m pot"
    using assms(2) by (auto simp: explain_settlement_pots st_def)
  have x: "x \<in> set (pot_contributor_player_ids pot)" using assms(3) pot(2) by simp
  from side_pots.contributor [OF pot(1) x] obtain c where c: "c \<in> set cs" "pc_player_id c = x" by blast
  have st: "dict_get st x = Some c"
    using foldl_dict_set [OF assms(1), of "[]" x] find_key_unique [OF assms(1) c] by (simp add: st_def)
  have "x \<notin> set (pot_eligible_winner_player_ids pot) \<Longrightarrow> pc_has_folded c \<or> \<not> pc_reached_showdown c"
    using side_pots.live_contributor [OF assms(1) pot(1) c(1)] c(2) x by (auto simp: live_player_def)
  with c st x pot(2) show ?thesis
    by (auto simp: explain_pot_reasons ineligible_reason_def)
qed

theorem explanation_reasons_witness:
  "dict_get (px_ineligible_reasons (se_pots (explain_settlement example_contributions []) ! 1)) ''b'' = Some ''folded''"
proof -
  let ?p = "se_pots (explain_settlement example_contributions []) ! 1"
  have "distinct (map pc_player_id example_contributions)" by code_simp
  moreover have "length (se_pots (explain_settlement example_contributions [])) = 2" by code_simp
  then have "?p \<in> set (se_pots (explain_settlement example_contributions []))" by simp
  moreover have "''b'' \<in> set (px_contributors ?p)" by code_simp
  ultimately have "''b'' \<notin> set (px_eligible ?p) \<longrightarrow> (\<exists>c \<in> set example_contributions. pc_player_id c = ''b'' \<and>
      dict_get (px_ineligible_reasons ?p) ''b'' = Some (if pc_has_folded c then ''folded'' else ''did not reach showdown''))"
    using explanation_reasons by blast
  moreover have "''b'' \<notin> set (px_eligible ?p)" by code_simp
  ultimately show ?thesis by (auto simp: example_contributions_def)
qed

end
