(* ===== verification/Table_Runtime.thy ===== *)
theory Table_Runtime
  imports Models
begin

text \<open>
  \<^verbatim>\<open>domain/engine/table_runtime.py\<close>: the session of a table (waiting, running, paused,
  finished), its seats and its blind clock. Every method that changes the object returns
  the changed record; the current time is an argument. The clock's start is always an
  aware datetime (its constructor and its callers make it so) and is held as a UTC instant
  in microseconds.
\<close>

section \<open>Data\<close>

datatype SeatStatus = SEAT_ACTIVE | SITTING_OUT | EMPTY

datatype TableStatus = TABLE_WAITING | RUNNING | TABLE_PAUSED | TABLE_FINISHED

record TableSeat =
  tseat_seat_number :: int
  tseat_player_id :: "player_id option"
  tseat_status :: SeatStatus
  tseat_chip_count :: int
  tseat_hands_sat_out :: int

record BlindClock =
  bc_current_level :: int
  bc_level_started_at :: int
  bc_hands_at_level :: int

record TableRuntime =
  tr_game_id :: game_id
  tr_status :: TableStatus
  tr_seats :: "TableSeat list"
  tr_blind_clock :: BlindClock
  tr_hands_played :: int
  tr_dealer_seat :: "int option"


section \<open>BlindClock\<close>

definition MICROS :: int where
  "MICROS = 1000000"

definition should_advance :: "BlindClock \<Rightarrow> int option \<Rightarrow> int option \<Rightarrow> int \<Rightarrow> bool" where
  "should_advance c hands_per_level seconds_per_level now =
     (if (case hands_per_level of Some n \<Rightarrow> bc_hands_at_level c \<ge> n | None \<Rightarrow> False) then True
      else case seconds_per_level of
        Some n \<Rightarrow> let elapsed = now - bc_level_started_at c in elapsed \<ge> n * MICROS
      | None \<Rightarrow> False)"

definition advance :: "BlindClock \<Rightarrow> int \<Rightarrow> BlindClock" where
  "advance c now = c\<lparr>bc_current_level := bc_current_level c + 1, bc_level_started_at := now, bc_hands_at_level := 0\<rparr>"

definition record_hand :: "BlindClock \<Rightarrow> BlindClock" where
  "record_hand c = c\<lparr>bc_hands_at_level := bc_hands_at_level c + 1\<rparr>"


section \<open>TableRuntime\<close>

definition active_seats :: "TableRuntime \<Rightarrow> TableSeat list" where
  "active_seats t = filter (\<lambda>s. tseat_status s = SEAT_ACTIVE \<and> tseat_player_id s \<notin> {None, Some []}) (tr_seats t)"

definition seated_count :: "TableRuntime \<Rightarrow> nat" where
  "seated_count t = length (filter (\<lambda>s. tseat_player_id s \<noteq> None) (tr_seats t))"

definition can_start_hand :: "TableRuntime \<Rightarrow> bool" where
  "can_start_hand t \<longleftrightarrow> tr_status t = RUNNING \<and> length (active_seats t) \<ge> 2"

definition start_session :: "TableRuntime \<Rightarrow> TableRuntime result" where
  "start_session t = (if length (active_seats t) < 2 then raise NotEnoughActivePlayers NOT_ENOUGH_ACTIVE_PLAYERS
     else Inr (t\<lparr>tr_status := RUNNING\<rparr>))"

definition pause_session :: "TableRuntime \<Rightarrow> TableRuntime" where
  "pause_session t = t\<lparr>tr_status := TABLE_PAUSED\<rparr>"

definition resume_session :: "TableRuntime \<Rightarrow> TableRuntime result" where
  "resume_session t = (if tr_status t \<noteq> TABLE_PAUSED then raise SessionNotPaused SESSION_NOT_PAUSED
     else Inr (t\<lparr>tr_status := RUNNING\<rparr>))"

definition finish_session :: "TableRuntime \<Rightarrow> TableRuntime" where
  "finish_session t = t\<lparr>tr_status := TABLE_FINISHED\<rparr>"

definition get_seat :: "TableRuntime \<Rightarrow> int \<Rightarrow> TableSeat result" where
  "get_seat t n = (case List.find (\<lambda>s. tseat_seat_number s = n) (tr_seats t) of
     Some s \<Rightarrow> Inr s
   | None \<Rightarrow> Inl (DomainError SeatNotFound (format_message SEAT_NOT_FOUND (str_int n))))"

definition set_seat :: "int \<Rightarrow> SeatStatus \<Rightarrow> TableRuntime \<Rightarrow> TableRuntime" where
  "set_seat n st t = t\<lparr>tr_seats := update_first (\<lambda>s. tseat_seat_number s = n)
     (\<lambda>s. s\<lparr>tseat_status := st, tseat_hands_sat_out := 0\<rparr>) (tr_seats t)\<rparr>"

definition sit_out :: "TableRuntime \<Rightarrow> int \<Rightarrow> TableRuntime result" where
  "sit_out t n = bindE (get_seat t n) (\<lambda>seat.
     if tseat_status seat \<noteq> SEAT_ACTIVE
     then Inl (DomainError SeatNotActive (format_message SEAT_NOT_ACTIVE (str_int n)))
     else Inr (set_seat n SITTING_OUT t))"

definition sit_in :: "TableRuntime \<Rightarrow> int \<Rightarrow> TableRuntime result" where
  "sit_in t n = bindE (get_seat t n) (\<lambda>seat.
     if tseat_status seat \<noteq> SITTING_OUT
     then Inl (DomainError SeatNotSittingOut (format_message SEAT_NOT_SITTING_OUT (str_int n)))
     else Inr (set_seat n SEAT_ACTIVE t))"

definition record_hand_completed :: "TableRuntime \<Rightarrow> TableRuntime" where
  "record_hand_completed t = t\<lparr>tr_hands_played := tr_hands_played t + 1,
     tr_blind_clock := record_hand (tr_blind_clock t),
     tr_seats := map (\<lambda>s. if tseat_status s = SITTING_OUT
                          then s\<lparr>tseat_hands_sat_out := tseat_hands_sat_out s + 1\<rparr> else s) (tr_seats t)\<rparr>"

definition next_hand_number :: "TableRuntime \<Rightarrow> int" where
  "next_hand_number t = tr_hands_played t + 1"


section \<open>The session as a state machine\<close>

text \<open>One call on the runtime. A call that raises leaves the object as it was.\<close>

inductive runtime_step :: "TableRuntime \<Rightarrow> TableRuntime \<Rightarrow> bool" where
  Start: "start_session t = Inr t' \<Longrightarrow> runtime_step t t'"
| Pause: "runtime_step t (pause_session t)"
| Resume: "resume_session t = Inr t' \<Longrightarrow> runtime_step t t'"
| Finish: "runtime_step t (finish_session t)"
| SitOut: "sit_out t n = Inr t' \<Longrightarrow> runtime_step t t'"
| SitIn: "sit_in t n = Inr t' \<Longrightarrow> runtime_step t t'"
| HandCompleted: "runtime_step t (record_hand_completed t)"
| Advance: "runtime_step t (t\<lparr>tr_blind_clock := advance (tr_blind_clock t) now\<rparr>)"

inductive runtime_reach :: "TableRuntime \<Rightarrow> TableRuntime \<Rightarrow> bool" for t where
  Refl: "runtime_reach t t"
| Step: "runtime_reach t u \<Longrightarrow> runtime_step u v \<Longrightarrow> runtime_reach t v"

inductive_cases runtime_stepE: "runtime_step t t'"

text \<open>What no call changes: who sits where with how many chips, and the game.\<close>

definition seating :: "TableRuntime \<Rightarrow> (int \<times> player_id option \<times> int) list" where
  "seating t = map (\<lambda>s. (tseat_seat_number s, tseat_player_id s, tseat_chip_count s)) (tr_seats t)"

lemma set_seat_seating [simp]: "seating (set_seat n st t) = seating t"
  by (simp add: seating_def set_seat_def map_update_first)

lemma runtime_step_frame:
  "runtime_step t t' \<Longrightarrow> seating t' = seating t \<and> tr_game_id t' = tr_game_id t \<and>
    bc_current_level (tr_blind_clock t) \<le> bc_current_level (tr_blind_clock t') \<and>
    tr_hands_played t \<le> tr_hands_played t'"
  by (erule runtime_stepE)
    (auto simp: start_session_def resume_session_def pause_session_def finish_session_def sit_out_def sit_in_def
      record_hand_completed_def record_hand_def advance_def seating_def set_seat_def map_update_first bindE_simps
      split: if_splits)

lemma set_seat_find:
  assumes "List.find (\<lambda>s. tseat_seat_number s = n) (tr_seats t) = Some s"
  shows "List.find (\<lambda>s. tseat_seat_number s = n) (tr_seats (set_seat n st t)) =
    Some (s\<lparr>tseat_status := st, tseat_hands_sat_out := 0\<rparr>)"
  using find_update_first [OF assms] find_Some_mem [OF assms] by (simp add: set_seat_def)

lemma record_hand_completed_find:
  "List.find (\<lambda>s. tseat_seat_number s = n) (tr_seats (record_hand_completed t)) =
    map_option (\<lambda>s. if tseat_status s = SITTING_OUT
      then s\<lparr>tseat_hands_sat_out := tseat_hands_sat_out s + 1\<rparr> else s)
    (List.find (\<lambda>s. tseat_seat_number s = n) (tr_seats t))"
  unfolding record_hand_completed_def by (simp add: find_map)


section \<open>Properties\<close>

text \<open>
  Sitting out and back in. A player who sits out and comes back, with any number of
  hands completed in between, is active again with the counter of missed hands at zero;
  meanwhile the counter is the number of hands completed. Sitting out twice in a row, or
  sitting in without having sat out, is refused.
\<close>

theorem sit_out_sit_in:
  assumes "get_seat t n = Inr s" and "tseat_status s = SEAT_ACTIVE"
  shows "\<exists>t1 t2. sit_out t n = Inr t1 \<and>
    get_seat ((record_hand_completed ^^ k) t1) n =
      Inr (s\<lparr>tseat_status := SITTING_OUT, tseat_hands_sat_out := int k\<rparr>) \<and>
    sit_in ((record_hand_completed ^^ k) t1) n = Inr t2 \<and>
    get_seat t2 n = Inr (s\<lparr>tseat_status := SEAT_ACTIVE, tseat_hands_sat_out := 0\<rparr>) \<and>
    raises (sit_out t1 n) SeatNotActive \<and> raises (sit_in t n) SeatNotSittingOut"
proof -
  let ?P = "\<lambda>s. tseat_seat_number s = n"
  from assms(1) have s: "List.find ?P (tr_seats t) = Some s"
    by (auto simp: get_seat_def split: option.splits)
  define t1 where "t1 = set_seat n SITTING_OUT t"
  have out: "sit_out t n = Inr t1" using assms by (simp add: sit_out_def t1_def)
  have count: "List.find ?P (tr_seats ((record_hand_completed ^^ k) t1)) =
      Some (s\<lparr>tseat_status := SITTING_OUT, tseat_hands_sat_out := int k\<rparr>)" for k
  proof (induction k)
    case 0
    then show ?case using set_seat_find [OF s] by (simp add: t1_def)
  next
    case (Suc k)
    then show ?case by (simp add: record_hand_completed_find)
  qed
  define u where "u = (record_hand_completed ^^ k) t1"
  have "sit_in u n = Inr (set_seat n SEAT_ACTIVE u)"
    using count [of k] by (simp add: sit_in_def get_seat_def u_def)
  moreover have "get_seat (set_seat n SEAT_ACTIVE u) n = Inr (s\<lparr>tseat_status := SEAT_ACTIVE, tseat_hands_sat_out := 0\<rparr>)"
    using set_seat_find [OF count [of k]] by (simp add: get_seat_def u_def)
  moreover have "raises (sit_out t1 n) SeatNotActive"
    using count [of 0] by (simp add: sit_out_def get_seat_def)
  moreover have "raises (sit_in t n) SeatNotSittingOut" using assms by (simp add: sit_in_def)
  ultimately show ?thesis using out count [of k] by (auto simp: get_seat_def u_def)
qed

definition example_table :: TableRuntime where
  "example_table = \<lparr>tr_game_id = ''g'', tr_status = RUNNING,
     tr_seats = [\<lparr>tseat_seat_number = 1, tseat_player_id = Some ''a'', tseat_status = SEAT_ACTIVE,
       tseat_chip_count = 100, tseat_hands_sat_out = 0\<rparr>],
     tr_blind_clock = \<lparr>bc_current_level = 1, bc_level_started_at = 0, bc_hands_at_level = 0\<rparr>,
     tr_hands_played = 0, tr_dealer_seat = Some 1\<rparr>"

theorem sit_out_sit_in_witness:
  "\<exists>t1. sit_out example_table 1 = Inr t1 \<and> raises (sit_out t1 1) SeatNotActive"
proof -
  have "get_seat example_table 1 = Inr (hd (tr_seats example_table))" by code_simp
  moreover have "tseat_status (hd (tr_seats example_table)) = SEAT_ACTIVE" by code_simp
  ultimately show ?thesis using sit_out_sit_in [of example_table 1 _ 0] by blast
qed

text \<open>
  A session never moves chips or players. Along any sequence of calls on the runtime,
  who sits at which seat with how many chips stays the same, and neither the blind level
  nor the number of hands played goes down.
\<close>

theorem runtime_session_frame:
  assumes "runtime_reach t u"
  shows "seating u = seating t \<and> tr_game_id u = tr_game_id t \<and>
    bc_current_level (tr_blind_clock t) \<le> bc_current_level (tr_blind_clock u) \<and>
    tr_hands_played t \<le> tr_hands_played u"
  using assms by (induction rule: runtime_reach.induct) (auto dest!: runtime_step_frame)

theorem runtime_session_frame_witness:
  "seating (record_hand_completed (pause_session example_table)) = seating example_table"
proof -
  have "runtime_reach example_table (record_hand_completed (pause_session example_table))"
    using runtime_reach.Step [OF runtime_reach.Step [OF runtime_reach.Refl runtime_step.Pause] runtime_step.HandCompleted] .
  from runtime_session_frame [OF this] show ?thesis by blast
qed

end
