(* ===== verification/Hand_Ledger.thy ===== *)
theory Hand_Ledger
  imports Models
begin

text \<open>
  \<^verbatim>\<open>domain/ledger/\<close>: the append-only ledger of a hand and what is computed from it:
  \<^verbatim>\<open>hand_ledger.py\<close> (the state rebuilt from the entries), \<^verbatim>\<open>hand_replay.py\<close> (the states
  after each entry, and the comparison with the live rows) and \<^verbatim>\<open>hand_history.py\<close> (the
  timeline by street).

  All three are folds of one step over the entries; what follows from that alone is proved
  once in the locale \<open>event_sourced\<close>.
\<close>

section \<open>hand_ledger.py\<close>

record LedgerRow =
  lr_entry_id :: string
  lr_entry_type :: LedgerEntryType
  lr_player_id :: "player_id option"
  lr_amount :: "int option"
  lr_detail :: "Detail option"
  lr_original_entry_id :: "string option"

record PlayerSnapshot =
  snap_player_id :: player_id
  snap_stack_adjustment :: int
  snap_total_committed :: int
  snap_total_won :: int
  snap_is_action_reversed :: bool

record PayoutCorrection =
  pcor_entry_id :: string
  pcor_old_player_id :: "player_id option"
  pcor_old_amount :: int
  pcor_new_player_id :: "player_id option"
  pcor_new_amount :: int

record HandState =
  hs_players :: "(player_id \<times> PlayerSnapshot) list"
  hs_pot_total :: int
  hs_is_completed :: bool
  hs_is_reopened :: bool
  hs_reversed_entry_ids :: "string set"
  hs_payout_corrections :: "PayoutCorrection list"
  hs_entry_count :: int

definition initial_hand_state :: HandState where
  "initial_hand_state = \<lparr>hs_players = [], hs_pot_total = 0, hs_is_completed = False, hs_is_reopened = False,
     hs_reversed_entry_ids = {}, hs_payout_corrections = [], hs_entry_count = 0\<rparr>"

text \<open>Python truth of an optional string: \<^verbatim>\<open>if e.player_id:\<close>. And \<^verbatim>\<open>e.amount or 0\<close>.\<close>

definition truthy :: "string option \<Rightarrow> string option" where
  "truthy s = (case s of Some (c # cs) \<Rightarrow> Some (c # cs) | _ \<Rightarrow> None)"

definition amount_or_0 :: "LedgerRow \<Rightarrow> int" where
  "amount_or_0 e = (case lr_amount e of Some n \<Rightarrow> n | None \<Rightarrow> 0)"

definition new_snapshot :: "player_id \<Rightarrow> PlayerSnapshot" where
  "new_snapshot pid = \<lparr>snap_player_id = pid, snap_stack_adjustment = 0, snap_total_committed = 0,
     snap_total_won = 0, snap_is_action_reversed = False\<rparr>"

text \<open>\<^verbatim>\<open>ps = _ensure_player(state, pid)\<close> followed by a change of \<^verbatim>\<open>ps\<close>.\<close>

definition ensure_player :: "HandState \<Rightarrow> player_id \<Rightarrow> PlayerSnapshot" where
  "ensure_player state pid = (case dict_get (hs_players state) pid of Some ps \<Rightarrow> ps | None \<Rightarrow> new_snapshot pid)"

definition change_player :: "(PlayerSnapshot \<Rightarrow> PlayerSnapshot) \<Rightarrow> player_id option \<Rightarrow> HandState \<Rightarrow> HandState" where
  "change_player f pid state = (case truthy pid of
     None \<Rightarrow> state
   | Some p \<Rightarrow> state\<lparr>hs_players := dict_set p (f (ensure_player state p)) (hs_players state)\<rparr>)"

definition apply_entry :: "HandState \<Rightarrow> LedgerRow \<Rightarrow> HandState" where
  "apply_entry state0 e =
     (let state = state0\<lparr>hs_entry_count := hs_entry_count state0 + 1\<rparr>; amt = amount_or_0 e in
      if lr_entry_type e \<in> {BLIND_POSTED, ANTE_POSTED, BET_PLACED} then
        (let s1 = change_player (\<lambda>ps. ps\<lparr>snap_total_committed := snap_total_committed ps + amt,
                                         snap_is_action_reversed := False\<rparr>) (lr_player_id e) state
         in s1\<lparr>hs_pot_total := hs_pot_total s1 + amt\<rparr>)
      else if lr_entry_type e = PAYOUT_AWARDED then
        change_player (\<lambda>ps. ps\<lparr>snap_total_won := snap_total_won ps + amt\<rparr>) (lr_player_id e) state
      else if lr_entry_type e = LEDGER_ROUND_COMPLETED then
        state\<lparr>hs_is_completed := True\<rparr>
      else if lr_entry_type e = ACTION_REVERSED then
        (let s1 = (case truthy (lr_original_entry_id e) of
                     Some orig \<Rightarrow> state\<lparr>hs_reversed_entry_ids := insert orig (hs_reversed_entry_ids state)\<rparr>
                   | None \<Rightarrow> state);
             s2 = change_player (\<lambda>ps. ps\<lparr>snap_total_committed := snap_total_committed ps - amt,
                                         snap_is_action_reversed := True\<rparr>) (lr_player_id e) s1
         in s2\<lparr>hs_pot_total := hs_pot_total s2 - amt\<rparr>)
      else if lr_entry_type e = STACK_ADJUSTED then
        change_player (\<lambda>ps. ps\<lparr>snap_stack_adjustment := snap_stack_adjustment ps + amt\<rparr>) (lr_player_id e) state
      else if lr_entry_type e = HAND_REOPENED then
        state\<lparr>hs_is_completed := False, hs_is_reopened := True\<rparr>
      else if lr_entry_type e = PAYOUT_CORRECTED then
        (let old_player = (case lr_detail e of Some d \<Rightarrow> d_old_player_id d | None \<Rightarrow> None);
             new_player = lr_player_id e;
             old_amount = (case lr_detail e of
                             Some d \<Rightarrow> (case d_old_amount d of Some n \<Rightarrow> n | None \<Rightarrow> 0) | None \<Rightarrow> 0);
             new_amount = amt;
             s1 = change_player (\<lambda>ps. ps\<lparr>snap_total_won := snap_total_won ps - old_amount\<rparr>) old_player state;
             s2 = change_player (\<lambda>ps. ps\<lparr>snap_total_won := snap_total_won ps + new_amount\<rparr>) new_player s1
         in s2\<lparr>hs_payout_corrections := hs_payout_corrections s2 @
               [\<lparr>pcor_entry_id = lr_entry_id e, pcor_old_player_id = old_player, pcor_old_amount = old_amount,
                 pcor_new_player_id = new_player, pcor_new_amount = new_amount\<rparr>]\<rparr>)
      else state)"

definition rebuild_hand_state :: "LedgerRow list \<Rightarrow> HandState" where
  "rebuild_hand_state entries = foldl apply_entry initial_hand_state entries"


section \<open>hand_replay.py\<close>

record HandStep =
  hstep_step_number :: int
  hstep_entry_id :: string
  hstep_entry_type :: LedgerEntryType
  hstep_player_id :: "player_id option"
  hstep_amount :: "int option"
  hstep_state_after :: HandState

record ReplayResult =
  rr_steps :: "HandStep list"
  rr_final_state :: HandState
  rr_entry_count :: int
  rr_is_consistent :: bool

text \<open>The loop of \<^verbatim>\<open>replay_hand\<close>: the running state, the next step number, the steps so far.\<close>

fun replay_loop :: "HandState \<Rightarrow> int \<Rightarrow> HandStep list \<Rightarrow> LedgerRow list \<Rightarrow> HandState \<times> HandStep list" where
  "replay_loop state i steps [] = (state, steps)"
| "replay_loop state i steps (entry # entries) =
     (let state' = apply_entry state entry;
          step = \<lparr>hstep_step_number = i, hstep_entry_id = lr_entry_id entry,
                  hstep_entry_type = lr_entry_type entry, hstep_player_id = lr_player_id entry,
                  hstep_amount = lr_amount entry, hstep_state_after = state'\<rparr>
      in replay_loop state' (i + 1) (steps @ [step]) entries)"

definition replay_hand :: "LedgerRow list \<Rightarrow> ReplayResult" where
  "replay_hand entries =
     (case replay_loop initial_hand_state 1 [] entries of (state, steps) \<Rightarrow>
        \<lparr>rr_steps = steps,
         rr_final_state = (if entries \<noteq> [] then state else initial_hand_state),
         rr_entry_count = int (length entries),
         rr_is_consistent = True\<rparr>)"

definition pot_mismatch :: "int \<Rightarrow> int \<Rightarrow> string" where
  "pot_mismatch replayed live = ''Pot mismatch: replayed='' @ str_int replayed @ '', live='' @ str_int live"

definition missing_in_replay :: "player_id \<Rightarrow> string" where
  "missing_in_replay pid = ''Player '' @ pid @ '' exists in live state but not in replay''"

definition committed_mismatch :: "player_id \<Rightarrow> int \<Rightarrow> int \<Rightarrow> string" where
  "committed_mismatch pid replayed live = ''Player '' @ pid @ '' committed mismatch: replayed='' @
     str_int replayed @ '', live='' @ str_int live"

definition missing_in_live :: "player_id \<Rightarrow> string" where
  "missing_in_live pid = ''Player '' @ pid @ '' exists in replay but not in live state''"

definition verify_consistency :: "LedgerRow list \<Rightarrow> int \<Rightarrow> (player_id \<times> int) list \<Rightarrow> string list" where
  "verify_consistency entries live_pot_total live_player_committed =
     (let replayed = rebuild_hand_state entries;
          d1 = (if hs_pot_total replayed \<noteq> live_pot_total
                then [pot_mismatch (hs_pot_total replayed) live_pot_total] else []);
          d2 = concat (map (\<lambda>(pid, committed).
                 case dict_get (hs_players replayed) pid of
                   None \<Rightarrow> [missing_in_replay pid]
                 | Some snap \<Rightarrow>
                     if snap_total_committed snap \<noteq> committed
                     then [committed_mismatch pid (snap_total_committed snap) committed] else [])
               live_player_committed);
          d3 = concat (map (\<lambda>(pid, snap). if dict_get live_player_committed pid = None
                                          then [missing_in_live pid] else []) (hs_players replayed))
      in d1 @ d2 @ d3)"


section \<open>hand_history.py\<close>

record ActionEntry =
  ae_entry_id :: string
  ae_player_id :: "player_id option"
  ae_action_type :: LedgerEntryType
  ae_amount :: int
  ae_pot_running_total :: int

record StreetSummary =
  ss_street :: string
  ss_actions :: "ActionEntry list"
  ss_pot_at_start :: int
  ss_pot_at_end :: int

record PayoutEntry =
  pe_entry_id :: string
  pe_player_id :: player_id
  pe_amount :: int

record CorrectionEntry =
  ce_entry_id :: string
  ce_correction_type :: LedgerEntryType
  ce_player_id :: "player_id option"
  ce_amount :: "int option"
  ce_original_entry_id :: "string option"
  ce_detail :: "Detail option"

record HandTimeline =
  tl_round_id :: string
  tl_streets :: "StreetSummary list"
  tl_payouts :: "PayoutEntry list"
  tl_corrections :: "CorrectionEntry list"
  tl_is_completed :: bool
  tl_is_reopened :: bool
  tl_total_entries :: int

text \<open>The local variables of \<^verbatim>\<open>build_hand_timeline\<close>: the timeline, the open street, the pot.\<close>

record TimelineState =
  ts_timeline :: HandTimeline
  ts_current_street :: StreetSummary
  ts_pot :: int

definition new_street :: "string \<Rightarrow> int \<Rightarrow> StreetSummary" where
  "new_street name pot = \<lparr>ss_street = name, ss_actions = [], ss_pot_at_start = pot, ss_pot_at_end = 0\<rparr>"

definition timeline_entry :: "TimelineState \<Rightarrow> LedgerRow \<Rightarrow> TimelineState" where
  "timeline_entry ts entry =
     (let etype = lr_entry_type entry; tl = ts_timeline ts; pot = ts_pot ts; amt = amount_or_0 entry in
      if etype = STREET_DEALT then
        ts\<lparr>ts_timeline := tl\<lparr>tl_streets := tl_streets tl @ [(ts_current_street ts)\<lparr>ss_pot_at_end := pot\<rparr>]\<rparr>,
           ts_current_street := new_street
             (case lr_detail entry of
                Some d \<Rightarrow> (case d_street d of Some s \<Rightarrow> s | None \<Rightarrow> ''UNKNOWN'')
              | None \<Rightarrow> ''UNKNOWN'') pot\<rparr>
      else if etype \<in> {BLIND_POSTED, ANTE_POSTED} \<or> etype = BET_PLACED then
        ts\<lparr>ts_pot := pot + amt,
           ts_current_street := (ts_current_street ts)\<lparr>ss_actions := ss_actions (ts_current_street ts) @
             [\<lparr>ae_entry_id = lr_entry_id entry, ae_player_id = lr_player_id entry, ae_action_type = etype,
               ae_amount = amt, ae_pot_running_total = pot + amt\<rparr>]\<rparr>\<rparr>
      else if etype = PAYOUT_AWARDED then
        (case truthy (lr_player_id entry) of
           None \<Rightarrow> ts
         | Some p \<Rightarrow> ts\<lparr>ts_timeline := tl\<lparr>tl_payouts := tl_payouts tl @
             [\<lparr>pe_entry_id = lr_entry_id entry, pe_player_id = p, pe_amount = amt\<rparr>]\<rparr>\<rparr>)
      else if etype = LEDGER_ROUND_COMPLETED then
        ts\<lparr>ts_timeline := tl\<lparr>tl_is_completed := True\<rparr>\<rparr>
      else if etype \<in> CORRECTION_ENTRY_TYPES then
        (let tl1 = (if etype = HAND_REOPENED then tl\<lparr>tl_is_reopened := True, tl_is_completed := False\<rparr> else tl);
             pot1 = (if etype = ACTION_REVERSED then pot - amt else pot);
             tl2 = tl1\<lparr>tl_corrections := tl_corrections tl1 @
               [\<lparr>ce_entry_id = lr_entry_id entry, ce_correction_type = etype, ce_player_id = lr_player_id entry,
                 ce_amount = lr_amount entry, ce_original_entry_id = lr_original_entry_id entry,
                 ce_detail = lr_detail entry\<rparr>]\<rparr>
         in ts\<lparr>ts_timeline := tl2, ts_pot := pot1\<rparr>)
      else ts)"

definition initial_timeline :: "round_id \<Rightarrow> int \<Rightarrow> TimelineState" where
  "initial_timeline rid n =
     \<lparr>ts_timeline = \<lparr>tl_round_id = rid, tl_streets = [], tl_payouts = [], tl_corrections = [],
        tl_is_completed = False, tl_is_reopened = False, tl_total_entries = n\<rparr>,
      ts_current_street = new_street ''PRE_FLOP'' 0, ts_pot = 0\<rparr>"

definition finish_timeline :: "TimelineState \<Rightarrow> HandTimeline" where
  "finish_timeline ts = (ts_timeline ts)\<lparr>tl_streets := tl_streets (ts_timeline ts) @
     [(ts_current_street ts)\<lparr>ss_pot_at_end := ts_pot ts\<rparr>]\<rparr>"

definition build_hand_timeline :: "round_id \<Rightarrow> LedgerRow list \<Rightarrow> HandTimeline" where
  "build_hand_timeline rid entries =
     finish_timeline (foldl timeline_entry (initial_timeline rid (int (length entries))) entries)"


section \<open>Folds over the ledger\<close>

text \<open>
  A state rebuilt from its history: from an initial state, one step per event, in order.
\<close>

locale event_sourced =
  fixes init :: 's and step :: "'s \<Rightarrow> 'e \<Rightarrow> 's" and rebuild :: "'e list \<Rightarrow> 's"
  assumes rebuild_Nil: "rebuild [] = init"
    and rebuild_snoc: "rebuild (es @ [e]) = step (rebuild es) e"
begin

lemma rebuild_append: "rebuild (xs @ ys) = foldl step (rebuild xs) ys"
proof (induction ys rule: rev_induct)
  case (snoc y ys)
  then show ?case using rebuild_snoc [of "xs @ ys" y] by simp
qed simp

lemma rebuild_invariant:
  assumes "I init" and "\<And>s e. e \<in> set es \<Longrightarrow> I s \<Longrightarrow> I (step s e)"
  shows "I (rebuild es)"
  using assms
proof (induction es rule: rev_induct)
  case Nil
  then show ?case by (simp add: rebuild_Nil)
next
  case (snoc e es)
  then show ?case by (simp add: rebuild_snoc)
qed

lemma rebuild_sum:
  fixes m :: "'s \<Rightarrow> int"
  assumes "\<And>s e. m (step s e) = m s + d e"
  shows "m (rebuild es) = m init + sum_list (map d es)"
proof (induction es rule: rev_induct)
  case Nil
  then show ?case by (simp add: rebuild_Nil)
next
  case (snoc e es)
  then show ?case by (simp add: rebuild_snoc assms)
qed

end

text \<open>Two such states over the same events, kept in relation by every step.\<close>

locale event_refinement = a: event_sourced initA stepA rebuildA + b: event_sourced initB stepB rebuildB
  for initA :: 's and stepA :: "'s \<Rightarrow> 'e \<Rightarrow> 's" and rebuildA :: "'e list \<Rightarrow> 's"
    and initB :: 't and stepB :: "'t \<Rightarrow> 'e \<Rightarrow> 't" and rebuildB :: "'e list \<Rightarrow> 't" +
  fixes R :: "'s \<Rightarrow> 't \<Rightarrow> bool"
  assumes related_init: "R initA initB"
    and related_step: "R s t \<Longrightarrow> R (stepA s e) (stepB t e)"
begin

lemma related: "R (rebuildA es) (rebuildB es)"
proof (induction es rule: rev_induct)
  case Nil
  then show ?case by (simp add: a.rebuild_Nil b.rebuild_Nil related_init)
next
  case (snoc e es)
  then show ?case by (simp add: a.rebuild_snoc b.rebuild_snoc related_step)
qed

end

interpretation ledger: event_sourced initial_hand_state apply_entry rebuild_hand_state
  by unfold_locales (simp_all add: rebuild_hand_state_def)

interpretation timeline: event_sourced "initial_timeline rid n" timeline_entry
    "foldl timeline_entry (initial_timeline rid n)" for rid n
  by unfold_locales simp_all


section \<open>What an entry adds\<close>

text \<open>The chips an entry brings into the pot, and the chips it takes out of one player's stack.\<close>

definition pot_delta :: "LedgerRow \<Rightarrow> int" where
  "pot_delta e = (if lr_entry_type e \<in> {BLIND_POSTED, ANTE_POSTED, BET_PLACED} then amount_or_0 e
     else if lr_entry_type e = ACTION_REVERSED then - amount_or_0 e else 0)"

definition committed_by :: "player_id \<Rightarrow> HandState \<Rightarrow> int" where
  "committed_by pid s = (case dict_get (hs_players s) pid of Some ps \<Rightarrow> snap_total_committed ps | None \<Rightarrow> 0)"

definition won_by :: "player_id \<Rightarrow> HandState \<Rightarrow> int" where
  "won_by pid s = (case dict_get (hs_players s) pid of Some ps \<Rightarrow> snap_total_won ps | None \<Rightarrow> 0)"

definition won_delta :: "player_id \<Rightarrow> LedgerRow \<Rightarrow> int" where
  "won_delta pid e =
     (if lr_entry_type e = PAYOUT_AWARDED \<and> truthy (lr_player_id e) = Some pid then amount_or_0 e
      else if lr_entry_type e = PAYOUT_CORRECTED then
        (if truthy (lr_player_id e) = Some pid then amount_or_0 e else 0) -
        (case lr_detail e of
           Some d \<Rightarrow> if truthy (d_old_player_id d) = Some pid
                     then (case d_old_amount d of Some n \<Rightarrow> n | None \<Rightarrow> 0) else 0
         | None \<Rightarrow> 0)
      else 0)"

lemma change_player_frame [simp]:
  "hs_pot_total (change_player f pid s) = hs_pot_total s"
  "hs_is_completed (change_player f pid s) = hs_is_completed s"
  "hs_is_reopened (change_player f pid s) = hs_is_reopened s"
  "hs_entry_count (change_player f pid s) = hs_entry_count s"
  by (simp_all add: change_player_def split: option.splits)

lemma committed_by_change:
  assumes "\<And>ps. snap_total_committed (f ps) = snap_total_committed ps + k"
  shows "committed_by pid (change_player f p s) = committed_by pid s + (if truthy p = Some pid then k else 0)"
  using assms
  by (auto simp: committed_by_def change_player_def ensure_player_def new_snapshot_def split: option.splits)

lemma won_by_change:
  assumes "\<And>ps. snap_total_won (f ps) = snap_total_won ps + k"
  shows "won_by pid (change_player f p s) = won_by pid s + (if truthy p = Some pid then k else 0)"
  using assms
  by (auto simp: won_by_def change_player_def ensure_player_def new_snapshot_def split: option.splits)

lemma by_frame [simp]:
  "committed_by pid (s\<lparr>hs_pot_total := a\<rparr>) = committed_by pid s" "committed_by pid (s\<lparr>hs_entry_count := b\<rparr>) = committed_by pid s"
  "committed_by pid (s\<lparr>hs_is_completed := c\<rparr>) = committed_by pid s" "committed_by pid (s\<lparr>hs_is_reopened := c\<rparr>) = committed_by pid s"
  "committed_by pid (s\<lparr>hs_reversed_entry_ids := d\<rparr>) = committed_by pid s"
  "committed_by pid (s\<lparr>hs_payout_corrections := e\<rparr>) = committed_by pid s"
  "won_by pid (s\<lparr>hs_pot_total := a\<rparr>) = won_by pid s" "won_by pid (s\<lparr>hs_entry_count := b\<rparr>) = won_by pid s"
  "won_by pid (s\<lparr>hs_is_completed := c\<rparr>) = won_by pid s" "won_by pid (s\<lparr>hs_is_reopened := c\<rparr>) = won_by pid s"
  "won_by pid (s\<lparr>hs_reversed_entry_ids := d\<rparr>) = won_by pid s"
  "won_by pid (s\<lparr>hs_payout_corrections := e\<rparr>) = won_by pid s"
  by (simp_all add: committed_by_def won_by_def)

lemma apply_entry_pot: "hs_pot_total (apply_entry s e) = hs_pot_total s + pot_delta e"
  by (cases "lr_entry_type e") (simp_all add: apply_entry_def pot_delta_def Let_def split: option.splits)

lemma apply_entry_committed:
  "committed_by pid (apply_entry s e) =
    committed_by pid s + (if truthy (lr_player_id e) = Some pid then pot_delta e else 0)"
  by (cases "lr_entry_type e")
    (simp_all add: apply_entry_def pot_delta_def Let_def committed_by_change [where k = 0]
      committed_by_change [where k = "amount_or_0 e"] committed_by_change [where k = "- amount_or_0 e"]
      split: option.splits)

lemma apply_entry_won: "won_by pid (apply_entry s e) = won_by pid s + won_delta pid e"
  by (cases "lr_entry_type e")
    (auto simp: apply_entry_def won_delta_def Let_def won_by_change [where k = 0]
      won_by_change [where k = "amount_or_0 e"] won_by_change [where k = "- k" for k]
      split: option.splits)

lemma apply_entry_count: "hs_entry_count (apply_entry s e) = hs_entry_count s + 1"
  by (cases "lr_entry_type e") (simp_all add: apply_entry_def Let_def split: option.splits)


section \<open>Replay and timeline\<close>

definition step_of :: "int \<Rightarrow> LedgerRow \<Rightarrow> HandState \<Rightarrow> HandStep" where
  "step_of i e s = \<lparr>hstep_step_number = i, hstep_entry_id = lr_entry_id e, hstep_entry_type = lr_entry_type e,
     hstep_player_id = lr_player_id e, hstep_amount = lr_amount e, hstep_state_after = s\<rparr>"

lemma replay_loop_steps:
  "replay_loop s i steps es = (foldl apply_entry s es,
     steps @ map (\<lambda>k. step_of (i + int k) (es ! k) (foldl apply_entry s (take (Suc k) es))) [0..<length es])"
proof (induction es arbitrary: s i steps)
  case Nil
  then show ?case by simp
next
  case (Cons e es)
  have "map (\<lambda>k. step_of (i + int k) ((e # es) ! k) (foldl apply_entry s (take (Suc k) (e # es)))) [0..<length (e # es)] =
      step_of i e (apply_entry s e) #
      map (\<lambda>k. step_of (i + 1 + int k) (es ! k) (foldl apply_entry (apply_entry s e) (take (Suc k) es))) [0..<length es]"
    by (simp add: upt_conv_Cons map_Suc_upt [symmetric] add.assoc del: upt_Suc)
  with Cons show ?case by (simp add: Let_def step_of_def [symmetric])
qed

lemma replay_hand_eq:
  "replay_hand es = \<lparr>rr_steps = map (\<lambda>k. step_of (int k + 1) (es ! k) (rebuild_hand_state (take (Suc k) es))) [0..<length es],
     rr_final_state = rebuild_hand_state es, rr_entry_count = int (length es), rr_is_consistent = True\<rparr>"
  by (simp add: replay_hand_def replay_loop_steps rebuild_hand_state_def add.commute)

text \<open>The timeline's running pot and flags are those of the rebuilt state.\<close>

definition agrees :: "HandState \<Rightarrow> TimelineState \<Rightarrow> bool" where
  "agrees s t \<longleftrightarrow> ts_pot t = hs_pot_total s \<and> tl_is_completed (ts_timeline t) = hs_is_completed s \<and>
     tl_is_reopened (ts_timeline t) = hs_is_reopened s"

interpretation history: event_refinement initial_hand_state apply_entry rebuild_hand_state
    "initial_timeline rid n" timeline_entry "foldl timeline_entry (initial_timeline rid n)" agrees for rid n
proof
  show "agrees initial_hand_state (initial_timeline rid n)"
    by (simp add: agrees_def initial_hand_state_def initial_timeline_def)
  fix s t e
  assume "agrees s t"
  then show "agrees (apply_entry s e) (timeline_entry t e)"
    by (cases "lr_entry_type e")
      (auto simp: agrees_def apply_entry_def timeline_entry_def CORRECTION_ENTRY_TYPES_def Let_def split: option.splits)
qed

lemma timeline_streets_length:
  "int (length (tl_streets (ts_timeline (foldl timeline_entry (initial_timeline rid n) es)))) =
    int (length (filter (\<lambda>e. lr_entry_type e = STREET_DEALT) es))"
proof -
  have "int (length (tl_streets (ts_timeline (timeline_entry t e)))) =
      int (length (tl_streets (ts_timeline t))) + (if lr_entry_type e = STREET_DEALT then 1 else 0)" for t e
    by (auto simp: timeline_entry_def Let_def split: option.splits)
  from timeline.rebuild_sum [where m = "\<lambda>t. int (length (tl_streets (ts_timeline t)))", OF this, of rid n es]
  show ?thesis
    using length_filter_sum [of "\<lambda>e. lr_entry_type e = STREET_DEALT" es 1] by (simp add: initial_timeline_def)
qed

text \<open>Each street closes at the pot the next one opens with.\<close>

definition chained :: "StreetSummary list \<Rightarrow> int \<Rightarrow> bool" where
  "chained ss pot \<longleftrightarrow> (\<forall>i. Suc i < length ss \<longrightarrow> ss_pot_at_end (ss ! i) = ss_pot_at_start (ss ! Suc i)) \<and>
     (ss \<noteq> [] \<longrightarrow> ss_pot_at_end (last ss) = pot)"

lemma chained_snoc: "chained ss (ss_pot_at_start x) \<Longrightarrow> ss_pot_at_end x = pot \<Longrightarrow> chained (ss @ [x]) pot"
  by (auto simp: chained_def nth_append last_conv_nth less_Suc_eq) (metis diff_Suc_Suc diff_zero)

lemma timeline_chained:
  "chained (tl_streets (ts_timeline (foldl timeline_entry (initial_timeline rid n) es)))
    (ss_pot_at_start (ts_current_street (foldl timeline_entry (initial_timeline rid n) es)))"
proof (rule timeline.rebuild_invariant [where I = "\<lambda>t. chained (tl_streets (ts_timeline t)) (ss_pot_at_start (ts_current_street t))"])
  show "chained (tl_streets (ts_timeline (initial_timeline rid n))) (ss_pot_at_start (ts_current_street (initial_timeline rid n)))"
    by (simp add: chained_def initial_timeline_def new_street_def)
  fix t :: TimelineState and e assume "chained (tl_streets (ts_timeline t)) (ss_pot_at_start (ts_current_street t))"
  then show "chained (tl_streets (ts_timeline (timeline_entry t e))) (ss_pot_at_start (ts_current_street (timeline_entry t e)))"
    by (auto simp: timeline_entry_def new_street_def Let_def intro!: chained_snoc split: option.splits)
qed

lemma hs_players_distinct: "distinct (map fst (hs_players (rebuild_hand_state es)))"
proof (rule ledger.rebuild_invariant [where I = "\<lambda>s. distinct (map fst (hs_players s))"])
  have change: "distinct (map fst (hs_players s)) \<Longrightarrow> distinct (map fst (hs_players (change_player f p s)))" for f p s
    by (simp add: change_player_def distinct_dict_set split: option.splits)
  fix s :: HandState and e assume "distinct (map fst (hs_players s))"
  then show "distinct (map fst (hs_players (apply_entry s e)))"
    by (cases "lr_entry_type e") (simp_all add: apply_entry_def Let_def change split: option.splits)
qed (simp add: initial_hand_state_def)


section \<open>Properties\<close>

definition example_ledger :: "LedgerRow list" where
  "example_ledger = map (\<lambda>(i, t, p, n). \<lparr>lr_entry_id = i, lr_entry_type = t, lr_player_id = p, lr_amount = n,
     lr_detail = None, lr_original_entry_id = None\<rparr>)
     [(''e1'', BLIND_POSTED, Some ''a'', Some 5), (''e2'', BLIND_POSTED, Some ''b'', Some 10),
      (''e3'', BET_PLACED, Some ''a'', Some 5), (''e4'', LEDGER_ROUND_COMPLETED, None, Some 20)]"

text \<open>
  A replay is the history of the rebuilt state. \<^verbatim>\<open>replay_hand\<close> gives one step per entry,
  numbered from 1, in order; the state after step \<open>k\<close> is the state rebuilt from the first \<open>k\<close>
  entries, and the final state is the one \<^verbatim>\<open>rebuild_hand_state\<close> computes from all of them.
\<close>

theorem replay_is_rebuild_of_prefixes:
  "rr_final_state (replay_hand es) = rebuild_hand_state es \<and>
   rr_entry_count (replay_hand es) = int (length es) \<and>
   map hstep_state_after (rr_steps (replay_hand es)) = map (\<lambda>k. rebuild_hand_state (take (Suc k) es)) [0..<length es] \<and>
   map hstep_step_number (rr_steps (replay_hand es)) = map (\<lambda>k. int k + 1) [0..<length es] \<and>
   map hstep_entry_id (rr_steps (replay_hand es)) = map lr_entry_id es"
proof -
  have "map (\<lambda>k. lr_entry_id (es ! k)) [0..<length es] = map lr_entry_id es"
    by (rule nth_equalityI) simp_all
  then show ?thesis by (simp add: replay_hand_eq step_of_def comp_def)
qed

text \<open>
  What the ledger adds up to. The rebuilt pot is the sum of blinds, antes and bets less
  the amounts of the reversals; a player's committed total is the same sum over his own
  entries; his winnings are his awards plus the corrections in his favour less those
  against him; and every entry is counted.
\<close>

theorem rebuilt_state_sums:
  "hs_pot_total (rebuild_hand_state es) = sum_list (map pot_delta es) \<and>
   committed_by pid (rebuild_hand_state es) =
     sum_list (map pot_delta (filter (\<lambda>e. truthy (lr_player_id e) = Some pid) es)) \<and>
   won_by pid (rebuild_hand_state es) = sum_list (map (won_delta pid) es) \<and>
   hs_entry_count (rebuild_hand_state es) = int (length es)"
proof -
  have "hs_pot_total (rebuild_hand_state es) = 0 + sum_list (map pot_delta es)"
    using ledger.rebuild_sum [OF apply_entry_pot, of es] by (simp add: initial_hand_state_def)
  moreover have "committed_by pid (rebuild_hand_state es) =
      0 + sum_list (map (\<lambda>e. if truthy (lr_player_id e) = Some pid then pot_delta e else 0) es)"
    using ledger.rebuild_sum [OF apply_entry_committed [of pid], of es]
    by (simp add: initial_hand_state_def committed_by_def)
  moreover have "sum_list (map (\<lambda>e. if truthy (lr_player_id e) = Some pid then pot_delta e else 0) es) =
      sum_list (map pot_delta (filter (\<lambda>e. truthy (lr_player_id e) = Some pid) es))"
    by (rule sum_list_map_filter' [symmetric])
  moreover have "won_by pid (rebuild_hand_state es) = 0 + sum_list (map (won_delta pid) es)"
    using ledger.rebuild_sum [OF apply_entry_won [of pid], of es] by (simp add: initial_hand_state_def won_by_def)
  moreover have "hs_entry_count (rebuild_hand_state es) = 0 + sum_list (map (\<lambda>e. 1) es)"
    using ledger.rebuild_sum [OF apply_entry_count, of es] by (simp add: initial_hand_state_def)
  ultimately show ?thesis by (simp add: sum_list_triv)
qed

lemma verify_consistency_Nil:
  assumes "distinct (map fst live)"
  shows "verify_consistency es pot live = [] \<longleftrightarrow> hs_pot_total (rebuild_hand_state es) = pot \<and>
    (\<forall>pid. map_option snap_total_committed (dict_get (hs_players (rebuild_hand_state es)) pid) = dict_get live pid)"
proof -
  let ?ps = "hs_players (rebuild_hand_state es)"
  have live: "dict_get live pid = Some c \<longleftrightarrow> (pid, c) \<in> set live" for pid c
    using assms by (simp add: dict_get_def map_of_eq_Some_iff)
  have rep: "dict_get ?ps pid = Some c \<longleftrightarrow> (pid, c) \<in> set ?ps" for pid c
    using hs_players_distinct by (simp add: dict_get_def map_of_eq_Some_iff)
  have "verify_consistency es pot live = [] \<longleftrightarrow> hs_pot_total (rebuild_hand_state es) = pot \<and>
      (\<forall>pid c. dict_get live pid = Some c \<longrightarrow> (\<exists>ps. dict_get ?ps pid = Some ps \<and> snap_total_committed ps = c)) \<and>
      (\<forall>pid ps. dict_get ?ps pid = Some ps \<longrightarrow> dict_get live pid \<noteq> None)"
  proof -
    have point: "(case dict_get ?ps pid of None \<Rightarrow> [missing_in_replay pid] | Some snap \<Rightarrow>
          if snap_total_committed snap \<noteq> c then [committed_mismatch pid (snap_total_committed snap) c] else []) = [] \<longleftrightarrow>
        (\<exists>ps. dict_get ?ps pid = Some ps \<and> snap_total_committed ps = c)" for pid c
      by (simp split: option.splits)
    show ?thesis
      unfolding verify_consistency_def Let_def append_is_Nil_conv concat_eq_Nil_conv set_map ball_simps
        split_beta point live rep
      by (fastforce split: if_splits)
  qed
  also have "\<dots> \<longleftrightarrow> hs_pot_total (rebuild_hand_state es) = pot \<and>
      (\<forall>pid. map_option snap_total_committed (dict_get ?ps pid) = dict_get live pid)"
  proof -
    have "map_option snap_total_committed (dict_get ?ps pid) = dict_get live pid \<longleftrightarrow>
        (\<forall>c. dict_get live pid = Some c \<longrightarrow> (\<exists>ps. dict_get ?ps pid = Some ps \<and> snap_total_committed ps = c)) \<and>
        (\<forall>ps. dict_get ?ps pid = Some ps \<longrightarrow> dict_get live pid \<noteq> None)" for pid
      by (cases "dict_get ?ps pid"; cases "dict_get live pid") auto
    then show ?thesis by (simp only:) blast
  qed
  finally show ?thesis .
qed

text \<open>
  The consistency check is exact. For live commitments given as a dictionary,
  \<^verbatim>\<open>verify_consistency\<close> reports nothing exactly when the rebuilt pot is the live pot and
  ledger and live state name the same players with the same committed totals.
\<close>

theorem verify_consistency_exact:
  assumes "distinct (map fst live)"
  shows "verify_consistency es pot live = [] \<longleftrightarrow> hs_pot_total (rebuild_hand_state es) = pot \<and>
    (\<forall>pid. map_option snap_total_committed (dict_get (hs_players (rebuild_hand_state es)) pid) = dict_get live pid)"
  using assms by (rule verify_consistency_Nil)

theorem verify_consistency_exact_witness:
  "verify_consistency example_ledger 20 [(''a'', 10), (''b'', 10)] = [] \<and>
   hs_pot_total (rebuild_hand_state example_ledger) = 20"
proof -
  have "distinct (map fst [(''a'', 10 :: int), (''b'', 10)])" by simp
  moreover have "verify_consistency example_ledger 20 [(''a'', 10), (''b'', 10)] = []" by code_simp
  ultimately show ?thesis using verify_consistency_exact by blast
qed

text \<open>
  The timeline tells the ledger's story. It closes with the rebuilt pot, carries the
  same completed and reopened flags, has one street more than the ledger has STREET_DEALT
  entries, and each street opens with the pot at which the previous one closed.
\<close>

theorem timeline_matches_ledger:
  "ss_pot_at_end (last (tl_streets (build_hand_timeline rid es))) = hs_pot_total (rebuild_hand_state es) \<and>
   tl_is_completed (build_hand_timeline rid es) = hs_is_completed (rebuild_hand_state es) \<and>
   tl_is_reopened (build_hand_timeline rid es) = hs_is_reopened (rebuild_hand_state es) \<and>
   length (tl_streets (build_hand_timeline rid es)) = Suc (length (filter (\<lambda>e. lr_entry_type e = STREET_DEALT) es)) \<and>
   chained (tl_streets (build_hand_timeline rid es)) (hs_pot_total (rebuild_hand_state es))"
proof -
  let ?t = "foldl timeline_entry (initial_timeline rid (int (length es))) es"
  have "agrees (rebuild_hand_state es) ?t" by (rule history.related)
  moreover have "chained (tl_streets (ts_timeline ?t) @ [(ts_current_street ?t)\<lparr>ss_pot_at_end := ts_pot ?t\<rparr>]) (ts_pot ?t)"
    using timeline_chained by (intro chained_snoc) simp_all
  ultimately show ?thesis
    using timeline_streets_length [of rid "int (length es)" es]
    by (simp add: build_hand_timeline_def finish_timeline_def agrees_def)
qed

end
