(* ===== verification/Room_Adapter.thy ===== *)
theory Room_Adapter
  imports Models
begin

text \<open>
  \<^verbatim>\<open>domain/integration/room_adapter.py\<close>: a room as game-service sees it, and what
  \<^verbatim>\<open>infrastructure/room_config.py\<close> makes of the answers of room-service. The answers
  themselves come from outside: they are values of \<open>http_outcome\<close> and \<open>room_outcome\<close> that
  the functions take as arguments. A JSON field the code reads with a default is optional.
\<close>

section \<open>Data\<close>

record BlindLevelConfig =
  bl_level :: int
  bl_small_blind :: int
  bl_big_blind :: int
  bl_ante :: int
  bl_duration_minutes :: "int option"

record PlayerConfig =
  cfg_player_id :: player_id
  cfg_seat_number :: int
  cfg_chip_count :: int
  cfg_is_active :: bool
  cfg_is_eliminated :: bool

record RoomConfig =
  rc_room_id :: room_id
  rc_starting_dealer_seat :: int
  rc_antes_enabled :: bool
  rc_players :: "PlayerConfig list"
  rc_blind_levels :: "BlindLevelConfig list"

definition cfg_in_play :: "PlayerConfig \<Rightarrow> bool" where
  "cfg_in_play p \<longleftrightarrow> cfg_is_active p \<and> \<not> cfg_is_eliminated p \<and> cfg_chip_count p > 0"

definition active_players :: "RoomConfig \<Rightarrow> PlayerConfig list" where
  "active_players rc = sort_key cfg_seat_number (filter cfg_in_play (rc_players rc))"

definition room_active_seats :: "RoomConfig \<Rightarrow> int list" where
  "room_active_seats rc = map cfg_seat_number (active_players rc)"

definition blind_level :: "RoomConfig \<Rightarrow> int \<Rightarrow> BlindLevelConfig option" where
  "blind_level rc level_num = List.find (\<lambda>bl. bl_level bl = level_num) (rc_blind_levels rc)"

text \<open>\<^verbatim>\<open>max((bl.level for bl in room_config.blind_levels), default=1)\<close>\<close>

definition max_level :: "RoomConfig \<Rightarrow> int" where
  "max_level rc = max_default 1 (map bl_level (rc_blind_levels rc))"


section \<open>Answers of room-service\<close>

datatype http_outcome =
    NoResponse
  | Response int "string option" string  \<comment> \<open>status, the \<open>detail\<close> of a JSON body, the text\<close>

record PlayerPayload =
  pl_player_id :: player_id
  pl_seat_number :: int
  pl_chip_count :: "int option"
  pl_is_active :: "bool option"
  pl_is_eliminated :: "bool option"

record BlindPayload =
  bp_level :: int
  bp_small_blind :: int
  bp_big_blind :: int
  bp_ante :: "int option"
  bp_duration_minutes :: "int option"

record RoomPayload =
  rp_starting_dealer_seat :: "int option"
  rp_antes_enabled :: "bool option"
  rp_players :: "PlayerPayload list"
  rp_blind_levels :: "BlindPayload list"

datatype room_outcome = NoRoom | RoomAnswer int RoomPayload

definition get_or :: "'a option \<Rightarrow> 'a \<Rightarrow> 'a" where
  "get_or v d = (case v of Some x \<Rightarrow> x | None \<Rightarrow> d)"

definition post_room_status_update :: "http_outcome \<Rightarrow> string \<Rightarrow> unit result" where
  "post_room_status_update answer action = (case answer of
     NoResponse \<Rightarrow> Inl (HTTPException 502 (''Failed to '' @ action @ '' room in room-service''))
   | Response status detail txt \<Rightarrow>
       if status = 404 then raise NotFound ROOM_NOT_FOUND
       else if status \<ge> 500 then Inl (HTTPException 502 (''Failed to '' @ action @ '' room in room-service''))
       else if status \<ge> 400 then
         Inl (HTTPException status
           (case detail of Some (c # cs) \<Rightarrow> c # cs
            | _ \<Rightarrow> if txt \<noteq> [] then txt else ''Unable to '' @ action @ '' room''))
       else Inr ())"

definition room_config_of :: "room_id \<Rightarrow> RoomPayload \<Rightarrow> RoomConfig" where
  "room_config_of room_id data =
     \<lparr>rc_room_id = room_id,
      rc_starting_dealer_seat = get_or (rp_starting_dealer_seat data) 1,
      rc_antes_enabled = get_or (rp_antes_enabled data) False,
      rc_players = map (\<lambda>p. \<lparr>cfg_player_id = pl_player_id p, cfg_seat_number = pl_seat_number p,
         cfg_chip_count = get_or (pl_chip_count p) 0, cfg_is_active = get_or (pl_is_active p) True,
         cfg_is_eliminated = get_or (pl_is_eliminated p) False\<rparr>) (rp_players data),
      rc_blind_levels = map (\<lambda>bl. \<lparr>bl_level = bp_level bl, bl_small_blind = bp_small_blind bl,
         bl_big_blind = bp_big_blind bl, bl_ante = get_or (bp_ante bl) 0,
         bl_duration_minutes = bp_duration_minutes bl\<rparr>) (rp_blind_levels data)\<rparr>"

text \<open>\<^verbatim>\<open>resp.raise_for_status()\<close> raises on 4xx and 5xx.\<close>

definition fetch_room_config_http :: "room_outcome \<Rightarrow> room_id \<Rightarrow> RoomConfig result" where
  "fetch_room_config_http answer room_id = (case answer of
     NoRoom \<Rightarrow> Inl TransportError
   | RoomAnswer status data \<Rightarrow>
       if status = 404 then raise NotFound ROOM_NOT_FOUND
       else if status \<ge> 400 then Inl (HTTPStatusError status)
       else Inr (room_config_of room_id data))"


section \<open>Lemmas\<close>

lemma sorted_active_seats: "sorted (room_active_seats rc)"
  by (simp add: room_active_seats_def active_players_def)

lemma set_active_players: "p \<in> set (active_players rc) \<longleftrightarrow> p \<in> set (rc_players rc) \<and> cfg_in_play p"
  by (auto simp: active_players_def)

lemma distinct_map_sort_filter: "distinct (map k xs) \<Longrightarrow> distinct (map k (sort_key f (filter P xs)))"
  by (metis distinct_map distinct_map_filter distinct_sort set_sort)

lemma distinct_active:
  "distinct (map cfg_seat_number (rc_players rc)) \<Longrightarrow> distinct (room_active_seats rc)"
  "distinct (map cfg_player_id (rc_players rc)) \<Longrightarrow> distinct (map cfg_player_id (active_players rc))"
  by (simp_all add: room_active_seats_def active_players_def distinct_map_sort_filter)

end
