(* ===== verification/Game_Db.thy ===== *)
theory Game_Db
  imports Models Room_Adapter
begin

text \<open>
  The persistence of game-service: the tables as lists of rows in insertion order, the
  queries of \<^verbatim>\<open>infrastructure/repositories/\<close>, the room snapshots of
  \<^verbatim>\<open>infrastructure/room_config.py\<close>, and the helpers every command uses to write
  (\<^verbatim>\<open>application/action_helpers.py\<close>, the outbox and event builders of \<^verbatim>\<open>shared/core\<close>).

  A command works on the tables inside one transaction: it returns the tables it would
  commit, and \<open>commit\<close> refuses them when a constraint of \<^verbatim>\<open>domain/models.py\<close> is violated,
  in which case (as for every other error) nothing is written. \<^verbatim>\<open>uuid.uuid4()\<close> is a
  parameter: the \<open>n\<close>-th identifier drawn is \<open>env_uuid env n\<close>, the counter being part of the
  state; that identifiers do not collide is enforced by the unique columns. The clock is
  one reading per command.
\<close>

section \<open>State\<close>

record Env =
  env_uuid :: "nat \<Rightarrow> string"
  env_now :: int
  env_post_room :: "room_id \<Rightarrow> string \<Rightarrow> http_outcome"
  env_get_room :: "room_id \<Rightarrow> room_outcome"

record GameDb =
  db_games :: "Game list"
  db_rounds :: "Round list"
  db_round_players :: "RoundPlayer list"
  db_round_payouts :: "RoundPayout list"
  db_bets :: "Bet list"
  db_ledger :: "HandLedgerEntry list"
  db_snapshots :: "RoomSnapshot list"
  db_snapshot_players :: "RoomSnapshotPlayer list"
  db_snapshot_levels :: "RoomSnapshotBlindLevel list"
  db_outbox :: "(GameEventType, event_data) OutboxEvent list"
  db_uuid :: nat

definition uuid4 :: "Env \<Rightarrow> GameDb \<Rightarrow> string \<times> GameDb" where
  "uuid4 env db = (env_uuid env (db_uuid db), db\<lparr>db_uuid := Suc (db_uuid db)\<rparr>)"


section \<open>Constraints\<close>

text \<open>Unique columns, foreign keys and check constraints of \<^verbatim>\<open>domain/models.py\<close>.\<close>

definition unique_ok :: "GameDb \<Rightarrow> bool" where
  "unique_ok db \<longleftrightarrow>
     distinct (map g_game_id (db_games db)) \<and>
     distinct (map r_round_id (db_rounds db)) \<and>
     distinct (map (\<lambda>r. (r_game_id r, r_round_number r)) (db_rounds db)) \<and>
     distinct (map (\<lambda>p. (rp_round_id p, rp_player_id p)) (db_round_players db)) \<and>
     distinct (map (\<lambda>p. (rp_round_id p, rp_seat_number p)) (db_round_players db)) \<and>
     distinct (map b_bet_id (db_bets db)) \<and>
     distinct (map (\<lambda>b. (b_round_id b, b_idempotency_key b)) (filter (\<lambda>b. b_idempotency_key b \<noteq> None) (db_bets db))) \<and>
     distinct (map le_entry_id (db_ledger db)) \<and>
     distinct (map s_game_id (db_snapshots db)) \<and>
     distinct (map (\<lambda>p. (sp_game_id p, sp_player_id p)) (db_snapshot_players db)) \<and>
     distinct (map (\<lambda>p. (sp_game_id p, sp_seat_number p)) (db_snapshot_players db)) \<and>
     distinct (map (\<lambda>l. (sb_game_id l, sb_level l)) (db_snapshot_levels db)) \<and>
     distinct (map ox_event_id (db_outbox db))"

definition foreign_ok :: "GameDb \<Rightarrow> bool" where
  "foreign_ok db \<longleftrightarrow>
     (let games = set (map g_game_id (db_games db)); rounds = set (map r_round_id (db_rounds db)) in
      list_all (\<lambda>r. r_game_id r \<in> games) (db_rounds db) \<and>
      list_all (\<lambda>p. rp_round_id p \<in> rounds) (db_round_players db) \<and>
      list_all (\<lambda>p. po_round_id p \<in> rounds) (db_round_payouts db) \<and>
      list_all (\<lambda>b. b_round_id b \<in> rounds) (db_bets db) \<and>
      list_all (\<lambda>e. le_round_id e \<in> rounds) (db_ledger db) \<and>
      list_all (\<lambda>s. s_game_id s \<in> games) (db_snapshots db) \<and>
      list_all (\<lambda>p. sp_game_id p \<in> games) (db_snapshot_players db) \<and>
      list_all (\<lambda>l. sb_game_id l \<in> games) (db_snapshot_levels db))"

definition checks_ok :: "GameDb \<Rightarrow> bool" where
  "checks_ok db \<longleftrightarrow> list_all Game_ck (db_games db) \<and> list_all Round_ck (db_rounds db) \<and>
     list_all RoundPlayer_ck (db_round_players db) \<and> list_all RoundPayout_ck (db_round_payouts db) \<and>
     list_all Bet_ck (db_bets db) \<and> list_all RoomSnapshotPlayer_ck (db_snapshot_players db)"

definition db_ok :: "GameDb \<Rightarrow> bool" where
  "db_ok db \<longleftrightarrow> unique_ok db \<and> foreign_ok db \<and> checks_ok db"

definition commit :: "GameDb \<Rightarrow> GameDb result" where
  "commit db = (if db_ok db then Inr db else Inl IntegrityError)"


section \<open>Rows by key\<close>

definition put_row :: "('r \<Rightarrow> 'k) \<Rightarrow> 'r \<Rightarrow> 'r list \<Rightarrow> 'r list" where
  "put_row key r rows = map (\<lambda>x. if key x = key r then r else x) rows"

text \<open>\<^verbatim>\<open>scalar_one_or_none()\<close>\<close>

fun scalar_one_or_none :: "'r list \<Rightarrow> 'r option result" where
  "scalar_one_or_none [] = Inr None"
| "scalar_one_or_none [x] = Inr (Some x)"
| "scalar_one_or_none (x # y # xs) = Inl MultipleResultsFound"

definition fetch_or_raise :: "('r \<Rightarrow> bool) \<Rightarrow> 'r list \<Rightarrow> ErrorMessage \<Rightarrow> 'r result" where
  "fetch_or_raise P rows detail = bindE (scalar_one_or_none (filter P rows)) (\<lambda>obj.
     case obj of None \<Rightarrow> raise NotFound detail | Some x \<Rightarrow> Inr x)"

definition fetch_game :: "GameDb \<Rightarrow> game_id \<Rightarrow> Game result" where
  "fetch_game db gid = fetch_or_raise (\<lambda>g. g_game_id g = gid) (db_games db) GAME_NOT_FOUND"

definition fetch_round :: "GameDb \<Rightarrow> round_id \<Rightarrow> Round result" where
  "fetch_round db rid = fetch_or_raise (\<lambda>r. r_round_id r = rid) (db_rounds db) ROUND_NOT_FOUND"

definition put_game :: "Game \<Rightarrow> GameDb \<Rightarrow> GameDb" where
  "put_game g db = db\<lparr>db_games := put_row g_game_id g (db_games db)\<rparr>"

definition put_round :: "Round \<Rightarrow> GameDb \<Rightarrow> GameDb" where
  "put_round r db = db\<lparr>db_rounds := put_row r_round_id r (db_rounds db)\<rparr>"

definition rp_key :: "RoundPlayer \<Rightarrow> round_id \<times> player_id" where
  "rp_key p = (rp_round_id p, rp_player_id p)"

definition put_round_players :: "RoundPlayer list \<Rightarrow> GameDb \<Rightarrow> GameDb" where
  "put_round_players ps db = db\<lparr>db_round_players := foldl (\<lambda>rows p. put_row rp_key p rows) (db_round_players db) ps\<rparr>"


section \<open>infrastructure/repositories\<close>

definition get_active_game_for_room :: "GameDb \<Rightarrow> room_id \<Rightarrow> Game option result" where
  "get_active_game_for_room db room_id =
     scalar_one_or_none (filter (\<lambda>g. g_room_id g = room_id \<and> g_status g = ACTIVE) (db_games db))"

definition get_active_round :: "GameDb \<Rightarrow> game_id \<Rightarrow> Round option result" where
  "get_active_round db gid =
     scalar_one_or_none (filter (\<lambda>r. r_game_id r = gid \<and> r_status r = ROUND_ACTIVE) (db_rounds db))"

definition count_rounds :: "GameDb \<Rightarrow> game_id \<Rightarrow> int" where
  "count_rounds db gid = int (length (filter (\<lambda>r. r_game_id r = gid) (db_rounds db)))"

definition count_completed_rounds :: "GameDb \<Rightarrow> game_id \<Rightarrow> int" where
  "count_completed_rounds db gid =
     int (length (filter (\<lambda>r. r_game_id r = gid \<and> r_status r = ROUND_COMPLETED) (db_rounds db)))"

definition get_rounds_for_game :: "GameDb \<Rightarrow> game_id \<Rightarrow> Round list" where
  "get_rounds_for_game db gid = sort_key r_round_number (filter (\<lambda>r. r_game_id r = gid) (db_rounds db))"

definition get_round_players :: "GameDb \<Rightarrow> round_id \<Rightarrow> RoundPlayer list" where
  "get_round_players db rid = sort_key rp_seat_number (filter (\<lambda>p. rp_round_id p = rid) (db_round_players db))"

definition get_round_payouts :: "GameDb \<Rightarrow> round_id \<Rightarrow> RoundPayout list" where
  "get_round_payouts db rid = sort_key po_pot_index (filter (\<lambda>p. po_round_id p = rid) (db_round_payouts db))"

definition get_ledger_entries :: "GameDb \<Rightarrow> round_id \<Rightarrow> HandLedgerEntry list" where
  "get_ledger_entries db rid = filter (\<lambda>e. le_round_id e = rid) (db_ledger db)"

definition get_ledger_entry_by_id :: "GameDb \<Rightarrow> string \<Rightarrow> HandLedgerEntry option result" where
  "get_ledger_entry_by_id db eid = scalar_one_or_none (filter (\<lambda>e. le_entry_id e = eid) (db_ledger db))"

text \<open>The query has \<^verbatim>\<open>.limit(1)\<close>, so it never finds more than one row.\<close>

definition has_round_completed_entry :: "GameDb \<Rightarrow> round_id \<Rightarrow> bool" where
  "has_round_completed_entry db rid =
     (filter (\<lambda>e. le_round_id e = rid \<and> le_entry_type e = LEDGER_ROUND_COMPLETED) (db_ledger db) \<noteq> [])"

definition get_bets_for_round :: "GameDb \<Rightarrow> round_id \<Rightarrow> Bet list" where
  "get_bets_for_round db rid = filter (\<lambda>b. b_round_id b = rid) (db_bets db)"

definition get_pot_total :: "GameDb \<Rightarrow> round_id \<Rightarrow> int" where
  "get_pot_total db rid = sum_list (map b_amount (get_bets_for_round db rid))"


section \<open>Writing helpers\<close>

definition build_event :: "Env \<Rightarrow> GameDb \<Rightarrow> GameEventType \<Rightarrow> event_data \<Rightarrow> game_event \<times> GameDb" where
  "build_event env db event_type data = (case uuid4 env db of (eid, db1) \<Rightarrow>
     (\<lparr>ev_event_id = eid, ev_event_type = event_type, ev_occurred_at = env_now env,
       ev_source = ''game-service'', ev_data = data\<rparr>, db1))"

definition add_outbox_event :: "GameDb \<Rightarrow> game_event \<Rightarrow> GameDb" where
  "add_outbox_event db event = db\<lparr>db_outbox := db_outbox db @
     [\<lparr>ox_event_id = ev_event_id event, ox_event_type = ev_event_type event, ox_routing_key = ev_event_type event,
       ox_payload = event, ox_status = PENDING, ox_attempts = 0, ox_last_error = None, ox_published_at = None\<rparr>]\<rparr>"

definition emit :: "Env \<Rightarrow> GameEventType \<Rightarrow> event_data \<Rightarrow> GameDb \<Rightarrow> GameDb" where
  "emit env event_type data db = (case build_event env db event_type data of (event, db1) \<Rightarrow>
     add_outbox_event db1 event)"

definition append_ledger_entry ::
    "Env \<Rightarrow> GameDb \<Rightarrow> round_id \<Rightarrow> LedgerEntryType \<Rightarrow> player_id option \<Rightarrow> int option \<Rightarrow> Detail option \<Rightarrow>
     string option \<Rightarrow> string option \<Rightarrow> HandLedgerEntry \<times> GameDb" where
  "append_ledger_entry env db rid entry_type pid amount detail original_entry_id dealer_id =
     (case uuid4 env db of (eid, db1) \<Rightarrow>
        let entry = \<lparr>le_entry_id = eid, le_round_id = rid, le_entry_type = entry_type, le_player_id = pid,
                     le_amount = amount, le_detail = detail, le_original_entry_id = original_entry_id,
                     le_dealer_id = dealer_id\<rparr>
        in (entry, db1\<lparr>db_ledger := db_ledger db1 @ [entry]\<rparr>))"

definition record_bet_action ::
    "Env \<Rightarrow> GameDb \<Rightarrow> round_id \<Rightarrow> player_id \<Rightarrow> BetAction \<Rightarrow> int \<Rightarrow> string option \<Rightarrow> Bet \<times> HandLedgerEntry \<times> GameDb" where
  "record_bet_action env db rid pid action amount idempotency_key =
     (case uuid4 env db of (bet_id, db1) \<Rightarrow>
      case uuid4 env db1 of (entry_id, db2) \<Rightarrow>
        let bet = \<lparr>b_bet_id = bet_id, b_round_id = rid, b_player_id = pid, b_action = action, b_amount = amount,
                   b_idempotency_key = idempotency_key\<rparr>;
            ledger_entry = \<lparr>le_entry_id = entry_id, le_round_id = rid, le_entry_type = BET_PLACED,
                   le_player_id = Some pid, le_amount = Some amount,
                   le_detail = Some (detail_of [(''action'', JStr (BetAction_value action)), (''bet_id'', JStr bet_id)]),
                   le_original_entry_id = None, le_dealer_id = None\<rparr>;
            db3 = db2\<lparr>db_bets := db_bets db2 @ [bet], db_ledger := db_ledger db2 @ [ledger_entry]\<rparr>
        in (bet, ledger_entry,
            emit env EVENT_BET_PLACED
              [(BET_ID, JStr bet_id), (ROUND_ID, JStr rid), (PLAYER_ID, JStr pid),
               (ACTION, JStr (BetAction_value action)), (AMOUNT, JInt amount)] db3))"


section \<open>Room snapshots\<close>

definition save_room_snapshot :: "GameDb \<Rightarrow> game_id \<Rightarrow> RoomConfig \<Rightarrow> GameDb" where
  "save_room_snapshot db gid config = db\<lparr>
     db_snapshots := db_snapshots db @
       [\<lparr>s_game_id = gid, s_room_id = rc_room_id config,
         s_starting_dealer_seat = rc_starting_dealer_seat config, s_antes_enabled = rc_antes_enabled config\<rparr>],
     db_snapshot_players := db_snapshot_players db @
       map (\<lambda>p. \<lparr>sp_game_id = gid, sp_player_id = cfg_player_id p, sp_seat_number = cfg_seat_number p,
                 sp_chip_count = cfg_chip_count p, sp_is_active = cfg_is_active p,
                 sp_is_eliminated = cfg_is_eliminated p\<rparr>) (rc_players config),
     db_snapshot_levels := db_snapshot_levels db @
       map (\<lambda>bl. \<lparr>sb_game_id = gid, sb_level = bl_level bl, sb_small_blind = bl_small_blind bl,
                  sb_big_blind = bl_big_blind bl, sb_ante = bl_ante bl,
                  sb_duration_minutes = bl_duration_minutes bl\<rparr>) (rc_blind_levels config)\<rparr>"

definition load_room_snapshot :: "GameDb \<Rightarrow> game_id \<Rightarrow> RoomConfig result" where
  "load_room_snapshot db gid =
     bindE (scalar_one_or_none (filter (\<lambda>s. s_game_id s = gid) (db_snapshots db))) (\<lambda>found.
     case found of
       None \<Rightarrow> Inl (DomainError NotFound (format_message ROOM_SNAPSHOT_NOT_FOUND gid))
     | Some snap \<Rightarrow> Inr
         \<lparr>rc_room_id = s_room_id snap, rc_starting_dealer_seat = s_starting_dealer_seat snap,
          rc_antes_enabled = s_antes_enabled snap,
          rc_players = map (\<lambda>p. \<lparr>cfg_player_id = sp_player_id p, cfg_seat_number = sp_seat_number p,
              cfg_chip_count = sp_chip_count p, cfg_is_active = sp_is_active p,
              cfg_is_eliminated = sp_is_eliminated p\<rparr>)
            (sort_key sp_seat_number (filter (\<lambda>p. sp_game_id p = gid) (db_snapshot_players db))),
          rc_blind_levels = map (\<lambda>l. \<lparr>bl_level = sb_level l, bl_small_blind = sb_small_blind l,
              bl_big_blind = sb_big_blind l, bl_ante = sb_ante l,
              bl_duration_minutes = sb_duration_minutes l\<rparr>)
            (sort_key sb_level (filter (\<lambda>l. sb_game_id l = gid) (db_snapshot_levels db)))\<rparr>)"

definition sync_player :: "RoundPlayer \<Rightarrow> RoomSnapshotPlayer \<Rightarrow> RoomSnapshotPlayer" where
  "sync_player rp sp = (let chip_count = max (rp_stack_remaining rp) 0 in
     sp\<lparr>sp_chip_count := chip_count, sp_is_active := (chip_count > 0), sp_is_eliminated := (chip_count \<le> 0)\<rparr>)"

definition sync_room_snapshot_players_from_round ::
    "GameDb \<Rightarrow> game_id \<Rightarrow> RoundPlayer list \<Rightarrow> int list \<times> GameDb" where
  "sync_room_snapshot_players_from_round db gid round_players =
     (let rows = foldl (\<lambda>rows rp. map (\<lambda>sp. if sp_game_id sp = gid \<and> sp_player_id sp = rp_player_id rp
                                           then sync_player rp sp else sp) rows)
                  (db_snapshot_players db) round_players
      in (map sp_seat_number (filter (\<lambda>p. sp_is_active p \<and> \<not> sp_is_eliminated p \<and> sp_chip_count p > 0)
            (sort_key sp_seat_number (filter (\<lambda>p. sp_game_id p = gid) rows))),
          db\<lparr>db_snapshot_players := rows\<rparr>))"


section \<open>Rows that are read and written by key\<close>

text \<open>
  What a command relies on when it fetches a row, changes it and writes it back.
\<close>

locale entity =
  fixes fetch :: "'db \<Rightarrow> 'k \<Rightarrow> 'row result" and put :: "'row \<Rightarrow> 'db \<Rightarrow> 'db" and key :: "'row \<Rightarrow> 'k"
  assumes fetch_key: "fetch db k = Inr x \<Longrightarrow> key x = k"
    and fetch_put: "fetch db k = Inr x \<Longrightarrow> key y = k \<Longrightarrow> fetch (put y db) k = Inr y"
    and fetch_put_other: "k \<noteq> key y \<Longrightarrow> fetch (put y db) k = fetch db k"
    and put_put: "key x = key y \<Longrightarrow> put y (put x db) = put y db"
    and put_same: "fetch db k = Inr x \<Longrightarrow> put x db = db"
begin

lemma undo_update:
  assumes "fetch db k = Inr x" and "key y = k"
  shows "put x (put y db) = db"
  using assms put_put [of y x db] put_same [OF assms(1)] fetch_key [OF assms(1)] by simp

lemma fetch_after_update:
  assumes "fetch db k = Inr x" and "\<And>x. key (f x) = key x"
  shows "fetch (put (f x) db) k = Inr (f x)"
  using fetch_put [OF assms(1)] fetch_key [OF assms(1)] assms(2) by simp

lemma fetch_determines:
  assumes "fetch db k = Inr x" and "fetch db k' = Inr y" and "key x = key y"
  shows "x = y"
  using assms fetch_key by fastforce

lemma last_write_wins:
  assumes "fetch db k = Inr x" and "key y = k" and "key z = k"
  shows "fetch (put z (put y db)) k = Inr z"
  using fetch_put [OF assms(1,3)] put_put [of y z db] assms(2,3) by simp

end

lemma filter_put_row:
  "filter (\<lambda>x. key x = key y) (put_row key y rows) = map (\<lambda>_. y) (filter (\<lambda>x. key x = key y) rows)"
  by (induction rows) (auto simp: put_row_def)

lemma filter_put_row_other:
  assumes "\<not> P y" and "\<And>x. key x = key y \<Longrightarrow> \<not> P x"
  shows "filter P (put_row key y rows) = filter P rows"
  using assms by (induction rows) (auto simp: put_row_def)

lemma put_row_same:
  assumes "filter (\<lambda>x. key x = k) rows = [y]"
  shows "put_row key y rows = rows"
proof -
  have "(if key x = key y then y else x) = x" if "x \<in> set rows" for x
  proof -
    have "y \<in> set (filter (\<lambda>x. key x = k) rows)" using assms by simp
    then have "key y = k" by simp
    moreover have "x = y" if "key x = k"
    proof -
      have "x \<in> set (filter (\<lambda>x. key x = k) rows)" using that \<open>x \<in> set rows\<close> by simp
      then show ?thesis unfolding assms by simp
    qed
    ultimately show ?thesis by simp
  qed
  then show ?thesis by (simp add: put_row_def map_idI)
qed

lemma map_put_row:
  assumes "\<And>x. x \<in> set rows \<Longrightarrow> key x = key y \<Longrightarrow> f x = f y"
  shows "map f (put_row key y rows) = map f rows"
  using assms by (induction rows) (auto simp: put_row_def)

lemma map_key_put_row [simp]: "map key (put_row key y rows) = map key rows"
  by (rule map_put_row) simp

lemma in_put_row: "x \<in> set (put_row key y rows) \<Longrightarrow> x = y \<or> x \<in> set rows"
  by (auto simp: put_row_def split: if_splits)

lemma put_put_row: "key x = key y \<Longrightarrow> put_row key y (put_row key x rows) = put_row key y rows"
  by (simp add: put_row_def)

lemma length_put_row [simp]: "length (put_row key y rows) = length rows"
  by (simp add: put_row_def)

lemma scalar_some: "scalar_one_or_none xs = Inr (Some x) \<longleftrightarrow> xs = [x]"
  by (cases xs rule: scalar_one_or_none.cases) auto

lemma scalar_none: "scalar_one_or_none xs = Inr None \<longleftrightarrow> xs = []"
  by (cases xs rule: scalar_one_or_none.cases) auto

lemma fetch_or_raise_Inr: "fetch_or_raise P rows m = Inr x \<longleftrightarrow> filter P rows = [x]"
  by (auto simp: fetch_or_raise_def bindE_simps scalar_some [symmetric] split: option.splits)

lemma fetch_or_raise_unique:
  assumes "distinct (map k rows)"
  shows "fetch_or_raise (\<lambda>x. k x = a) rows m =
    (case List.find (\<lambda>x. k x = a) rows of Some x \<Rightarrow> Inr x | None \<Rightarrow> raise NotFound m)"
proof -
  have "filter (\<lambda>x. k x = a) rows = (case List.find (\<lambda>x. k x = a) rows of Some x \<Rightarrow> [x] | None \<Rightarrow> [])"
    using assms
  proof (induction rows)
    case Nil
    then show ?case by simp
  next
    case (Cons x rows)
    have "filter (\<lambda>y. k y = a) rows = []" if "k x = a"
    proof (rule filter_False)
      have "k x \<notin> k ` set rows" using Cons.prems by simp
      with that show "\<forall>y \<in> set rows. k y \<noteq> a" by (metis image_eqI)
    qed
    with Cons show ?case by (cases "k x = a") simp_all
  qed
  then show ?thesis by (cases "List.find (\<lambda>x. k x = a) rows") (simp_all add: fetch_or_raise_def)
qed

interpretation games: entity fetch_game put_game g_game_id
proof
  show "fetch_game db k = Inr x \<Longrightarrow> g_game_id x = k" for db k x
    by (auto simp: fetch_game_def fetch_or_raise_Inr filter_eq_Cons_iff)
  show "fetch_game db k = Inr x \<Longrightarrow> g_game_id y = k \<Longrightarrow> fetch_game (put_game y db) k = Inr y" for db k x y
    using filter_put_row [of g_game_id y "db_games db"] by (simp add: fetch_game_def fetch_or_raise_Inr put_game_def)
  show "k \<noteq> g_game_id y \<Longrightarrow> fetch_game (put_game y db) k = fetch_game db k" for db k y
    by (simp add: fetch_game_def fetch_or_raise_def put_game_def filter_put_row_other)
  show "g_game_id x = g_game_id y \<Longrightarrow> put_game y (put_game x db) = put_game y db" for x y db
    by (simp add: put_game_def put_put_row)
  show "fetch_game db k = Inr x \<Longrightarrow> put_game x db = db" for db k x
    by (simp add: fetch_game_def fetch_or_raise_Inr put_game_def put_row_same)
qed

interpretation rounds: entity fetch_round put_round r_round_id
proof
  show "fetch_round db k = Inr x \<Longrightarrow> r_round_id x = k" for db k x
    by (auto simp: fetch_round_def fetch_or_raise_Inr filter_eq_Cons_iff)
  show "fetch_round db k = Inr x \<Longrightarrow> r_round_id y = k \<Longrightarrow> fetch_round (put_round y db) k = Inr y" for db k x y
    using filter_put_row [of r_round_id y "db_rounds db"] by (simp add: fetch_round_def fetch_or_raise_Inr put_round_def)
  show "k \<noteq> r_round_id y \<Longrightarrow> fetch_round (put_round y db) k = fetch_round db k" for db k y
    by (simp add: fetch_round_def fetch_or_raise_def put_round_def filter_put_row_other)
  show "r_round_id x = r_round_id y \<Longrightarrow> put_round y (put_round x db) = put_round y db" for x y db
    by (simp add: put_round_def put_put_row)
  show "fetch_round db k = Inr x \<Longrightarrow> put_round x db = db" for db k x
    by (simp add: fetch_round_def fetch_or_raise_Inr put_round_def put_row_same)
qed

lemma commit_Inr [bindE_simps]: "commit db = Inr db' \<longleftrightarrow> db' = db \<and> db_ok db"
  by (auto simp: commit_def)


section \<open>The players of a round\<close>

lemma insort_key_map: "insort_key f (h x) (map h xs) = map h (insort_key (\<lambda>y. f (h y)) x xs)"
  by (induction xs) auto

lemma sort_key_map: "sort_key f (map h xs) = map h (sort_key (\<lambda>y. f (h y)) xs)"
  by (induction xs) (auto simp: insort_key_map)

lemma insort_key_cong: "f x = g x \<Longrightarrow> (\<And>y. y \<in> set xs \<Longrightarrow> f y = g y) \<Longrightarrow> insort_key f x xs = insort_key g x xs"
  by (induction xs) auto

lemma sort_key_cong: "(\<And>x. x \<in> set xs \<Longrightarrow> f x = g x) \<Longrightarrow> sort_key f xs = sort_key g xs"
proof (induction xs)
  case Nil
  then show ?case by simp
next
  case (Cons x xs)
  then have "sort_key f xs = sort_key g xs" by simp
  moreover have "insort_key f x (sort_key g xs) = insort_key g x (sort_key g xs)"
    using Cons.prems by (intro insort_key_cong) simp_all
  ultimately show ?case by simp
qed

definition replaced :: "('r \<Rightarrow> 'k) \<Rightarrow> 'r list \<Rightarrow> 'r \<Rightarrow> 'r" where
  "replaced key ps x = (case List.find (\<lambda>p. key p = key x) ps of Some p \<Rightarrow> p | None \<Rightarrow> x)"

lemma key_replaced [simp]: "key (replaced key ps x) = key x"
  by (auto simp: replaced_def dest: find_Some_mem split: option.splits)

lemma foldl_put_row:
  "distinct (map key ps) \<Longrightarrow> foldl (\<lambda>rows p. put_row key p rows) rows ps = map (replaced key ps) rows"
proof (induction ps arbitrary: rows)
  case Nil
  have "replaced key [] = (\<lambda>x. x)" by (rule ext) (simp add: replaced_def)
  then show ?case by simp
next
  case (Cons p ps)
  have "replaced key ps (if key x = key p then p else x) = replaced key (p # ps) x" for x
  proof (cases "key x = key p")
    case True
    with Cons.prems have "List.find (\<lambda>q. key q = key p) ps = None" by (auto simp: find_None_mem image_iff)
    with True show ?thesis by (simp add: replaced_def)
  next
    case False
    then show ?thesis by (auto simp: replaced_def split: option.splits)
  qed
  with Cons show ?case by (simp add: put_row_def)
qed

lemma map_replaced:
  assumes "distinct (map key ps)" and "map key ps' = map key ps"
  shows "map (replaced key ps') ps = ps'"
proof (rule nth_equalityI)
  have len: "length ps' = length ps" using assms(2) by (metis length_map)
  then show "length (map (replaced key ps') ps) = length ps'" by simp
  fix i assume i: "i < length (map (replaced key ps') ps)"
  then have "key (ps' ! i) = key (ps ! i)" using assms(2) len by (metis length_map nth_map)
  moreover have "distinct (map key ps')" using assms by simp
  ultimately have "List.find (\<lambda>p. key p = key (ps ! i)) ps' = Some (ps' ! i)"
    using find_key_unique [of key ps' "ps' ! i"] i len by simp
  with i show "map (replaced key ps') ps ! i = ps' ! i" by (simp add: replaced_def)
qed

definition round_rows_unique :: "GameDb \<Rightarrow> bool" where
  "round_rows_unique db \<longleftrightarrow> distinct (map rp_key (db_round_players db)) \<and>
     distinct (map (\<lambda>p. (rp_round_id p, rp_seat_number p)) (db_round_players db))"

lemma db_ok_round_rows: "db_ok db \<Longrightarrow> round_rows_unique db"
  by (simp add: db_ok_def unique_ok_def round_rows_unique_def rp_key_def [abs_def])

lemma distinct_sub_key:
  assumes "distinct (map (\<lambda>p. (f p, g p)) rows)"
  shows "distinct (map g (sort_key h (filter (\<lambda>p. f p = a) rows)))"
proof -
  have "distinct (map g (filter (\<lambda>p. f p = a) rows))"
    using assms by (auto simp: distinct_map inj_on_def)
  then show ?thesis by (metis distinct_map distinct_sort set_sort)
qed

lemma get_round_players_distinct:
  assumes "round_rows_unique db"
  shows "distinct (map rp_player_id (get_round_players db rid))" "distinct (map rp_seat_number (get_round_players db rid))"
    "distinct (map rp_key (get_round_players db rid))"
proof -
  show 1: "distinct (map rp_player_id (get_round_players db rid))" "distinct (map rp_seat_number (get_round_players db rid))"
    unfolding get_round_players_def using assms
    by (auto simp: round_rows_unique_def rp_key_def [abs_def] intro!: distinct_sub_key)
  show "distinct (map rp_key (get_round_players db rid))"
    using 1(1) by (auto simp: distinct_map inj_on_def rp_key_def)
qed

lemma get_round_players_round: "p \<in> set (get_round_players db rid) \<Longrightarrow> rp_round_id p = rid"
  by (simp add: get_round_players_def)

text \<open>Rows written back for a round are read back; other rounds are untouched.\<close>

lemma get_put_round_players:
  assumes "round_rows_unique db" and "map rp_key ps' = map rp_key (get_round_players db rid)"
    and "map rp_seat_number ps' = map rp_seat_number (get_round_players db rid)"
  shows "get_round_players (put_round_players ps' db) rid = ps'"
proof -
  let ?ps = "get_round_players db rid" and ?h = "replaced rp_key ps'"
  let ?F = "filter (\<lambda>p. rp_round_id p = rid) (db_round_players db)"
  have dist: "distinct (map rp_key ps')" using assms(2) get_round_players_distinct(3) [OF assms(1)] by simp
  have "rp_round_id (?h x) = rp_round_id x" for x
    using key_replaced [of rp_key ps' x] unfolding rp_key_def by (metis prod.inject)
  then have "filter (\<lambda>p. rp_round_id p = rid) (map ?h (db_round_players db)) = map ?h ?F"
    by (simp add: filter_map comp_def)
  then have "get_round_players (put_round_players ps' db) rid = sort_key rp_seat_number (map ?h ?F)"
    by (simp add: get_round_players_def put_round_players_def foldl_put_row [OF dist])
  also have "\<dots> = map ?h (sort_key (\<lambda>y. rp_seat_number (?h y)) ?F)" by (rule sort_key_map)
  also have "sort_key (\<lambda>y. rp_seat_number (?h y)) ?F = sort_key rp_seat_number ?F"
  proof (rule sort_key_cong)
    fix x assume "x \<in> set ?F"
    then obtain i where i: "i < length ?ps" "?ps ! i = x"
      unfolding get_round_players_def by (metis in_set_conv_nth set_sort)
    have "?h x = ps' ! i"
      using map_replaced [OF get_round_players_distinct(3) [OF assms(1), of rid] assms(2)] i by (metis nth_map)
    moreover have "rp_seat_number (ps' ! i) = rp_seat_number x"
      using assms(2,3) i by (metis length_map nth_map)
    ultimately show "rp_seat_number (?h x) = rp_seat_number x" by simp
  qed
  also have "map ?h (sort_key rp_seat_number ?F) = map ?h ?ps" by (simp add: get_round_players_def)
  also have "\<dots> = ps'" using map_replaced [OF get_round_players_distinct(3) [OF assms(1), of rid] assms(2)] .
  finally show ?thesis .
qed


section \<open>Snapshots are read back\<close>

lemma sort_key_map_comp: "sort_key f (map h xs) = map h (sort_key (f \<circ> h) xs)"
  by (simp add: sort_key_map comp_def)

lemma sort_key_filter: "sort_key f (filter P xs) = filter P (sort_key f xs)"
  by (simp add: filter_sort)

lemma active_players_sorted: "active_players (rc\<lparr>rc_players := sort_key cfg_seat_number (rc_players rc), rc_blind_levels := ls\<rparr>) = active_players rc"
  by (simp add: active_players_def sort_key_filter sort_key_id_if_sorted)

lemma load_room_snapshot_frame:
  assumes "db_snapshots db' = db_snapshots db" and "db_snapshot_players db' = db_snapshot_players db"
    and "db_snapshot_levels db' = db_snapshot_levels db"
  shows "load_room_snapshot db' gid = load_room_snapshot db gid"
  using assms unfolding load_room_snapshot_def by (simp only:)

definition without_game :: "game_id \<Rightarrow> GameDb \<Rightarrow> bool" where
  "without_game gid db \<longleftrightarrow> list_all (\<lambda>s. s_game_id s \<noteq> gid) (db_snapshots db) \<and>
     list_all (\<lambda>p. sp_game_id p \<noteq> gid) (db_snapshot_players db) \<and>
     list_all (\<lambda>l. sb_game_id l \<noteq> gid) (db_snapshot_levels db)"

lemma load_saved_snapshot:
  assumes "without_game gid db"
  shows "load_room_snapshot (save_room_snapshot db gid config) gid =
      Inr (config\<lparr>rc_players := sort_key cfg_seat_number (rc_players config),
        rc_blind_levels := sort_key bl_level (rc_blind_levels config)\<rparr>) \<and>
    active_players (the_ok (load_room_snapshot (save_room_snapshot db gid config) gid)) = active_players config \<and>
    (gid' \<noteq> gid \<longrightarrow> load_room_snapshot (save_room_snapshot db gid config) gid' = load_room_snapshot db gid')"
proof -
  have none: "filter (\<lambda>s. s_game_id s = gid) (db_snapshots db) = []"
    "filter (\<lambda>p. sp_game_id p = gid) (db_snapshot_players db) = []"
    "filter (\<lambda>l. sb_game_id l = gid) (db_snapshot_levels db) = []"
    using assms by (auto simp: without_game_def list_all_iff filter_empty_conv)
  have player_eta: "\<lparr>cfg_player_id = cfg_player_id p, cfg_seat_number = cfg_seat_number p, cfg_chip_count = cfg_chip_count p,
      cfg_is_active = cfg_is_active p, cfg_is_eliminated = cfg_is_eliminated p\<rparr> = p" for p :: PlayerConfig
    by simp
  have level_eta: "\<lparr>bl_level = bl_level l, bl_small_blind = bl_small_blind l, bl_big_blind = bl_big_blind l,
      bl_ante = bl_ante l, bl_duration_minutes = bl_duration_minutes l\<rparr> = l" for l :: BlindLevelConfig
    by simp
  have load: "load_room_snapshot (save_room_snapshot db gid config) gid =
      Inr (config\<lparr>rc_players := sort_key cfg_seat_number (rc_players config),
        rc_blind_levels := sort_key bl_level (rc_blind_levels config)\<rparr>)"
    by (cases config) (simp add: load_room_snapshot_def save_room_snapshot_def none filter_map sort_key_map_comp comp_def
        player_eta level_eta)
  moreover have "load_room_snapshot (save_room_snapshot db gid config) gid' = load_room_snapshot db gid'"
    if "gid' \<noteq> gid"
  proof -
    let ?db = "save_room_snapshot db gid config"
    have "filter (\<lambda>s. s_game_id s = gid') (db_snapshots ?db) = filter (\<lambda>s. s_game_id s = gid') (db_snapshots db)"
      "filter (\<lambda>p. sp_game_id p = gid') (db_snapshot_players ?db) = filter (\<lambda>p. sp_game_id p = gid') (db_snapshot_players db)"
      "filter (\<lambda>l. sb_game_id l = gid') (db_snapshot_levels ?db) = filter (\<lambda>l. sb_game_id l = gid') (db_snapshot_levels db)"
      using that by (auto simp: save_room_snapshot_def filter_empty_conv)
    then show ?thesis unfolding load_room_snapshot_def by (simp only:)
  qed
  ultimately show ?thesis by (simp add: active_players_sorted)
qed

text \<open>
  A room configuration survives its snapshot. What \<^verbatim>\<open>save_room_snapshot\<close> writes for a
  game that has no snapshot yet, \<^verbatim>\<open>load_room_snapshot\<close> reads back: the same configuration,
  players by seat and blind levels by number; the players in play and their order are the
  same; and the snapshots of other games read as before.
\<close>

theorem snapshot_round_trip:
  assumes "without_game gid db"
  shows "load_room_snapshot (save_room_snapshot db gid config) gid =
      Inr (config\<lparr>rc_players := sort_key cfg_seat_number (rc_players config),
        rc_blind_levels := sort_key bl_level (rc_blind_levels config)\<rparr>) \<and>
    active_players (the_ok (load_room_snapshot (save_room_snapshot db gid config) gid)) = active_players config \<and>
    (gid' \<noteq> gid \<longrightarrow> load_room_snapshot (save_room_snapshot db gid config) gid' = load_room_snapshot db gid')"
  using assms by (rule load_saved_snapshot)

definition three_seats :: RoomConfig where
  "three_seats = \<lparr>rc_room_id = ''room'', rc_starting_dealer_seat = 1, rc_antes_enabled = False,
     rc_players = [\<lparr>cfg_player_id = ''b'', cfg_seat_number = 2, cfg_chip_count = 50, cfg_is_active = True, cfg_is_eliminated = False\<rparr>,
       \<lparr>cfg_player_id = ''a'', cfg_seat_number = 1, cfg_chip_count = 100, cfg_is_active = True, cfg_is_eliminated = False\<rparr>],
     rc_blind_levels = []\<rparr>"

definition empty_db :: GameDb where
  "empty_db = \<lparr>db_games = [], db_rounds = [], db_round_players = [], db_round_payouts = [], db_bets = [],
     db_ledger = [], db_snapshots = [], db_snapshot_players = [], db_snapshot_levels = [], db_outbox = [], db_uuid = 0\<rparr>"

theorem snapshot_round_trip_witness:
  "active_players (the_ok (load_room_snapshot (save_room_snapshot empty_db ''g'' three_seats) ''g'')) = active_players three_seats"
proof -
  have "without_game ''g'' empty_db" by code_simp
  from snapshot_round_trip [OF this, of three_seats] show ?thesis by blast
qed

end
