(* ===== verification/Bet_Commands.thy ===== *)
theory Bet_Commands
  imports Game_Db Action_Pipeline Hand_Ledger
begin

text \<open>
  \<^verbatim>\<open>application/commands/bet_command_service.py\<close> and the compare-and-swap of
  \<^verbatim>\<open>round_state_repository.py\<close>. \<^verbatim>\<open>place_bet\<close> is split where other requests can come in
  between: the rows are read (\<open>place_bet_read\<close>), the action is computed on them, and the
  results are written to the tables as they are by then (\<open>place_bet_write\<close>): the round
  through the compare-and-swap, the player rows column by column as the ORM does, which
  writes a column only when the command changed it.
\<close>

section \<open>Data\<close>

record PlaceBet =
  pb_round_id :: round_id
  pb_player_id :: player_id
  pb_action :: string
  pb_amount :: int
  pb_idempotency_key :: "string option"
  pb_expected_version :: "int option"

record BetResponse =
  br_bet_id :: string
  br_round_id :: round_id
  br_player_id :: player_id
  br_action :: BetAction
  br_amount :: int

definition bet_to_response :: "Bet \<Rightarrow> BetResponse" where
  "bet_to_response bet = \<lparr>br_bet_id = b_bet_id bet, br_round_id = b_round_id bet, br_player_id = b_player_id bet,
     br_action = b_action bet, br_amount = b_amount bet\<rparr>"


section \<open>round_state_repository.py\<close>

definition cas_conflict :: "round_id \<Rightarrow> int \<Rightarrow> error" where
  "cas_conflict rid expected = DomainError StaleStateError
     (''Concurrent update on round '' @ rid @ '': expected state_version='' @ str_int expected)"

definition cas_columns :: "Round \<Rightarrow> Round \<Rightarrow> Round" where
  "cas_columns r row = row\<lparr>r_pot_amount := r_pot_amount r, r_current_highest_bet := r_current_highest_bet r,
     r_minimum_raise_amount := r_minimum_raise_amount r, r_acting_player_id := r_acting_player_id r,
     r_last_aggressor_seat := r_last_aggressor_seat r, r_is_action_closed := r_is_action_closed r,
     r_state_version := r_state_version r, r_street := r_street r, r_status := r_status r,
     r_completed_at := r_completed_at r\<rparr>"

definition cas_update_round :: "GameDb \<Rightarrow> Round \<Rightarrow> int \<Rightarrow> GameDb result" where
  "cas_update_round db game_round expected_version =
     (let hit = (\<lambda>row. r_round_id row = r_round_id game_round \<and> r_state_version row = Some expected_version) in
      if filter hit (db_rounds db) = [] then Inl (cas_conflict (r_round_id game_round) expected_version)
      else Inr (db\<lparr>db_rounds := map (\<lambda>row. if hit row then cas_columns game_round row else row) (db_rounds db)\<rparr>))"


section \<open>Flushing player rows\<close>

definition flush_col :: "'a \<Rightarrow> 'a \<Rightarrow> 'a \<Rightarrow> 'a" where
  "flush_col loaded changed stored = (if changed = loaded then stored else changed)"

definition flush_player :: "RoundPlayer \<Rightarrow> RoundPlayer \<Rightarrow> RoundPlayer \<Rightarrow> RoundPlayer" where
  "flush_player old new row = row\<lparr>
     rp_stack_remaining := flush_col (rp_stack_remaining old) (rp_stack_remaining new) (rp_stack_remaining row),
     rp_committed_this_street := flush_col (rp_committed_this_street old) (rp_committed_this_street new) (rp_committed_this_street row),
     rp_committed_this_hand := flush_col (rp_committed_this_hand old) (rp_committed_this_hand new) (rp_committed_this_hand row),
     rp_has_folded := flush_col (rp_has_folded old) (rp_has_folded new) (rp_has_folded row),
     rp_is_all_in := flush_col (rp_is_all_in old) (rp_is_all_in new) (rp_is_all_in row),
     rp_is_active_in_hand := flush_col (rp_is_active_in_hand old) (rp_is_active_in_hand new) (rp_is_active_in_hand row)\<rparr>"

definition flush_round_players :: "RoundPlayer list \<Rightarrow> RoundPlayer list \<Rightarrow> GameDb \<Rightarrow> GameDb" where
  "flush_round_players olds news db = db\<lparr>db_round_players := map (\<lambda>row.
     case List.find (\<lambda>on. rp_key (fst on) = rp_key row) (zip olds news) of
       Some (old, new) \<Rightarrow> flush_player old new row
     | None \<Rightarrow> row) (db_round_players db)\<rparr>"


section \<open>place_bet\<close>

definition idempotency_conflict :: "string \<Rightarrow> round_id \<Rightarrow> error" where
  "idempotency_conflict key rid = DomainError IdempotencyConflict
     (''Idempotency key '' @ [CHR 0x27] @ key @ [CHR 0x27] @ '' already used in round '' @ rid @
      '' with a different payload'')"

definition place_bet_lookup :: "GameDb \<Rightarrow> PlaceBet \<Rightarrow> BetResponse option result" where
  "place_bet_lookup db data =
     (let action_upper = upper (pb_action data) in
      if action_upper \<notin> VALID_BET_ACTIONS
      then Inl (DomainError IllegalAction (ErrorMessage_value INVALID_ACTION @ '': '' @ pb_action data))
      else case pb_idempotency_key data of
        Some (c # cs) \<Rightarrow>
          bindE (scalar_one_or_none (filter (\<lambda>b. b_round_id b = pb_round_id data \<and>
                   b_idempotency_key b = pb_idempotency_key data) (db_bets db))) (\<lambda>existing.
          case existing of
            None \<Rightarrow> Inr None
          | Some b \<Rightarrow>
              if b_player_id b \<noteq> pb_player_id data \<or> BetAction_value (b_action b) \<noteq> action_upper \<or>
                 b_amount b \<noteq> pb_amount data
              then Inl (idempotency_conflict (c # cs) (pb_round_id data))
              else Inr (Some (bet_to_response b)))
      | _ \<Rightarrow> Inr None)"

definition place_bet_read :: "GameDb \<Rightarrow> PlaceBet \<Rightarrow> (Round \<times> RoundPlayer list) result" where
  "place_bet_read db data = bindE (fetch_round db (pb_round_id data)) (\<lambda>game_round.
     Inr (game_round, get_round_players db (pb_round_id data)))"

definition place_bet_write ::
    "Env \<Rightarrow> PlaceBet \<Rightarrow> Round \<times> RoundPlayer list \<Rightarrow> GameDb \<Rightarrow> (BetResponse \<times> GameDb) result" where
  "place_bet_write env data loaded db = (case loaded of (game_round, round_players) \<Rightarrow>
     let version_before = version_or_1 game_round in
     bindE (apply_action game_round round_players (pb_player_id data) (upper (pb_action data)) (pb_amount data)
              NO_LIMIT_HOLDEM (pb_expected_version data)) (\<lambda>(res, game_round', round_players').
     bindE (cas_update_round db game_round' version_before) (\<lambda>db1.
     let db2 = flush_round_players round_players round_players' db1 in
     case record_bet_action env db2 (pb_round_id data) (pb_player_id data) (ar_action res) (ar_amount res)
            (pb_idempotency_key data) of (bet, entry, db3) \<Rightarrow>
     bindE (commit db3) (\<lambda>db4. Inr (bet_to_response bet, db4)))))"

definition place_bet :: "Env \<Rightarrow> GameDb \<Rightarrow> PlaceBet \<Rightarrow> (BetResponse \<times> GameDb) result" where
  "place_bet env db data =
     bindE (place_bet_lookup db data) (\<lambda>existing.
     case existing of
       Some response \<Rightarrow> Inr (response, db)
     | None \<Rightarrow> bindE (place_bet_read db data) (\<lambda>loaded. place_bet_write env data loaded db))"


section \<open>Ledger rows\<close>

text \<open>\<^verbatim>\<open>GameQueryService._ledger_rows\<close> and \<^verbatim>\<open>CorrectionCommandService.get_hand_state\<close>.\<close>

definition ledger_row :: "HandLedgerEntry \<Rightarrow> LedgerRow" where
  "ledger_row e = \<lparr>lr_entry_id = le_entry_id e, lr_entry_type = le_entry_type e, lr_player_id = le_player_id e,
     lr_amount = le_amount e, lr_detail = le_detail e, lr_original_entry_id = le_original_entry_id e\<rparr>"

definition ledger_rows :: "GameDb \<Rightarrow> round_id \<Rightarrow> LedgerRow list" where
  "ledger_rows db rid = map ledger_row (get_ledger_entries db rid)"


section \<open>A bet that runs alone\<close>

lemma db_ok_round_version:
  assumes "db_ok db" and "fetch_round db rid = Inr r"
  shows "r_state_version r = Some (version_or_1 r)" "1 \<le> version_or_1 r"
proof -
  have "r \<in> set (db_rounds db)"
    using assms(2) by (auto simp: fetch_round_def fetch_or_raise_Inr filter_eq_Cons_iff)
  with assms(1) have "Round_ck r" by (auto simp: db_ok_def checks_ok_def list_all_iff)
  then show "r_state_version r = Some (version_or_1 r)" "1 \<le> version_or_1 r"
    by (auto simp: Round_ck_def version_or_1_def)
qed

lemma cas_alone:
  assumes "db_ok db" and "fetch_round db rid = Inr r" and "r_round_id r' = rid" and "cas_columns r' r = r'"
  shows "cas_update_round db r' (version_or_1 r) = Inr (put_round r' db)"
proof -
  have rows: "filter (\<lambda>x. r_round_id x = rid) (db_rounds db) = [r]"
    using assms(2) by (simp add: fetch_round_def fetch_or_raise_Inr)
  have only: "x = r" if "x \<in> set (db_rounds db)" "r_round_id x = rid" for x
  proof -
    have "x \<in> set (filter (\<lambda>x. r_round_id x = rid) (db_rounds db))" using that by simp
    then show ?thesis unfolding rows by simp
  qed
  have r: "r \<in> set (db_rounds db)" "r_round_id r = rid"
    using rows by (auto simp: filter_eq_Cons_iff)
  let ?hit = "\<lambda>row. r_round_id row = r_round_id r' \<and> r_state_version row = Some (version_or_1 r)"
  have hit: "?hit x \<longleftrightarrow> r_round_id x = rid" if "x \<in> set (db_rounds db)" for x
    using only [OF that] db_ok_round_version(1) [OF assms(1,2)] assms(3) by auto
  have "filter ?hit (db_rounds db) = [r]"
    unfolding rows [symmetric] by (rule filter_cong [OF refl hit])
  moreover have "map (\<lambda>row. if ?hit row then cas_columns r' row else row) (db_rounds db) = put_row r_round_id r' (db_rounds db)"
    unfolding put_row_def using hit only assms(3,4) by (intro map_cong refl) auto
  ultimately show ?thesis by (simp add: cas_update_round_def put_round_def)
qed

lemma cas_columns_after: "cas_columns (round_after v p r ps') r = round_after v p r ps'"
  by (cases r) (simp add: cas_columns_def round_after_def)

lemma flush_col_self: "flush_col a b a = b"
  by (simp add: flush_col_def)

lemma flush_self:
  assumes "rp_key new = rp_key old" and "rp_seat_number new = rp_seat_number old"
  shows "flush_player old new old = new"
proof -
  have "rp_round_id new = rp_round_id old" "rp_player_id new = rp_player_id old"
    using assms(1) by (simp_all add: rp_key_def)
  with assms(2) show ?thesis
    unfolding flush_player_def flush_col_self by (cases old; cases new) simp
qed

lemma find_zip:
  assumes "distinct (map k xs)" and "length ys = length xs" and "i < length xs"
  shows "List.find (\<lambda>on. k (fst on) = k (xs ! i)) (zip xs ys) = Some (xs ! i, ys ! i)"
proof -
  have "map (\<lambda>on. k (fst on)) (zip xs ys) = map k (map fst (zip xs ys))" by simp
  also have "map fst (zip xs ys) = xs" using assms(2) by simp
  finally have "map (\<lambda>on. k (fst on)) (zip xs ys) = map k xs" .
  then have "distinct (map (\<lambda>on. k (fst on)) (zip xs ys))" using assms(1) by simp
  moreover have "(xs ! i, ys ! i) \<in> set (zip xs ys)" using assms(2,3) by (auto simp: set_zip)
  ultimately show ?thesis by (intro find_key_unique) simp_all
qed

lemma flush_alone:
  assumes "round_rows_unique db" and "olds = get_round_players db rid"
    and "map rp_key news = map rp_key olds" and "map rp_seat_number news = map rp_seat_number olds"
  shows "flush_round_players olds news db = put_round_players news db"
proof -
  have dist: "distinct (map rp_key olds)" using get_round_players_distinct(3) [OF assms(1)] assms(2) by simp
  have len: "length news = length olds" using assms(3) by (metis length_map)
  have "(case List.find (\<lambda>on. rp_key (fst on) = rp_key row) (zip olds news) of
      Some (old, new) \<Rightarrow> flush_player old new row | None \<Rightarrow> row) = replaced rp_key news row"
    if row: "row \<in> set (db_round_players db)" for row
  proof (cases "row \<in> set olds")
    case True
    then obtain i where i: "i < length olds" "row = olds ! i" by (metis in_set_conv_nth)
    have "rp_key (news ! i) = rp_key row" "rp_seat_number (news ! i) = rp_seat_number row"
      using arg_cong [OF assms(3), of "\<lambda>l. l ! i"] arg_cong [OF assms(4), of "\<lambda>l. l ! i"] i len by simp_all
    then have "flush_player row (news ! i) row = news ! i" by (rule flush_self)
    moreover have "replaced rp_key news row = news ! i"
      using arg_cong [OF map_replaced [OF dist assms(3)], of "\<lambda>l. l ! i"] i by simp
    ultimately show ?thesis using find_zip [OF dist len i(1)] i(2) by simp
  next
    case False
    have other: "rp_key q \<noteq> rp_key row" if "q \<in> set olds" for q
    proof
      assume "rp_key q = rp_key row"
      moreover have "q \<in> set (db_round_players db)" using that assms(2) by (auto simp: get_round_players_def)
      ultimately have "q = row"
        using distinct_key_eq [of rp_key "db_round_players db" q row] row assms(1) by (simp add: round_rows_unique_def)
      with that False show False by simp
    qed
    have "fst on \<in> set olds" if "on \<in> set (zip olds news)" for on
      using that set_zip_leftD [of "fst on" "snd on"] by simp
    then have "List.find (\<lambda>on. rp_key (fst on) = rp_key row) (zip olds news) = None"
      using other by (simp add: find_None_mem)
    moreover have "rp_key ` set news = rp_key ` set olds"
      using arg_cong [OF assms(3), of set] by simp
    then have "List.find (\<lambda>p. rp_key p = rp_key row) news = None"
      using other unfolding find_None_mem by (metis (no_types, lifting) image_iff)
    ultimately show ?thesis by (simp add: replaced_def)
  qed
  moreover have "distinct (map rp_key news)" using dist assms(3) by simp
  ultimately show ?thesis
    by (simp add: flush_round_players_def put_round_players_def foldl_put_row cong: map_cong)
qed

definition bet_row :: "Env \<Rightarrow> GameDb \<Rightarrow> PlaceBet \<Rightarrow> ApplyActionResult \<Rightarrow> Bet" where
  "bet_row env db data res = \<lparr>b_bet_id = env_uuid env (db_uuid db), b_round_id = pb_round_id data,
     b_player_id = pb_player_id data, b_action = ar_action res, b_amount = ar_amount res,
     b_idempotency_key = pb_idempotency_key data\<rparr>"

definition bet_entry :: "Env \<Rightarrow> GameDb \<Rightarrow> PlaceBet \<Rightarrow> ApplyActionResult \<Rightarrow> HandLedgerEntry" where
  "bet_entry env db data res = \<lparr>le_entry_id = env_uuid env (Suc (db_uuid db)), le_round_id = pb_round_id data,
     le_entry_type = BET_PLACED, le_player_id = Some (pb_player_id data), le_amount = Some (ar_amount res),
     le_detail = Some (detail_of [(''action'', JStr (BetAction_value (ar_action res))),
       (''bet_id'', JStr (env_uuid env (db_uuid db)))]),
     le_original_entry_id = None, le_dealer_id = None\<rparr>"

definition bet_event :: "Env \<Rightarrow> GameDb \<Rightarrow> PlaceBet \<Rightarrow> ApplyActionResult \<Rightarrow> (GameEventType, event_data) OutboxEvent" where
  "bet_event env db data res = (let eid = env_uuid env (Suc (Suc (db_uuid db))) in
     \<lparr>ox_event_id = eid, ox_event_type = EVENT_BET_PLACED, ox_routing_key = EVENT_BET_PLACED,
      ox_payload = \<lparr>ev_event_id = eid, ev_event_type = EVENT_BET_PLACED, ev_occurred_at = env_now env,
        ev_source = ''game-service'',
        ev_data = [(BET_ID, JStr (env_uuid env (db_uuid db))), (ROUND_ID, JStr (pb_round_id data)),
          (PLAYER_ID, JStr (pb_player_id data)), (ACTION, JStr (BetAction_value (ar_action res))),
          (AMOUNT, JInt (ar_amount res))]\<rparr>,
      ox_status = PENDING, ox_attempts = 0, ox_last_error = None, ox_published_at = None\<rparr>)"

lemma record_bet_action_effect:
  assumes "record_bet_action env db (pb_round_id data) (pb_player_id data) (ar_action res) (ar_amount res)
      (pb_idempotency_key data) = (bet, entry, db')"
  shows "bet = bet_row env db data res" "entry = bet_entry env db data res"
    "db_bets db' = db_bets db @ [bet]" "db_ledger db' = db_ledger db @ [entry]"
    "db_rounds db' = db_rounds db" "db_round_players db' = db_round_players db" "db_games db' = db_games db"
    "db_snapshot_players db' = db_snapshot_players db" "db_round_payouts db' = db_round_payouts db"
    "db' = db\<lparr>db_bets := db_bets db @ [bet], db_ledger := db_ledger db @ [entry],
       db_outbox := db_outbox db @ [bet_event env db data res], db_uuid := db_uuid db + 3\<rparr>"
  using assms
  by (auto simp: record_bet_action_def uuid4_def emit_def build_event_def add_outbox_event_def Let_def
      bet_row_def bet_entry_def bet_event_def)

lemma tables_put [simp]:
  "db_bets (put_round r db) = db_bets db" "db_ledger (put_round r db) = db_ledger db"
  "db_uuid (put_round r db) = db_uuid db" "db_round_players (put_round r db) = db_round_players db"
  "db_bets (put_round_players ps db) = db_bets db" "db_ledger (put_round_players ps db) = db_ledger db"
  "db_uuid (put_round_players ps db) = db_uuid db" "db_rounds (put_round_players ps db) = db_rounds db"
  "db_snapshot_players (put_round r db) = db_snapshot_players db"
  "db_snapshot_players (put_round_players ps db) = db_snapshot_players db"
  "db_games (put_round r db) = db_games db" "db_games (put_round_players ps db) = db_games db"
  by (simp_all add: put_round_def put_round_players_def)

lemma frame_fetch:
  "db_rounds db = db_rounds db' \<Longrightarrow> fetch_round db rid = fetch_round db' rid"
  "db_round_players db = db_round_players db' \<Longrightarrow> get_round_players db rid = get_round_players db' rid"
  "db_ledger db = db_ledger db' \<Longrightarrow> ledger_rows db rid = ledger_rows db' rid"
  by (simp_all add: fetch_round_def get_round_players_def ledger_rows_def get_ledger_entries_def)

lemma players_after_keys [simp]: "map rp_key (players_after v pid ps) = map rp_key ps"
  by (simp add: players_after_def map_update_first rp_key_def)

lemma fetch_put_rows [simp]:
  "fetch_round (put_round_players ps db) rid = fetch_round db rid"
  "get_round_players (put_round r db) rid = get_round_players db rid"
  "round_rows_unique (put_round r db) = round_rows_unique db"
  by (simp_all add: fetch_round_def get_round_players_def round_rows_unique_def put_round_def put_round_players_def)

lemma get_put_other:
  assumes "\<And>p. p \<in> set ps \<Longrightarrow> rp_round_id p \<noteq> rid"
  shows "get_round_players (put_round_players ps db) rid = get_round_players db rid"
proof -
  have "filter (\<lambda>p. rp_round_id p = rid) (foldl (\<lambda>rows p. put_row rp_key p rows) rows ps) =
      filter (\<lambda>p. rp_round_id p = rid) rows" for rows
    using assms
  proof (induction ps arbitrary: rows)
    case Nil
    then show ?case by simp
  next
    case (Cons p ps)
    have "filter (\<lambda>p. rp_round_id p = rid) (put_row rp_key p rows) = filter (\<lambda>p. rp_round_id p = rid) rows"
      using Cons.prems [of p] by (intro filter_put_row_other) (auto simp: rp_key_def)
    with Cons show ?case by simp
  qed
  then show ?thesis by (simp add: get_round_players_def put_round_players_def)
qed

text \<open>The tables after a bet computed on the rows they hold.\<close>

definition bet_tables :: "Env \<Rightarrow> GameDb \<Rightarrow> PlaceBet \<Rightarrow> ApplyActionResult \<Rightarrow> Round \<Rightarrow> RoundPlayer list \<Rightarrow> GameDb" where
  "bet_tables env db data res r' ps' = snd (snd (record_bet_action env (put_round_players ps' (put_round r' db))
     (pb_round_id data) (pb_player_id data) (ar_action res) (ar_amount res) (pb_idempotency_key data)))"

lemma place_bet_write_alone:
  assumes "db_ok db" and "fetch_round db (pb_round_id data) = Inr r" and "ps = get_round_players db (pb_round_id data)"
  shows "place_bet_write env data (r, ps) db =
    bindE (apply_action r ps (pb_player_id data) (upper (pb_action data)) (pb_amount data) NO_LIMIT_HOLDEM
             (pb_expected_version data)) (\<lambda>(res, r', ps').
    bindE (commit (bet_tables env db data res r' ps')) (\<lambda>db'.
    Inr (bet_to_response (bet_row env db data res), db')))"
proof (cases "apply_action r ps (pb_player_id data) (upper (pb_action data)) (pb_amount data) NO_LIMIT_HOLDEM
    (pb_expected_version data)")
  case (Inl e)
  then show ?thesis by (simp add: place_bet_write_def Let_def)
next
  case (Inr y)
  obtain res r' ps' where y: "y = (res, r', ps')" by (cases y)
  have "distinct (map rp_player_id ps)"
    using get_round_players_distinct(1) [OF db_ok_round_rows [OF assms(1)]] assms(3) by simp
  with Inr obtain p v where out: "ps' = players_after v (pb_player_id data) ps" "r' = round_after v p r ps'"
    unfolding y by (rule apply_action_cases)
  have "r_round_id r' = pb_round_id data" using rounds.fetch_key [OF assms(2)] out(2) by (simp add: round_after_def)
  moreover have "cas_columns r' r = r'" using out(2) cas_columns_after by simp
  ultimately have cas: "cas_update_round db r' (version_or_1 r) = Inr (put_round r' db)"
    by (rule cas_alone [OF assms(1,2)])
  have flush: "flush_round_players ps ps' (put_round r' db) = put_round_players ps' (put_round r' db)"
    using db_ok_round_rows [OF assms(1)] assms(3) out(1)
    by (intro flush_alone [where rid = "pb_round_id data"]) simp_all
  obtain bet entry db3 where rec: "record_bet_action env (put_round_players ps' (put_round r' db)) (pb_round_id data)
      (pb_player_id data) (ar_action res) (ar_amount res) (pb_idempotency_key data) = (bet, entry, db3)"
    by (metis prod_cases3)
  have "bet = bet_row env db data res"
    using record_bet_action_effect(1) [OF rec] by (simp add: bet_row_def)
  then show ?thesis
    by (simp add: place_bet_write_def Inr y cas flush rec bet_tables_def Let_def)
qed

lemma bet_tables_effect:
  assumes "db_ok db" and "fetch_round db rid = Inr r" and "rid = pb_round_id data"
    and "ps = get_round_players db rid" and "ps' = players_after v pid ps" and "r' = round_after v p r ps'"
    and db'_def: "db' = bet_tables env db data res r' ps'"
  shows "fetch_round db' rid = Inr r'" "get_round_players db' rid = ps'"
    "db_bets db' = db_bets db @ [bet_row env db data res]" "db_ledger db' = db_ledger db @ [bet_entry env db data res]"
    "rid' \<noteq> rid \<Longrightarrow> fetch_round db' rid' = fetch_round db rid'"
    "rid' \<noteq> rid \<Longrightarrow> get_round_players db' rid' = get_round_players db rid'"
    "db' = db\<lparr>db_rounds := db_rounds db', db_round_players := db_round_players db',
       db_bets := db_bets db @ [bet_row env db data res], db_ledger := db_ledger db @ [bet_entry env db data res],
       db_outbox := db_outbox db @ [bet_event env db data res], db_uuid := db_uuid db + 3\<rparr>"
proof -
  let ?db2 = "put_round_players ps' (put_round r' db)"
  obtain bet entry db3 where rec: "record_bet_action env ?db2 (pb_round_id data)
      (pb_player_id data) (ar_action res) (ar_amount res) (pb_idempotency_key data) = (bet, entry, db3)"
    by (metis prod_cases3)
  have db': "db' = db3" by (simp add: db'_def bet_tables_def rec)
  note eff = record_bet_action_effect [OF rec, folded db']
  have rows: "fetch_round db' k = fetch_round ?db2 k" "get_round_players db' k = get_round_players ?db2 k" for k
    by (rule frame_fetch(1) [OF eff(5)], rule frame_fetch(2) [OF eff(6)])
  have id': "r_round_id r' = rid" using rounds.fetch_key [OF assms(2)] assms(6) by (simp add: round_after_def)
  show "fetch_round db' rid = Inr r'"
    using rounds.fetch_put [OF assms(2) id'] rows(1) by simp
  show "get_round_players db' rid = ps'"
    unfolding rows(2) using db_ok_round_rows [OF assms(1)] assms(4,5)
    by (intro get_put_round_players) simp_all
  show "rid' \<noteq> rid \<Longrightarrow> fetch_round db' rid' = fetch_round db rid'"
    using rounds.fetch_put_other [of rid' r' db] id' rows(1) by simp
  have "rp_round_id q = rid" if "q \<in> set ps'" for q
  proof -
    have "rp_key q \<in> set (map rp_key ps')" using that by simp
    then have "rp_key q \<in> rp_key ` set ps" unfolding assms(5) players_after_keys by simp
    then show ?thesis using get_round_players_round assms(4) by (auto simp: rp_key_def)
  qed
  then show "rid' \<noteq> rid \<Longrightarrow> get_round_players db' rid' = get_round_players db rid'"
    unfolding rows(2) by (subst get_put_other) auto
  show "db_bets db' = db_bets db @ [bet_row env db data res]" "db_ledger db' = db_ledger db @ [bet_entry env db data res]"
    using eff(1-4) by (simp_all add: bet_row_def bet_entry_def)
  show "db' = db\<lparr>db_rounds := db_rounds db', db_round_players := db_round_players db',
       db_bets := db_bets db @ [bet_row env db data res], db_ledger := db_ledger db @ [bet_entry env db data res],
       db_outbox := db_outbox db @ [bet_event env db data res], db_uuid := db_uuid db + 3\<rparr>"
    unfolding eff(10) eff(1,2) by (simp add: put_round_def put_round_players_def bet_row_def bet_entry_def bet_event_def)
qed

lemma place_bet_alone:
  assumes "db_ok db" and "place_bet env db data = Inr (resp, db')" and "place_bet_lookup db data = Inr None"
  obtains r res p v where "fetch_round db (pb_round_id data) = Inr r"
    and "apply_action r (get_round_players db (pb_round_id data)) (pb_player_id data) (upper (pb_action data))
       (pb_amount data) NO_LIMIT_HOLDEM (pb_expected_version data) =
       Inr (res, round_after v p r (players_after v (pb_player_id data) (get_round_players db (pb_round_id data))),
            players_after v (pb_player_id data) (get_round_players db (pb_round_id data)))"
    and "List.find (\<lambda>rp. rp_player_id rp = pb_player_id data) (get_round_players db (pb_round_id data)) = Some p"
    and "ar_amount res = va_amount v"
    and "db' = bet_tables env db data res (round_after v p r (players_after v (pb_player_id data) (get_round_players db (pb_round_id data))))
           (players_after v (pb_player_id data) (get_round_players db (pb_round_id data)))"
    and "db_ok db'" and "resp = bet_to_response (bet_row env db data res)"
proof -
  let ?rid = "pb_round_id data" and ?ps = "get_round_players db (pb_round_id data)"
  from assms(2,3) obtain r where r: "fetch_round db ?rid = Inr r"
    and w: "place_bet_write env data (r, ?ps) db = Inr (resp, db')"
    by (auto simp: place_bet_def place_bet_read_def bindE_simps)
  from w [unfolded place_bet_write_alone [OF assms(1) r refl]] obtain res r' ps' where
    act: "apply_action r ?ps (pb_player_id data) (upper (pb_action data)) (pb_amount data) NO_LIMIT_HOLDEM
      (pb_expected_version data) = Inr (res, r', ps')"
    and out: "db' = bet_tables env db data res r' ps'" "db_ok db'" "resp = bet_to_response (bet_row env db data res)"
    by (auto simp: bindE_simps split: prod.splits)
  have "distinct (map rp_player_id ?ps)"
    using get_round_players_distinct(1) [OF db_ok_round_rows [OF assms(1)]] .
  with act show ?thesis
    by (rule apply_action_cases) (use that r act out in simp)
qed

text \<open>A key already used in the round decides the outcome of the request, whatever happened since.\<close>

lemma lookup_hit:
  assumes "db_ok db" and "b \<in> set (db_bets db)" and "b_round_id b = pb_round_id data"
    and "b_idempotency_key b = pb_idempotency_key data" and "pb_idempotency_key data = Some (c # cs)"
    and "upper (pb_action data) \<in> VALID_BET_ACTIONS"
  shows "place_bet env db data =
    (if b_player_id b = pb_player_id data \<and> BetAction_value (b_action b) = upper (pb_action data) \<and>
        b_amount b = pb_amount data
     then Inr (bet_to_response b, db) else Inl (idempotency_conflict (c # cs) (pb_round_id data)))"
proof -
  let ?P = "\<lambda>b. b_round_id b = pb_round_id data \<and> b_idempotency_key b = pb_idempotency_key data"
  let ?K = "filter (\<lambda>b. b_idempotency_key b \<noteq> None) (db_bets db)"
  have dist: "distinct (map (\<lambda>b. (b_round_id b, b_idempotency_key b)) ?K)"
    using assms(1) by (simp add: db_ok_def unique_ok_def)
  have "filter ?P (db_bets db) = filter (\<lambda>x. (b_round_id x, b_idempotency_key x) = (pb_round_id data, pb_idempotency_key data)) ?K"
    using assms(5) by (auto intro!: filter_cong)
  moreover have "b \<in> set ?K" using assms(2,4,5) by simp
  ultimately have "fetch_or_raise ?P (db_bets db) BET_NOT_FOUND = Inr b"
    using fetch_or_raise_unique [OF dist, of "(pb_round_id data, pb_idempotency_key data)" BET_NOT_FOUND]
      find_key_unique [OF dist _ refl, of b] assms(3,4)
    by (simp add: fetch_or_raise_def)
  then have "filter ?P (db_bets db) = [b]" by (simp only: fetch_or_raise_Inr)
  then show ?thesis
    using assms(5,6) by (simp add: place_bet_def place_bet_lookup_def Let_def)
qed

text \<open>The rows of a round agree with the hand state rebuilt from its ledger.\<close>

definition ledger_agrees :: "GameDb \<Rightarrow> round_id \<Rightarrow> bool" where
  "ledger_agrees db rid = (case fetch_round db rid of
     Inl e \<Rightarrow> False
   | Inr r \<Rightarrow> let s = rebuild_hand_state (ledger_rows db rid) in
       hs_pot_total s = r_pot_amount r \<and>
       list_all (\<lambda>p. rp_player_id p \<noteq> [] \<and> committed_by (rp_player_id p) s = rp_committed_this_hand p)
         (get_round_players db rid))"

lemma truthy_Some [simp]: "s \<noteq> [] \<Longrightarrow> truthy (Some s) = Some s"
  by (cases s) (simp_all add: truthy_def)

lemma ledger_rows_snoc:
  assumes "db_ledger db' = db_ledger db @ [e]" and "le_round_id e = rid"
  shows "ledger_rows db' rid = ledger_rows db rid @ [ledger_row e]"
  using assms by (simp add: ledger_rows_def get_ledger_entries_def)

lemma rebuild_snoc: "rebuild_hand_state (es @ [e]) = apply_entry (rebuild_hand_state es) e"
  using ledger.rebuild_append [of es "[e]"] by simp

lemma pot_delta_bet_entry: "pot_delta (ledger_row (bet_entry env db data res)) = ar_amount res"
  by (simp add: pot_delta_def ledger_row_def bet_entry_def amount_or_0_def)

lemma lr_player_bet_entry: "lr_player_id (ledger_row (bet_entry env db data res)) = Some (pb_player_id data)"
  by (simp add: ledger_row_def bet_entry_def)


lemma version_not_found:
  assumes "filter (\<lambda>x. r_round_id x = rid) rows = [r'] \<and> r_state_version r' = Some (v + 1)"
  shows "filter (\<lambda>row. r_round_id row = rid \<and> r_state_version row = Some v) rows = []"
proof -
  have "filter (\<lambda>row. r_round_id row = rid \<and> r_state_version row = Some v) rows =
      filter (\<lambda>row. r_state_version row = Some v) (filter (\<lambda>x. r_round_id x = rid) rows)"
    by (simp add: conj_commute)
  with assms show ?thesis by simp
qed


section \<open>Properties\<close>

definition example_env :: Env where
  "example_env = \<lparr>env_uuid = (\<lambda>n. [CHR ''u'', ''0123456789abcdefghijklmnopqrstuvwxyz'' ! n]), env_now = 0,
     env_post_room = (\<lambda>_ _. Response 200 None []), env_get_room = (\<lambda>_. NoRoom)\<rparr>"

definition example_game :: Game where
  "example_game = \<lparr>g_game_id = ''g'', g_room_id = ''room'', g_status = ACTIVE, g_current_blind_level = 1,
     g_level_started_at = Some (Aware 0), g_current_dealer_seat = 3, g_current_small_blind_seat = 1,
     g_current_big_blind_seat = 2, g_hands_played = 0, g_hands_at_current_level = 0\<rparr>"

definition example_db :: GameDb where
  "example_db = \<lparr>db_games = [example_game], db_rounds = [example_round], db_round_players = example_players,
     db_round_payouts = [], db_bets = [], db_ledger = [], db_snapshots = [], db_snapshot_players = [],
     db_snapshot_levels = [], db_outbox = [], db_uuid = 0\<rparr>"

definition bet_request :: "string \<Rightarrow> PlaceBet" where
  "bet_request pid = \<lparr>pb_round_id = ''r'', pb_player_id = pid, pb_action = ''bet'', pb_amount = 30,
     pb_idempotency_key = Some ''k'', pb_expected_version = None\<rparr>"

lemma example_db_ok: "db_ok example_db"
  by code_simp

definition example_acted :: "ApplyActionResult \<times> Round \<times> RoundPlayer list" where
  "example_acted = the_ok (apply_action example_round example_players ''a'' ''BET'' 30 NO_LIMIT_HOLDEM None)"

definition example_placed :: "BetResponse \<times> GameDb" where
  "example_placed = (bet_to_response (bet_row example_env example_db (bet_request ''a'') (fst example_acted)),
     bet_tables example_env example_db (bet_request ''a'') (fst example_acted) (fst (snd example_acted))
       (snd (snd example_acted)))"

lemma example_reads:
  "place_bet_lookup example_db (bet_request ''a'') = Inr None"
  "place_bet_read example_db (bet_request ''a'') = Inr (example_round, example_players)"
  "fetch_round example_db ''r'' = Inr example_round" "get_round_players example_db ''r'' = example_players"
  by code_simp+

lemma example_acts:
  "apply_action example_round example_players ''a'' ''BET'' 30 NO_LIMIT_HOLDEM None = Inr example_acted"
proof -
  have "is_ok (apply_action example_round example_players ''a'' ''BET'' 30 NO_LIMIT_HOLDEM None)" by code_simp
  from is_okD [OF this] show ?thesis by (simp add: example_acted_def)
qed

lemma example_placed_db_ok: "db_ok (snd example_placed)"
  by code_simp

lemma example_written:
  "place_bet_write example_env (bet_request ''a'') (example_round, example_players) example_db =
    Inr (fst example_placed, snd example_placed)"
proof -
  have req: "pb_round_id (bet_request ''a'') = ''r''" "pb_player_id (bet_request ''a'') = ''a''"
    "upper (pb_action (bet_request ''a'')) = ''BET''" "pb_amount (bet_request ''a'') = 30"
    "pb_expected_version (bet_request ''a'') = None"
    by code_simp+
  show ?thesis
    using place_bet_write_alone [OF example_db_ok, of "bet_request ''a''" example_round example_players example_env]
      example_placed_db_ok
    by (simp add: req example_reads example_acts commit_def example_placed_def case_prod_unfold)
qed

lemma example_placed_ok:
  "place_bet example_env example_db (bet_request ''a'') = Inr (fst example_placed, snd example_placed)"
  by (simp add: place_bet_def example_reads example_written)

text \<open>
  C6: a bet does what the engine says and records it once. When no earlier bet carries
  the request's key (a keyed replay of such a bet adds nothing), a successful
  \<^verbatim>\<open>place_bet\<close> leaves in the tables exactly the round and player rows that
  \<^verbatim>\<open>apply_action\<close> computes from the rows it read, and adds exactly three rows: the bet, a
  BET_PLACED ledger entry and a pending \<^verbatim>\<open>bet.placed\<close> outbox event, each with the player,
  the action and the amount the engine moved. Nothing else changes: the other rounds and
  their players, the games, the snapshots with their players and blind levels, and the
  payouts are as they were, and every constraint of the schema still holds.
\<close>

theorem place_bet_refines_apply_action:
  assumes "db_ok db" and "place_bet env db data = Inr (resp, db')" and "place_bet_lookup db data = Inr None"
  shows "\<exists>r res r' ps'. fetch_round db (pb_round_id data) = Inr r \<and>
    apply_action r (get_round_players db (pb_round_id data)) (pb_player_id data) (upper (pb_action data))
      (pb_amount data) NO_LIMIT_HOLDEM (pb_expected_version data) = Inr (res, r', ps') \<and>
    fetch_round db' (pb_round_id data) = Inr r' \<and> get_round_players db' (pb_round_id data) = ps' \<and>
    (\<forall>rid. rid \<noteq> pb_round_id data \<longrightarrow>
       fetch_round db' rid = fetch_round db rid \<and> get_round_players db' rid = get_round_players db rid) \<and>
    db' = db\<lparr>db_rounds := db_rounds db', db_round_players := db_round_players db',
      db_bets := db_bets db @ [bet_row env db data res], db_ledger := db_ledger db @ [bet_entry env db data res],
      db_outbox := db_outbox db @ [bet_event env db data res], db_uuid := db_uuid db + 3\<rparr> \<and>
    db_ok db' \<and> resp = bet_to_response (bet_row env db data res)"
  using assms
proof (rule place_bet_alone)
  fix r res p v
  let ?ps' = "players_after v (pb_player_id data) (get_round_players db (pb_round_id data))"
  assume r: "fetch_round db (pb_round_id data) = Inr r"
    and act: "apply_action r (get_round_players db (pb_round_id data)) (pb_player_id data) (upper (pb_action data))
       (pb_amount data) NO_LIMIT_HOLDEM (pb_expected_version data) = Inr (res, round_after v p r ?ps', ?ps')"
    and out: "db' = bet_tables env db data res (round_after v p r ?ps') ?ps'"
      "db_ok db'" "resp = bet_to_response (bet_row env db data res)"
  note eff = bet_tables_effect [OF assms(1) r refl refl refl refl out(1)]
  show ?thesis
    by (intro exI [of _ r] exI [of _ res] exI [of _ "round_after v p r ?ps'"] exI [of _ ?ps'] conjI allI impI
        r act eff out(2,3))
qed

theorem place_bet_refines_apply_action_witness:
  "\<exists>r res r' ps'. fetch_round (snd example_placed) ''r'' = Inr r' \<and>
    get_round_players (snd example_placed) ''r'' = ps' \<and> db_ok (snd example_placed) \<and>
    apply_action r example_players ''a'' ''BET'' 30 NO_LIMIT_HOLDEM None = Inr (res, r', ps')"
proof -
  from place_bet_refines_apply_action [OF example_db_ok example_placed_ok example_reads(1)]
  obtain r res r' ps' where "apply_action r (get_round_players example_db ''r'') ''a'' (upper ''bet'') 30 NO_LIMIT_HOLDEM None =
      Inr (res, r', ps')"
    "fetch_round (snd example_placed) ''r'' = Inr r'" "get_round_players (snd example_placed) ''r'' = ps'" "db_ok (snd example_placed)"
    by (auto simp: bet_request_def)
  moreover have "upper ''bet'' = ''BET''" by code_simp
  ultimately show ?thesis using example_reads(4) by metis
qed

text \<open>
  C8: a retry never bets twice. Once a request with an idempotency key has succeeded, the
  same request sent again, to any later valid state of the tables, changes nothing: it
  returns the stored response when the stored action and amount are those of the request,
  and is refused as a conflict otherwise. The stored amount is the number of chips moved,
  so a retried call, raise or all-in whose amount field differs from it is refused.
\<close>

theorem place_bet_idempotent:
  assumes "db_ok db" and "place_bet env db data = Inr (resp, db')" and "pb_idempotency_key data = Some (c # cs)"
    and "db_ok later" and "set (db_bets db') \<subseteq> set (db_bets later)"
  shows "place_bet env' later data =
    (if BetAction_value (br_action resp) = upper (pb_action data) \<and> br_amount resp = pb_amount data
     then Inr (resp, later) else Inl (idempotency_conflict (c # cs) (pb_round_id data)))"
proof -
  obtain existing where look: "place_bet_lookup db data = Inr existing"
    using assms(2) by (auto simp: place_bet_def bindE_simps)
  then have valid: "upper (pb_action data) \<in> VALID_BET_ACTIONS"
    by (auto simp: place_bet_lookup_def Let_def split: if_splits)
  have "\<exists>b \<in> set (db_bets db'). b_round_id b = pb_round_id data \<and> b_idempotency_key b = pb_idempotency_key data \<and>
      b_player_id b = pb_player_id data \<and> resp = bet_to_response b"
  proof (cases existing)
    case None
    from assms(1,2) look [unfolded None] show ?thesis
      by (rule place_bet_alone) (simp add: bet_tables_effect(3) [OF assms(1) _ refl refl refl refl refl] bet_row_def)
  next
    case (Some resp')
    from look [unfolded Some] assms(3) valid obtain b where
      "filter (\<lambda>b. b_round_id b = pb_round_id data \<and> b_idempotency_key b = pb_idempotency_key data) (db_bets db) = [b]"
      "b_player_id b = pb_player_id data" "resp' = bet_to_response b"
      by (auto simp: place_bet_lookup_def Let_def bindE_simps scalar_some scalar_none split: option.splits if_splits)
    moreover have "resp' = resp" "db' = db" using assms(2) look Some by (auto simp: place_bet_def)
    ultimately show ?thesis by (auto simp: filter_eq_Cons_iff)
  qed
  then obtain b where b: "b \<in> set (db_bets later)" "b_round_id b = pb_round_id data"
    "b_idempotency_key b = pb_idempotency_key data" "b_player_id b = pb_player_id data" "resp = bet_to_response b"
    using assms(5) by blast
  from lookup_hit [OF assms(4) b(1-3) assms(3) valid] b(4,5) show ?thesis by (simp add: bet_to_response_def)
qed

theorem place_bet_idempotent_witness:
  "place_bet example_env (snd example_placed) (bet_request ''a'') = Inr (fst example_placed, snd example_placed)"
proof -
  have "pb_idempotency_key (bet_request ''a'') = Some (CHR ''k'' # [])" by (simp add: bet_request_def)
  moreover note example_placed_db_ok
  moreover have "BetAction_value (br_action (fst example_placed)) = upper (pb_action (bet_request ''a'')) \<and>
      br_amount (fst example_placed) = pb_amount (bet_request ''a'')" by code_simp
  ultimately show ?thesis
    using place_bet_idempotent [OF example_db_ok example_placed_ok _ _ subset_refl, of "CHR ''k''" "[]" example_env]
    by simp
qed

text \<open>
  C7: of two bets computed from the same version, one is refused. When a bet is committed
  between the moment another request of the round read its rows and the moment that
  request writes, the late request fails: with the engine's error if its action was
  illegal anyway, and with a stale-state conflict otherwise. No update is lost.
\<close>

theorem concurrent_bets_one_wins:
  assumes "db_ok db" and "place_bet_read db d1 = Inr loaded1" and "place_bet_read db d2 = Inr (r, ps)"
    and "pb_round_id d1 = pb_round_id d2" and "place_bet_write env1 d1 loaded1 db = Inr (resp, db1)"
  shows "place_bet_write env2 d2 (r, ps) db1 =
    bindE (apply_action r ps (pb_player_id d2) (upper (pb_action d2)) (pb_amount d2) NO_LIMIT_HOLDEM
      (pb_expected_version d2)) (\<lambda>_. Inl (cas_conflict (pb_round_id d2) (version_or_1 r)))"
proof -
  let ?rid = "pb_round_id d1" and ?ps = "get_round_players db (pb_round_id d1)"
  have r: "fetch_round db ?rid = Inr r" and l: "loaded1 = (r, ?ps)" "ps = ?ps"
    using assms(2,3,4) by (auto simp: place_bet_read_def bindE_simps)
  note dist = get_round_players_distinct(1) [OF db_ok_round_rows [OF assms(1)], of ?rid]
  from assms(5) [unfolded l place_bet_write_alone [OF assms(1) r refl]] obtain res r' ps' where
    act: "apply_action r ?ps (pb_player_id d1) (upper (pb_action d1)) (pb_amount d1) NO_LIMIT_HOLDEM
      (pb_expected_version d1) = Inr (res, r', ps')" and db1: "db1 = bet_tables env1 db d1 res r' ps'"
    by (auto simp: bindE_simps split: prod.splits)
  from act dist have "fetch_round db1 ?rid = Inr r' \<and> r_state_version r' = Some (version_or_1 r + 1)"
  proof (rule apply_action_cases)
    fix p v assume "ps' = players_after v (pb_player_id d1) ?ps" "r' = round_after v p r ps'"
    with bet_tables_effect(1) [OF assms(1) r refl refl this db1]
    show ?thesis by (simp add: round_after_def)
  qed
  then have "filter (\<lambda>row. r_round_id row = ?rid \<and> r_state_version row = Some (version_or_1 r)) (db_rounds db1) = []"
    unfolding fetch_round_def fetch_or_raise_Inr by (rule version_not_found)
  then have "cas_update_round db1 x (version_or_1 r) = Inl (cas_conflict ?rid (version_or_1 r))" if "r_round_id x = ?rid" for x
    using that by (simp add: cas_update_round_def)
  moreover have "r_round_id x = ?rid" if "apply_action r ps a b c d e = Inr (res2, x, y)" for a b c d e res2 x y
    using that dist unfolding l(2)
    by (rule apply_action_cases) (simp add: round_after_def rounds.fetch_key [OF r])
  ultimately show ?thesis
    unfolding place_bet_write_def prod.case Let_def assms(4) [symmetric]
    by (cases "apply_action r ps (pb_player_id d2) (upper (pb_action d2)) (pb_amount d2) NO_LIMIT_HOLDEM
      (pb_expected_version d2)") auto
qed

theorem concurrent_bets_one_wins_witness:
  "place_bet_write example_env (bet_request ''a'') (example_round, example_players) (snd example_placed) =
    Inl (cas_conflict ''r'' 4)"
proof -
  have "pb_round_id (bet_request ''a'') = ''r''" "version_or_1 example_round = 4" by code_simp+
  moreover have "is_ok (apply_action example_round example_players (pb_player_id (bet_request ''a''))
      (upper (pb_action (bet_request ''a''))) (pb_amount (bet_request ''a'')) NO_LIMIT_HOLDEM
      (pb_expected_version (bet_request ''a'')))" by code_simp
  ultimately show ?thesis
    using concurrent_bets_one_wins [OF example_db_ok example_reads(2) example_reads(2) refl example_written, of example_env]
    by (auto simp: is_ok_iff)
qed

lemma place_bet_ledger:
  assumes "db_ok db" and "ledger_agrees db (pb_round_id data)" and "place_bet env db data = Inr (resp, db')"
  shows "ledger_agrees db' (pb_round_id data)"
proof (cases "place_bet_lookup db data = Inr None")
  case False
  then have "db' = db" using assms(3) by (auto simp: place_bet_def bindE_simps split: option.splits)
  with assms(2) show ?thesis by simp
next
  case True
  let ?rid = "pb_round_id data" and ?pid = "pb_player_id data" and ?ps = "get_round_players db (pb_round_id data)"
  from assms(1,3) True show ?thesis
  proof (rule place_bet_alone)
    fix r res p v
    let ?ps' = "players_after v ?pid ?ps"
    assume r: "fetch_round db ?rid = Inr r" and p: "List.find (\<lambda>rp. rp_player_id rp = ?pid) ?ps = Some p"
      and amount: "ar_amount res = va_amount v" and db': "db' = bet_tables env db data res (round_after v p r ?ps') ?ps'"
    note eff = bet_tables_effect [OF assms(1) r refl refl refl refl db']
    let ?s = "rebuild_hand_state (ledger_rows db ?rid)" and ?e = "ledger_row (bet_entry env db data res)"
    have s': "rebuild_hand_state (ledger_rows db' ?rid) = apply_entry ?s ?e"
      using ledger_rows_snoc [OF eff(4)] by (simp add: bet_entry_def rebuild_snoc)
    have pot: "hs_pot_total ?s = r_pot_amount r" and rows: "\<And>q. q \<in> set ?ps \<Longrightarrow> rp_player_id q \<noteq> [] \<and> committed_by (rp_player_id q) ?s = rp_committed_this_hand q"
      using assms(2) r by (auto simp: ledger_agrees_def Let_def list_all_iff)
    have "p \<in> set ?ps" "rp_player_id p = ?pid" using find_Some_mem [OF p] by simp_all
    with rows have p': "?pid \<noteq> []" "committed_by ?pid ?s = rp_committed_this_hand p" by metis+
    have "rp_player_id q \<noteq> [] \<and> committed_by (rp_player_id q) (apply_entry ?s ?e) = rp_committed_this_hand q"
      if "q \<in> set ?ps'" for q
      using in_players_after [OF get_round_players_distinct(1) [OF db_ok_round_rows [OF assms(1)]] p that]
        \<open>rp_player_id p = ?pid\<close> p' rows [of q]
      by (auto simp: apply_entry_committed pot_delta_bet_entry lr_player_bet_entry amount)
    with pot show ?thesis
      unfolding ledger_agrees_def eff(1,2) s'
      by (simp add: Let_def list_all_iff apply_entry_pot pot_delta_bet_entry amount round_after_def)
  qed
qed

text \<open>
  The ledger keeps telling the truth. If the pot and every player's committed chips
  agree with the state rebuilt from the ledger, they still do after a successful
  \<^verbatim>\<open>place_bet\<close> on the round.
\<close>

theorem place_bet_keeps_ledger_agreement:
  assumes "db_ok db" and "ledger_agrees db (pb_round_id data)" and "place_bet env db data = Inr (resp, db')"
  shows "ledger_agrees db' (pb_round_id data)"
  using assms by (rule place_bet_ledger)

theorem place_bet_keeps_ledger_agreement_witness: "ledger_agrees (snd example_placed) ''r''"
proof -
  have "ledger_agrees example_db (pb_round_id (bet_request ''a''))" by code_simp
  from place_bet_keeps_ledger_agreement [OF example_db_ok this example_placed_ok]
  show ?thesis by (simp add: bet_request_def)
qed

end
