(* ===== verification/Mappers.thy ===== *)
theory Mappers
  imports Game_Db Hand_Ledger "HOL-Library.Char_ord" "HOL-Library.List_Lexorder"
begin

text \<open>
  The responses of game-service (\<^verbatim>\<open>shared/schemas/games.py\<close>) and
  \<^verbatim>\<open>application/mappers.py\<close>, which makes them from rows. A status, street or entry type
  is sent as the string of its member and kept here as the member; \<^verbatim>\<open>created_at\<close>, a
  server-side stamp, is left out as in the tables.
\<close>

section \<open>Responses\<close>

record GameResponse =
  gr_game_id :: game_id
  gr_room_id :: room_id
  gr_status :: GameStatus
  gr_current_blind_level :: int
  gr_level_started_at :: "datetime option"
  gr_current_dealer_seat :: int
  gr_current_small_blind_seat :: int
  gr_current_big_blind_seat :: int
  gr_hands_played :: int
  gr_hands_at_current_level :: int

record RoundPlayerResponse =
  rpr_player_id :: player_id
  rpr_seat_number :: int
  rpr_stack_remaining :: int
  rpr_committed_this_street :: int
  rpr_committed_this_hand :: int
  rpr_has_folded :: bool
  rpr_is_all_in :: bool
  rpr_is_active_in_hand :: bool

record PayoutResponse =
  por_pot_index :: int
  por_pot_type :: string
  por_player_id :: player_id
  por_amount :: int

record RoundResponse =
  ror_round_id :: round_id
  ror_game_id :: game_id
  ror_round_number :: int
  ror_dealer_seat :: int
  ror_small_blind_seat :: int
  ror_big_blind_seat :: int
  ror_small_blind_amount :: int
  ror_big_blind_amount :: int
  ror_ante_amount :: int
  ror_status :: RoundStatus
  ror_pot_amount :: int
  ror_street :: Street
  ror_acting_player_id :: "player_id option"
  ror_current_highest_bet :: int
  ror_minimum_raise_amount :: int
  ror_is_action_closed :: bool
  ror_players :: "RoundPlayerResponse list"
  ror_payouts :: "PayoutResponse list"
  ror_completed_at :: "datetime option"

record LedgerEntryResponse =
  ler_entry_id :: string
  ler_round_id :: round_id
  ler_entry_type :: LedgerEntryType
  ler_player_id :: "player_id option"
  ler_amount :: "int option"
  ler_detail :: "Detail option"
  ler_original_entry_id :: "string option"
  ler_dealer_id :: "string option"

record PlayerSnapshotResponse =
  psr_player_id :: player_id
  psr_stack_adjustment :: int
  psr_total_committed :: int
  psr_total_won :: int

record HandStateResponse =
  hsr_round_id :: round_id
  hsr_pot_total :: int
  hsr_is_completed :: bool
  hsr_is_reopened :: bool
  hsr_reversed_entry_ids :: "string list"
  hsr_payout_corrections :: "PayoutCorrection list"
  hsr_entry_count :: int
  hsr_players :: "PlayerSnapshotResponse list"


section \<open>Mappers\<close>

definition game_to_response :: "Game \<Rightarrow> GameResponse" where
  "game_to_response g = \<lparr>gr_game_id = g_game_id g, gr_room_id = g_room_id g, gr_status = g_status g,
     gr_current_blind_level = g_current_blind_level g, gr_level_started_at = g_level_started_at g,
     gr_current_dealer_seat = g_current_dealer_seat g,
     gr_current_small_blind_seat = g_current_small_blind_seat g,
     gr_current_big_blind_seat = g_current_big_blind_seat g, gr_hands_played = g_hands_played g,
     gr_hands_at_current_level = g_hands_at_current_level g\<rparr>"

definition round_player_to_response :: "RoundPlayer \<Rightarrow> RoundPlayerResponse" where
  "round_player_to_response rp = \<lparr>rpr_player_id = rp_player_id rp, rpr_seat_number = rp_seat_number rp,
     rpr_stack_remaining = rp_stack_remaining rp, rpr_committed_this_street = rp_committed_this_street rp,
     rpr_committed_this_hand = rp_committed_this_hand rp, rpr_has_folded = rp_has_folded rp,
     rpr_is_all_in = rp_is_all_in rp, rpr_is_active_in_hand = rp_is_active_in_hand rp\<rparr>"

definition payout_to_response :: "RoundPayout \<Rightarrow> PayoutResponse" where
  "payout_to_response p = \<lparr>por_pot_index = po_pot_index p, por_pot_type = po_pot_type p,
     por_player_id = po_player_id p, por_amount = po_amount p\<rparr>"

definition round_to_response :: "Round \<Rightarrow> RoundPlayer list \<Rightarrow> RoundPayout list \<Rightarrow> RoundResponse" where
  "round_to_response r players payouts = \<lparr>ror_round_id = r_round_id r, ror_game_id = r_game_id r,
     ror_round_number = r_round_number r, ror_dealer_seat = r_dealer_seat r,
     ror_small_blind_seat = r_small_blind_seat r, ror_big_blind_seat = r_big_blind_seat r,
     ror_small_blind_amount = r_small_blind_amount r, ror_big_blind_amount = r_big_blind_amount r,
     ror_ante_amount = r_ante_amount r, ror_status = r_status r, ror_pot_amount = r_pot_amount r,
     ror_street = r_street r, ror_acting_player_id = r_acting_player_id r,
     ror_current_highest_bet = r_current_highest_bet r, ror_minimum_raise_amount = r_minimum_raise_amount r,
     ror_is_action_closed = r_is_action_closed r, ror_players = map round_player_to_response players,
     ror_payouts = map payout_to_response payouts, ror_completed_at = r_completed_at r\<rparr>"

definition ledger_entry_to_response :: "HandLedgerEntry \<Rightarrow> LedgerEntryResponse" where
  "ledger_entry_to_response e = \<lparr>ler_entry_id = le_entry_id e, ler_round_id = le_round_id e,
     ler_entry_type = le_entry_type e, ler_player_id = le_player_id e, ler_amount = le_amount e,
     ler_detail = le_detail e, ler_original_entry_id = le_original_entry_id e, ler_dealer_id = le_dealer_id e\<rparr>"

definition snapshot_to_response :: "PlayerSnapshot \<Rightarrow> PlayerSnapshotResponse" where
  "snapshot_to_response ps = \<lparr>psr_player_id = snap_player_id ps, psr_stack_adjustment = snap_stack_adjustment ps,
     psr_total_committed = snap_total_committed ps, psr_total_won = snap_total_won ps\<rparr>"

definition hand_state_to_response :: "round_id \<Rightarrow> HandState \<Rightarrow> HandStateResponse" where
  "hand_state_to_response rid state = \<lparr>hsr_round_id = rid, hsr_pot_total = hs_pot_total state,
     hsr_is_completed = hs_is_completed state, hsr_is_reopened = hs_is_reopened state,
     hsr_reversed_entry_ids = sorted_list_of_set (hs_reversed_entry_ids state),
     hsr_payout_corrections = hs_payout_corrections state, hsr_entry_count = hs_entry_count state,
     hsr_players = map (\<lambda>(pid, ps). snapshot_to_response ps) (hs_players state)\<rparr>"

end
