(* ===== verification/Game_Commands.thy ===== *)
theory Game_Commands
  imports Bet_Commands Mappers Positions Blind_Posting Street_Progression Payout_Validation Table_Runtime
begin

text \<open>
  \<^verbatim>\<open>application/commands/game_command_service.py\<close> and \<^verbatim>\<open>application/hand_completion.py\<close>:
  a game from start to finish, its rounds, the streets of a round and the settlement of a
  hand. These commands write through the ORM without a compare-and-swap; each is modelled
  running alone, from the rows it reads to the tables it commits.
\<close>

section \<open>hand_completion.py\<close>

record HandCompletionResult =
  hc_hands_played :: int
  hc_hands_at_current_level :: int
  hc_current_blind_level :: int
  hc_level_started_at :: datetime
  hc_blind_level_advanced :: bool

definition seconds_per_level :: "RoomConfig \<Rightarrow> int \<Rightarrow> int option" where
  "seconds_per_level room_config level = (case blind_level room_config level of
     None \<Rightarrow> None
   | Some bl \<Rightarrow> (case bl_duration_minutes bl of
       Some m \<Rightarrow> if m \<noteq> 0 then Some (m * 60) else None
     | None \<Rightarrow> None))"

definition apply_hand_completion :: "int \<Rightarrow> Game \<Rightarrow> RoomConfig \<Rightarrow> bool \<Rightarrow> HandCompletionResult" where
  "apply_hand_completion now game room_config should_count_hand =
     (let blind_clock = \<lparr>bc_current_level = g_current_blind_level game,
            bc_level_started_at = instant (ensure_utc now (g_level_started_at game)),
            bc_hands_at_level = g_hands_at_current_level game\<rparr>;
          clock1 = (if should_count_hand then record_hand blind_clock else blind_clock);
          advanced = (should_count_hand \<and>
            should_advance clock1 None (seconds_per_level room_config (g_current_blind_level game)) now \<and>
            g_current_blind_level game < max_level room_config);
          clock2 = (if advanced then advance clock1 now else clock1)
      in \<lparr>hc_hands_played = (if should_count_hand then g_hands_played game + 1 else g_hands_played game),
          hc_hands_at_current_level = bc_hands_at_level clock2,
          hc_current_blind_level = bc_current_level clock2,
          hc_level_started_at = Aware (bc_level_started_at clock2),
          hc_blind_level_advanced = advanced\<rparr>)"

definition store_completion :: "HandCompletionResult \<Rightarrow> Game \<Rightarrow> Game" where
  "store_completion completion game = game\<lparr>g_hands_played := hc_hands_played completion,
     g_hands_at_current_level := hc_hands_at_current_level completion,
     g_current_blind_level := hc_current_blind_level completion,
     g_level_started_at := Some (hc_level_started_at completion)\<rparr>"


section \<open>Starting a game\<close>

definition ante_amount :: "RoomConfig \<Rightarrow> BlindLevelConfig \<Rightarrow> int" where
  "ante_amount room_config level = (if rc_antes_enabled room_config then bl_ante level else 0)"

definition start_game :: "Env \<Rightarrow> GameDb \<Rightarrow> room_id \<Rightarrow> (GameResponse \<times> GameDb) result" where
  "start_game env db room_id =
     bindE (get_active_game_for_room db room_id) (\<lambda>existing.
     if existing \<noteq> None then raise GameAlreadyExists GAME_ALREADY_EXISTS
     else
     bindE (fetch_room_config_http (env_get_room env room_id) room_id) (\<lambda>room_config.
     if rc_blind_levels room_config = [] then raise NotFound NO_BLIND_LEVELS
     else
     let seats = room_active_seats room_config in
     if length seats < 2 then raise GameNotActive ACTIVE_PLAYERS_REQUIRED
     else
     bindE (assign_positions seats (rc_starting_dealer_seat room_config)) (\<lambda>(dealer_seat, sb_seat, bb_seat).
     case uuid4 env db of (gid, db1) \<Rightarrow>
     let game = \<lparr>g_game_id = gid, g_room_id = room_id, g_status = ACTIVE, g_current_blind_level = 1,
                 g_level_started_at = Some (Aware (env_now env)), g_current_dealer_seat = dealer_seat,
                 g_current_small_blind_seat = sb_seat, g_current_big_blind_seat = bb_seat,
                 g_hands_played = 0, g_hands_at_current_level = 0\<rparr>;
         db2 = save_room_snapshot (db1\<lparr>db_games := db_games db1 @ [game]\<rparr>) gid room_config in
     bindE (post_room_status_update (env_post_room env room_id ''activate'') ''activate'') (\<lambda>_.
     let db3 = emit env STARTED
           [(GAME_ID, JStr gid), (ROOM_ID, JStr room_id), (DEALER_SEAT, JInt dealer_seat),
            (SMALL_BLIND_SEAT, JInt sb_seat), (BIG_BLIND_SEAT, JInt bb_seat), (BLIND_LEVEL, JInt 1)] db2 in
     bindE (commit db3) (\<lambda>db4. Inr (game_to_response game, db4))))))"


section \<open>Starting a round\<close>

record StartRoundRequest =
  sr_started_by_player_id :: "player_id option"
  sr_started_by_controller :: bool

definition require_round_start_authorized :: "Game \<Rightarrow> RoomConfig \<Rightarrow> StartRoundRequest \<Rightarrow> unit result" where
  "require_round_start_authorized game room_config data =
     (if sr_started_by_controller data then Inr ()
      else case List.find (\<lambda>p. cfg_seat_number p = g_current_dealer_seat game) (active_players room_config) of
        Some button_player \<Rightarrow>
          if sr_started_by_player_id data = Some (cfg_player_id button_player) then Inr ()
          else raise RoundStartNotAllowed ROUND_START_NOT_ALLOWED
      | None \<Rightarrow> raise RoundStartNotAllowed ROUND_START_NOT_ALLOWED)"

definition current_level_of :: "RoomConfig \<Rightarrow> Game \<Rightarrow> BlindLevelConfig option" where
  "current_level_of room_config game = (case blind_level room_config (g_current_blind_level game) of
     Some l \<Rightarrow> Some l
   | None \<Rightarrow> (case rc_blind_levels room_config of [] \<Rightarrow> None | l # _ \<Rightarrow> Some l))"

definition first_to_act_seat :: "int list \<Rightarrow> int \<Rightarrow> int result" where
  "first_to_act_seat seats bb_seat =
     (let idx = (case index_of seats bb_seat of Some bb_idx \<Rightarrow> (bb_idx + 1) mod length seats | None \<Rightarrow> 0)
      in if idx < length seats then Inr (seats ! idx) else Inl IndexError)"

definition seat_player_of :: "PlayerConfig \<Rightarrow> SeatPlayer" where
  "seat_player_of p = \<lparr>seat_player_id = cfg_player_id p, seat_seat_number = cfg_seat_number p,
     seat_stack = cfg_chip_count p\<rparr>"

definition round_player_of :: "round_id \<Rightarrow> PostedPlayer \<Rightarrow> RoundPlayer" where
  "round_player_of rid pp = \<lparr>rp_round_id = rid, rp_player_id = posted_player_id pp,
     rp_seat_number = posted_seat_number pp, rp_stack_remaining = posted_stack_remaining pp,
     rp_committed_this_street = posted_committed_this_street pp,
     rp_committed_this_hand = posted_committed_this_hand pp, rp_has_folded = False,
     rp_is_all_in = posted_is_all_in pp, rp_is_active_in_hand = True\<rparr>"

text \<open>\<^verbatim>\<open>first_acting_player_id\<close>: the loop keeps the last player whose seat matches.\<close>

definition first_acting_player :: "int \<Rightarrow> PostedPlayer list \<Rightarrow> player_id option" where
  "first_acting_player seat pps =
     foldl (\<lambda>found pp. if posted_seat_number pp = seat then Some (posted_player_id pp) else found) None pps"

definition append_posting :: "Env \<Rightarrow> round_id \<Rightarrow> Game \<Rightarrow> GameDb \<Rightarrow> PostedPlayer \<Rightarrow> GameDb" where
  "append_posting env rid game db pp =
     (if posted_committed_this_hand pp \<le> 0 then db
      else
        let (entry_type, detail) =
          (if posted_seat_number pp = g_current_small_blind_seat game
             then (BLIND_POSTED, Some (detail_of [(''role'', JStr ''SB'')]))
           else if posted_seat_number pp = g_current_big_blind_seat game
             then (BLIND_POSTED, Some (detail_of [(''role'', JStr ''BB'')]))
           else (ANTE_POSTED, None))
        in snd (append_ledger_entry env db rid entry_type (Some (posted_player_id pp))
                  (Some (posted_committed_this_hand pp)) detail None None))"

text \<open>The posting, the new round and everything the transaction of \<^verbatim>\<open>start_round\<close> writes.\<close>

definition posting_of :: "Game \<Rightarrow> RoomConfig \<Rightarrow> BlindLevelConfig \<Rightarrow> BlindPostingResult" where
  "posting_of game room_config level =
     post_blinds_and_antes (map seat_player_of (active_players room_config)) (g_current_small_blind_seat game)
       (g_current_big_blind_seat game) (bl_small_blind level) (bl_big_blind level) (ante_amount room_config level)"

definition new_round :: "round_id \<Rightarrow> int \<Rightarrow> Game \<Rightarrow> RoomConfig \<Rightarrow> BlindLevelConfig \<Rightarrow> int \<Rightarrow> Round" where
  "new_round rid round_number game room_config level first_seat =
     (let posting = posting_of game room_config level in
      \<lparr>r_round_id = rid, r_game_id = g_game_id game, r_round_number = round_number,
       r_dealer_seat = g_current_dealer_seat game, r_small_blind_seat = g_current_small_blind_seat game,
       r_big_blind_seat = g_current_big_blind_seat game, r_small_blind_amount = bl_small_blind level,
       r_big_blind_amount = bl_big_blind level, r_ante_amount = ante_amount room_config level,
       r_status = ROUND_ACTIVE, r_pot_amount = posting_pot_total posting, r_street = PRE_FLOP,
       r_acting_player_id = first_acting_player first_seat (posting_players posting),
       r_current_highest_bet = posting_current_highest_bet posting, r_minimum_raise_amount = bl_big_blind level,
       r_is_action_closed = False, r_last_aggressor_seat = None,
       r_engine_version = rules_engine_version NO_LIMIT_HOLDEM, r_state_version = Some 1, r_completed_at = None\<rparr>)"

definition write_round :: "Env \<Rightarrow> GameDb \<Rightarrow> Round \<Rightarrow> Game \<Rightarrow> PostedPlayer list \<Rightarrow> GameDb" where
  "write_round env db game_round game posted =
     (let rid = r_round_id game_round;
          db2 = db\<lparr>db_rounds := db_rounds db @ [game_round],
                   db_round_players := db_round_players db @ map (round_player_of rid) posted\<rparr>;
          db3 = foldl (append_posting env rid game) db2 posted
      in emit env ROUND_STARTED
           [(GAME_ID, JStr (g_game_id game)), (ROOM_ID, JStr (g_room_id game)), (ROUND_ID, JStr rid),
            (ROUND_NUMBER, JInt (r_round_number game_round)), (DEALER_SEAT, JInt (g_current_dealer_seat game)),
            (SMALL_BLIND_SEAT, JInt (g_current_small_blind_seat game)),
            (BIG_BLIND_SEAT, JInt (g_current_big_blind_seat game)),
            (SMALL_BLIND_AMOUNT, JInt (r_small_blind_amount game_round)),
            (BIG_BLIND_AMOUNT, JInt (r_big_blind_amount game_round)),
            (ANTE_AMOUNT, JInt (r_ante_amount game_round))] db3)"

definition start_round :: "Env \<Rightarrow> GameDb \<Rightarrow> game_id \<Rightarrow> StartRoundRequest \<Rightarrow> (RoundResponse \<times> GameDb) result" where
  "start_round env db gid data =
     bindE (fetch_game db gid) (\<lambda>game.
     if g_status game \<noteq> ACTIVE then raise GameNotActive GAME_NOT_ACTIVE
     else
     bindE (get_active_round db gid) (\<lambda>existing_active.
     if existing_active \<noteq> None then raise GameNotActive ROUND_ALREADY_ACTIVE
     else
     let round_number = count_rounds db gid + 1 in
     bindE (load_room_snapshot db gid) (\<lambda>room_config.
     case current_level_of room_config game of
       None \<Rightarrow> raise NotFound NO_BLIND_LEVELS
     | Some current_level \<Rightarrow>
     bindE (require_round_start_authorized game room_config data) (\<lambda>_.
     case uuid4 env db of (rid, db1) \<Rightarrow>
     bindE (first_to_act_seat (room_active_seats room_config) (g_current_big_blind_seat game)) (\<lambda>first_seat.
     let posted = posting_players (posting_of game room_config current_level);
         game_round = new_round rid round_number game room_config current_level first_seat in
     bindE (commit (write_round env db1 game_round game posted)) (\<lambda>db2.
     Inr (round_to_response game_round (map (round_player_of rid) posted) [], db2)))))))"


section \<open>Settling a hand\<close>

record ResolveHandResponse =
  rhr_round_id :: round_id
  rhr_status :: RoundStatus
  rhr_pot_amount :: int
  rhr_payouts :: "PayoutResponse list"

definition winners_mismatch :: "PotPayout \<Rightarrow> error" where
  "winners_mismatch pot = DomainError PayoutMismatch
     (''Pot '' @ str_int (px_pot_index pot) @ '' winners total '' @ str_int (winners_total pot) @
      '' != pot amount '' @ str_int (px_amount pot))"

definition payout_summary :: "PotPayout list \<Rightarrow> json" where
  "payout_summary payouts = JList (map (\<lambda>pot. JObj
     [(''pot_index'', JInt (px_pot_index pot)), (''pot_type'', JStr (px_pot_type pot)),
      (''amount'', JInt (px_amount pot)),
      (''winners'', JList (map (\<lambda>w. JObj [(''player_id'', JStr (ws_player_id w)), (''amount'', JInt (ws_amount w))])
         (px_winners pot)))]) payouts)"

definition shares :: "PotPayout list \<Rightarrow> (PotPayout \<times> WinnerShare) list" where
  "shares payouts = concat (map (\<lambda>pot. map (Pair pot) (px_winners pot)) payouts)"

definition payout_row :: "round_id \<Rightarrow> PotPayout \<times> WinnerShare \<Rightarrow> RoundPayout" where
  "payout_row rid pw = (case pw of (pot, winner) \<Rightarrow>
     \<lparr>po_round_id = rid, po_pot_index = px_pot_index pot, po_pot_type = px_pot_type pot,
      po_player_id = ws_player_id winner, po_amount = ws_amount winner\<rparr>)"

definition add_chips :: "int \<Rightarrow> RoundPlayer \<Rightarrow> RoundPlayer" where
  "add_chips n rp = rp\<lparr>rp_stack_remaining := rp_stack_remaining rp + n\<rparr>"

text \<open>One pass of the inner loop: a payout row, the winner's stack, a ledger entry.\<close>

definition award :: "Env \<Rightarrow> round_id \<Rightarrow> RoundPlayer list \<times> GameDb \<Rightarrow> PotPayout \<times> WinnerShare \<Rightarrow> RoundPlayer list \<times> GameDb" where
  "award env rid s pw = (case s of (ps, db) \<Rightarrow> case pw of (pot, winner) \<Rightarrow>
     (update_first (\<lambda>rp. rp_player_id rp = ws_player_id winner) (add_chips (ws_amount winner)) ps,
      snd (append_ledger_entry env (db\<lparr>db_round_payouts := db_round_payouts db @ [payout_row rid pw]\<rparr>) rid
             PAYOUT_AWARDED (Some (ws_player_id winner)) (Some (ws_amount winner))
             (Some (detail_of [(''pot_index'', JInt (px_pot_index pot)), (''pot_type'', JStr (px_pot_type pot))]))
             None None)))"

definition complete_round :: "Env \<Rightarrow> Round \<Rightarrow> Round" where
  "complete_round env r = r\<lparr>r_status := ROUND_COMPLETED, r_street := SHOWDOWN, r_acting_player_id := None,
     r_is_action_closed := True, r_completed_at := Some (Aware (env_now env)),
     r_state_version := Some (version_or_1 r + 1)\<rparr>"

definition seat_game :: "int list \<Rightarrow> Game \<Rightarrow> Game result" where
  "seat_game seats game =
     (if 2 \<le> length seats then
        bindE (rotate_positions seats (g_current_dealer_seat game)) (\<lambda>(dealer_seat, sb_seat, bb_seat).
        Inr (game\<lparr>g_current_dealer_seat := dealer_seat, g_current_small_blind_seat := sb_seat,
                  g_current_big_blind_seat := bb_seat\<rparr>))
      else Inr (game\<lparr>g_status := FINISHED\<rparr>))"

definition finished_event :: "Game \<Rightarrow> event_data" where
  "finished_event game = [(GAME_ID, JStr (g_game_id game)), (ROOM_ID, JStr (g_room_id game)),
     (STATUS, JStr (GameStatus_value FINISHED))]"

text \<open>
  The transaction of \<^verbatim>\<open>resolve_hand\<close>: payouts and stacks, the completed round, the ledger,
  the counters and blinds of the game, the snapshot, the new positions and the events.
\<close>

definition settle :: "Env \<Rightarrow> GameDb \<Rightarrow> Round \<Rightarrow> RoundPlayer list \<Rightarrow> Game \<Rightarrow> RoomConfig \<Rightarrow> PotPayout list \<Rightarrow> GameDb result" where
  "settle env db game_round round_players game room_config payouts =
     (let rid = r_round_id game_round;
          already_counted = has_round_completed_entry db rid in
     case foldl (award env rid) (round_players, db) (shares payouts) of (players', db1) \<Rightarrow>
     let round' = complete_round env game_round;
         db2 = put_round round' (put_round_players players' db1);
         db3 = snd (append_ledger_entry env db2 rid LEDGER_ROUND_COMPLETED None (Some (r_pot_amount round'))
                 None None None);
         game1 = (if already_counted then game
                  else store_completion (apply_hand_completion (env_now env) game room_config True) game) in
     case sync_room_snapshot_players_from_round db3 (r_game_id game_round) players' of (seats, db4) \<Rightarrow>
     bindE (seat_game seats game1) (\<lambda>game2.
     let db5 = emit env EVENT_ROUND_COMPLETED
           [(GAME_ID, JStr (r_game_id game_round)), (ROOM_ID, JStr (g_room_id game2)), (ROUND_ID, JStr rid),
            (POT_AMOUNT, JInt (r_pot_amount round')), (PAYOUTS, payout_summary payouts)] (put_game game2 db4) in
     Inr (if g_status game2 = FINISHED then emit env GAME_FINISHED (finished_event game2) db5 else db5)))"

definition resolve_hand :: "Env \<Rightarrow> GameDb \<Rightarrow> round_id \<Rightarrow> PotPayout list \<Rightarrow> (ResolveHandResponse \<times> GameDb) result" where
  "resolve_hand env db rid payouts =
     bindE (fetch_round db rid) (\<lambda>game_round.
     if r_status game_round \<noteq> ROUND_ACTIVE then raise RoundNotActive ROUND_NOT_ACTIVE
     else if payouts = [] then raise PayoutEmpty PAYOUT_EMPTY
     else if total_paid payouts > r_pot_amount game_round then raise PayoutExceedsPot PAYOUT_TOTAL_EXCEEDS_POT
     else
     bindE (check_all (\<lambda>pot. raise_if (winners_total pot \<noteq> px_amount pot) (winners_mismatch pot)) payouts) (\<lambda>_.
     let round_players = get_round_players db rid in
     bindE (validate_payouts_against_side_pots round_players payouts (r_pot_amount game_round)) (\<lambda>_.
     bindE (fetch_game db (r_game_id game_round)) (\<lambda>game.
     bindE (load_room_snapshot db (r_game_id game_round)) (\<lambda>room_config.
     bindE (settle env db game_round round_players game room_config payouts) (\<lambda>db1.
     bindE (commit db1) (\<lambda>db2.
     Inr (\<lparr>rhr_round_id = rid, rhr_status = ROUND_COMPLETED, rhr_pot_amount = r_pot_amount game_round,
           rhr_payouts = map (\<lambda>pw. payout_to_response (payout_row rid pw)) (shares payouts)\<rparr>, db2))))))))"


section \<open>Advancing a street\<close>

record AdvanceStreetResponse =
  asr_action :: StreetAdvanceAction
  asr_round_id :: round_id
  asr_game_id :: game_id
  asr_street :: Street
  asr_acting_player_id :: "player_id option"
  asr_current_highest_bet :: int
  asr_minimum_raise_amount :: int
  asr_is_action_closed :: bool
  asr_winning_player_id :: "player_id option"
  asr_players :: "RoundPlayerResponse list"

definition player_seat_of :: "RoundPlayer \<Rightarrow> PlayerSeat" where
  "player_seat_of rp = \<lparr>st_player_id = rp_player_id rp, st_seat_number = rp_seat_number rp,
     st_has_folded = rp_has_folded rp, st_is_all_in = rp_is_all_in rp,
     st_is_active_in_hand = rp_is_active_in_hand rp\<rparr>"

definition clear_street :: "RoundPlayer \<Rightarrow> RoundPlayer" where
  "clear_street rp = rp\<lparr>rp_committed_this_street := 0\<rparr>"

definition apply_street_end :: "StreetAdvanceResult \<Rightarrow> Round \<Rightarrow> RoundPlayer list \<Rightarrow> Round \<times> RoundPlayer list" where
  "apply_street_end res r ps =
     (let (r1, ps1) = (case sa_action res of
        SETTLE_HAND \<Rightarrow> (r\<lparr>r_is_action_closed := True, r_acting_player_id := None\<rparr>, ps)
      | GO_SHOWDOWN \<Rightarrow> (r\<lparr>r_street := SHOWDOWN, r_is_action_closed := True, r_acting_player_id := None,
                          r_current_highest_bet := 0\<rparr>, map clear_street ps)
      | NEXT_STREET \<Rightarrow> (r\<lparr>r_street := (case sa_next_street res of Some s \<Rightarrow> s | None \<Rightarrow> r_street r),
                          r_current_highest_bet := 0, r_minimum_raise_amount := r_big_blind_amount r,
                          r_acting_player_id := sa_acting_player_id res, r_is_action_closed := False,
                          r_last_aggressor_seat := None\<rparr>, map clear_street ps))
      in (r1\<lparr>r_state_version := Some (version_or_1 r1 + 1)\<rparr>, ps1))"

definition advance_street :: "Env \<Rightarrow> GameDb \<Rightarrow> round_id \<Rightarrow> (AdvanceStreetResponse \<times> GameDb) result" where
  "advance_street env db rid =
     bindE (fetch_round db rid) (\<lambda>game_round.
     if r_status game_round \<noteq> ROUND_ACTIVE then raise RoundNotActive ROUND_NOT_ACTIVE
     else if r_street game_round = SHOWDOWN then raise AlreadyAtShowdown ALREADY_AT_SHOWDOWN
     else
     let round_players = get_round_players db rid;
         res = evaluate_street_end (r_street game_round) (r_dealer_seat game_round) (r_big_blind_seat game_round)
                 (map player_seat_of round_players) in
     case apply_street_end res game_round round_players of (round', players') \<Rightarrow>
     let db1 = put_round round' (put_round_players players' db);
         db2 = emit env STREET_ADVANCED
           [(GAME_ID, JStr (r_game_id game_round)), (ROUND_ID, JStr rid),
            (STATUS, JStr (StreetAdvanceAction_value (sa_action res)))] db1 in
     bindE (commit db2) (\<lambda>db3.
     Inr (\<lparr>asr_action = sa_action res, asr_round_id = r_round_id round', asr_game_id = r_game_id round',
           asr_street = r_street round', asr_acting_player_id = r_acting_player_id round',
           asr_current_highest_bet = r_current_highest_bet round',
           asr_minimum_raise_amount = r_minimum_raise_amount round',
           asr_is_action_closed = r_is_action_closed round', asr_winning_player_id = sa_winning_player_id res,
           asr_players = map round_player_to_response players'\<rparr>, db3)))"


section \<open>The other commands\<close>

record DeclareWinnerResponse =
  dwr_round_id :: round_id
  dwr_winner_player_id :: player_id
  dwr_pot_amount :: int
  dwr_status :: RoundStatus

text \<open>The request built inside \<^verbatim>\<open>declare_winner\<close> is validated by its schema: amounts are at least 1.\<close>

definition ResolveHandRequest_ck :: "PotPayout list \<Rightarrow> bool" where
  "ResolveHandRequest_ck payouts \<longleftrightarrow> payouts \<noteq> [] \<and>
     list_all (\<lambda>pot. 0 \<le> px_pot_index pot \<and> 1 \<le> px_amount pot \<and> px_winners pot \<noteq> [] \<and>
       list_all (\<lambda>w. ws_player_id w \<noteq> [] \<and> 1 \<le> ws_amount w) (px_winners pot)) payouts"

definition declare_winner :: "Env \<Rightarrow> GameDb \<Rightarrow> round_id \<Rightarrow> player_id \<Rightarrow> (DeclareWinnerResponse \<times> GameDb) result" where
  "declare_winner env db rid winner_player_id =
     bindE (fetch_round db rid) (\<lambda>game_round.
     let request = [\<lparr>px_pot_index = 0, px_pot_type = ''main'', px_amount = r_pot_amount game_round,
           px_winners = [\<lparr>ws_player_id = winner_player_id, ws_amount = r_pot_amount game_round\<rparr>]\<rparr>] in
     if \<not> ResolveHandRequest_ck request then Inl ValidationError
     else
     bindE (resolve_hand env db rid request) (\<lambda>(result, db').
     Inr (\<lparr>dwr_round_id = rhr_round_id result, dwr_winner_player_id = winner_player_id,
           dwr_pot_amount = rhr_pot_amount result, dwr_status = rhr_status result\<rparr>, db')))"

record AdvanceBlindsResponse =
  abr_game_id :: game_id
  abr_new_blind_level :: int
  abr_small_blind :: int
  abr_big_blind :: int
  abr_ante :: int

definition advance_blinds :: "Env \<Rightarrow> GameDb \<Rightarrow> game_id \<Rightarrow> (AdvanceBlindsResponse \<times> GameDb) result" where
  "advance_blinds env db gid =
     bindE (fetch_game db gid) (\<lambda>game.
     if g_status game \<noteq> ACTIVE then raise GameNotActive GAME_NOT_ACTIVE
     else
     bindE (load_room_snapshot db gid) (\<lambda>room_config.
     if g_current_blind_level game \<ge> max_level room_config then raise GameNotActive MAX_BLIND_LEVEL_REACHED
     else
     let new_level_num = g_current_blind_level game + 1 in
     case blind_level room_config new_level_num of
       None \<Rightarrow> raise GameNotActive MAX_BLIND_LEVEL_REACHED
     | Some new_level \<Rightarrow>
     let game' = game\<lparr>g_current_blind_level := new_level_num, g_level_started_at := Some (Aware (env_now env))\<rparr>;
         db1 = emit env BLINDS_INCREASED
           [(GAME_ID, JStr gid), (ROOM_ID, JStr (g_room_id game)), (BLIND_LEVEL, JInt new_level_num),
            (SMALL_BLIND_AMOUNT, JInt (bl_small_blind new_level)),
            (BIG_BLIND_AMOUNT, JInt (bl_big_blind new_level)),
            (ANTE_AMOUNT, JInt (ante_amount room_config new_level))] (put_game game' db) in
     bindE (commit db1) (\<lambda>db2.
     Inr (\<lparr>abr_game_id = gid, abr_new_blind_level = new_level_num, abr_small_blind = bl_small_blind new_level,
           abr_big_blind = bl_big_blind new_level, abr_ante = ante_amount room_config new_level\<rparr>, db2))))"

definition end_game :: "Env \<Rightarrow> GameDb \<Rightarrow> game_id \<Rightarrow> ((game_id \<times> GameStatus) \<times> GameDb) result" where
  "end_game env db gid =
     bindE (fetch_game db gid) (\<lambda>game.
     let game' = game\<lparr>g_status := FINISHED\<rparr> in
     bindE (post_room_status_update (env_post_room env (g_room_id game) ''finish'') ''finish'') (\<lambda>_.
     let db1 = emit env GAME_FINISHED
           [(GAME_ID, JStr gid), (ROOM_ID, JStr (g_room_id game)), (STATUS, JStr (GameStatus_value FINISHED))]
           (put_game game' db) in
     bindE (commit db1) (\<lambda>db2. Inr ((gid, FINISHED), db2))))"

section \<open>What the writing helpers leave alone\<close>

lemma emit_frame [simp]:
  "db_games (emit env t d db) = db_games db" "db_rounds (emit env t d db) = db_rounds db"
  "db_round_players (emit env t d db) = db_round_players db" "db_round_payouts (emit env t d db) = db_round_payouts db"
  "db_bets (emit env t d db) = db_bets db" "db_ledger (emit env t d db) = db_ledger db"
  "db_snapshots (emit env t d db) = db_snapshots db" "db_snapshot_players (emit env t d db) = db_snapshot_players db"
  "db_snapshot_levels (emit env t d db) = db_snapshot_levels db"
  by (simp_all add: emit_def build_event_def uuid4_def add_outbox_event_def)

lemma append_ledger_frame [simp]:
  "db_games (snd (append_ledger_entry env db rid t p a d o' dl)) = db_games db"
  "db_rounds (snd (append_ledger_entry env db rid t p a d o' dl)) = db_rounds db"
  "db_round_players (snd (append_ledger_entry env db rid t p a d o' dl)) = db_round_players db"
  "db_round_payouts (snd (append_ledger_entry env db rid t p a d o' dl)) = db_round_payouts db"
  "db_bets (snd (append_ledger_entry env db rid t p a d o' dl)) = db_bets db"
  "db_snapshots (snd (append_ledger_entry env db rid t p a d o' dl)) = db_snapshots db"
  "db_snapshot_players (snd (append_ledger_entry env db rid t p a d o' dl)) = db_snapshot_players db"
  "db_snapshot_levels (snd (append_ledger_entry env db rid t p a d o' dl)) = db_snapshot_levels db"
  "db_outbox (snd (append_ledger_entry env db rid t p a d o' dl)) = db_outbox db"
  by (simp_all add: append_ledger_entry_def uuid4_def Let_def)

lemma append_ledger_rows:
  "ledger_rows (snd (append_ledger_entry env db rid t p a d o' dl)) rid' =
    ledger_rows db rid' @ (if rid' = rid then [\<lparr>lr_entry_id = env_uuid env (db_uuid db), lr_entry_type = t,
      lr_player_id = p, lr_amount = a, lr_detail = d, lr_original_entry_id = o'\<rparr>] else [])"
  by (simp add: append_ledger_entry_def uuid4_def Let_def ledger_rows_def get_ledger_entries_def ledger_row_def)

lemma ledger_rows_frame [simp]:
  "ledger_rows (db\<lparr>db_snapshot_players := x\<rparr>) rid = ledger_rows db rid"
  "ledger_rows (db\<lparr>db_games := gs\<rparr>) rid = ledger_rows db rid"
  "ledger_rows (db\<lparr>db_round_payouts := y\<rparr>) rid = ledger_rows db rid"
  by (simp_all add: ledger_rows_def get_ledger_entries_def)

lemma read_frame:
  "fetch_round (emit env t d db) rid = fetch_round db rid"
  "get_round_players (emit env t d db) rid = get_round_players db rid"
  "ledger_rows (emit env t d db) rid = ledger_rows db rid"
  "fetch_game (emit env t d db) gid = fetch_game db gid"
  "fetch_round (put_game g db) rid = fetch_round db rid"
  "get_round_players (put_game g db) rid = get_round_players db rid"
  "ledger_rows (put_game g db) rid = ledger_rows db rid"
  "ledger_rows (put_round r db) rid = ledger_rows db rid"
  "ledger_rows (put_round_players ps db) rid = ledger_rows db rid"
  "fetch_game (put_round r db) gid = fetch_game db gid"
  "fetch_game (put_round_players ps db) gid = fetch_game db gid"
  by (simp_all add: fetch_round_def get_round_players_def ledger_rows_def get_ledger_entries_def fetch_game_def
      put_game_def put_round_def put_round_players_def)

text \<open>A round and its players are written back and read again; other rounds keep theirs.\<close>

lemma write_rows:
  assumes "db_ok db" and "fetch_round db rid = Inr r" and "r_round_id r' = rid"
    and "map rp_key ps' = map rp_key (get_round_players db rid)"
    and "map rp_seat_number ps' = map rp_seat_number (get_round_players db rid)"
  shows "fetch_round (put_round r' (put_round_players ps' db)) rid = Inr r'"
    "get_round_players (put_round r' (put_round_players ps' db)) rid = ps'"
proof -
  show "fetch_round (put_round r' (put_round_players ps' db)) rid = Inr r'"
    using assms(2,3) by (intro rounds.fetch_put [of _ _ r]) simp_all
  show "get_round_players (put_round r' (put_round_players ps' db)) rid = ps'"
    using get_put_round_players [OF db_ok_round_rows [OF assms(1)] assms(4,5)] by simp
qed


section \<open>Streets\<close>

lemma clear_street_simps [simp]:
  "rp_round_id (clear_street p) = rp_round_id p" "rp_player_id (clear_street p) = rp_player_id p"
  "rp_seat_number (clear_street p) = rp_seat_number p" "rp_stack_remaining (clear_street p) = rp_stack_remaining p"
  "rp_committed_this_hand (clear_street p) = rp_committed_this_hand p" "rp_committed_this_street (clear_street p) = 0"
  "rp_key (clear_street p) = rp_key p" "able (clear_street p) = able p"
  "rp_has_folded (clear_street p) = rp_has_folded p" "rp_is_all_in (clear_street p) = rp_is_all_in p"
  "rp_is_active_in_hand (clear_street p) = rp_is_active_in_hand p"
  by (simp_all add: clear_street_def rp_key_def able_def)

lemma able_player_seat: "able p \<longleftrightarrow> live_seat (player_seat_of p) \<and> \<not> st_is_all_in (player_seat_of p)"
  by (auto simp: able_def live_seat_def player_seat_of_def)

lemma apply_street_end_rows:
  assumes "apply_street_end res r ps = (r', ps')"
  shows "r_round_id r' = r_round_id r" "map rp_key ps' = map rp_key ps" "map rp_seat_number ps' = map rp_seat_number ps"
    "map rp_player_id ps' = map rp_player_id ps"
    "map rp_stack_remaining ps' = map rp_stack_remaining ps" "map rp_committed_this_hand ps' = map rp_committed_this_hand ps"
    "r_pot_amount r' = r_pot_amount r" "r_state_version r' = Some (version_or_1 r + 1)" "r_status r' = r_status r"
  using assms
  by (auto simp: apply_street_end_def version_or_1_def Let_def split: StreetAdvanceAction.splits)

lemma next_street_opener:
  assumes "sa_action (evaluate_street_end s d bb players) = NEXT_STREET"
  obtains q where "q \<in> set players" "live_seat q" "\<not> st_is_all_in q"
    "sa_acting_player_id (evaluate_street_end s d bb players) = Some (st_player_id q)"
proof -
  let ?can = "filter (\<lambda>p. \<not> st_is_all_in p) (filter (\<lambda>p. \<not> st_has_folded p \<and> st_is_active_in_hand p) players)"
  have "sa_acting_player_id (evaluate_street_end s d bb players) = find_first_to_act ?can d" "\<not> length ?can \<le> 1"
    using assms by (auto simp: evaluate_street_end_def Let_def split: if_splits)
  moreover from this(2) have "?can \<noteq> []" by (metis le0 list.size(3))
  ultimately obtain q where "q \<in> set ?can" "sa_acting_player_id (evaluate_street_end s d bb players) = Some (st_player_id q)"
    using find_first_to_act_first [of ?can d] by (auto simp: first_clockwise_def)
  then show ?thesis by (intro that) (auto simp: live_seat_def)
qed

lemma street_end_opener:
  assumes "res = evaluate_street_end s d bb (map player_seat_of ps)" and "sa_action res = NEXT_STREET"
  obtains p where "p \<in> set ps" "able p" "sa_acting_player_id res = Some (rp_player_id p)"
proof -
  from assms obtain q where "q \<in> player_seat_of ` set ps" "live_seat q" "\<not> st_is_all_in q"
    "sa_acting_player_id res = Some (st_player_id q)"
    by (metis next_street_opener list.set_map)
  then show ?thesis by (auto simp: able_player_seat player_seat_of_def intro!: that)
qed

lemma apply_street_end_hand_ok:
  assumes "hand_ok r ps" and "0 \<le> r_minimum_raise_amount r'"
    and "res = evaluate_street_end s d bb (map player_seat_of ps)" and "apply_street_end res r ps = (r', ps')"
  shows "hand_ok r' ps'"
proof -
  have rows: "distinct (map rp_player_id ps')" "distinct (map rp_seat_number ps')"
    "r_pot_amount r' = sum_list (map rp_committed_this_hand ps')"
    using assms(1) unfolding apply_street_end_rows(3,4,6,7) [OF assms(4)] by (simp_all add: hand_ok_def)
  have cleared: "player_ok 0 (clear_street p)" if "p \<in> set ps" for p
    using assms(1) that by (auto simp: hand_ok_def player_ok_def)
  show ?thesis
  proof (cases "sa_action res")
    case SETTLE_HAND
    then have "ps' = ps" "r_current_highest_bet r' = r_current_highest_bet r" "turn_ok r' ps"
      using assms(4) by (auto simp: apply_street_end_def turn_ok_def)
    with rows assms(1,2) show ?thesis by (simp add: hand_ok_def)
  next
    case GO_SHOWDOWN
    then have "ps' = map clear_street ps" "r_current_highest_bet r' = 0" "turn_ok r' ps'"
      using assms(4) by (auto simp: apply_street_end_def turn_ok_def)
    with rows cleared assms(2) show ?thesis by (simp add: hand_ok_def)
  next
    case NEXT_STREET
    obtain p where p: "p \<in> set ps" "able p" "sa_acting_player_id res = Some (rp_player_id p)"
      using street_end_opener [OF assms(3) NEXT_STREET] .
    have r': "ps' = map clear_street ps" "r_current_highest_bet r' = 0" "r_last_aggressor_seat r' = None"
      "\<not> r_is_action_closed r'" "r_acting_player_id r' = Some (rp_player_id p)"
      using assms(4) NEXT_STREET p(3) by (auto simp: apply_street_end_def)
    then have "turn_ok r' ps'" using p(1,2) by (auto simp: turn_ok_def)
    with rows cleared assms(2) r'(1,2) show ?thesis by (simp add: hand_ok_def)
  qed
qed

lemma advance_street_cases:
  assumes "advance_street env db rid = Inr (resp, db')" and "db_ok db"
  obtains r res r' ps' where "fetch_round db rid = Inr r" "r_status r = ROUND_ACTIVE" "r_street r \<noteq> SHOWDOWN"
    "res = evaluate_street_end (r_street r) (r_dealer_seat r) (r_big_blind_seat r) (map player_seat_of (get_round_players db rid))"
    "apply_street_end res r (get_round_players db rid) = (r', ps')" "fetch_round db' rid = Inr r'"
    "get_round_players db' rid = ps'" "ledger_rows db' rid = ledger_rows db rid" "db_ok db'" "asr_action resp = sa_action res"
proof -
  let ?ps = "get_round_players db rid"
  from assms(1) obtain r where r: "fetch_round db rid = Inr r" "r_status r = ROUND_ACTIVE" "r_street r \<noteq> SHOWDOWN"
    by (auto simp: advance_street_def bindE_simps split: if_splits)
  define res where "res = evaluate_street_end (r_street r) (r_dealer_seat r) (r_big_blind_seat r) (map player_seat_of ?ps)"
  obtain r' ps' where s: "apply_street_end res r ?ps = (r', ps')" by (cases "apply_street_end res r ?ps")
  note rows = apply_street_end_rows [OF s]
  have "r_round_id r' = rid" using rows(1) rounds.fetch_key [OF r(1)] by simp
  note w = write_rows [OF assms(2) r(1) this rows(2,3)]
  from assms(1) have "asr_action resp = sa_action res" "db_ok db'"
    "fetch_round db' rid = Inr r'" "get_round_players db' rid = ps'" "ledger_rows db' rid = ledger_rows db rid"
    by (auto simp: advance_street_def bindE_simps r res_def [symmetric] s Let_def read_frame w simp del: fetch_put_rows)
  with r s res_def show ?thesis by (intro that) simp_all
qed

section \<open>A new round\<close>

lemma post_player_simps [simp]:
  "posted_player_id (post_player sbs bbs sb bb a p) = seat_player_id p"
  "posted_seat_number (post_player sbs bbs sb bb a p) = seat_seat_number p"
  "posted_committed_this_street (post_player sbs bbs sb bb a p) = posted_committed_this_hand (post_player sbs bbs sb bb a p)"
  "posted_is_all_in (post_player sbs bbs sb bb a p) \<longleftrightarrow> posted_stack_remaining (post_player sbs bbs sb bb a p) = 0 \<and>
     0 < posted_committed_this_hand (post_player sbs bbs sb bb a p)"
  by (simp_all add: post_player_def Let_def)

lemma round_player_of_simps [simp]:
  "rp_round_id (round_player_of rid pp) = rid" "rp_player_id (round_player_of rid pp) = posted_player_id pp"
  "rp_seat_number (round_player_of rid pp) = posted_seat_number pp"
  "rp_stack_remaining (round_player_of rid pp) = posted_stack_remaining pp"
  "rp_committed_this_street (round_player_of rid pp) = posted_committed_this_street pp"
  "rp_committed_this_hand (round_player_of rid pp) = posted_committed_this_hand pp"
  "\<not> rp_has_folded (round_player_of rid pp)" "rp_is_all_in (round_player_of rid pp) = posted_is_all_in pp"
  "rp_is_active_in_hand (round_player_of rid pp)"
  by (simp_all add: round_player_of_def)

lemma posting_of_simps:
  "posting_players (posting_of game rc level) = map (\<lambda>p. post_player (g_current_small_blind_seat game)
     (g_current_big_blind_seat game) (bl_small_blind level) (bl_big_blind level) (ante_amount rc level)
     (seat_player_of p)) (active_players rc)"
  "posting_pot_total (posting_of game rc level) =
     sum_list (map posted_committed_this_street (posting_players (posting_of game rc level)))"
  "posting_current_highest_bet (posting_of game rc level) =
     max_default 0 (map posted_committed_this_street (posting_players (posting_of game rc level)))"
  by (simp_all add: posting_of_def post_blinds_and_antes_def Let_def comp_def)

lemma posted_rows:
  assumes "posted = posting_players (posting_of game rc level)"
  shows "map posted_player_id posted = map cfg_player_id (active_players rc)"
    "map posted_seat_number posted = room_active_seats rc"
    "sum_list (map posted_stack_remaining posted) + sum_list (map posted_committed_this_hand posted) =
       sum_list (map cfg_chip_count (active_players rc))"
    "\<And>pp. pp \<in> set posted \<Longrightarrow> posted_committed_this_street pp = posted_committed_this_hand pp \<and>
       0 < posted_stack_remaining pp + posted_committed_this_hand pp \<and>
       (posted_is_all_in pp \<longleftrightarrow> posted_stack_remaining pp = 0 \<and> 0 < posted_committed_this_hand pp)"
proof -
  let ?post = "\<lambda>p. post_player (g_current_small_blind_seat game) (g_current_big_blind_seat game)
    (bl_small_blind level) (bl_big_blind level) (ante_amount rc level) (seat_player_of p)"
  have conserve: "posted_stack_remaining (?post p) + posted_committed_this_hand (?post p) = cfg_chip_count p" for p
    by (simp add: post_player_conserves seat_player_of_def)
  show "map posted_player_id posted = map cfg_player_id (active_players rc)"
    "map posted_seat_number posted = room_active_seats rc"
    by (simp_all add: assms posting_of_simps comp_def seat_player_of_def room_active_seats_def)
  show "sum_list (map posted_stack_remaining posted) + sum_list (map posted_committed_this_hand posted) =
       sum_list (map cfg_chip_count (active_players rc))"
    unfolding assms posting_of_simps sum_list_map_add [symmetric] by (simp add: comp_def conserve flip: sum_list_addf)
  fix pp assume "pp \<in> set posted"
  then obtain p where p: "p \<in> set (active_players rc)" "pp = ?post p" by (auto simp: assms posting_of_simps)
  have "0 < cfg_chip_count p" using p(1) by (simp add: set_active_players cfg_in_play_def)
  with conserve [of p] show "posted_committed_this_street pp = posted_committed_this_hand pp \<and>
       0 < posted_stack_remaining pp + posted_committed_this_hand pp \<and>
       (posted_is_all_in pp \<longleftrightarrow> posted_stack_remaining pp = 0 \<and> 0 < posted_committed_this_hand pp)"
    by (simp add: p(2))
qed

lemma first_acting_player_Some:
  assumes "s \<in> set (map posted_seat_number pps)"
  shows "\<exists>pp \<in> set pps. posted_seat_number pp = s \<and> first_acting_player s pps = Some (posted_player_id pp)"
  using assms
proof (induction pps rule: rev_induct)
  case Nil
  then show ?case by simp
next
  case (snoc pp pps)
  then show ?case by (cases "posted_seat_number pp = s") (auto simp: first_acting_player_def)
qed

lemma first_to_act_seat_mem: "first_to_act_seat seats bb = Inr s \<Longrightarrow> s \<in> set seats"
  by (auto simp: first_to_act_seat_def Let_def split: if_splits)

text \<open>The ledger after the postings.\<close>

lemma append_posting_frame [simp]:
  "db_rounds (foldl (append_posting env rid game) db pps) = db_rounds db"
  "db_round_players (foldl (append_posting env rid game) db pps) = db_round_players db"
  by (induction pps arbitrary: db) (simp_all add: append_posting_def Let_def)

lemma append_posting_effect:
  assumes "0 \<le> posted_committed_this_hand pp" and "posted_player_id pp \<noteq> []"
  shows "hs_pot_total (rebuild_hand_state (ledger_rows (append_posting env rid game db pp) rid)) =
      hs_pot_total (rebuild_hand_state (ledger_rows db rid)) + posted_committed_this_hand pp"
    "committed_by pid (rebuild_hand_state (ledger_rows (append_posting env rid game db pp) rid)) =
      committed_by pid (rebuild_hand_state (ledger_rows db rid)) +
      (if posted_player_id pp = pid then posted_committed_this_hand pp else 0)"
  using assms
  by (auto simp: append_posting_def append_ledger_rows rebuild_snoc apply_entry_pot apply_entry_committed
      pot_delta_def amount_or_0_def Let_def)

lemma append_postings_effect:
  assumes "\<And>pp. pp \<in> set pps \<Longrightarrow> 0 \<le> posted_committed_this_hand pp \<and> posted_player_id pp \<noteq> []"
  shows "hs_pot_total (rebuild_hand_state (ledger_rows (foldl (append_posting env rid game) db pps) rid)) =
      hs_pot_total (rebuild_hand_state (ledger_rows db rid)) + sum_list (map posted_committed_this_hand pps) \<and>
    committed_by pid (rebuild_hand_state (ledger_rows (foldl (append_posting env rid game) db pps) rid)) =
      committed_by pid (rebuild_hand_state (ledger_rows db rid)) +
      sum_list (map (\<lambda>pp. if posted_player_id pp = pid then posted_committed_this_hand pp else 0) pps)"
  using assms
proof (induction pps arbitrary: db)
  case Nil
  then show ?case by simp
next
  case (Cons pp pps)
  have "0 \<le> posted_committed_this_hand pp" "posted_player_id pp \<noteq> []" using Cons.prems [of pp] by simp_all
  note eff = append_posting_effect [OF this]
  show ?case using Cons.IH [of "append_posting env rid game db pp"] Cons.prems eff by simp
qed

text \<open>A round identifier that is new to the tables.\<close>

lemma fresh_round:
  assumes "db_ok db" and "rid \<notin> r_round_id ` set (db_rounds db)"
  shows "filter (\<lambda>r. r_round_id r = rid) (db_rounds db) = []"
    "filter (\<lambda>p. rp_round_id p = rid) (db_round_players db) = []" "ledger_rows db rid = []"
  using assms
  by (auto simp: filter_empty_conv db_ok_def foreign_ok_def Let_def list_all_iff ledger_rows_def get_ledger_entries_def)

lemma write_round_effect:
  assumes "db_ok db" and "db1 = db\<lparr>db_uuid := n\<rparr>" and "db' = write_round env db1 r game posted" and "db_ok db'"
    and "sorted (map posted_seat_number posted)" and "r_round_id r = rid"
  shows "fetch_round db' rid = Inr r" "get_round_players db' rid = map (round_player_of rid) posted"
    "ledger_rows db' rid = ledger_rows (foldl (append_posting env rid game) (db1\<lparr>db_rounds := db_rounds db @ [r],
       db_round_players := db_round_players db @ map (round_player_of rid) posted\<rparr>) posted) rid"
    "ledger_rows db rid = []"
    "list_all RoundPlayer_ck (map (round_player_of rid) posted)" "Round_ck r"
    "distinct (map posted_player_id posted)" "distinct (map posted_seat_number posted)"
proof -
  have rounds': "db_rounds db' = db_rounds db @ [r]"
    and players': "db_round_players db' = db_round_players db @ map (round_player_of rid) posted"
    using assms(2,3,6) by (simp_all add: write_round_def Let_def)
  have "rid \<notin> r_round_id ` set (db_rounds db)"
    using assms(4,6) rounds' by (auto simp: db_ok_def unique_ok_def)
  note fresh = fresh_round [OF assms(1) this]
  show "fetch_round db' rid = Inr r"
    by (simp add: fetch_round_def fetch_or_raise_Inr rounds' fresh assms(6))
  have "filter (\<lambda>p. rp_round_id p = rid) (map (round_player_of rid) posted) = map (round_player_of rid) posted"
    by (rule filter_True) auto
  then show g: "get_round_players db' rid = map (round_player_of rid) posted"
    using assms(5) by (simp add: get_round_players_def players' fresh sort_key_id_if_sorted comp_def)
  show "ledger_rows db' rid = ledger_rows (foldl (append_posting env rid game) (db1\<lparr>db_rounds := db_rounds db @ [r],
       db_round_players := db_round_players db @ map (round_player_of rid) posted\<rparr>) posted) rid"
    using assms(2,3,6) by (simp add: write_round_def Let_def read_frame)
  show "ledger_rows db rid = []" using fresh(3) .
  show "list_all RoundPlayer_ck (map (round_player_of rid) posted)" "Round_ck r"
    using assms(4) by (auto simp: db_ok_def checks_ok_def rounds' players')
  show "distinct (map posted_player_id posted)" "distinct (map posted_seat_number posted)"
    using get_round_players_distinct(1,2) [OF db_ok_round_rows [OF assms(4)], of rid] by (simp_all add: g comp_def)
qed

lemma start_round_cases:
  assumes "start_round env db gid data = Inr (resp, db')"
  obtains game rc level first_seat rid r posted where "fetch_game db gid = Inr game" "g_status game = ACTIVE"
    "get_active_round db gid = Inr None" "load_room_snapshot db gid = Inr rc" "current_level_of rc game = Some level"
    "require_round_start_authorized game rc data = Inr ()"
    "first_to_act_seat (room_active_seats rc) (g_current_big_blind_seat game) = Inr first_seat"
    "rid = env_uuid env (db_uuid db)" "r = new_round rid (count_rounds db gid + 1) game rc level first_seat"
    "posted = posting_players (posting_of game rc level)"
    "db' = write_round env (db\<lparr>db_uuid := Suc (db_uuid db)\<rparr>) r game posted" "db_ok db'"
    "resp = round_to_response r (map (round_player_of rid) posted) []"
  using assms
  by (auto simp: start_round_def bindE_simps uuid4_def Let_def split: if_splits option.splits)

lemma new_round_simps [simp]:
  "r_round_id (new_round rid n game rc level s) = rid" "r_game_id (new_round rid n game rc level s) = g_game_id game"
  "r_status (new_round rid n game rc level s) = ROUND_ACTIVE"
  "r_pot_amount (new_round rid n game rc level s) = posting_pot_total (posting_of game rc level)"
  "r_acting_player_id (new_round rid n game rc level s) = first_acting_player s (posting_players (posting_of game rc level))"
  "r_current_highest_bet (new_round rid n game rc level s) = posting_current_highest_bet (posting_of game rc level)"
  "r_minimum_raise_amount (new_round rid n game rc level s) = bl_big_blind level"
  "\<not> r_is_action_closed (new_round rid n game rc level s)" "r_last_aggressor_seat (new_round rid n game rc level s) = None"
  by (simp_all add: new_round_def Let_def)

lemma new_round_hand:
  assumes "posted = posting_players (posting_of game rc level)" and "ps = map (round_player_of rid) posted"
    and "r = new_round rid n game rc level s" and "s \<in> set (room_active_seats rc)"
    and "list_all RoundPlayer_ck ps" and "Round_ck r"
    and "distinct (map posted_player_id posted)" and "distinct (map posted_seat_number posted)"
  shows "hand_ok r ps \<longleftrightarrow> (\<exists>p \<in> set ps. r_acting_player_id r = Some (rp_player_id p) \<and> able p)"
    "chips_in_play r ps = sum_list (map cfg_chip_count (active_players rc))"
proof -
  note rows = posted_rows [OF assms(1)]
  have pot: "r_pot_amount r = sum_list (map posted_committed_this_hand posted)"
    using rows(4) by (auto simp: assms(3) posting_of_simps(2) assms(1) [symmetric] intro!: arg_cong [of _ _ sum_list])
  then show "chips_in_play r ps = sum_list (map cfg_chip_count (active_players rc))"
    using rows(3) by (simp add: chips_in_play_def assms(2) comp_def)
  have ok: "player_ok (r_current_highest_bet r) p" if "p \<in> set ps" for p
  proof -
    from that obtain pp where pp: "pp \<in> set posted" "p = round_player_of rid pp" by (auto simp: assms(2))
    have "posted_committed_this_street pp \<le> r_current_highest_bet r"
      using pp(1) by (auto simp: assms(3) posting_of_simps(3) assms(1) [symmetric] intro: max_default_ge)
    moreover have "RoundPlayer_ck p" using assms(5) that by (simp add: list_all_iff)
    ultimately show ?thesis
      using rows(4) [OF pp(1)] by (auto simp: player_ok_def RoundPlayer_ck_def able_def pp(2))
  qed
  have "0 \<le> r_current_highest_bet r" "0 \<le> r_minimum_raise_amount r"
    using assms(6) by (simp_all add: Round_ck_def)
  moreover have "turn_ok r ps \<longleftrightarrow> (\<exists>p \<in> set ps. r_acting_player_id r = Some (rp_player_id p) \<and> able p)"
  proof -
    have "s \<in> set (map posted_seat_number posted)" using assms(4) rows(2) by simp
    from first_acting_player_Some [OF this] obtain pid where "r_acting_player_id r = Some pid"
      by (auto simp: assms(3) assms(1) [symmetric])
    then show ?thesis by (auto simp: turn_ok_def assms(3))
  qed
  ultimately show "hand_ok r ps \<longleftrightarrow> (\<exists>p \<in> set ps. r_acting_player_id r = Some (rp_player_id p) \<and> able p)"
    using assms(7,8) ok pot by (simp add: hand_ok_def assms(2) comp_def)
qed

lemma new_round_ledger:
  assumes "db_ok db" and "db' = write_round env (db\<lparr>db_uuid := n\<rparr>) r game posted" and "db_ok db'"
    and "sorted (map posted_seat_number posted)" and "r_round_id r = rid"
    and "r_pot_amount r = sum_list (map posted_committed_this_hand posted)"
    and "list_all (\<lambda>pp. posted_player_id pp \<noteq> []) posted"
  shows "ledger_agrees db' rid"
proof -
  note w = write_round_effect [OF assms(1) refl assms(2-5)]
  have nonneg: "0 \<le> posted_committed_this_hand pp \<and> posted_player_id pp \<noteq> []" if "pp \<in> set posted" for pp
    using w(5) assms(7) that by (auto simp: list_all_iff RoundPlayer_ck_def)
  let ?db2 = "db\<lparr>db_uuid := n, db_rounds := db_rounds db @ [r],
       db_round_players := db_round_players db @ map (round_player_of rid) posted\<rparr>"
  have empty: "rebuild_hand_state (ledger_rows ?db2 rid) = initial_hand_state"
    using w(4) frame_fetch(3) [of ?db2 db rid] by (simp add: rebuild_hand_state_def)
  note eff = append_postings_effect [OF nonneg, where db = ?db2 and rid = rid]
  have "sum_list (map (\<lambda>pp. if posted_player_id pp = pid then posted_committed_this_hand pp else 0) posted) =
      posted_committed_this_hand pp" if "pp \<in> set posted" "posted_player_id pp = pid" for pid pp
    using sum_list_if_key [OF w(7), of pid posted_committed_this_hand "\<lambda>_. 0"] find_key_unique [OF w(7) that]
    by simp
  with eff nonneg show ?thesis
    unfolding ledger_agrees_def w(1,2,3)
    by (auto simp: Let_def empty list_all_iff assms(6) initial_hand_state_def committed_by_def)
qed

section \<open>Settlement\<close>

definition share_to :: "player_id \<Rightarrow> (PotPayout \<times> WinnerShare) list \<Rightarrow> int" where
  "share_to pid pws = sum_list (map (\<lambda>pw. if ws_player_id (snd pw) = pid then ws_amount (snd pw) else 0) pws)"

lemma share_to_simps [simp]:
  "share_to pid [] = 0"
  "share_to pid (pw # pws) = (if ws_player_id (snd pw) = pid then ws_amount (snd pw) else 0) + share_to pid pws"
  "share_to pid (pws @ pws') = share_to pid pws + share_to pid pws'"
  by (simp_all add: share_to_def)

lemma share_to_shares: "share_to pid (shares payouts) = paid_to pid payouts"
proof -
  have "share_to pid (map (Pair pot) ws) = sum_list (map ws_amount (filter (\<lambda>w. ws_player_id w = pid) ws))" for pot ws
    by (induction ws) simp_all
  then show ?thesis by (induction payouts) (simp_all add: shares_def paid_to_def)
qed

text \<open>The rows of a round after payouts.\<close>

definition paid_rows :: "PotPayout list \<Rightarrow> RoundPlayer list \<Rightarrow> RoundPlayer list" where
  "paid_rows payouts ps = map (\<lambda>p. add_chips (paid_to (rp_player_id p) payouts) p) ps"

lemma add_chips_simps [simp]:
  "rp_round_id (add_chips n p) = rp_round_id p" "rp_player_id (add_chips n p) = rp_player_id p"
  "rp_seat_number (add_chips n p) = rp_seat_number p" "rp_stack_remaining (add_chips n p) = rp_stack_remaining p + n"
  "rp_committed_this_street (add_chips n p) = rp_committed_this_street p"
  "rp_committed_this_hand (add_chips n p) = rp_committed_this_hand p" "rp_key (add_chips n p) = rp_key p"
  "rp_has_folded (add_chips n p) = rp_has_folded p" "rp_is_active_in_hand (add_chips n p) = rp_is_active_in_hand p"
  "add_chips 0 p = p" "add_chips n (add_chips m p) = add_chips (m + n) p"
  by (simp_all add: add_chips_def rp_key_def)

lemma paid_rows_simps [simp]:
  "map rp_player_id (paid_rows payouts ps) = map rp_player_id ps" "map rp_key (paid_rows payouts ps) = map rp_key ps"
  "map rp_seat_number (paid_rows payouts ps) = map rp_seat_number ps"
  "map rp_committed_this_hand (paid_rows payouts ps) = map rp_committed_this_hand ps"
  by (simp_all add: paid_rows_def comp_def)

lemma foldl_award_rows:
  assumes "distinct (map rp_player_id ps)"
  shows "fst (foldl (award env rid) (ps, db) pws) = map (\<lambda>p. add_chips (share_to (rp_player_id p) pws) p) ps"
  using assms
proof (induction pws arbitrary: ps db)
  case Nil
  then show ?case by simp
next
  case (Cons pw pws)
  obtain pot w where pw: "pw = (pot, w)" by (cases pw)
  let ?ps1 = "update_first (\<lambda>rp. rp_player_id rp = ws_player_id w) (add_chips (ws_amount w)) ps"
  obtain db1 where step: "award env rid (ps, db) pw = (?ps1, db1)" by (simp add: award_def pw)
  have ps1: "?ps1 = map (\<lambda>p. if rp_player_id p = ws_player_id w then add_chips (ws_amount w) p else p) ps"
    by (rule update_first_map_if [OF Cons.prems])
  have "distinct (map rp_player_id ?ps1)" using Cons.prems by (simp add: map_update_first)
  from Cons.IH [OF this, of db1] show ?case by (auto simp: step [unfolded pw] ps1 pw comp_def)
qed

lemma foldl_award_frame [simp]:
  "db_rounds (snd (foldl (award env rid) (ps, db) pws)) = db_rounds db"
  "db_round_players (snd (foldl (award env rid) (ps, db) pws)) = db_round_players db"
  "db_games (snd (foldl (award env rid) (ps, db) pws)) = db_games db"
  "db_snapshot_players (snd (foldl (award env rid) (ps, db) pws)) = db_snapshot_players db"
  by (induction pws arbitrary: ps db) (simp_all add: award_def case_prod_unfold)

lemma foldl_award_payouts:
  "db_round_payouts (snd (foldl (award env rid) (ps, db) pws)) = db_round_payouts db @ map (payout_row rid) pws"
  by (induction pws arbitrary: ps db) (simp_all add: award_def case_prod_unfold)

lemma award_ledger:
  "won_by pid (rebuild_hand_state (ledger_rows (snd (award env rid (ps, db) pw)) rid)) =
     won_by pid (rebuild_hand_state (ledger_rows db rid)) +
     (if truthy (Some (ws_player_id (snd pw))) = Some pid then ws_amount (snd pw) else 0)"
  "hs_pot_total (rebuild_hand_state (ledger_rows (snd (award env rid (ps, db) pw)) rid)) =
     hs_pot_total (rebuild_hand_state (ledger_rows db rid))"
  "committed_by pid (rebuild_hand_state (ledger_rows (snd (award env rid (ps, db) pw)) rid)) =
     committed_by pid (rebuild_hand_state (ledger_rows db rid))"
  by (simp_all add: award_def case_prod_unfold append_ledger_rows rebuild_snoc apply_entry_won apply_entry_pot
      apply_entry_committed won_delta_def pot_delta_def amount_or_0_def)

lemma foldl_award_ledger:
  assumes "pid \<noteq> []"
  shows "won_by pid (rebuild_hand_state (ledger_rows (snd (foldl (award env rid) (ps, db) pws)) rid)) =
      won_by pid (rebuild_hand_state (ledger_rows db rid)) + share_to pid pws \<and>
    hs_pot_total (rebuild_hand_state (ledger_rows (snd (foldl (award env rid) (ps, db) pws)) rid)) =
      hs_pot_total (rebuild_hand_state (ledger_rows db rid)) \<and>
    committed_by pid (rebuild_hand_state (ledger_rows (snd (foldl (award env rid) (ps, db) pws)) rid)) =
      committed_by pid (rebuild_hand_state (ledger_rows db rid))"
proof (induction pws arbitrary: ps db)
  case Nil
  then show ?case by simp
next
  case (Cons pw pws)
  obtain ps1 db1 where step: "award env rid (ps, db) pw = (ps1, db1)" by (cases "award env rid (ps, db) pw")
  have "truthy (Some x) = Some pid \<longleftrightarrow> x = pid" for x
    using assms by (cases x) (auto simp: truthy_def)
  with award_ledger [where env = env and rid = rid and ps = ps and db = db and pw = pw] Cons.IH [of ps1 db1] show ?case by (simp add: step)
qed

text \<open>The snapshot after the sync.\<close>

definition synced :: "game_id \<Rightarrow> RoundPlayer list \<Rightarrow> RoomSnapshotPlayer \<Rightarrow> RoomSnapshotPlayer" where
  "synced gid ps sp = (if sp_game_id sp = gid then
     (case List.find (\<lambda>rp. rp_player_id rp = sp_player_id sp) ps of Some rp \<Rightarrow> sync_player rp sp | None \<Rightarrow> sp)
     else sp)"

lemma sync_player_ids [simp]:
  "sp_game_id (sync_player rp sp) = sp_game_id sp" "sp_player_id (sync_player rp sp) = sp_player_id sp"
  "sp_seat_number (sync_player rp sp) = sp_seat_number sp"
  by (simp_all add: sync_player_def Let_def)

lemma synced_ids [simp]:
  "sp_game_id (synced gid ps sp) = sp_game_id sp" "sp_player_id (synced gid ps sp) = sp_player_id sp"
  "sp_seat_number (synced gid ps sp) = sp_seat_number sp"
  by (simp_all add: synced_def split: option.splits)

lemma foldl_sync:
  assumes "distinct (map rp_player_id ps)"
  shows "foldl (\<lambda>rows rp. map (\<lambda>sp. if sp_game_id sp = gid \<and> sp_player_id sp = rp_player_id rp
      then sync_player rp sp else sp) rows) rows ps = map (synced gid ps) rows"
  using assms
proof (induction ps arbitrary: rows)
  case Nil
  have "synced gid [] = (\<lambda>x. x)" by (rule ext) (simp add: synced_def)
  then show ?case by simp
next
  case (Cons p ps)
  let ?one = "\<lambda>sp. if sp_game_id sp = gid \<and> sp_player_id sp = rp_player_id p then sync_player p sp else sp"
  have "List.find (\<lambda>q. rp_player_id q = rp_player_id p) ps = None"
    using Cons.prems by (auto simp: find_None_mem image_iff)
  then have "synced gid ps (?one sp) = synced gid (p # ps) sp" for sp
    by (auto simp: synced_def split: option.splits)
  with Cons show ?case by simp
qed

definition funded_seats :: "game_id \<Rightarrow> RoomSnapshotPlayer list \<Rightarrow> int list" where
  "funded_seats gid rows = map sp_seat_number (filter (\<lambda>p. sp_is_active p \<and> \<not> sp_is_eliminated p \<and> sp_chip_count p > 0)
     (sort_key sp_seat_number (filter (\<lambda>p. sp_game_id p = gid) rows)))"

lemma sync_effect:
  assumes "distinct (map rp_player_id ps)"
  shows "sync_room_snapshot_players_from_round db gid ps =
    (funded_seats gid (map (synced gid ps) (db_snapshot_players db)),
     db\<lparr>db_snapshot_players := map (synced gid ps) (db_snapshot_players db)\<rparr>)"
  by (simp add: sync_room_snapshot_players_from_round_def foldl_sync [OF assms] funded_seats_def Let_def)


lemma seat_game_cases:
  assumes "seat_game seats game = Inr game'"
  shows "g_game_id game' = g_game_id game" "g_room_id game' = g_room_id game" "g_hands_played game' = g_hands_played game"
    "g_current_blind_level game' = g_current_blind_level game"
    "2 \<le> length seats \<Longrightarrow> g_status game' = g_status game \<and> rotate_positions seats (g_current_dealer_seat game) =
       Inr (g_current_dealer_seat game', g_current_small_blind_seat game', g_current_big_blind_seat game')"
    "length seats < 2 \<Longrightarrow> g_status game' = FINISHED"
  using assms by (auto simp: seat_game_def bindE_simps split: if_splits prod.splits)

text \<open>The game after its hand was counted, if it still had to be.\<close>

definition counted :: "Env \<Rightarrow> GameDb \<Rightarrow> round_id \<Rightarrow> RoomConfig \<Rightarrow> Game \<Rightarrow> Game" where
  "counted env db rid rc game = (if has_round_completed_entry db rid then game
     else store_completion (apply_hand_completion (env_now env) game rc True) game)"

lemma counted_id [simp]: "g_game_id (counted env db rid rc game) = g_game_id game"
  by (simp add: counted_def store_completion_def)

lemma settle_tables:
  assumes "distinct (map rp_player_id ps)" and "settle env db r ps game rc payouts = Inr db'"
  defines "ps' \<equiv> paid_rows payouts ps"
  obtains game' where
    "seat_game (funded_seats (r_game_id r) (map (synced (r_game_id r) ps') (db_snapshot_players db)))
       (counted env db (r_round_id r) rc game) = Inr game'"
    "db_rounds db' = put_row r_round_id (complete_round env r) (db_rounds db)"
    "db_round_players db' = foldl (\<lambda>rows p. put_row rp_key p rows) (db_round_players db) ps'"
    "db_games db' = put_row g_game_id game' (db_games db)"
    "db_snapshot_players db' = map (synced (r_game_id r) ps') (db_snapshot_players db)"
    "db_round_payouts db' = db_round_payouts db @ map (payout_row (r_round_id r)) (shares payouts)"
    "ledger_rows db' (r_round_id r) = ledger_rows (snd (append_ledger_entry env (put_round (complete_round env r)
       (put_round_players ps' (snd (foldl (award env (r_round_id r)) (ps, db) (shares payouts))))) (r_round_id r)
       LEDGER_ROUND_COMPLETED None (Some (r_pot_amount r)) None None None)) (r_round_id r)"
proof -
  let ?rid = "r_round_id r" and ?gid = "r_game_id r"
  define db1 where "db1 = snd (foldl (award env ?rid) (ps, db) (shares payouts))"
  have fst1: "fst (foldl (award env ?rid) (ps, db) (shares payouts)) = ps'"
    using foldl_award_rows [OF assms(1), of env ?rid db "shares payouts"] by (simp add: ps'_def paid_rows_def share_to_shares)
  then have fold: "foldl (award env ?rid) (ps, db) (shares payouts) = (ps', db1)"
    unfolding db1_def by (metis prod.collapse)
  have pot: "r_pot_amount (complete_round env r) = r_pot_amount r" by (simp add: complete_round_def)
  let ?db3 = "snd (append_ledger_entry env (put_round (complete_round env r) (put_round_players ps' db1)) ?rid
       LEDGER_ROUND_COMPLETED None (Some (r_pot_amount r)) None None None)"
  have dist': "distinct (map rp_player_id ps')" using assms(1) by (simp add: ps'_def)
  let ?db4 = "?db3\<lparr>db_snapshot_players := map (synced ?gid ps') (db_snapshot_players ?db3)\<rparr>"
  have snap3: "db_snapshot_players ?db3 = db_snapshot_players db" by (simp add: db1_def)
  from assms(2) obtain game' where
    seat: "seat_game (funded_seats ?gid (map (synced ?gid ps') (db_snapshot_players db)))
       (counted env db ?rid rc game) = Inr game'"
    and db': "db' = (let db5 = emit env EVENT_ROUND_COMPLETED
           [(GAME_ID, JStr ?gid), (ROOM_ID, JStr (g_room_id game')), (ROUND_ID, JStr ?rid),
            (POT_AMOUNT, JInt (r_pot_amount r)), (PAYOUTS, payout_summary payouts)] (put_game game' ?db4)
       in if g_status game' = FINISHED then emit env GAME_FINISHED (finished_event game') db5 else db5)"
    unfolding settle_def Let_def fold prod.case pot sync_effect [OF dist'] snap3 counted_def [symmetric] bindE_eq_Inr
    by auto
  from seat show ?thesis
    by (rule that) (simp_all add: db' Let_def read_frame db1_def put_game_def put_round_def put_round_players_def foldl_award_payouts)
qed

lemma settle_effect:
  assumes "db_ok db" and "fetch_round db rid = Inr r" and "fetch_game db (r_game_id r) = Inr game"
    and "ps = get_round_players db rid" and "settle env db r ps game rc payouts = Inr db'"
  obtains game' where "fetch_round db' rid = Inr (complete_round env r)" "get_round_players db' rid = paid_rows payouts ps"
    "fetch_game db' (r_game_id r) = Inr game'"
    "seat_game (funded_seats (r_game_id r) (db_snapshot_players db')) (counted env db rid rc game) = Inr game'"
    "db_snapshot_players db' = map (synced (r_game_id r) (paid_rows payouts ps)) (db_snapshot_players db)"
    "db_round_payouts db' = db_round_payouts db @ map (payout_row rid) (shares payouts)"
proof -
  have dist: "distinct (map rp_player_id ps)"
    using get_round_players_distinct(1) [OF db_ok_round_rows [OF assms(1)]] assms(4) by simp
  have rid: "r_round_id r = rid" using rounds.fetch_key [OF assms(2)] .
  from dist assms(5) show ?thesis
  proof (rule settle_tables)
    fix game'
    assume seat: "seat_game (funded_seats (r_game_id r) (map (synced (r_game_id r) (paid_rows payouts ps)) (db_snapshot_players db)))
       (counted env db (r_round_id r) rc game) = Inr game'"
      and t: "db_rounds db' = put_row r_round_id (complete_round env r) (db_rounds db)"
        "db_round_players db' = foldl (\<lambda>rows p. put_row rp_key p rows) (db_round_players db) (paid_rows payouts ps)"
        "db_games db' = put_row g_game_id game' (db_games db)"
        "db_snapshot_players db' = map (synced (r_game_id r) (paid_rows payouts ps)) (db_snapshot_players db)"
        "db_round_payouts db' = db_round_payouts db @ map (payout_row (r_round_id r)) (shares payouts)"
    let ?W = "put_round (complete_round env r) (put_round_players (paid_rows payouts ps) db)"
    have "fetch_round db' rid = fetch_round ?W rid" "get_round_players db' rid = get_round_players ?W rid"
      by (rule frame_fetch; simp add: t put_round_def put_round_players_def)+
    moreover have "r_round_id (complete_round env r) = rid" using rid by (simp add: complete_round_def)
    note write_rows [OF assms(1,2) this, of "paid_rows payouts ps"]
    moreover have "fetch_game db' (r_game_id r) = Inr game'"
    proof -
      have "fetch_game db' (r_game_id r) = fetch_game (put_game game' db) (r_game_id r)"
        by (simp add: fetch_game_def t put_game_def)
      also have "\<dots> = Inr game'"
        using games.fetch_put [OF assms(3)] seat_game_cases(1) [OF seat] games.fetch_key [OF assms(3)] by simp
      finally show ?thesis .
    qed
    ultimately show ?thesis
      using seat t(4,5) rid assms(4) by (intro that [of game']) (simp_all del: fetch_put_rows)
  qed
qed

lemma settle_ledger_rows:
  assumes "db_ok db" and "fetch_round db rid = Inr r" and "ps = get_round_players db rid"
    and "settle env db r ps game rc payouts = Inr db'"
  obtains e where "ledger_rows db' rid = ledger_rows (snd (foldl (award env rid) (ps, db) (shares payouts))) rid @ [e]"
    "lr_entry_type e = LEDGER_ROUND_COMPLETED"
proof -
  have dist: "distinct (map rp_player_id ps)"
    using get_round_players_distinct(1) [OF db_ok_round_rows [OF assms(1)]] assms(3) by simp
  have rid: "r_round_id r = rid" using rounds.fetch_key [OF assms(2)] .
  from dist assms(4) show ?thesis
    by (rule settle_tables) (simp add: rid append_ledger_rows read_frame that)
qed

lemma settle_ledger:
  assumes "db_ok db" and "fetch_round db rid = Inr r" and "ps = get_round_players db rid" and "pid \<noteq> []"
    and "settle env db r ps game rc payouts = Inr db'"
  shows "won_by pid (rebuild_hand_state (ledger_rows db' rid)) =
      won_by pid (rebuild_hand_state (ledger_rows db rid)) + paid_to pid payouts"
    "hs_pot_total (rebuild_hand_state (ledger_rows db' rid)) = hs_pot_total (rebuild_hand_state (ledger_rows db rid))"
    "committed_by pid (rebuild_hand_state (ledger_rows db' rid)) = committed_by pid (rebuild_hand_state (ledger_rows db rid))"
    "hs_is_completed (rebuild_hand_state (ledger_rows db' rid))"
proof -
  obtain e where e: "ledger_rows db' rid = ledger_rows (snd (foldl (award env rid) (ps, db) (shares payouts))) rid @ [e]"
      "lr_entry_type e = LEDGER_ROUND_COMPLETED"
    by (rule settle_ledger_rows [OF assms(1-3,5)])
  have "pot_delta e = 0" "won_delta pid e = 0" using e(2) by (simp_all add: pot_delta_def won_delta_def)
  with e foldl_award_ledger [OF assms(4), of env rid ps db "shares payouts"]
  show "won_by pid (rebuild_hand_state (ledger_rows db' rid)) =
      won_by pid (rebuild_hand_state (ledger_rows db rid)) + paid_to pid payouts"
    "hs_pot_total (rebuild_hand_state (ledger_rows db' rid)) = hs_pot_total (rebuild_hand_state (ledger_rows db rid))"
    "committed_by pid (rebuild_hand_state (ledger_rows db' rid)) = committed_by pid (rebuild_hand_state (ledger_rows db rid))"
    by (simp_all add: rebuild_snoc apply_entry_won apply_entry_pot apply_entry_committed share_to_shares)
  show "hs_is_completed (rebuild_hand_state (ledger_rows db' rid))"
    using e by (simp add: rebuild_snoc apply_entry_def Let_def)
qed

lemma resolve_hand_cases:
  assumes "resolve_hand env db rid payouts = Inr (resp, db')"
  obtains r game rc where "fetch_round db rid = Inr r" "r_status r = ROUND_ACTIVE" "payouts \<noteq> []"
    "total_paid payouts \<le> r_pot_amount r"
    "list_all (\<lambda>pot. winners_total pot = px_amount pot) payouts"
    "\<exists>pots. validate_payouts_against_side_pots (get_round_players db rid) payouts (r_pot_amount r) = Inr pots"
    "fetch_game db (r_game_id r) = Inr game" "load_room_snapshot db (r_game_id r) = Inr rc"
    "settle env db r (get_round_players db rid) game rc payouts = Inr db'" "db_ok db'"
  using assms
  by (auto simp: resolve_hand_def bindE_simps Let_def list_all_iff split: if_splits)

lemma sum_paid_to:
  assumes "distinct ids" and "\<And>px w. px \<in> set payouts \<Longrightarrow> w \<in> set (px_winners px) \<Longrightarrow> ws_player_id w \<in> set ids"
  shows "sum_list (map (\<lambda>i. paid_to i payouts) ids) = total_paid payouts"
proof -
  have one: "sum_list (map (\<lambda>i. sum_list (map ws_amount (filter (\<lambda>w. ws_player_id w = i) ws))) ids) = sum_list (map ws_amount ws)"
    if "\<And>w. w \<in> set ws \<Longrightarrow> ws_player_id w \<in> set ids" for ws
    using that
  proof (induction ws)
    case Nil
    then show ?case by simp
  next
    case (Cons w ws)
    have "sum_list (map (\<lambda>i. if ws_player_id w = i then ws_amount w else 0) ids) = ws_amount w"
      using sum_list_if_key [of "\<lambda>x. x" ids "ws_player_id w" "\<lambda>_. ws_amount w" "\<lambda>_. 0"] assms(1)
        find_key_unique [of "\<lambda>x. x" ids "ws_player_id w"] Cons.prems [of w]
      by (simp add: eq_commute)
    moreover have "(\<lambda>i. sum_list (map ws_amount (filter (\<lambda>w. ws_player_id w = i) (w # ws)))) =
        (\<lambda>i. (if ws_player_id w = i then ws_amount w else 0) + sum_list (map ws_amount (filter (\<lambda>w. ws_player_id w = i) ws)))"
      by auto
    ultimately show ?case using Cons by (simp add: sum_list_map_add)
  qed
  show ?thesis
    using assms(2)
  proof (induction payouts)
    case Nil
    then show ?case by (simp add: paid_to_def total_paid_def)
  next
    case (Cons px pxs)
    have "paid_to i (px # pxs) = sum_list (map ws_amount (filter (\<lambda>w. ws_player_id w = i) (px_winners px))) + paid_to i pxs" for i
      by (simp add: paid_to_def)
    moreover have "sum_list (map (\<lambda>i. paid_to i pxs) ids) = total_paid pxs"
      using Cons.prems by (intro Cons.IH) (metis list.set_intros(2))
    moreover have "sum_list (map (\<lambda>i. sum_list (map ws_amount (filter (\<lambda>w. ws_player_id w = i) (px_winners px)))) ids) =
        sum_list (map ws_amount (px_winners px))"
      using Cons.prems by (intro one) (metis list.set_intros(1))
    ultimately show ?case by (simp add: sum_list_map_add total_paid_def winners_total_def)
  qed
qed


lemma winners_in_hand:
  assumes "validate_payouts_against_side_pots ps payouts tp = Inr pots" and "pots \<noteq> []"
    and "px \<in> set payouts" and "w \<in> set (px_winners px)"
  shows "\<exists>p \<in> set ps. rp_player_id p = ws_player_id w \<and> \<not> rp_has_folded p"
proof -
  have pots: "pots = calculate_side_pots (map contribution_of ps)" "payout_ok pots px"
    using assms(1-3) validate_ok_iff [OF refl, of ps payouts tp pots] by auto
  then obtain p where "p \<in> set pots" "ws_player_id w \<in> set (pot_eligible_winner_player_ids p)"
    using assms(4) by (auto simp: payout_ok_def)
  from side_pots.eligible [OF this [unfolded pots]] show ?thesis
    by (auto simp: contribution_of_def live_player_def)
qed

lemma no_pots_no_chips:
  assumes "r_pot_amount r = sum_list (map rp_committed_this_hand ps)"
    and "\<And>p. p \<in> set ps \<Longrightarrow> 0 \<le> rp_committed_this_hand p"
    and "calculate_side_pots (map contribution_of ps) = []"
  shows "r_pot_amount r = 0"
  using contributions_committed [OF assms(2)] side_pots.conserves [of "map contribution_of ps"] assms(1,3)
  by (simp add: total_pots_def)

lemma hand_ok_balance:
  assumes "hand_ok r ps"
  shows "r_pot_amount r = sum_list (map rp_committed_this_hand ps)"
    and "p \<in> set ps \<Longrightarrow> 0 \<le> rp_committed_this_hand p"
proof -
  show "r_pot_amount r = sum_list (map rp_committed_this_hand ps)" using assms by (simp add: hand_ok_def)
  assume "p \<in> set ps"
  then have "player_ok (r_current_highest_bet r) p" using assms by (simp add: hand_ok_def)
  then show "0 \<le> rp_committed_this_hand p" by (simp add: player_ok_def)
qed

text \<open>The schema keeps commitments from being negative.\<close>

lemma db_ok_committed:
  assumes "db_ok db" and "p \<in> set (get_round_players db rid)"
  shows "0 \<le> rp_committed_this_hand p"
  using assms by (auto simp: get_round_players_def db_ok_def checks_ok_def list_all_iff RoundPlayer_ck_def)

lemma sum_list_map_pos:
  fixes f :: "'a \<Rightarrow> int"
  shows "xs \<noteq> [] \<Longrightarrow> (\<And>x. x \<in> set xs \<Longrightarrow> 0 < f x) \<Longrightarrow> 0 < sum_list (map f xs)"
  by (induction xs rule: list_nonempty_induct) (auto intro: add_pos_pos)

lemma request_total:
  assumes "ResolveHandRequest_ck payouts"
  shows "0 < total_paid payouts"
proof -
  have "0 < winners_total px" if "px \<in> set payouts" for px
    unfolding winners_total_def
    using assms that by (intro sum_list_map_pos) (fastforce simp: ResolveHandRequest_ck_def list_all_iff)+
  then show ?thesis
    unfolding total_paid_def using assms by (intro sum_list_map_pos) (auto simp: ResolveHandRequest_ck_def)
qed


section \<open>Properties\<close>

definition example_config :: RoomConfig where
  "example_config = \<lparr>rc_room_id = ''room'', rc_starting_dealer_seat = 3, rc_antes_enabled = True,
     rc_players = [\<lparr>cfg_player_id = ''a'', cfg_seat_number = 1, cfg_chip_count = 100, cfg_is_active = True, cfg_is_eliminated = False\<rparr>,
       \<lparr>cfg_player_id = ''b'', cfg_seat_number = 2, cfg_chip_count = 80, cfg_is_active = True, cfg_is_eliminated = False\<rparr>,
       \<lparr>cfg_player_id = ''c'', cfg_seat_number = 3, cfg_chip_count = 60, cfg_is_active = True, cfg_is_eliminated = False\<rparr>],
     rc_blind_levels = [\<lparr>bl_level = 1, bl_small_blind = 5, bl_big_blind = 10, bl_ante = 1, bl_duration_minutes = None\<rparr>]\<rparr>"

definition lobby_db :: GameDb where
  "lobby_db = save_room_snapshot (example_db\<lparr>db_rounds := [], db_round_players := []\<rparr>) ''g'' example_config"

definition by_controller :: StartRoundRequest where
  "by_controller = \<lparr>sr_started_by_player_id = None, sr_started_by_controller = True\<rparr>"

definition first_round :: Round where
  "first_round = new_round ''u0'' 1 example_game example_config (hd (rc_blind_levels example_config)) 3"

definition first_posted :: "PostedPlayer list" where
  "first_posted = posting_players (posting_of example_game example_config (hd (rc_blind_levels example_config)))"

definition dealt_db :: GameDb where
  "dealt_db = write_round example_env (lobby_db\<lparr>db_uuid := 1\<rparr>) first_round example_game first_posted"

lemma lobby_db_ok: "db_ok lobby_db"
  by code_simp

lemma dealt_db_ok: "db_ok dealt_db"
  by code_simp

lemma lobby_reads:
  "fetch_game lobby_db ''g'' = Inr example_game" "get_active_round lobby_db ''g'' = Inr None"
  "load_room_snapshot lobby_db ''g'' = Inr example_config" "count_rounds lobby_db ''g'' = 0"
  "g_status example_game = ACTIVE" "g_current_big_blind_seat example_game = 2"
  "current_level_of example_config example_game = Some (hd (rc_blind_levels example_config))"
  "require_round_start_authorized example_game example_config by_controller = Inr ()"
  "first_to_act_seat (room_active_seats example_config) 2 = Inr 3"
  "uuid4 example_env lobby_db = (''u0'', lobby_db\<lparr>db_uuid := 1\<rparr>)"
  by code_simp+

definition dealt_response :: RoundResponse where
  "dealt_response = round_to_response first_round (map (round_player_of ''u0'') first_posted) []"

lemma dealt: "start_round example_env lobby_db ''g'' by_controller = Inr (dealt_response, dealt_db)"
  using dealt_db_ok
  by (simp add: start_round_def lobby_reads Let_def commit_def dealt_db_def first_round_def first_posted_def
      dealt_response_def)

lemma start_round_effect:
  assumes "db_ok db" and "start_round env db gid data = Inr (resp, db')" and "rid = ror_round_id resp"
  shows "\<exists>game rc r. fetch_game db gid = Inr game \<and> g_status game = ACTIVE \<and> get_active_round db gid = Inr None \<and>
    load_room_snapshot db gid = Inr rc \<and> fetch_round db' rid = Inr r \<and> r_game_id r = gid \<and> r_status r = ROUND_ACTIVE \<and>
    (sr_started_by_controller data \<or> (\<exists>p \<in> set (active_players rc).
       cfg_seat_number p = g_current_dealer_seat game \<and> sr_started_by_player_id data = Some (cfg_player_id p))) \<and>
    map rp_player_id (get_round_players db' rid) = map cfg_player_id (active_players rc) \<and>
    chips_in_play r (get_round_players db' rid) = sum_list (map cfg_chip_count (active_players rc)) \<and>
    r_pot_amount r = sum_list (map rp_committed_this_hand (get_round_players db' rid)) \<and>
    (hand_ok r (get_round_players db' rid) \<longleftrightarrow>
       (\<exists>p \<in> set (get_round_players db' rid). r_acting_player_id r = Some (rp_player_id p) \<and> able p)) \<and>
    (list_all (\<lambda>p. cfg_player_id p \<noteq> []) (active_players rc) \<longrightarrow> ledger_agrees db' rid) \<and> db_ok db'"
  using assms(2)
proof (rule start_round_cases)
  fix game rc level first_seat rid' r posted
  assume g: "fetch_game db gid = Inr game" "g_status game = ACTIVE" "get_active_round db gid = Inr None"
      "load_room_snapshot db gid = Inr rc"
    and auth: "require_round_start_authorized game rc data = Inr ()"
    and seat: "first_to_act_seat (room_active_seats rc) (g_current_big_blind_seat game) = Inr first_seat"
    and r: "r = new_round rid' (count_rounds db gid + 1) game rc level first_seat"
    and posted: "posted = posting_players (posting_of game rc level)"
    and db': "db' = write_round env (db\<lparr>db_uuid := Suc (db_uuid db)\<rparr>) r game posted" "db_ok db'"
    and resp: "resp = round_to_response r (map (round_player_of rid') posted) []"
  have rid: "r_round_id r = rid'" "rid' = rid" using resp assms(3) by (simp_all add: r round_to_response_def)
  note rows = posted_rows [OF posted]
  have sorted: "sorted (map posted_seat_number posted)" using rows(2) sorted_active_seats by simp
  note w = write_round_effect [OF assms(1) refl db' sorted rid(1)]
  note hand = new_round_hand [OF posted refl r first_to_act_seat_mem [OF seat] w(5-8)]
  have pot: "r_pot_amount r = sum_list (map posted_committed_this_hand posted)"
    using hand(2) rows(3) by (simp add: chips_in_play_def comp_def)
  moreover have "list_all (\<lambda>pp. posted_player_id pp \<noteq> []) posted" if "list_all (\<lambda>p. cfg_player_id p \<noteq> []) (active_players rc)"
    using that arg_cong [OF rows(1), of "list_all (\<lambda>x. x \<noteq> [])"] by (simp add: list_all_length)
  ultimately have led: "list_all (\<lambda>p. cfg_player_id p \<noteq> []) (active_players rc) \<longrightarrow> ledger_agrees db' rid'"
    using new_round_ledger [OF assms(1) db' sorted rid(1)] by blast
  have who: "sr_started_by_controller data \<or> (\<exists>p \<in> set (active_players rc).
       cfg_seat_number p = g_current_dealer_seat game \<and> sr_started_by_player_id data = Some (cfg_player_id p))"
    using auth find_Some_mem [of "\<lambda>p. cfg_seat_number p = g_current_dealer_seat game" "active_players rc"]
    by (auto simp: require_round_start_authorized_def split: if_splits option.splits)
  have "map rp_player_id (map (round_player_of rid') posted) = map cfg_player_id (active_players rc)"
    using rows(1) by (simp add: comp_def)
  moreover have "r_pot_amount r = sum_list (map rp_committed_this_hand (map (round_player_of rid') posted))"
    using pot by (simp add: comp_def)
  ultimately show ?thesis
    using g w(1) who hand led db'(2) games.fetch_key [OF g(1)]
    unfolding rid(2) [symmetric] w(2) by (intro exI [of _ game] exI [of _ rc] exI [of _ r]) (simp add: r)
qed

text \<open>
  C9: a new round starts from the snapshot. A successful \<^verbatim>\<open>start_round\<close> needs an active
  game without an active round and a start by the controller or the player on the button;
  it seats exactly the players of the snapshot that have chips, their chips all in stacks
  and pot, the pot being what they posted; the ledger agrees with the rows; and the hand is well-formed exactly when the
  player put on turn is able to act, which he is not when the blinds took his last chips.
\<close>

theorem start_round_correct:
  assumes "db_ok db" and "start_round env db gid data = Inr (resp, db')" and "rid = ror_round_id resp"
  shows "\<exists>game rc r. fetch_game db gid = Inr game \<and> g_status game = ACTIVE \<and> get_active_round db gid = Inr None \<and>
    load_room_snapshot db gid = Inr rc \<and> fetch_round db' rid = Inr r \<and> r_game_id r = gid \<and> r_status r = ROUND_ACTIVE \<and>
    (sr_started_by_controller data \<or> (\<exists>p \<in> set (active_players rc).
       cfg_seat_number p = g_current_dealer_seat game \<and> sr_started_by_player_id data = Some (cfg_player_id p))) \<and>
    map rp_player_id (get_round_players db' rid) = map cfg_player_id (active_players rc) \<and>
    chips_in_play r (get_round_players db' rid) = sum_list (map cfg_chip_count (active_players rc)) \<and>
    r_pot_amount r = sum_list (map rp_committed_this_hand (get_round_players db' rid)) \<and>
    (hand_ok r (get_round_players db' rid) \<longleftrightarrow>
       (\<exists>p \<in> set (get_round_players db' rid). r_acting_player_id r = Some (rp_player_id p) \<and> able p)) \<and>
    (list_all (\<lambda>p. cfg_player_id p \<noteq> []) (active_players rc) \<longrightarrow> ledger_agrees db' rid) \<and> db_ok db'"
  using assms by (rule start_round_effect)

theorem start_round_correct_witness:
  "\<exists>game rc r. load_room_snapshot lobby_db ''g'' = Inr rc \<and> fetch_round dealt_db (ror_round_id dealt_response) = Inr r \<and>
    chips_in_play r (get_round_players dealt_db (ror_round_id dealt_response)) = sum_list (map cfg_chip_count (active_players rc)) \<and>
    db_ok dealt_db"
  using start_round_correct [OF lobby_db_ok dealt refl] by blast

lemma advance_street_chips:
  assumes "db_ok db" and "advance_street env db rid = Inr (resp, db')" and "fetch_round db rid = Inr r"
  shows "\<exists>r'. fetch_round db' rid = Inr r' \<and> r_pot_amount r' = r_pot_amount r \<and>
    map rp_stack_remaining (get_round_players db' rid) = map rp_stack_remaining (get_round_players db rid) \<and>
    map rp_committed_this_hand (get_round_players db' rid) = map rp_committed_this_hand (get_round_players db rid) \<and>
    (ledger_agrees db rid \<longrightarrow> ledger_agrees db' rid) \<and> db_ok db'"
  using assms(2,1)
proof (rule advance_street_cases)
  fix r0 res r' ps'
  assume a: "fetch_round db rid = Inr r0" "apply_street_end res r0 (get_round_players db rid) = (r', ps')"
    "fetch_round db' rid = Inr r'" "get_round_players db' rid = ps'" "ledger_rows db' rid = ledger_rows db rid" "db_ok db'"
  have r0: "r0 = r" using a(1) assms(3) by simp
  note rows = apply_street_end_rows [OF a(2) [unfolded r0]]
  have "ledger_agrees db' rid" if "ledger_agrees db rid"
    using that rows(4,6,7) a(3-5) assms(3)
    by (auto simp: ledger_agrees_def Let_def list_all_length dest: arg_cong [of _ _ length])
      (metis (mono_tags) length_map nth_map)+
  then show ?thesis using a(3,4,6) rows(5-7) by auto
qed

lemma advance_street_keeps:
  assumes "db_ok db" and "advance_street env db rid = Inr (resp, db')" and "fetch_round db rid = Inr r"
    and "hand_ok r (get_round_players db rid)"
  shows "\<exists>r'. fetch_round db' rid = Inr r' \<and> hand_ok r' (get_round_players db' rid) \<and>
    chips_in_play r' (get_round_players db' rid) = chips_in_play r (get_round_players db rid) \<and>
    r_state_version r' = Some (version_or_1 r + 1) \<and> (ledger_agrees db rid \<longrightarrow> ledger_agrees db' rid) \<and> db_ok db'"
  using assms(2,1)
proof (rule advance_street_cases)
  fix r0 res r' ps'
  assume a: "fetch_round db rid = Inr r0"
    "res = evaluate_street_end (r_street r0) (r_dealer_seat r0) (r_big_blind_seat r0) (map player_seat_of (get_round_players db rid))"
    "apply_street_end res r0 (get_round_players db rid) = (r', ps')" "fetch_round db' rid = Inr r'"
    "get_round_players db' rid = ps'" "db_ok db'"
  have r0: "r0 = r" using a(1) assms(3) by simp
  have "r' \<in> set (db_rounds db')" using a(4) by (auto simp: fetch_round_def fetch_or_raise_Inr filter_eq_Cons_iff)
  then have "0 \<le> r_minimum_raise_amount r'" using a(6) by (auto simp: db_ok_def checks_ok_def list_all_iff Round_ck_def)
  then have "hand_ok r' ps'" using apply_street_end_hand_ok [OF assms(4) _ a(2) a(3) [unfolded r0]] by blast
  with advance_street_chips [OF assms(1-3)] apply_street_end_rows(8) [OF a(3) [unfolded r0]] a(4,5)
  show ?thesis by (auto simp: chips_in_play_def)
qed

lemma street_end_decision:
  "sa_action (evaluate_street_end s d bb (map player_seat_of ps)) =
    (if length (filter (\<lambda>p. rp_is_active_in_hand p \<and> \<not> rp_has_folded p) ps) \<le> 1 then SETTLE_HAND
     else if s \<in> {RIVER, SHOWDOWN} \<or> length (filter able ps) \<le> 1 then GO_SHOWDOWN else NEXT_STREET)"
proof -
  have "able = (\<lambda>p. rp_is_active_in_hand p \<and> \<not> rp_has_folded p \<and> \<not> rp_is_all_in p)"
    by (auto simp: able_def fun_eq_iff)
  then show ?thesis
    by (simp add: evaluate_street_end_def Let_def filter_map comp_def player_seat_of_def conj_commute conj_left_commute)
qed

text \<open>The street after this one, and what a new street begins with.\<close>

definition opened_street :: "Round \<Rightarrow> RoundPlayer list \<Rightarrow> Round \<Rightarrow> bool" where
  "opened_street r ps r' \<longleftrightarrow> (r_street r, r_street r') \<in> {(PRE_FLOP, FLOP), (FLOP, TURN), (TURN, RIVER)} \<and>
     r_current_highest_bet r' = 0 \<and> r_minimum_raise_amount r' = r_big_blind_amount r \<and>
     r_last_aggressor_seat r' = None \<and> \<not> r_is_action_closed r' \<and>
     (\<exists>p \<in> set ps. able p \<and> r_acting_player_id r' = Some (rp_player_id p))"

lemma apply_street_end_round:
  assumes "res = evaluate_street_end (r_street r) d bb (map player_seat_of ps)" and "r_street r \<noteq> SHOWDOWN"
    and "apply_street_end res r ps = (r', ps')"
  shows "ps' = (if sa_action res = SETTLE_HAND then ps else map (\<lambda>p. p\<lparr>rp_committed_this_street := 0\<rparr>) ps)"
    and "case sa_action res of
        NEXT_STREET \<Rightarrow> opened_street r ps r'
      | GO_SHOWDOWN \<Rightarrow> r_street r' = SHOWDOWN \<and> r_is_action_closed r' \<and> r_acting_player_id r' = None
      | SETTLE_HAND \<Rightarrow> r_street r' = r_street r \<and> r_is_action_closed r' \<and> r_acting_player_id r' = None"
proof -
  show "ps' = (if sa_action res = SETTLE_HAND then ps else map (\<lambda>p. p\<lparr>rp_committed_this_street := 0\<rparr>) ps)"
    using assms(3) by (auto simp: apply_street_end_def clear_street_def split: StreetAdvanceAction.splits)
  have "opened_street r ps r'" if next_st: "sa_action res = NEXT_STREET"
  proof -
    have "r_street r \<notin> {RIVER, SHOWDOWN}" "sa_next_street res = next_street (r_street r)"
      using next_st unfolding assms(1) by (auto simp: evaluate_street_end_def Let_def split: if_splits)
    moreover obtain p where "p \<in> set ps" "able p" "sa_acting_player_id res = Some (rp_player_id p)"
      using street_end_opener [OF assms(1) next_st] .
    ultimately show ?thesis using assms(3) next_st
      by (cases "r_street r") (auto simp: apply_street_end_def opened_street_def)
  qed
  with assms(3) show "case sa_action res of
        NEXT_STREET \<Rightarrow> opened_street r ps r'
      | GO_SHOWDOWN \<Rightarrow> r_street r' = SHOWDOWN \<and> r_is_action_closed r' \<and> r_acting_player_id r' = None
      | SETTLE_HAND \<Rightarrow> r_street r' = r_street r \<and> r_is_action_closed r' \<and> r_acting_player_id r' = None"
    by (cases "sa_action res") (auto simp: apply_street_end_def)
qed

text \<open>
  C10: a street ends without touching a chip. From a well-formed hand, a successful
  \<^verbatim>\<open>advance_street\<close> settles when at most one player is left, goes to showdown after the
  river or when at most one player is able to act, and opens the next street otherwise.
  Every player's row stays as it was, his stack and his commitment to the hand included,
  except that his commitment to the street is cleared unless the hand settles; the pot and
  the round's status stay; a new street starts without a bet, with an opener who is able
  to act. The hand stays well-formed, the version goes up by one, the ledger still agrees,
  and no table but the rounds, their players and the outbox changes.
\<close>

theorem advance_street_correct:
  assumes "db_ok db" and "advance_street env db rid = Inr (resp, db')" and "fetch_round db rid = Inr r"
    and "ps = get_round_players db rid" and "hand_ok r ps"
  shows "\<exists>r'. fetch_round db' rid = Inr r' \<and> hand_ok r' (get_round_players db' rid) \<and>
    asr_action resp = (if length (filter (\<lambda>p. rp_is_active_in_hand p \<and> \<not> rp_has_folded p) ps) \<le> 1 then SETTLE_HAND
      else if r_street r = RIVER \<or> length (filter able ps) \<le> 1 then GO_SHOWDOWN else NEXT_STREET) \<and>
    get_round_players db' rid =
      (if asr_action resp = SETTLE_HAND then ps else map (\<lambda>p. p\<lparr>rp_committed_this_street := 0\<rparr>) ps) \<and>
    r_pot_amount r' = r_pot_amount r \<and> r_status r' = ROUND_ACTIVE \<and> r_state_version r' = Some (version_or_1 r + 1) \<and>
    (case asr_action resp of
       NEXT_STREET \<Rightarrow> opened_street r ps r'
     | GO_SHOWDOWN \<Rightarrow> r_street r' = SHOWDOWN \<and> r_is_action_closed r' \<and> r_acting_player_id r' = None
     | SETTLE_HAND \<Rightarrow> r_street r' = r_street r \<and> r_is_action_closed r' \<and> r_acting_player_id r' = None) \<and>
    db' = db\<lparr>db_rounds := db_rounds db', db_round_players := db_round_players db',
      db_outbox := db_outbox db', db_uuid := db_uuid db'\<rparr> \<and>
    (ledger_agrees db rid \<longrightarrow> ledger_agrees db' rid) \<and> db_ok db'"
proof -
  note keeps = advance_street_keeps [OF assms(1-3) assms(5) [unfolded assms(4)]]
  from assms(2) have frame: "db' = db\<lparr>db_rounds := db_rounds db', db_round_players := db_round_players db',
      db_outbox := db_outbox db', db_uuid := db_uuid db'\<rparr>"
    by (auto simp: advance_street_def bindE_simps Let_def emit_def build_event_def uuid4_def add_outbox_event_def
        put_round_def put_round_players_def split: if_splits prod.splits)
  from assms(2,1) show ?thesis
  proof (rule advance_street_cases)
    fix r0 res r' ps'
    assume a: "fetch_round db rid = Inr r0" "r_status r0 = ROUND_ACTIVE" "r_street r0 \<noteq> SHOWDOWN"
      "res = evaluate_street_end (r_street r0) (r_dealer_seat r0) (r_big_blind_seat r0) (map player_seat_of (get_round_players db rid))"
      "apply_street_end res r0 (get_round_players db rid) = (r', ps')" "fetch_round db' rid = Inr r'"
      "get_round_players db' rid = ps'" "asr_action resp = sa_action res"
    have r0: "r0 = r" using a(1) assms(3) by simp
    note a = a [unfolded r0, folded assms(4)]
    have "asr_action resp = (if length (filter (\<lambda>p. rp_is_active_in_hand p \<and> \<not> rp_has_folded p) ps) \<le> 1 then SETTLE_HAND
      else if r_street r = RIVER \<or> length (filter able ps) \<le> 1 then GO_SHOWDOWN else NEXT_STREET)"
      unfolding a(8) a(4) street_end_decision using a(3) by simp
    with keeps frame a(2,6,7) apply_street_end_rows(7,9) [OF a(5)] apply_street_end_round [OF a(4,3,5)]
    show ?thesis unfolding a(8) by (intro exI [of _ r']) simp
  qed
qed

definition advanced_db :: GameDb where
  "advanced_db = snd (the_ok (advance_street example_env example_db ''r''))"

theorem advance_street_correct_witness:
  "\<exists>r'. fetch_round advanced_db ''r'' = Inr r' \<and> hand_ok r' (get_round_players advanced_db ''r'')"
proof -
  have "is_ok (advance_street example_env example_db ''r'')" by code_simp
  from is_okD [OF this]
  have "advance_street example_env example_db ''r'' =
      Inr (fst (the_ok (advance_street example_env example_db ''r'')), advanced_db)" by (simp add: advanced_db_def)
  from advance_street_correct [OF example_db_ok this example_reads(3) example_reads(4) [symmetric]] example_hand_ok
  show ?thesis by blast
qed

lemma resolve_hand_effect:
  assumes "db_ok db" and "resolve_hand env db rid payouts = Inr (resp, db')" and "fetch_round db rid = Inr r"
    and "r_pot_amount r = sum_list (map rp_committed_this_hand (get_round_players db rid))"
    and "ResolveHandRequest_ck payouts"
  shows "r_status r = ROUND_ACTIVE \<and> fetch_round db' rid = Inr (complete_round env r) \<and>
    get_round_players db' rid = paid_rows payouts (get_round_players db rid) \<and>
    sum_list (map rp_stack_remaining (get_round_players db' rid)) =
      sum_list (map rp_stack_remaining (get_round_players db rid)) + total_paid payouts \<and>
    total_paid payouts \<le> r_pot_amount r \<and>
    (\<forall>px \<in> set payouts. \<forall>w \<in> set (px_winners px). \<exists>p \<in> set (get_round_players db rid).
       rp_player_id p = ws_player_id w \<and> \<not> rp_has_folded p) \<and>
    (pid \<noteq> [] \<longrightarrow> won_by pid (rebuild_hand_state (ledger_rows db' rid)) =
       won_by pid (rebuild_hand_state (ledger_rows db rid)) + paid_to pid payouts) \<and>
    (ledger_agrees db rid \<longrightarrow> ledger_agrees db' rid) \<and> db_ok db'"
  using assms(2)
proof (rule resolve_hand_cases)
  let ?ps = "get_round_players db rid"
  fix r0 game rc
  assume r0: "fetch_round db rid = Inr r0" "r_status r0 = ROUND_ACTIVE" "total_paid payouts \<le> r_pot_amount r0"
    and val: "\<exists>pots. validate_payouts_against_side_pots ?ps payouts (r_pot_amount r0) = Inr pots"
    and g: "fetch_game db (r_game_id r0) = Inr game"
    and st: "settle env db r0 ?ps game rc payouts = Inr db'" and ok': "db_ok db'"
  have r: "r0 = r" using r0(1) assms(3) by simp
  obtain pots where pots: "validate_payouts_against_side_pots ?ps payouts (r_pot_amount r) = Inr pots" using val r by blast
  have "pots \<noteq> []"
    using no_pots_no_chips [OF assms(4) db_ok_committed [OF assms(1)]] request_total [OF assms(5)] r0(3) pots
      validate_ok_iff [OF refl, of ?ps payouts "r_pot_amount r" pots] r by auto
  note win = winners_in_hand [OF pots this]
  from assms(1) r0(1) g refl st have rows: "fetch_round db' rid = Inr (complete_round env r) \<and>
      get_round_players db' rid = paid_rows payouts ?ps"
    unfolding r by (rule settle_effect) simp
  note dist = get_round_players_distinct(1) [OF db_ok_round_rows [OF assms(1)], of rid]
  have "sum_list (map rp_stack_remaining (paid_rows payouts ?ps)) =
      sum_list (map rp_stack_remaining ?ps) + sum_list (map (\<lambda>i. paid_to i payouts) (map rp_player_id ?ps))"
    by (simp add: paid_rows_def comp_def sum_list_map_add)
  also have "sum_list (map (\<lambda>i. paid_to i payouts) (map rp_player_id ?ps)) = total_paid payouts"
    by (rule sum_paid_to [OF dist]) (use win in force)
  finally have sum: "sum_list (map rp_stack_remaining (paid_rows payouts ?ps)) =
      sum_list (map rp_stack_remaining ?ps) + total_paid payouts" .
  note led = settle_ledger [OF assms(1) r0(1) refl _ st]
  have "ledger_agrees db' rid" if "ledger_agrees db rid"
    using that rows assms(3) led(2) [of "CHR ''x'' # []"] led(3)
    by (auto simp: ledger_agrees_def Let_def list_all_iff paid_rows_def complete_round_def)
  then show ?thesis
    using r0(2,3) rows sum win led(1) ok' r by auto
qed

text \<open>
  C11: a settled hand pays the pot out and nothing more. From a well-formed hand and a
  request that satisfies its schema, a successful \<^verbatim>\<open>resolve_hand\<close> completes the round and
  adds to every stack what the request pays that player; together the stacks grow by
  exactly the total paid, which is at most the pot; each winner is a player of the hand
  who did not fold; the ledger records every winner's share and still agrees with the rows.
\<close>

theorem resolve_hand_pays:
  assumes "db_ok db" and "resolve_hand env db rid payouts = Inr (resp, db')" and "fetch_round db rid = Inr r"
    and "hand_ok r (get_round_players db rid)" and "ResolveHandRequest_ck payouts"
  shows "r_status r = ROUND_ACTIVE \<and> fetch_round db' rid = Inr (complete_round env r) \<and>
    get_round_players db' rid = paid_rows payouts (get_round_players db rid) \<and>
    sum_list (map rp_stack_remaining (get_round_players db' rid)) =
      sum_list (map rp_stack_remaining (get_round_players db rid)) + total_paid payouts \<and>
    total_paid payouts \<le> r_pot_amount r \<and>
    (\<forall>px \<in> set payouts. \<forall>w \<in> set (px_winners px). \<exists>p \<in> set (get_round_players db rid).
       rp_player_id p = ws_player_id w \<and> \<not> rp_has_folded p) \<and>
    (pid \<noteq> [] \<longrightarrow> won_by pid (rebuild_hand_state (ledger_rows db' rid)) =
       won_by pid (rebuild_hand_state (ledger_rows db rid)) + paid_to pid payouts) \<and>
    (ledger_agrees db rid \<longrightarrow> ledger_agrees db' rid) \<and> db_ok db'"
  using assms(1-3) hand_ok_balance(1) [OF assms(4)] assms(5) by (rule resolve_hand_effect)

text \<open>
  C12: settling a hand prepares the next one. The snapshot rows of the players of the hand
  carry their new stacks, active exactly with chips and eliminated exactly without; the
  hand is counted once, even when it was reopened and settled again; with two or more
  players left the button and blinds move on among the seats with chips, and otherwise the
  game is finished.
\<close>

theorem resolve_hand_next_hand:
  assumes "db_ok db" and "resolve_hand env db rid payouts = Inr (resp, db')" and "fetch_round db rid = Inr r"
    and "fetch_game db (r_game_id r) = Inr game"
  shows "db_snapshot_players db' = map (synced (r_game_id r) (get_round_players db' rid)) (db_snapshot_players db) \<and>
    (\<exists>game'. fetch_game db' (r_game_id r) = Inr game' \<and>
      g_hands_played game' = g_hands_played game + (if has_round_completed_entry db rid then 0 else 1) \<and>
      has_round_completed_entry db' rid \<and>
      (let seats = funded_seats (r_game_id r) (db_snapshot_players db') in
       if 2 \<le> length seats then g_status game' = g_status game \<and> rotate_positions seats (g_current_dealer_seat game) =
         Inr (g_current_dealer_seat game', g_current_small_blind_seat game', g_current_big_blind_seat game')
       else g_status game' = FINISHED))"
  using assms(2)
proof (rule resolve_hand_cases)
  let ?ps = "get_round_players db rid"
  fix r0 game0 rc
  assume r0: "fetch_round db rid = Inr r0" and g: "fetch_game db (r_game_id r0) = Inr game0"
    and st: "settle env db r0 ?ps game0 rc payouts = Inr db'"
  have r: "r0 = r" "game0 = game" using r0 g assms(3,4) by simp_all
  have done': "has_round_completed_entry db' rid"
  proof -
    from assms(1) r0 refl st obtain e where "e \<in> set (ledger_rows db' rid)" "lr_entry_type e = LEDGER_ROUND_COMPLETED"
      by (rule settle_ledger_rows) (metis in_set_conv_decomp)
    then show ?thesis
      by (auto simp: has_round_completed_entry_def ledger_rows_def get_ledger_entries_def ledger_row_def filter_empty_conv)
  qed
  from assms(1) r0 g refl st show ?thesis
    unfolding r
  proof (rule settle_effect)
    fix game'
    assume e: "get_round_players db' rid = paid_rows payouts ?ps" "fetch_game db' (r_game_id r) = Inr game'"
      "seat_game (funded_seats (r_game_id r) (db_snapshot_players db')) (counted env db rid rc game) = Inr game'"
      "db_snapshot_players db' = map (synced (r_game_id r) (paid_rows payouts ?ps)) (db_snapshot_players db)"
    note s = seat_game_cases [OF e(3)]
    have "g_hands_played (counted env db rid rc game) = g_hands_played game + (if has_round_completed_entry db rid then 0 else 1)"
      "g_status (counted env db rid rc game) = g_status game"
      "g_current_dealer_seat (counted env db rid rc game) = g_current_dealer_seat game"
      by (simp_all add: counted_def store_completion_def apply_hand_completion_def Let_def)
    with s(3,5,6) e done' show ?thesis by (auto simp: Let_def not_le)
  qed
qed

definition example_payouts :: "PotPayout list" where
  "example_payouts = [pay_out 0 ''a'' 3]"

definition settled_db :: GameDb where
  "settled_db = the_ok (settle example_env dealt_db first_round (get_round_players dealt_db ''u0'') example_game
     example_config example_payouts)"

lemma dealt_reads:
  "fetch_round dealt_db ''u0'' = Inr first_round" "fetch_game dealt_db (r_game_id first_round) = Inr example_game"
  "load_room_snapshot dealt_db (r_game_id first_round) = Inr example_config"
  by code_simp+

lemma settled_db_ok: "db_ok settled_db"
  by code_simp

lemma settled:
  "settle example_env dealt_db first_round (get_round_players dealt_db ''u0'') example_game example_config
    example_payouts = Inr settled_db"
proof -
  have "is_ok (settle example_env dealt_db first_round (get_round_players dealt_db ''u0'') example_game
      example_config example_payouts)" by code_simp
  from is_okD [OF this] show ?thesis by (simp add: settled_db_def)
qed
definition settled_response :: ResolveHandResponse where
  "settled_response = \<lparr>rhr_round_id = ''u0'', rhr_status = ROUND_COMPLETED, rhr_pot_amount = r_pot_amount first_round,
     rhr_payouts = map (\<lambda>pw. payout_to_response (payout_row ''u0'' pw)) (shares example_payouts)\<rparr>"

lemma resolved: "resolve_hand example_env dealt_db ''u0'' example_payouts = Inr (settled_response, settled_db)"
proof -
  have "r_status first_round = ROUND_ACTIVE" "example_payouts \<noteq> []" "\<not> r_pot_amount first_round < total_paid example_payouts"
    "check_all (\<lambda>pot. raise_if (winners_total pot \<noteq> px_amount pot) (winners_mismatch pot)) example_payouts = Inr ()"
    "is_ok (validate_payouts_against_side_pots (get_round_players dealt_db ''u0'') example_payouts (r_pot_amount first_round))"
    by code_simp+
  with settled settled_db_ok dealt_reads show ?thesis
    by (auto simp: resolve_hand_def Let_def is_ok_iff commit_def settled_response_def)
qed

lemma dealt_hand_ok: "hand_ok first_round (get_round_players dealt_db ''u0'')"
proof -
  have "\<exists>game rc r. fetch_round dealt_db ''u0'' = Inr r \<and> (hand_ok r (get_round_players dealt_db ''u0'') \<longleftrightarrow>
      (\<exists>p \<in> set (get_round_players dealt_db ''u0''). r_acting_player_id r = Some (rp_player_id p) \<and> able p))"
  proof -
    have *: "first_posted = posting_players (posting_of example_game example_config (hd (rc_blind_levels example_config)))"
      "first_round = new_round ''u0'' 1 example_game example_config (hd (rc_blind_levels example_config)) 3"
      by (simp_all add: first_posted_def first_round_def)
    have ps: "get_round_players dealt_db ''u0'' = map (round_player_of ''u0'') first_posted" by code_simp
    have "3 \<in> set (room_active_seats example_config)" "list_all RoundPlayer_ck (map (round_player_of ''u0'') first_posted)"
      "Round_ck first_round" "distinct (map posted_player_id first_posted)" "distinct (map posted_seat_number first_posted)"
      by code_simp+
    from new_round_hand(1) [OF *(1) refl *(2) this] show ?thesis using dealt_reads(1) ps by simp
  qed
  moreover have "list_ex (\<lambda>p. r_acting_player_id first_round = Some (rp_player_id p) \<and> able p) (get_round_players dealt_db ''u0'')"
    by code_simp
  ultimately show ?thesis using dealt_reads(1) by (auto simp: list_ex_iff)
qed

theorem resolve_hand_pays_witness:
  "fetch_round settled_db ''u0'' = Inr (complete_round example_env first_round) \<and>
   sum_list (map rp_stack_remaining (get_round_players settled_db ''u0'')) =
     sum_list (map rp_stack_remaining (get_round_players dealt_db ''u0'')) + total_paid example_payouts"
proof -
  have "ResolveHandRequest_ck example_payouts" by code_simp
  from resolve_hand_pays [OF dealt_db_ok resolved dealt_reads(1) dealt_hand_ok this] show ?thesis by blast
qed

theorem resolve_hand_next_hand_witness:
  "\<exists>game'. fetch_game settled_db ''g'' = Inr game' \<and> g_hands_played game' = 1 \<and> has_round_completed_entry settled_db ''u0''"
proof -
  have "r_game_id first_round = ''g''" "g_hands_played example_game = 0" "\<not> has_round_completed_entry dealt_db ''u0''"
    by code_simp+
  with resolve_hand_next_hand [OF dealt_db_ok resolved dealt_reads(1,2)] show ?thesis by auto
qed

text \<open>
  A street can be left while a bet is unanswered. After a bet that two players have
  not answered, \<^verbatim>\<open>advance_street\<close> succeeds although the action is open, and clears the
  highest bet and the commitments of the street: the players who owed chips stay in the
  hand without paying.
\<close>

theorem advance_street_forgets_open_bet:
  "\<exists>db r q r' q' resp db'. db_ok db \<and> fetch_round db ''r'' = Inr r \<and> \<not> r_is_action_closed r \<and>
    q \<in> set (get_round_players db ''r'') \<and> able q \<and> rp_committed_this_street q < r_current_highest_bet r \<and>
    advance_street example_env db ''r'' = Inr (resp, db') \<and> fetch_round db' ''r'' = Inr r' \<and>
    q' \<in> set (get_round_players db' ''r'') \<and> rp_player_id q' = rp_player_id q \<and> able q' \<and>
    rp_committed_this_hand q' = rp_committed_this_hand q \<and> r_current_highest_bet r' = 0"
proof -
  let ?db = "snd example_placed" and ?a = "advance_street example_env (snd example_placed) ''r''"
  have step: "is_ok ?a" by code_simp
  have "is_ok (fetch_round ?db ''r'')" "is_ok (fetch_round (snd (the_ok ?a)) ''r'')" by code_simp+
  note rounds = this [THEN is_okD]
  have open': "\<not> r_is_action_closed (the_ok (fetch_round ?db ''r''))"
    "r_current_highest_bet (the_ok (fetch_round (snd (the_ok ?a)) ''r'')) = 0" by code_simp+
  have "list_ex (\<lambda>q. able q \<and> rp_committed_this_street q < r_current_highest_bet (the_ok (fetch_round ?db ''r'')) \<and>
      list_ex (\<lambda>q'. rp_player_id q' = rp_player_id q \<and> able q' \<and> rp_committed_this_hand q' = rp_committed_this_hand q)
        (get_round_players (snd (the_ok ?a)) ''r'')) (get_round_players ?db ''r'')" by code_simp
  then obtain q q' where "q \<in> set (get_round_players ?db ''r'')" "able q"
    "rp_committed_this_street q < r_current_highest_bet (the_ok (fetch_round ?db ''r''))"
    "q' \<in> set (get_round_players (snd (the_ok ?a)) ''r'')" "rp_player_id q' = rp_player_id q" "able q'"
    "rp_committed_this_hand q' = rp_committed_this_hand q" by (auto simp: list_ex_iff)
  with example_placed_db_ok rounds open' is_okD [OF step] show ?thesis
    by (metis prod.collapse)
qed

lemma all_in_actor_blocks_hand:
  assumes "distinct (map rp_player_id ps)" and "p \<in> set ps" and "rp_is_all_in p"
    and "r_acting_player_id r = Some (rp_player_id p)"
  shows "\<not> is_ok (apply_action r ps pid action amount rules ev)"
proof
  assume "is_ok (apply_action r ps pid action amount rules ev)"
  then obtain res r' ps' where "apply_action r ps pid action amount rules ev = Inr (res, r', ps')"
    by (auto simp: is_ok_iff)
  from this assms(1) show False
  proof (rule apply_action_cases)
    fix q v assume q: "List.find (\<lambda>rp. rp_player_id rp = pid) ps = Some q"
      and m: "may_act (build_hand_context r ps) pid (player_state_of q)"
    have "rp_player_id p = pid" "\<not> rp_is_all_in q"
      using m assms(4) by (auto simp: may_act_def build_hand_context_def player_state_of_def)
    moreover from this(1) have "q = p" using find_key_unique [OF assms(1,2)] q by simp
    ultimately show False using assms(3) by simp
  qed
qed

definition short_game :: Game where
  "short_game = example_game\<lparr>g_current_dealer_seat := 1, g_current_small_blind_seat := 1, g_current_big_blind_seat := 2\<rparr>"

definition short_config :: RoomConfig where
  "short_config = example_config\<lparr>rc_antes_enabled := False,
     rc_players := [(rc_players example_config ! 0)\<lparr>cfg_chip_count := 5\<rparr>, rc_players example_config ! 1]\<rparr>"

definition short_lobby :: GameDb where
  "short_lobby = save_room_snapshot (example_db\<lparr>db_games := [short_game], db_rounds := [], db_round_players := []\<rparr>)
     ''g'' short_config"

definition short_round :: Round where
  "short_round = new_round ''u0'' 1 short_game short_config (hd (rc_blind_levels short_config)) 1"

definition short_posted :: "PostedPlayer list" where
  "short_posted = posting_players (posting_of short_game short_config (hd (rc_blind_levels short_config)))"

definition short_db :: GameDb where
  "short_db = write_round example_env (short_lobby\<lparr>db_uuid := 1\<rparr>) short_round short_game short_posted"

lemma short_reads:
  "fetch_game short_lobby ''g'' = Inr short_game" "get_active_round short_lobby ''g'' = Inr None"
  "load_room_snapshot short_lobby ''g'' = Inr short_config" "count_rounds short_lobby ''g'' = 0"
  "g_status short_game = ACTIVE" "g_current_big_blind_seat short_game = 2"
  "current_level_of short_config short_game = Some (hd (rc_blind_levels short_config))"
  "require_round_start_authorized short_game short_config by_controller = Inr ()"
  "first_to_act_seat (room_active_seats short_config) 2 = Inr 1"
  "uuid4 example_env short_lobby = (''u0'', short_lobby\<lparr>db_uuid := 1\<rparr>)"
  by code_simp+

text \<open>
  A new hand can be stuck from its first turn. Heads-up, when the small blind takes
  the button's last chips, \<^verbatim>\<open>start_round\<close> succeeds and puts that all-in player on turn;
  from then on the engine refuses every action of every player.
\<close>

theorem start_round_can_deadlock:
  "\<exists>db resp db' r. db_ok db \<and> start_round example_env db ''g'' by_controller = Inr (resp, db') \<and>
    fetch_round db' ''u0'' = Inr r \<and> r_status r = ROUND_ACTIVE \<and> \<not> r_is_action_closed r \<and>
    (\<forall>pid action amount ev. \<not> is_ok (apply_action r (get_round_players db' ''u0'') pid action amount NO_LIMIT_HOLDEM ev))"
proof -
  have ok: "db_ok short_lobby" "db_ok short_db" by code_simp+
  then have start: "start_round example_env short_lobby ''g'' by_controller =
      Inr (round_to_response short_round (map (round_player_of ''u0'') short_posted) [], short_db)"
    by (simp add: start_round_def short_reads Let_def commit_def short_db_def short_round_def short_posted_def)
  have r: "fetch_round short_db ''u0'' = Inr short_round" "r_status short_round = ROUND_ACTIVE"
    "\<not> r_is_action_closed short_round" by code_simp+
  have "distinct (map rp_player_id (get_round_players short_db ''u0''))"
    "list_ex (\<lambda>p. rp_is_all_in p \<and> r_acting_player_id short_round = Some (rp_player_id p)) (get_round_players short_db ''u0'')"
    by code_simp+
  then have "\<not> is_ok (apply_action short_round (get_round_players short_db ''u0'') pid action amount NO_LIMIT_HOLDEM ev)"
    for pid action amount ev
    using all_in_actor_blocks_hand [of "get_round_players short_db ''u0''"] by (auto simp: list_ex_iff)
  with ok(1) start r show ?thesis by blast
qed

end
