(* ===== verification/Step_Systems.thy ===== *)
theory Step_Systems
  imports Main
begin

text \<open>
  What is true of any step relation, proved once: a system whose steps keep an invariant
  and a quantity keeps them along every run; a system whose steps use up a rank stops.
  The interpretations are with the parts they speak of: hands (\<open>Hand_Play\<close>), betting rounds
  (\<open>Betting_Round\<close>), rooms (\<open>Room_Lifecycle\<close>), accounts (\<open>Auth_Sessions\<close>), profiles (\<open>User_Service\<close>), the
  outbox (\<open>Outbox_Worker\<close>) and the consumer of messages (\<open>Messaging\<close>).
\<close>

section \<open>Systems that keep an invariant and a quantity\<close>

locale conserving_system =
  fixes step :: "'s \<Rightarrow> 's \<Rightarrow> bool" and inv :: "'s \<Rightarrow> bool" and quantity :: "'s \<Rightarrow> 'q"
  assumes step_keeps: "step s s' \<Longrightarrow> inv s \<Longrightarrow> inv s' \<and> quantity s' = quantity s"
begin

lemma run_keeps:
  assumes "step\<^sup>*\<^sup>* s s'" and "inv s"
  shows "inv s' \<and> quantity s' = quantity s"
  using assms
proof (induction rule: rtranclp_induct)
  case base
  then show ?case by simp
next
  case (step y z)
  then show ?case using step_keeps [of y z] by simp
qed

lemma run_quantity: "step\<^sup>*\<^sup>* s s' \<Longrightarrow> inv s \<Longrightarrow> quantity s' = quantity s"
  using run_keeps by blast

end


section \<open>Systems that run down\<close>

locale ranked_system =
  fixes step :: "'s \<Rightarrow> 's \<Rightarrow> bool" and inv :: "'s \<Rightarrow> bool" and rank :: "'s \<Rightarrow> nat"
  assumes step_ranked: "step s s' \<Longrightarrow> inv s \<Longrightarrow> inv s' \<and> rank s' < rank s"
begin

lemma run_bounded: "(step ^^ k) s s' \<Longrightarrow> inv s \<Longrightarrow> inv s' \<and> k + rank s' \<le> rank s"
proof (induction k arbitrary: s')
  case (Suc k)
  then obtain t where "(step ^^ k) s t" "step t s'" by auto
  with Suc.IH Suc.prems(2) step_ranked show ?case by fastforce
qed simp

lemma run_inv: "step\<^sup>*\<^sup>* s s' \<Longrightarrow> inv s \<Longrightarrow> inv s'"
  using run_bounded rtranclp_imp_relpowp by fast

lemma run_stops: "inv s \<Longrightarrow> \<exists>s'. step\<^sup>*\<^sup>* s s' \<and> inv s' \<and> (\<forall>t. \<not> step s' t)"
proof (induction "rank s" arbitrary: s rule: less_induct)
  case less
  show ?case
  proof (cases "\<exists>t. step s t")
    case True
    then obtain t where t: "step s t" by blast
    with less.prems step_ranked have "inv t" "rank t < rank s" by blast+
    with less.hyps obtain s' where "step\<^sup>*\<^sup>* t s'" "inv s'" "\<forall>u. \<not> step s' u" by blast
    with t show ?thesis by (meson converse_rtranclp_into_rtranclp)
  qed (use less.prems in blast)
qed

end

end
