(* ===== verification/Hand_Play.thy ===== *)
theory Hand_Play
  imports Game_Commands Step_Systems
begin

text \<open>
  A hand as a sequence of requests: bets and street changes, of this round and of others,
  in any order, from any number of clients, each one a committed command of
  \<^verbatim>\<open>BetCommandService\<close> or \<^verbatim>\<open>GameCommandService\<close>. What every single command keeps, every
  sequence keeps (the locale \<open>conserving_system\<close>). Two invariants are kept: \<open>play_ok\<close> (a well-formed hand that
  the ledger agrees with), for which the player the deal puts on turn must be able to act, and \<open>pot_ok\<close> (the pot is what
  was committed), which holds after every deal and carries the stacks from the deal to the settlement.
\<close>

section \<open>Steps of a hand\<close>

inductive hand_step :: "GameDb \<Rightarrow> GameDb \<Rightarrow> bool" where
  bet: "place_bet env db data = Inr (resp, db') \<Longrightarrow> hand_step db db'"
| street: "advance_street env db rid = Inr (resp, db') \<Longrightarrow> hand_step db db'"

inductive_cases hand_stepE: "hand_step db db'"

definition play_ok :: "round_id \<Rightarrow> GameDb \<Rightarrow> bool" where
  "play_ok rid db \<longleftrightarrow> db_ok db \<and> ledger_agrees db rid \<and>
     (\<exists>r. fetch_round db rid = Inr r \<and> hand_ok r (get_round_players db rid))"

definition chips_at :: "round_id \<Rightarrow> GameDb \<Rightarrow> int" where
  "chips_at rid db = (case fetch_round db rid of
     Inr r \<Rightarrow> chips_in_play r (get_round_players db rid) | Inl e \<Rightarrow> 0)"


section \<open>Bets\<close>

lemma ledger_agrees_frame:
  assumes "fetch_round db' rid = fetch_round db rid" and "get_round_players db' rid = get_round_players db rid"
    and "ledger_rows db' rid = ledger_rows db rid"
  shows "ledger_agrees db' rid = ledger_agrees db rid"
  unfolding ledger_agrees_def assms ..

lemma place_bet_other_round:
  assumes "db_ok db" and "place_bet env db data = Inr (resp, db')" and "rid \<noteq> pb_round_id data"
  shows "fetch_round db' rid = fetch_round db rid \<and> get_round_players db' rid = get_round_players db rid \<and>
    ledger_rows db' rid = ledger_rows db rid \<and> db_ok db'"
proof (cases "place_bet_lookup db data = Inr None")
  case False
  then have "db' = db" using assms(2) by (auto simp: place_bet_def bindE_simps split: option.splits)
  with assms(1) show ?thesis by simp
next
  case True
  from assms(1,2) True show ?thesis
  proof (rule place_bet_alone)
    fix r res p v
    let ?ps' = "players_after v (pb_player_id data) (get_round_players db (pb_round_id data))"
    assume r: "fetch_round db (pb_round_id data) = Inr r" and ok': "db_ok db'"
      and db': "db' = bet_tables env db data res (round_after v p r ?ps') ?ps'"
    note eff = bet_tables_effect [OF assms(1) r refl refl refl refl db']
    show ?thesis
      using eff(4) eff(5,6) [OF assms(3)] assms(3) ok'
      by (simp add: ledger_rows_def get_ledger_entries_def bet_entry_def)
  qed
qed

lemma place_bet_same_round:
  assumes "db_ok db" and "place_bet env db data = Inr (resp, db')" and "rid = pb_round_id data"
    and "fetch_round db rid = Inr r" and "hand_ok r (get_round_players db rid)"
  shows "db_ok db' \<and> (\<exists>r'. fetch_round db' rid = Inr r' \<and> hand_ok r' (get_round_players db' rid) \<and>
    chips_in_play r' (get_round_players db' rid) = chips_in_play r (get_round_players db rid))"
proof (cases "place_bet_lookup db data = Inr None")
  case False
  then have "db' = db" using assms(2) by (auto simp: place_bet_def bindE_simps split: option.splits)
  with assms show ?thesis by simp
next
  case True
  let ?ps = "get_round_players db rid" and ?pid = "pb_player_id data"
  from assms(1,2) True show ?thesis
  proof (rule place_bet_alone)
    fix r0 res p v
    let ?ps' = "players_after v ?pid (get_round_players db (pb_round_id data))"
    assume r: "fetch_round db (pb_round_id data) = Inr r0" and ok': "db_ok db'"
      and act: "apply_action r0 (get_round_players db (pb_round_id data)) ?pid (upper (pb_action data)) (pb_amount data)
        NO_LIMIT_HOLDEM (pb_expected_version data) = Inr (res, round_after v p r0 ?ps', ?ps')"
      and p: "List.find (\<lambda>rp. rp_player_id rp = ?pid) (get_round_players db (pb_round_id data)) = Some p"
      and db': "db' = bet_tables env db data res (round_after v p r0 ?ps') ?ps'"
    have r0: "r0 = r" using r assms(3,4) by simp
    note eff = bet_tables_effect [OF assms(1) r refl refl refl refl db']
    from act assms(5) have "hand_ok (round_after v p r0 ?ps') ?ps'"
      unfolding r0 assms(3) by (rule apply_action_accepted) (simp add: hand_ok_after)
    moreover have "chips_in_play (round_after v p r0 ?ps') ?ps' = chips_in_play r ?ps"
      using players_after_sums(1) [OF p, of v] by (simp add: chips_in_play_def round_after_def r0 assms(3))
    ultimately show ?thesis using eff(1,2) ok' assms(3) by simp
  qed
qed


text \<open>A bet moves chips from a stack into the pot and onto the bettor's commitment, whoever is on turn.\<close>

lemma place_bet_chips:
  assumes "db_ok db" and "place_bet env db data = Inr (resp, db')" and "rid = pb_round_id data"
    and "fetch_round db rid = Inr r" and "r_pot_amount r = sum_list (map rp_committed_this_hand (get_round_players db rid))"
  shows "db_ok db' \<and> (\<exists>r'. fetch_round db' rid = Inr r' \<and>
    r_pot_amount r' = sum_list (map rp_committed_this_hand (get_round_players db' rid)) \<and>
    chips_in_play r' (get_round_players db' rid) = chips_in_play r (get_round_players db rid))"
proof (cases "place_bet_lookup db data = Inr None")
  case False
  then have "db' = db" using assms(2) by (auto simp: place_bet_def bindE_simps split: option.splits)
  with assms show ?thesis by simp
next
  case True
  let ?ps = "get_round_players db rid" and ?pid = "pb_player_id data"
  from assms(1,2) True show ?thesis
  proof (rule place_bet_alone)
    fix r0 res p v
    let ?ps' = "players_after v ?pid (get_round_players db (pb_round_id data))"
    assume r: "fetch_round db (pb_round_id data) = Inr r0" and ok': "db_ok db'"
      and p: "List.find (\<lambda>rp. rp_player_id rp = ?pid) (get_round_players db (pb_round_id data)) = Some p"
      and db': "db' = bet_tables env db data res (round_after v p r0 ?ps') ?ps'"
    have r0: "r0 = r" using r assms(3,4) by simp
    note eff = bet_tables_effect [OF assms(1) r refl refl refl refl db']
    have "r_pot_amount (round_after v p r0 ?ps') = sum_list (map rp_committed_this_hand ?ps')"
      "chips_in_play (round_after v p r0 ?ps') ?ps' = chips_in_play r ?ps"
      using players_after_sums [OF p, of v] assms(5) by (simp_all add: chips_in_play_def round_after_def r0 assms(3))
    then show ?thesis using eff(1,2) ok' assms(3) by simp
  qed
qed


section \<open>Streets\<close>

lemma put_round_other:
  assumes "rid \<noteq> r_round_id r'" and "\<And>p. p \<in> set ps' \<Longrightarrow> rp_round_id p = r_round_id r'"
  shows "fetch_round (put_round r' (put_round_players ps' db)) rid = fetch_round db rid"
    "get_round_players (put_round r' (put_round_players ps' db)) rid = get_round_players db rid"
  using rounds.fetch_put_other [OF assms(1)] get_put_other [of ps' rid db] assms by auto

lemma rows_of_round:
  assumes "map rp_key ps' = map rp_key (get_round_players db rid)" and "p \<in> set ps'"
  shows "rp_round_id p = rid"
proof -
  have "rp_key p \<in> set (map rp_key (get_round_players db rid))" unfolding assms(1) [symmetric] using assms(2) by simp
  then show ?thesis using get_round_players_round by (auto simp: rp_key_def)
qed

lemma advance_street_other_round:
  assumes "db_ok db" and "advance_street env db rid' = Inr (resp, db')" and "rid \<noteq> rid'"
  shows "fetch_round db' rid = fetch_round db rid \<and> get_round_players db' rid = get_round_players db rid \<and>
    ledger_rows db' rid = ledger_rows db rid \<and> db_ok db'"
proof -
  let ?ps = "get_round_players db rid'"
  from assms(2) obtain r where r: "fetch_round db rid' = Inr r" "r_status r = ROUND_ACTIVE" "r_street r \<noteq> SHOWDOWN"
    by (auto simp: advance_street_def bindE_simps split: if_splits)
  let ?res = "evaluate_street_end (r_street r) (r_dealer_seat r) (r_big_blind_seat r) (map player_seat_of ?ps)"
  obtain r' ps' where s: "apply_street_end ?res r ?ps = (r', ps')" by (cases "apply_street_end ?res r ?ps")
  note rows = apply_street_end_rows [OF s]
  have id': "r_round_id r' = rid'" using rows(1) rounds.fetch_key [OF r(1)] by simp
  have "rid \<noteq> r_round_id r'" "\<And>p. p \<in> set ps' \<Longrightarrow> rp_round_id p = r_round_id r'"
    using assms(3) id' rows_of_round [OF rows(2)] by simp_all
  note put_round_other [where db = db, OF this]
  with assms(2) show ?thesis
    by (auto simp: advance_street_def bindE_simps r s Let_def read_frame simp del: fetch_put_rows)
qed

lemma advance_street_same_round:
  assumes "db_ok db" and "advance_street env db rid = Inr (resp, db')" and "fetch_round db rid = Inr r"
    and "hand_ok r (get_round_players db rid)" and "ledger_agrees db rid"
  shows "play_ok rid db' \<and> chips_at rid db' = chips_at rid db"
  using advance_street_keeps [OF assms(1-4)] assms(3,5) by (auto simp: play_ok_def chips_at_def)



section \<open>Every sequence of requests\<close>

lemma hand_step_keeps:
  assumes "hand_step db db'" and "play_ok rid db"
  shows "play_ok rid db' \<and> chips_at rid db' = chips_at rid db"
proof -
  from assms(2) obtain r where ok: "db_ok db" "ledger_agrees db rid" "fetch_round db rid = Inr r"
    "hand_ok r (get_round_players db rid)" by (auto simp: play_ok_def)
  have other: ?thesis if "fetch_round db' rid = fetch_round db rid \<and> get_round_players db' rid = get_round_players db rid \<and>
      ledger_rows db' rid = ledger_rows db rid \<and> db_ok db'"
    using that ok ledger_agrees_frame [of db' rid db] by (auto simp: play_ok_def chips_at_def)
  from assms(1) show ?thesis
  proof (rule hand_stepE)
    fix env data resp assume bet: "place_bet env db data = Inr (resp, db')"
    show ?thesis
    proof (cases "rid = pb_round_id data")
      case True
      then have "ledger_agrees db' rid" using place_bet_ledger [OF ok(1) _ bet] ok(2) by simp
      then show ?thesis
        using place_bet_same_round [OF ok(1) bet True ok(3,4)] ok(3) by (auto simp: play_ok_def chips_at_def)
    next
      case False
      then show ?thesis by (rule other [OF place_bet_other_round [OF ok(1) bet]])
    qed
  next
    fix env rid' resp assume street: "advance_street env db rid' = Inr (resp, db')"
    show ?thesis
    proof (cases "rid = rid'")
      case True
      then show ?thesis using advance_street_same_round [OF ok(1) _ ok(3,4,2)] street by simp
    next
      case False
      then show ?thesis by (rule other [OF advance_street_other_round [OF ok(1) street]])
    qed
  qed
qed

interpretation play: conserving_system hand_step "play_ok rid" "chips_at rid" for rid
  by unfold_locales (rule hand_step_keeps)

text \<open>
  The chips alone need less: that the pot is what the players committed. It holds of every
  dealt hand, also when the player put on turn cannot act; \<open>led\<close> says whether the ledger
  is followed too.
\<close>

definition pot_ok :: "bool \<Rightarrow> round_id \<Rightarrow> GameDb \<Rightarrow> bool" where
  "pot_ok led rid db \<longleftrightarrow> db_ok db \<and> (led \<longrightarrow> ledger_agrees db rid) \<and>
     (\<exists>r. fetch_round db rid = Inr r \<and>
       r_pot_amount r = sum_list (map rp_committed_this_hand (get_round_players db rid)))"

lemma hand_step_keeps_pot:
  assumes "hand_step db db'" and "pot_ok led rid db"
  shows "pot_ok led rid db' \<and> chips_at rid db' = chips_at rid db"
proof -
  from assms(2) obtain r where ok: "db_ok db" "led \<longrightarrow> ledger_agrees db rid" "fetch_round db rid = Inr r"
    "r_pot_amount r = sum_list (map rp_committed_this_hand (get_round_players db rid))" by (auto simp: pot_ok_def)
  have other: ?thesis if "fetch_round db' rid = fetch_round db rid \<and> get_round_players db' rid = get_round_players db rid \<and>
      ledger_rows db' rid = ledger_rows db rid \<and> db_ok db'"
    using that ok ledger_agrees_frame [of db' rid db] by (auto simp: pot_ok_def chips_at_def)
  from assms(1) show ?thesis
  proof (rule hand_stepE)
    fix env data resp assume bet: "place_bet env db data = Inr (resp, db')"
    show ?thesis
    proof (cases "rid = pb_round_id data")
      case True
      then have "led \<longrightarrow> ledger_agrees db' rid" using place_bet_ledger [OF ok(1) _ bet] ok(2) by simp
      then show ?thesis
        using place_bet_chips [OF ok(1) bet True ok(3,4)] ok(3) by (auto simp: pot_ok_def chips_at_def)
    next
      case False
      then show ?thesis by (rule other [OF place_bet_other_round [OF ok(1) bet]])
    qed
  next
    fix env rid' resp assume street: "advance_street env db rid' = Inr (resp, db')"
    show ?thesis
    proof (cases "rid = rid'")
      case True
      then have "advance_street env db rid = Inr (resp, db')" using street by simp
      from advance_street_chips [OF ok(1) this ok(3)] show ?thesis using ok
        by (auto simp: pot_ok_def chips_at_def chips_in_play_def)
    next
      case False
      then show ?thesis by (rule other [OF advance_street_other_round [OF ok(1) street]])
    qed
  qed
qed

interpretation pot: conserving_system hand_step "pot_ok led rid" "chips_at rid" for led rid
  by unfold_locales (rule hand_step_keeps_pot)


section \<open>Properties\<close>

lemma dealt_play_ok:
  assumes "db_ok lobby" and "start_round env lobby gid data = Inr (resp, db)" and "rid = ror_round_id resp"
    and "load_room_snapshot lobby gid = Inr rc" and "list_all (\<lambda>p. cfg_player_id p \<noteq> []) (active_players rc)"
    and "fetch_round db rid = Inr r"
    and "list_ex (\<lambda>p. r_acting_player_id r = Some (rp_player_id p) \<and> able p) (get_round_players db rid)"
  shows "play_ok rid db \<and> chips_at rid db = sum_list (map cfg_chip_count (active_players rc))"
  using start_round_effect [OF assms(1-3)] assms(4-7) by (auto simp: play_ok_def chips_at_def list_ex_iff)

definition betting_db :: GameDb where
  "betting_db = snd (the_ok (advance_street example_env dealt_db ''u0''))"

lemma dealt_actor:
  "fetch_round dealt_db (ror_round_id dealt_response) = Inr first_round"
  "list_ex (\<lambda>p. r_acting_player_id first_round = Some (rp_player_id p) \<and> able p)
     (get_round_players dealt_db (ror_round_id dealt_response))"
  "list_all (\<lambda>p. cfg_player_id p \<noteq> []) (active_players example_config)"
  by code_simp+

lemma dealt_step: "hand_step\<^sup>*\<^sup>* dealt_db betting_db"
proof -
  have "is_ok (advance_street example_env dealt_db ''u0'')" by code_simp
  then have "hand_step dealt_db betting_db"
    unfolding betting_db_def by (metis is_okD prod.collapse hand_step.street)
  then show ?thesis by blast
qed

text \<open>
  C2: a hand stays sound however it is played. From a freshly dealt hand whose player on
  turn is able to act, every sequence of successful bets and street changes, of this
  round and of any other, in any order, keeps the constraints of the schema, the
  well-formedness of the hand and the agreement of rows and ledger; and the chips in
  stacks and pot stay exactly those the players brought.
\<close>

theorem hand_play_safe:
  assumes "db_ok lobby" and "start_round env lobby gid data = Inr (resp, db)" and "rid = ror_round_id resp"
    and "load_room_snapshot lobby gid = Inr rc" and "list_all (\<lambda>p. cfg_player_id p \<noteq> []) (active_players rc)"
    and "fetch_round db rid = Inr r"
    and "list_ex (\<lambda>p. r_acting_player_id r = Some (rp_player_id p) \<and> able p) (get_round_players db rid)"
    and "hand_step\<^sup>*\<^sup>* db db'"
  shows "play_ok rid db' \<and> chips_at rid db' = sum_list (map cfg_chip_count (active_players rc))"
  using play.run_keeps [OF assms(8)] dealt_play_ok [OF assms(1-7)] by simp

theorem hand_play_safe_witness:
  "play_ok (ror_round_id dealt_response) betting_db \<and> chips_at (ror_round_id dealt_response) betting_db = 240"
proof -
  have "sum_list (map cfg_chip_count (active_players example_config)) = 240" by code_simp
  then show ?thesis
    using hand_play_safe [OF lobby_db_ok dealt refl lobby_reads(3) dealt_actor(3,1,2) dealt_step] by simp
qed

lemma dealt_pot_ok:
  assumes "db_ok lobby" and "start_round env lobby gid data = Inr (resp, db)" and "rid = ror_round_id resp"
    and "load_room_snapshot lobby gid = Inr rc"
  shows "pot_ok (list_all (\<lambda>p. cfg_player_id p \<noteq> []) (active_players rc)) rid db \<and>
    chips_at rid db = sum_list (map cfg_chip_count (active_players rc))"
  using start_round_effect [OF assms(1-3)] assms(4) by (auto simp: pot_ok_def chips_at_def)

text \<open>
  C1: a hand neither mints nor burns chips. From the deal, through every sequence of
  successful bets and street changes, of this round and of any other, to a settlement
  whose request satisfies its schema and pays out the whole pot, the stacks end with
  exactly the chips the players brought to the hand. Nothing is asked of the deal: it also
  holds of a hand whose first player on turn cannot act, and of one settled before its
  betting is over. When no player's identifier is empty, the ledger agrees at the end.
\<close>

theorem whole_hand_conserves_chips:
  assumes "db_ok lobby" and "start_round env lobby gid data = Inr (resp, db)" and "rid = ror_round_id resp"
    and "load_room_snapshot lobby gid = Inr rc" and "hand_step\<^sup>*\<^sup>* db db'"
    and "resolve_hand env' db' rid payouts = Inr (resp', db'')" and "ResolveHandRequest_ck payouts"
    and "fetch_round db' rid = Inr r'" and "total_paid payouts = r_pot_amount r'"
  shows "sum_list (map rp_stack_remaining (get_round_players db'' rid)) = sum_list (map cfg_chip_count (active_players rc)) \<and>
    (list_all (\<lambda>p. cfg_player_id p \<noteq> []) (active_players rc) \<longrightarrow> ledger_agrees db'' rid) \<and> db_ok db''"
proof -
  let ?led = "list_all (\<lambda>p. cfg_player_id p \<noteq> []) (active_players rc)"
  have p: "pot_ok ?led rid db'" "chips_at rid db' = sum_list (map cfg_chip_count (active_players rc))"
    using dealt_pot_ok [OF assms(1-4)] pot.run_keeps [OF assms(5), of ?led rid] by simp_all
  then have "db_ok db'" "r_pot_amount r' = sum_list (map rp_committed_this_hand (get_round_players db' rid))"
    "?led \<longrightarrow> ledger_agrees db' rid"
    using assms(8) by (auto simp: pot_ok_def)
  with resolve_hand_effect [OF _ assms(6,8) _ assms(7)]
  have "sum_list (map rp_stack_remaining (get_round_players db'' rid)) =
      sum_list (map rp_stack_remaining (get_round_players db' rid)) + total_paid payouts"
    "?led \<longrightarrow> ledger_agrees db'' rid" "db_ok db''" by blast+
  with p(2) assms(8,9) show ?thesis by (simp add: chips_at_def chips_in_play_def)
qed

text \<open>A played hand: the first player raises, the small blind folds, the big blind calls, the flop is dealt.\<close>

definition hand_request :: "player_id \<Rightarrow> string \<Rightarrow> int \<Rightarrow> PlaceBet" where
  "hand_request pid action amount = \<lparr>pb_round_id = ''u0'', pb_player_id = pid, pb_action = action, pb_amount = amount,
     pb_idempotency_key = None, pb_expected_version = None\<rparr>"

definition raised_db :: GameDb where
  "raised_db = snd (the_ok (place_bet example_env dealt_db (hand_request ''c'' ''raise'' 30)))"

definition folded_db :: GameDb where
  "folded_db = snd (the_ok (place_bet example_env raised_db (hand_request ''a'' ''fold'' 0)))"

definition called_db :: GameDb where
  "called_db = snd (the_ok (place_bet example_env folded_db (hand_request ''b'' ''call'' 0)))"

definition flop_db :: GameDb where
  "flop_db = snd (the_ok (advance_street example_env called_db ''u0''))"

definition all_payouts :: "PotPayout list" where
  "all_payouts = [pay_out 0 ''b'' 18, pay_out 1 ''c'' 48]"

definition paid_hand :: "(ResolveHandResponse \<times> GameDb) result" where
  "paid_hand = resolve_hand example_env flop_db ''u0'' all_payouts"

lemma hand_step_bet: "is_ok (place_bet env db data) \<Longrightarrow> hand_step db (snd (the_ok (place_bet env db data)))"
  by (metis is_okD prod.collapse hand_step.bet)

lemma hand_step_street: "is_ok (advance_street env db rid) \<Longrightarrow> hand_step db (snd (the_ok (advance_street env db rid)))"
  by (metis is_okD prod.collapse hand_step.street)

lemma played_steps: "hand_step dealt_db raised_db" "hand_step raised_db folded_db" "hand_step folded_db called_db"
  "hand_step called_db flop_db"
  unfolding flop_db_def by (unfold called_db_def folded_db_def raised_db_def) (rule hand_step_bet hand_step_street, code_simp)+

lemma played_hand: "hand_step\<^sup>*\<^sup>* dealt_db flop_db"
  using played_steps by (meson converse_rtranclp_into_rtranclp rtranclp.rtrancl_refl)

theorem whole_hand_conserves_chips_witness:
  "sum_list (map rp_stack_remaining (get_round_players (snd (the_ok paid_hand)) ''u0'')) = 240 \<and>
    ledger_agrees (snd (the_ok paid_hand)) ''u0''"
proof -
  have "is_ok paid_hand" by code_simp
  then have paid: "resolve_hand example_env flop_db ''u0'' all_payouts = Inr (fst (the_ok paid_hand), snd (the_ok paid_hand))"
    by (metis is_okD prod.collapse paid_hand_def)
  have "is_ok (fetch_round flop_db ''u0'')" "total_paid all_payouts = r_pot_amount (the_ok (fetch_round flop_db ''u0''))"
    by code_simp+
  note r = is_okD [OF this(1)] this(2)
  have "sum_list (map cfg_chip_count (active_players example_config)) = 240" "ResolveHandRequest_ck all_payouts"
    by code_simp+
  moreover have "''u0'' = ror_round_id dealt_response" by code_simp
  ultimately show ?thesis
    using whole_hand_conserves_chips [OF lobby_db_ok dealt _ lobby_reads(3) played_hand paid _ r] dealt_actor(3) by simp
qed

end
