(* ===== verification/Corrections.thy ===== *)
theory Corrections
  imports Hand_Play
begin

text \<open>
  \<^verbatim>\<open>application/commands/correction_command_service.py\<close>: what a dealer may correct after
  the fact. Every correction appends to the ledger, changes the rows and publishes an
  event; none of them goes through the compare-and-swap or changes \<^verbatim>\<open>state_version\<close>.
\<close>

section \<open>The service\<close>

definition get_hand_state :: "GameDb \<Rightarrow> round_id \<Rightarrow> HandState" where
  "get_hand_state db rid = rebuild_hand_state (ledger_rows db rid)"

definition get_ledger :: "GameDb \<Rightarrow> round_id \<Rightarrow> HandLedgerEntry list" where
  "get_ledger db rid = get_ledger_entries db rid"

text \<open>\<^verbatim>\<open>{"reason": reason} if reason else None\<close>\<close>

definition reason_detail :: "string option \<Rightarrow> Detail option" where
  "reason_detail reason = map_option (\<lambda>s. detail_of [(''reason'', JStr s)]) (truthy reason)"

definition emit_correction_event :: "Env \<Rightarrow> Round \<Rightarrow> HandLedgerEntry \<Rightarrow> GameDb \<Rightarrow> GameDb" where
  "emit_correction_event env game_round entry db = emit env CORRECTION_APPLIED
     [(GAME_ID, JStr (r_game_id game_round)), (ROUND_ID, JStr (r_round_id game_round)),
      (Key ''entry_id'', JStr (le_entry_id entry)), (Key ''entry_type'', JStr (LedgerEntryType_value (le_entry_type entry))),
      (Key ''player_id'', JStr_opt (le_player_id entry)), (Key ''amount'', JInt_opt (le_amount entry))] db"

definition give_back :: "int \<Rightarrow> RoundPlayer \<Rightarrow> RoundPlayer" where
  "give_back n rp = rp\<lparr>rp_stack_remaining := rp_stack_remaining rp + n,
     rp_committed_this_street := max 0 (rp_committed_this_street rp - n),
     rp_committed_this_hand := max 0 (rp_committed_this_hand rp - n)\<rparr>"

definition reversed_ids :: "HandLedgerEntry list \<Rightarrow> string option set" where
  "reversed_ids entries = set (map le_original_entry_id (filter (\<lambda>e. le_entry_type e = ACTION_REVERSED) entries))"

definition reverse_action ::
    "Env \<Rightarrow> GameDb \<Rightarrow> round_id \<Rightarrow> string \<Rightarrow> string option \<Rightarrow> string option \<Rightarrow> (HandLedgerEntry \<times> GameDb) result" where
  "reverse_action env db rid original_entry_id dealer_id reason =
     bindE (fetch_round db rid) (\<lambda>game_round.
     bindE (get_ledger_entry_by_id db original_entry_id) (\<lambda>found.
     case found of
       None \<Rightarrow> raise LedgerEntryNotFound LEDGER_ENTRY_NOT_FOUND
     | Some original \<Rightarrow>
     if le_round_id original \<noteq> rid then raise LedgerEntryNotFound LEDGER_ENTRY_NOT_FOUND
     else if le_entry_type original \<in> CORRECTION_ENTRY_TYPES then raise CannotReverseCorrection CANNOT_REVERSE_CORRECTION
     else if Some original_entry_id \<in> reversed_ids (get_ledger_entries db rid)
       then raise EntryAlreadyReversed ENTRY_ALREADY_REVERSED
     else
     case append_ledger_entry env db rid ACTION_REVERSED (le_player_id original) (le_amount original)
            (reason_detail reason) (Some original_entry_id) dealer_id of (entry, db1) \<Rightarrow>
     let reversed_amount = get_or (le_amount original) 0;
         db2 = (case truthy (le_player_id original) of
             Some pid \<Rightarrow> if reversed_amount > 0
               then put_round (game_round\<lparr>r_pot_amount := max 0 (r_pot_amount game_round - reversed_amount)\<rparr>)
                 (put_round_players (update_first (\<lambda>p. rp_player_id p = pid) (give_back reversed_amount)
                    (get_round_players db1 rid)) db1)
               else db1
           | None \<Rightarrow> db1) in
     bindE (commit (emit_correction_event env game_round entry db2)) (\<lambda>db3. Inr (entry, db3))))"

definition adjust_stack ::
    "Env \<Rightarrow> GameDb \<Rightarrow> round_id \<Rightarrow> player_id \<Rightarrow> int \<Rightarrow> string option \<Rightarrow> string option \<Rightarrow> (HandLedgerEntry \<times> GameDb) result" where
  "adjust_stack env db rid pid amount dealer_id reason =
     bindE (fetch_round db rid) (\<lambda>game_round.
     case append_ledger_entry env db rid STACK_ADJUSTED (Some pid) (Some amount) (reason_detail reason) None dealer_id of
       (entry, db1) \<Rightarrow>
     let db2 = put_round_players (update_first (\<lambda>p. rp_player_id p = pid) (add_chips amount)
                 (get_round_players db1 rid)) db1 in
     bindE (commit (emit_correction_event env game_round entry db2)) (\<lambda>db3. Inr (entry, db3)))"

definition reopen_round :: "Round \<Rightarrow> Round" where
  "reopen_round r = r\<lparr>r_status := ROUND_ACTIVE, r_is_action_closed := False, r_completed_at := None\<rparr>"

definition reopen_hand ::
    "Env \<Rightarrow> GameDb \<Rightarrow> round_id \<Rightarrow> string option \<Rightarrow> string option \<Rightarrow> (HandLedgerEntry \<times> GameDb) result" where
  "reopen_hand env db rid dealer_id reason =
     bindE (fetch_round db rid) (\<lambda>game_round.
     if r_status game_round \<noteq> ROUND_COMPLETED then raise RoundNotCompleted ROUND_NOT_COMPLETED
     else
     let round' = reopen_round game_round in
     case append_ledger_entry env (put_round round' db) rid HAND_REOPENED None None (reason_detail reason) None dealer_id of
       (entry, db1) \<Rightarrow>
     bindE (commit (emit_correction_event env round' entry db1)) (\<lambda>db2. Inr (entry, db2)))"

definition correct_payout ::
    "Env \<Rightarrow> GameDb \<Rightarrow> round_id \<Rightarrow> player_id \<Rightarrow> int \<Rightarrow> player_id \<Rightarrow> int \<Rightarrow> string option \<Rightarrow> string option \<Rightarrow>
     (HandLedgerEntry \<times> GameDb) result" where
  "correct_payout env db rid old_player_id old_amount new_player_id new_amount dealer_id reason =
     bindE (fetch_round db rid) (\<lambda>game_round.
     case append_ledger_entry env db rid PAYOUT_CORRECTED (Some new_player_id) (Some new_amount)
            (Some \<lparr>d_street = None, d_old_player_id = Some old_player_id, d_old_amount = Some old_amount,
                   d_other = [(''reason'', JStr_opt reason)]\<rparr>) None dealer_id of
       (entry, db1) \<Rightarrow>
     let ps = get_round_players db1 rid;
         ps1 = update_first (\<lambda>p. rp_player_id p = old_player_id) (add_chips (- old_amount)) ps;
         ps2 = update_first (\<lambda>p. rp_player_id p = new_player_id) (add_chips new_amount) ps1 in
     bindE (commit (emit_correction_event env game_round entry (put_round_players ps2 db1))) (\<lambda>db2. Inr (entry, db2)))"

section \<open>What a correction writes\<close>

lemma emit_correction_frame [simp]:
  "fetch_round (emit_correction_event env r e db) rid = fetch_round db rid"
  "get_round_players (emit_correction_event env r e db) rid = get_round_players db rid"
  "ledger_rows (emit_correction_event env r e db) rid = ledger_rows db rid"
  "db_rounds (emit_correction_event env r e db) = db_rounds db"
  "db_ledger (emit_correction_event env r e db) = db_ledger db"
  "db_games (emit_correction_event env r e db) = db_games db"
  by (simp_all add: emit_correction_event_def read_frame)

lemma append_reads [simp]:
  "fetch_round (snd (append_ledger_entry env db rid t p a d o' dl)) k = fetch_round db k"
  "get_round_players (snd (append_ledger_entry env db rid t p a d o' dl)) k = get_round_players db k"
  "round_rows_unique (snd (append_ledger_entry env db rid t p a d o' dl)) = round_rows_unique db"
  by (simp_all add: fetch_round_def get_round_players_def round_rows_unique_def)

lemma append_ledger_table:
  "db_ledger (snd (append_ledger_entry env db rid t p a d o' dl)) =
    db_ledger db @ [fst (append_ledger_entry env db rid t p a d o' dl)]"
  "le_round_id (fst (append_ledger_entry env db rid t p a d o' dl)) = rid"
  "le_entry_type (fst (append_ledger_entry env db rid t p a d o' dl)) = t"
  "le_original_entry_id (fst (append_ledger_entry env db rid t p a d o' dl)) = o'"
  by (simp_all add: append_ledger_entry_def uuid4_def Let_def)

lemma get_put_updated:
  assumes "db_ok db" and "\<And>p. rp_key (f p) = rp_key p \<and> rp_seat_number (f p) = rp_seat_number p"
    and "round_rows_unique db1" and "get_round_players db1 rid = get_round_players db rid"
  shows "get_round_players (put_round_players (update_first P f (get_round_players db rid)) db1) rid =
    update_first P f (get_round_players db rid)"
  using assms by (intro get_put_round_players) (simp_all add: map_update_first)

lemma give_back_simps [simp]:
  "rp_key (give_back n p) = rp_key p" "rp_seat_number (give_back n p) = rp_seat_number p"
  "rp_player_id (give_back n p) = rp_player_id p" "rp_stack_remaining (give_back n p) = rp_stack_remaining p + n"
  "rp_committed_this_hand (give_back n p) = max 0 (rp_committed_this_hand p - n)"
  by (simp_all add: give_back_def rp_key_def)

lemma reverse_action_cases:
  assumes "reverse_action env db rid eid dealer reason = Inr (entry, db')" and "db_ok db"
  obtains r original where "fetch_round db rid = Inr r" "get_ledger_entry_by_id db eid = Inr (Some original)"
    "le_round_id original = rid" "le_entry_type original \<notin> CORRECTION_ENTRY_TYPES"
    "Some eid \<notin> reversed_ids (get_ledger_entries db rid)" "db_ok db'"
    "db_ledger db' = db_ledger db @ [entry]" "le_round_id entry = rid" "le_entry_type entry = ACTION_REVERSED"
    "le_original_entry_id entry = Some eid" "le_player_id entry = le_player_id original" "le_amount entry = le_amount original"
    "\<And>pid n. truthy (le_player_id original) = Some pid \<Longrightarrow> le_amount original = Some n \<Longrightarrow> 0 < n \<Longrightarrow>
       fetch_round db' rid = Inr (r\<lparr>r_pot_amount := max 0 (r_pot_amount r - n)\<rparr>) \<and>
       get_round_players db' rid = update_first (\<lambda>p. rp_player_id p = pid) (give_back n) (get_round_players db rid)"
proof -
  let ?ps = "get_round_players db rid"
  from assms(1) obtain r original where o: "fetch_round db rid = Inr r" "get_ledger_entry_by_id db eid = Inr (Some original)"
    "le_round_id original = rid" "le_entry_type original \<notin> CORRECTION_ENTRY_TYPES"
    "Some eid \<notin> reversed_ids (get_ledger_entries db rid)"
    by (auto simp: reverse_action_def bindE_simps split: option.splits if_splits)
  let ?app = "append_ledger_entry env db rid ACTION_REVERSED (le_player_id original) (le_amount original)
     (reason_detail reason) (Some eid) dealer"
  let ?n = "get_or (le_amount original) 0"
  let ?db2 = "case truthy (le_player_id original) of
      Some pid \<Rightarrow> if ?n > 0 then put_round (r\<lparr>r_pot_amount := max 0 (r_pot_amount r - ?n)\<rparr>)
          (put_round_players (update_first (\<lambda>p. rp_player_id p = pid) (give_back ?n) (get_round_players (snd ?app) rid)) (snd ?app))
        else snd ?app
    | None \<Rightarrow> snd ?app"
  from assms(1) o have e: "entry = fst ?app" "db' = emit_correction_event env r (fst ?app) ?db2" "db_ok db'"
    by (auto simp: reverse_action_def bindE_simps Let_def case_prod_unfold simp del: append_reads)
  have "fetch_round db' rid = Inr (r\<lparr>r_pot_amount := max 0 (r_pot_amount r - n)\<rparr>) \<and>
      get_round_players db' rid = update_first (\<lambda>p. rp_player_id p = pid) (give_back n) ?ps"
    if "truthy (le_player_id original) = Some pid" "le_amount original = Some n" "0 < n" for pid n
  proof -
    have "?db2 = put_round (r\<lparr>r_pot_amount := max 0 (r_pot_amount r - n)\<rparr>)
        (put_round_players (update_first (\<lambda>p. rp_player_id p = pid) (give_back n) ?ps) (snd ?app))"
      using that by (simp add: get_or_def)
    moreover have "get_round_players (put_round_players (update_first (\<lambda>p. rp_player_id p = pid) (give_back n) ?ps) (snd ?app)) rid =
        update_first (\<lambda>p. rp_player_id p = pid) (give_back n) ?ps"
      using db_ok_round_rows [OF assms(2)] by (intro get_put_updated [OF assms(2)]) simp_all
    moreover have "fetch_round (put_round (r\<lparr>r_pot_amount := max 0 (r_pot_amount r - n)\<rparr>)
        (put_round_players (update_first (\<lambda>p. rp_player_id p = pid) (give_back n) ?ps) (snd ?app))) rid =
        Inr (r\<lparr>r_pot_amount := max 0 (r_pot_amount r - n)\<rparr>)"
      using o(1) rounds.fetch_key [OF o(1)] by (intro rounds.fetch_put [of _ _ r]) simp_all
    ultimately show ?thesis unfolding e(2) by simp
  qed
  moreover have "db_ledger db' = db_ledger db @ [entry]"
    unfolding e(2,1) by (simp add: append_ledger_table split: option.splits)
  moreover have "le_player_id entry = le_player_id original" "le_amount entry = le_amount original"
    unfolding e(1) by (simp_all add: append_ledger_entry_def uuid4_def Let_def)
  ultimately show ?thesis
    using o e(3) by (intro that [of r original]) (simp_all add: e(1) append_ledger_table)
qed

lemma sum_stacks_update:
  assumes "List.find (\<lambda>p. rp_player_id p = pid) ps = Some p" and "\<And>q. rp_stack_remaining (f q) = rp_stack_remaining q + n"
  shows "sum_list (map rp_stack_remaining (update_first (\<lambda>p. rp_player_id p = pid) f ps)) =
    sum_list (map rp_stack_remaining ps) + n"
  using sum_update_first [OF assms(1), of rp_stack_remaining f] assms(2) by simp

lemma correct_payout_cases:
  assumes "correct_payout env db rid old old_n new new_n dealer reason = Inr (entry, db')" and "db_ok db"
  shows "is_ok (fetch_round db rid)" "fetch_round db' rid = fetch_round db rid" "db_ok db'"
    "get_round_players db' rid = update_first (\<lambda>p. rp_player_id p = new) (add_chips new_n)
       (update_first (\<lambda>p. rp_player_id p = old) (add_chips (- old_n)) (get_round_players db rid))"
    "\<exists>e. ledger_rows db' rid = ledger_rows db rid @ [e] \<and> lr_entry_type e = PAYOUT_CORRECTED \<and>
       lr_player_id e = Some new \<and> lr_amount e = Some new_n \<and>
       (\<exists>d. lr_detail e = Some d \<and> d_old_player_id d = Some old \<and> d_old_amount d = Some old_n)"
proof -
  let ?ps = "get_round_players db rid"
  let ?ps2 = "update_first (\<lambda>p. rp_player_id p = new) (add_chips new_n)
    (update_first (\<lambda>p. rp_player_id p = old) (add_chips (- old_n)) ?ps)"
  let ?app = "append_ledger_entry env db rid PAYOUT_CORRECTED (Some new) (Some new_n)
            (Some \<lparr>d_street = None, d_old_player_id = Some old, d_old_amount = Some old_n,
                   d_other = [(''reason'', JStr_opt reason)]\<rparr>) None dealer"
  from assms(1) obtain r where r: "fetch_round db rid = Inr r"
    and e: "db' = emit_correction_event env r (fst ?app) (put_round_players ?ps2 (snd ?app))" "db_ok db'"
    by (auto simp: correct_payout_def bindE_simps Let_def case_prod_unfold)
  show "is_ok (fetch_round db rid)" "fetch_round db' rid = fetch_round db rid" "db_ok db'"
    using r e by simp_all
  have "get_round_players (put_round_players ?ps2 (snd ?app)) rid = ?ps2"
    using db_ok_round_rows [OF assms(2)] by (intro get_put_round_players) (simp_all add: map_update_first)
  then show "get_round_players db' rid = ?ps2" unfolding e(1) by simp
  show "\<exists>e. ledger_rows db' rid = ledger_rows db rid @ [e] \<and> lr_entry_type e = PAYOUT_CORRECTED \<and>
       lr_player_id e = Some new \<and> lr_amount e = Some new_n \<and>
       (\<exists>d. lr_detail e = Some d \<and> d_old_player_id d = Some old \<and> d_old_amount d = Some old_n)"
    unfolding e(1) emit_correction_frame read_frame append_ledger_rows by simp
qed

lemma reopen_hand_cases:
  assumes "reopen_hand env db rid dealer reason = Inr (entry, db')"
  obtains r where "fetch_round db rid = Inr r" "r_status r = ROUND_COMPLETED" "fetch_round db' rid = Inr (reopen_round r)"
    "get_round_players db' rid = get_round_players db rid" "db_ok db'"
    "db_rounds db' = put_row r_round_id (reopen_round r) (db_rounds db)" "db_games db' = db_games db"
proof -
  let ?app = "\<lambda>r. append_ledger_entry env (put_round (reopen_round r) db) rid HAND_REOPENED None None
    (reason_detail reason) None dealer"
  obtain r where r: "fetch_round db rid = Inr r" using assms by (auto simp: reopen_hand_def bindE_simps)
  have st: "r_status r = ROUND_COMPLETED"
  proof (rule ccontr)
    assume "r_status r \<noteq> ROUND_COMPLETED"
    with assms r show False by (simp add: reopen_hand_def)
  qed
  have "bindE (commit (emit_correction_event env (reopen_round r) (fst (?app r)) (snd (?app r)))) (\<lambda>db2. Inr (fst (?app r), db2)) =
      Inr (entry, db')"
    using assms r st by (simp add: reopen_hand_def Let_def case_prod_unfold)
  then have db': "db' = emit_correction_event env (reopen_round r) (fst (?app r)) (snd (?app r))" and ok: "db_ok db'"
    unfolding bindE_eq_Inr commit_Inr by blast+
  have "fetch_round (put_round (reopen_round r) db) rid = Inr (reopen_round r)"
    using rounds.fetch_put [OF r(1)] rounds.fetch_key [OF r(1)] by (simp add: reopen_round_def)
  then have "fetch_round db' rid = Inr (reopen_round r)" "get_round_players db' rid = get_round_players db rid"
    unfolding db' by simp_all
  moreover have "db_rounds db' = put_row r_round_id (reopen_round r) (db_rounds db)" "db_games db' = db_games db"
    unfolding db' by (simp_all add: put_round_def)
  ultimately show ?thesis using r st ok that by blast
qed

section \<open>Paying twice\<close>

lemma contributions_paid [simp]: "map contribution_of (paid_rows payouts ps) = map contribution_of ps"
  by (simp add: paid_rows_def contribution_of_def)

lemma resolve_hand_sums:
  assumes "db_ok db" and "resolve_hand env db rid payouts = Inr (resp, db')"
    and "calculate_side_pots (map contribution_of (get_round_players db rid)) \<noteq> []"
  shows "get_round_players db' rid = paid_rows payouts (get_round_players db rid)"
    "sum_list (map rp_stack_remaining (get_round_players db' rid)) =
       sum_list (map rp_stack_remaining (get_round_players db rid)) + total_paid payouts" "db_ok db'"
proof -
  let ?ps = "get_round_players db rid"
  from assms(2) have "get_round_players db' rid = paid_rows payouts ?ps \<and> db_ok db' \<and>
    sum_list (map (\<lambda>i. paid_to i payouts) (map rp_player_id ?ps)) = total_paid payouts"
  proof (rule resolve_hand_cases)
    fix r game rc
    assume r: "fetch_round db rid = Inr r" and g: "fetch_game db (r_game_id r) = Inr game"
      and val: "\<exists>pots. validate_payouts_against_side_pots ?ps payouts (r_pot_amount r) = Inr pots"
      and st: "settle env db r ?ps game rc payouts = Inr db'" and ok': "db_ok db'"
    obtain pots where pots: "validate_payouts_against_side_pots ?ps payouts (r_pot_amount r) = Inr pots" using val by blast
    then have "pots \<noteq> []" using assms(3) validate_ok_iff [OF refl, of ?ps payouts "r_pot_amount r" pots] by simp
    note win = winners_in_hand [OF pots this]
    have dist: "distinct (map rp_player_id ?ps)"
      using get_round_players_distinct(1) [OF db_ok_round_rows [OF assms(1)]] .
    have "sum_list (map (\<lambda>i. paid_to i payouts) (map rp_player_id ?ps)) = total_paid payouts"
      by (rule sum_paid_to [OF dist]) (use win in force)
    moreover from assms(1) r g refl st have "get_round_players db' rid = paid_rows payouts ?ps" by (rule settle_effect)
    ultimately show ?thesis using ok' by simp
  qed
  then show "get_round_players db' rid = paid_rows payouts ?ps" "db_ok db'"
    "sum_list (map rp_stack_remaining (get_round_players db' rid)) =
       sum_list (map rp_stack_remaining ?ps) + total_paid payouts"
    by (simp_all add: paid_rows_def comp_def sum_list_map_add)
qed


section \<open>Properties\<close>

text \<open>A bet that is reversed, and a settled hand that is corrected, reopened and settled again.\<close>

definition undo_bet :: "(HandLedgerEntry \<times> GameDb) result" where
  "undo_bet = reverse_action example_env (snd example_placed) ''r'' ''u1'' None None"

definition bet_original :: HandLedgerEntry where
  "bet_original = bet_entry example_env example_db (bet_request ''a'') (fst example_acted)"

lemma undo_bet_ok:
  "reverse_action example_env (snd example_placed) ''r'' ''u1'' None None = Inr (fst (the_ok undo_bet), snd (the_ok undo_bet))"
proof -
  have "is_ok undo_bet" by code_simp
  from is_okD [OF this] show ?thesis by (simp add: undo_bet_def)
qed

definition moved_payout :: "(HandLedgerEntry \<times> GameDb) result" where
  "moved_payout = correct_payout example_env settled_db ''u0'' ''a'' 3 ''b'' 3 None None"

definition undo_payout :: "(HandLedgerEntry \<times> GameDb) result" where
  "undo_payout = reverse_action example_env settled_db ''u0'' ''u5'' None None"

definition reopened :: "(HandLedgerEntry \<times> GameDb) result" where
  "reopened = reopen_hand example_env settled_db ''u0'' None None"

definition paid_twice :: "(ResolveHandResponse \<times> GameDb) result" where
  "paid_twice = resolve_hand example_env (snd (the_ok reopened)) ''u0'' example_payouts"

text \<open>
  C35: reversing a bet takes it back out of the recorded pot. When a successful
  \<^verbatim>\<open>reverse_action\<close> names a blind, ante or bet whose amount is positive and covered by the
  player's commitment to the hand and by the round's recorded pot, the amount moves from
  that pot and that commitment to the player's stack (his commitment to the street falls
  with it, not below zero); every other row and every other
  column of the hand stays as it was, and rows and ledger still agree. The recorded pot
  keeps its amount when it is paid out, so after a settlement the same reversal adds chips
  that were already paid (lemma \<open>reversal_after_payout_makes_chips\<close>).
\<close>

theorem reverse_bet_undoes:
  assumes "db_ok db" and "reverse_action env db rid eid dealer reason = Inr (entry, db')"
    and "get_ledger_entry_by_id db eid = Inr (Some original)"
    and "le_entry_type original \<in> {BLIND_POSTED, ANTE_POSTED, BET_PLACED}"
    and "le_player_id original = Some pid" and "le_amount original = Some n" and "0 < n"
    and "fetch_round db rid = Inr r" and "ledger_agrees db rid"
    and "List.find (\<lambda>p. rp_player_id p = pid) (get_round_players db rid) = Some p"
    and "n \<le> rp_committed_this_hand p" and "n \<le> r_pot_amount r"
  shows "fetch_round db' rid = Inr (r\<lparr>r_pot_amount := r_pot_amount r - n\<rparr>) \<and>
    get_round_players db' rid = map (\<lambda>q. if rp_player_id q = pid
      then q\<lparr>rp_stack_remaining := rp_stack_remaining q + n,
             rp_committed_this_street := max 0 (rp_committed_this_street q - n),
             rp_committed_this_hand := rp_committed_this_hand q - n\<rparr> else q) (get_round_players db rid) \<and>
    sum_list (map rp_stack_remaining (get_round_players db' rid)) =
      sum_list (map rp_stack_remaining (get_round_players db rid)) + n \<and>
    ledger_agrees db' rid \<and> db_ok db'"
  using assms(2,1)
proof (rule reverse_action_cases)
  let ?ps = "get_round_players db rid" and ?s = "rebuild_hand_state (ledger_rows db rid)"
  fix r0 o'
  assume o: "fetch_round db rid = Inr r0" "get_ledger_entry_by_id db eid = Inr (Some o')" "db_ok db'"
    "db_ledger db' = db_ledger db @ [entry]" "le_round_id entry = rid" "le_entry_type entry = ACTION_REVERSED"
    "le_player_id entry = le_player_id o'" "le_amount entry = le_amount o'"
    and rows0: "\<And>pid n. truthy (le_player_id o') = Some pid \<Longrightarrow> le_amount o' = Some n \<Longrightarrow> 0 < n \<Longrightarrow>
       fetch_round db' rid = Inr (r0\<lparr>r_pot_amount := max 0 (r_pot_amount r0 - n)\<rparr>) \<and>
       get_round_players db' rid = update_first (\<lambda>p. rp_player_id p = pid) (give_back n) ?ps"
  have eq: "o' = original" "r0 = r" using o(1,2) assms(3,8) by simp_all
  have led: "\<And>q. q \<in> set ?ps \<Longrightarrow> rp_player_id q \<noteq> [] \<and> committed_by (rp_player_id q) ?s = rp_committed_this_hand q"
    "hs_pot_total ?s = r_pot_amount r"
    using assms(8,9) by (auto simp: ledger_agrees_def Let_def list_all_iff)
  have p: "p \<in> set ?ps" "rp_player_id p = pid" using find_Some_mem [OF assms(10)] by simp_all
  then have pid: "pid \<noteq> []" using led(1) by blast
  have rows: "fetch_round db' rid = Inr (r\<lparr>r_pot_amount := r_pot_amount r - n\<rparr>)"
    "get_round_players db' rid = update_first (\<lambda>p. rp_player_id p = pid) (give_back n) ?ps"
    using rows0 [of pid n] assms(5-7,12) pid by (simp_all add: eq)
  have dist: "distinct (map rp_player_id ?ps)" using get_round_players_distinct(1) [OF db_ok_round_rows [OF assms(1)]] .
  have s': "rebuild_hand_state (ledger_rows db' rid) = apply_entry ?s (ledger_row entry)"
    using ledger_rows_snoc [OF o(4,5)] by (simp add: rebuild_snoc)
  have delta: "pot_delta (ledger_row entry) = - n" "lr_player_id (ledger_row entry) = Some pid"
    using o(6-8) assms(5,6) by (simp_all add: pot_delta_def ledger_row_def amount_or_0_def eq)
  have "rp_player_id q \<noteq> [] \<and> committed_by (rp_player_id q) (apply_entry ?s (ledger_row entry)) = rp_committed_this_hand q"
    if "q \<in> set (get_round_players db' rid)" for q
  proof -
    from that obtain q0 where q0: "q0 \<in> set ?ps" "q = (if rp_player_id q0 = pid then give_back n q0 else q0)"
      unfolding rows(2) update_first_map_if [OF dist] by auto
    show ?thesis
    proof (cases "rp_player_id q0 = pid")
      case True
      then have "q0 = p" using distinct_key_eq [OF dist q0(1) p(1)] p(2) by simp
      with True q0 led(1) [OF q0(1)] assms(11) pid show ?thesis by (simp add: apply_entry_committed delta)
    next
      case False
      with q0 led(1) [OF q0(1)] pid show ?thesis by (simp add: apply_entry_committed delta)
    qed
  qed
  then have "ledger_agrees db' rid"
    unfolding ledger_agrees_def rows(1) s' using led(2) by (simp add: Let_def list_all_iff apply_entry_pot delta)
  moreover have "get_round_players db' rid = map (\<lambda>q. if rp_player_id q = pid
      then q\<lparr>rp_stack_remaining := rp_stack_remaining q + n,
             rp_committed_this_street := max 0 (rp_committed_this_street q - n),
             rp_committed_this_hand := rp_committed_this_hand q - n\<rparr> else q) ?ps"
  proof -
    have "give_back n q = q\<lparr>rp_stack_remaining := rp_stack_remaining q + n,
        rp_committed_this_street := max 0 (rp_committed_this_street q - n),
        rp_committed_this_hand := rp_committed_this_hand q - n\<rparr>" if "q \<in> set ?ps" "rp_player_id q = pid" for q
      using distinct_key_eq [OF dist that(1) p(1)] that(2) p(2) assms(11) by (simp add: give_back_def)
    then show ?thesis unfolding rows(2) update_first_map_if [OF dist] by simp
  qed
  moreover have "sum_list (map rp_stack_remaining (get_round_players db' rid)) = sum_list (map rp_stack_remaining ?ps) + n"
    unfolding rows(2) by (rule sum_stacks_update [OF assms(10)]) simp
  ultimately show ?thesis using rows(1) o(3) by blast
qed

theorem reverse_bet_undoes_witness: "ledger_agrees (snd (the_ok undo_bet)) ''r'' \<and> db_ok (snd (the_ok undo_bet))"
proof -
  let ?db = "snd example_placed"
  have "get_ledger_entry_by_id ?db ''u1'' = Inr (Some bet_original)" "le_entry_type bet_original = BET_PLACED"
    "le_player_id bet_original = Some ''a''" "le_amount bet_original = Some 30"
    "fetch_round ?db ''r'' = Inr (fst (snd example_acted))" "ledger_agrees ?db ''r''"
    "List.find (\<lambda>p. rp_player_id p = ''a'') (get_round_players ?db ''r'') = Some (snd (snd example_acted) ! 0)"
    "30 \<le> rp_committed_this_hand (snd (snd example_acted) ! 0)" "30 \<le> r_pot_amount (fst (snd example_acted))"
    by code_simp+
  from reverse_bet_undoes [OF example_placed_db_ok undo_bet_ok this(1) _ this(3,4) _ this(5-9)] this(2)
  show ?thesis by auto
qed

text \<open>
  A settled hand can still be reversed into. The recorded pot keeps its amount when it is
  paid out; so after a settlement that paid the whole pot, and put the 240 chips of the
  hand back into the stacks, reversing a blind succeeds, ledger and rows still agree, and
  the stacks hold more chips than were brought to the hand.
\<close>

definition reversed_late :: "(HandLedgerEntry \<times> GameDb) result" where
  "reversed_late = reverse_action example_env (snd (the_ok paid_hand)) ''u0'' ''u1'' None None"

lemma reversal_after_payout_makes_chips:
  "is_ok reversed_late"
  "mapE r_status (fetch_round (snd (the_ok paid_hand)) ''u0'') = Inr ROUND_COMPLETED"
  "sum_list (map rp_stack_remaining (get_round_players (snd (the_ok paid_hand)) ''u0'')) = 240"
  "sum_list (map rp_stack_remaining (get_round_players (snd (the_ok reversed_late)) ''u0'')) = 246"
  "ledger_agrees (snd (the_ok reversed_late)) ''u0''"
  by code_simp+

text \<open>
  Nothing is reversed twice. After a successful \<^verbatim>\<open>reverse_action\<close> the same entry is
  refused in every later state of the tables that still holds the ledger.
\<close>

theorem reverse_action_once:
  assumes "db_ok db" and "reverse_action env db rid eid dealer reason = Inr (entry, db')"
    and "db_ok later" and "db_ledger later = db_ledger db' @ rest" and "is_ok (fetch_round later rid)"
  shows "reverse_action env' later rid eid dealer' reason' = raise EntryAlreadyReversed ENTRY_ALREADY_REVERSED"
  using assms(2,1)
proof (rule reverse_action_cases)
  fix r original
  assume o: "get_ledger_entry_by_id db eid = Inr (Some original)" "le_round_id original = rid"
    "le_entry_type original \<notin> CORRECTION_ENTRY_TYPES" "db_ledger db' = db_ledger db @ [entry]" "le_round_id entry = rid"
    "le_entry_type entry = ACTION_REVERSED" "le_original_entry_id entry = Some eid"
  have orig: "original \<in> set (db_ledger db)" "le_entry_id original = eid"
    using o(1) by (auto simp: get_ledger_entry_by_id_def scalar_some filter_eq_Cons_iff)
  have "distinct (map le_entry_id (db_ledger later))" using assms(3) by (simp add: db_ok_def unique_ok_def)
  from find_key_unique [OF this, of original eid] fetch_or_raise_unique [OF this, of eid LEDGER_ENTRY_NOT_FOUND]
  have "fetch_or_raise (\<lambda>e. le_entry_id e = eid) (db_ledger later) LEDGER_ENTRY_NOT_FOUND = Inr original"
    using orig assms(4) o(4) by simp
  then have "get_ledger_entry_by_id later eid = Inr (Some original)"
    by (simp add: get_ledger_entry_by_id_def scalar_some fetch_or_raise_Inr)
  moreover have "Some eid \<in> reversed_ids (get_ledger_entries later rid)"
    using o(5-7) by (force simp: reversed_ids_def get_ledger_entries_def assms(4) o(4))
  moreover obtain r' where "fetch_round later rid = Inr r'" using assms(5) by (auto simp: is_ok_iff)
  ultimately show ?thesis using o(2,3) by (simp add: reverse_action_def)
qed

theorem reverse_action_once_witness:
  "reverse_action example_env (snd (the_ok undo_bet)) ''r'' ''u1'' None None = raise EntryAlreadyReversed ENTRY_ALREADY_REVERSED"
proof -
  have "db_ok (snd (the_ok undo_bet))" "is_ok (fetch_round (snd (the_ok undo_bet)) ''r'')" by code_simp+
  then show ?thesis
    using reverse_action_once [OF example_placed_db_ok undo_bet_ok, of "snd (the_ok undo_bet)" "[]"] by simp
qed

text \<open>
  A payout correction moves what it says. A successful \<^verbatim>\<open>correct_payout\<close> between two
  different players of the hand takes the old amount from one stack and adds the new
  amount to the other; every other stack, the pot and the round stay as they were; and
  the ledger's winnings move with the chips.
\<close>

theorem correct_payout_moves:
  assumes "db_ok db" and "correct_payout env db rid old old_n new new_n dealer reason = Inr (entry, db')"
    and "old \<noteq> new" and "old \<noteq> []" and "new \<noteq> []"
  shows "fetch_round db' rid = fetch_round db rid \<and>
    map rp_stack_remaining (get_round_players db' rid) =
      map (\<lambda>p. rp_stack_remaining p - (if rp_player_id p = old then old_n else 0) +
        (if rp_player_id p = new then new_n else 0)) (get_round_players db rid) \<and>
    won_by old (get_hand_state db' rid) = won_by old (get_hand_state db rid) - old_n \<and>
    won_by new (get_hand_state db' rid) = won_by new (get_hand_state db rid) + new_n \<and>
    hs_pot_total (get_hand_state db' rid) = hs_pot_total (get_hand_state db rid) \<and> db_ok db'"
proof -
  let ?ps = "get_round_players db rid"
  note c = correct_payout_cases [OF assms(2,1)]
  have dist: "distinct (map rp_player_id ?ps)" using get_round_players_distinct(1) [OF db_ok_round_rows [OF assms(1)]] .
  have step1: "update_first (\<lambda>p. rp_player_id p = old) (add_chips (- old_n)) ?ps =
      map (\<lambda>p. if rp_player_id p = old then add_chips (- old_n) p else p) ?ps" (is "_ = ?ps1")
    by (rule update_first_map_if [OF dist])
  have "map rp_player_id ?ps1 = map rp_player_id ?ps" by (simp add: comp_def if_distrib cong: if_cong)
  with dist have "distinct (map rp_player_id ?ps1)" by (simp only:)
  from update_first_map_if [OF this, of new "add_chips new_n"]
  have rows: "map rp_stack_remaining (get_round_players db' rid) =
      map (\<lambda>p. rp_stack_remaining p - (if rp_player_id p = old then old_n else 0) +
        (if rp_player_id p = new then new_n else 0)) ?ps"
    unfolding c(4) step1 using assms(3) by (auto simp: comp_def)
  from c(5) obtain e d where e: "ledger_rows db' rid = ledger_rows db rid @ [e]" "lr_entry_type e = PAYOUT_CORRECTED"
    "lr_player_id e = Some new" "lr_amount e = Some new_n" "lr_detail e = Some d" "d_old_player_id d = Some old"
    "d_old_amount d = Some old_n" by blast
  have "won_delta old e = - old_n" "won_delta new e = new_n" "pot_delta e = 0"
    using e(2-7) assms(3-5) by (simp_all add: won_delta_def pot_delta_def amount_or_0_def)
  with e(1) rows c(2,3) show ?thesis
    by (simp add: get_hand_state_def rebuild_snoc apply_entry_won apply_entry_pot)
qed

theorem correct_payout_moves_witness:
  "won_by ''b'' (get_hand_state (snd (the_ok moved_payout)) ''u0'') = won_by ''b'' (get_hand_state settled_db ''u0'') + 3 \<and>
   db_ok (snd (the_ok moved_payout))"
proof -
  have "is_ok moved_payout" by code_simp
  from is_okD [OF this]
  have "correct_payout example_env settled_db ''u0'' ''a'' 3 ''b'' 3 None None =
      Inr (fst (the_ok moved_payout), snd (the_ok moved_payout))" by (simp add: moved_payout_def)
  from correct_payout_moves [OF settled_db_ok this] show ?thesis by simp
qed

text \<open>
  Reversing a payout mints chips. \<^verbatim>\<open>reverse_action\<close> also accepts a PAYOUT_AWARDED entry,
  and treats it like a bet: the winner's stack, which the payout had already raised, grows
  by the amount a second time.
\<close>

theorem reversed_payout_pays_again:
  assumes "db_ok db" and "reverse_action env db rid eid dealer reason = Inr (entry, db')"
    and "get_ledger_entry_by_id db eid = Inr (Some original)" and "le_entry_type original = PAYOUT_AWARDED"
    and "le_player_id original = Some (c # cs)" and "le_amount original = Some n" and "0 < n"
    and "List.find (\<lambda>p. rp_player_id p = c # cs) (get_round_players db rid) = Some p"
  shows "sum_list (map rp_stack_remaining (get_round_players db' rid)) =
      sum_list (map rp_stack_remaining (get_round_players db rid)) + n \<and>
    List.find (\<lambda>p. rp_player_id p = c # cs) (get_round_players db' rid) = Some (give_back n p) \<and>
    won_by (c # cs) (get_hand_state db' rid) = won_by (c # cs) (get_hand_state db rid)"
  using assms(2,1)
proof (rule reverse_action_cases)
  let ?ps = "get_round_players db rid"
  fix r o'
  assume o: "get_ledger_entry_by_id db eid = Inr (Some o')" "db_ledger db' = db_ledger db @ [entry]" "le_round_id entry = rid"
      "le_entry_type entry = ACTION_REVERSED"
    and rows0: "\<And>pid n. truthy (le_player_id o') = Some pid \<Longrightarrow> le_amount o' = Some n \<Longrightarrow> 0 < n \<Longrightarrow>
       fetch_round db' rid = Inr (r\<lparr>r_pot_amount := max 0 (r_pot_amount r - n)\<rparr>) \<and>
       get_round_players db' rid = update_first (\<lambda>p. rp_player_id p = pid) (give_back n) ?ps"
  have "o' = original" using o(1) assms(3) by simp
  then have rows: "get_round_players db' rid = update_first (\<lambda>p. rp_player_id p = c # cs) (give_back n) ?ps"
    using rows0 [of "c # cs" n] assms(5-7) by simp
  have "won_delta (c # cs) (ledger_row entry) = 0" using o(4) by (simp add: won_delta_def ledger_row_def)
  then have "won_by (c # cs) (get_hand_state db' rid) = won_by (c # cs) (get_hand_state db rid)"
    using ledger_rows_snoc [OF o(2,3)] by (simp add: get_hand_state_def rebuild_snoc apply_entry_won)
  moreover have "sum_list (map rp_stack_remaining (get_round_players db' rid)) = sum_list (map rp_stack_remaining ?ps) + n"
    unfolding rows by (rule sum_stacks_update [OF assms(8)]) simp
  moreover have "List.find (\<lambda>p. rp_player_id p = c # cs) (get_round_players db' rid) = Some (give_back n p)"
    unfolding rows using find_update_first [OF assms(8)] find_Some_mem [OF assms(8)] by simp
  ultimately show ?thesis by simp
qed

theorem reversed_payout_pays_again_witness:
  "sum_list (map rp_stack_remaining (get_round_players (snd (the_ok undo_payout)) ''u0'')) =
    sum_list (map rp_stack_remaining (get_round_players settled_db ''u0'')) + 3"
proof -
  have "is_ok undo_payout" by code_simp
  from is_okD [OF this] have ok: "reverse_action example_env settled_db ''u0'' ''u5'' None None =
      Inr (fst (the_ok undo_payout), snd (the_ok undo_payout))" by (simp add: undo_payout_def)
  let ?o = "the (the_ok (get_ledger_entry_by_id settled_db ''u5''))"
  let ?p = "the (List.find (\<lambda>p. rp_player_id p = ''a'') (get_round_players settled_db ''u0''))"
  have "get_ledger_entry_by_id settled_db ''u5'' = Inr (Some ?o)" "le_entry_type ?o = PAYOUT_AWARDED"
    "le_player_id ?o = Some ''a''" "le_amount ?o = Some 3"
    "List.find (\<lambda>p. rp_player_id p = ''a'') (get_round_players settled_db ''u0'') = Some ?p"
    by code_simp+
  from reversed_payout_pays_again [OF settled_db_ok ok this(1-4) _ this(5)] show ?thesis by simp
qed

text \<open>
  A reopened hand is paid again. \<^verbatim>\<open>reopen_hand\<close> leaves the stacks and the pot as the
  settlement left them, so a second settlement of the same round pays the same pot a
  second time: the stacks have then grown by both payouts.
\<close>

theorem reopened_hand_pays_again:
  assumes "db_ok db" and "fetch_round db rid = Inr r" and "hand_ok r (get_round_players db rid)"
    and "resolve_hand env db rid payouts = Inr (resp, db1)" and "ResolveHandRequest_ck payouts"
    and "reopen_hand env' db1 rid dealer reason = Inr (entry, db2)"
    and "resolve_hand env'' db2 rid payouts' = Inr (resp', db3)"
  shows "sum_list (map rp_stack_remaining (get_round_players db3 rid)) =
    sum_list (map rp_stack_remaining (get_round_players db rid)) + total_paid payouts + total_paid payouts'"
proof -
  let ?ps = "get_round_players db rid"
  have "total_paid payouts \<le> r_pot_amount r" using assms(4,2) by (auto elim!: resolve_hand_cases)
  then have pots: "calculate_side_pots (map contribution_of ?ps) \<noteq> []"
    using no_pots_no_chips [OF hand_ok_balance [OF assms(3)]] request_total [OF assms(5)] by auto
  note one = resolve_hand_sums [OF assms(1,4) pots]
  from assms(6) obtain "get_round_players db2 rid = get_round_players db1 rid" "db_ok db2" by (rule reopen_hand_cases)
  then show ?thesis
    using resolve_hand_sums(2) [OF _ assms(7)] pots one(1,2) by simp
qed

theorem reopened_hand_pays_again_witness:
  "sum_list (map rp_stack_remaining (get_round_players (snd (the_ok paid_twice)) ''u0'')) =
    sum_list (map rp_stack_remaining (get_round_players dealt_db ''u0'')) + 6"
proof -
  have "is_ok reopened" "is_ok paid_twice" by code_simp+
  note ok = this [THEN is_okD]
  have runs: "reopen_hand example_env settled_db ''u0'' None None = Inr (fst (the_ok reopened), snd (the_ok reopened))"
    "resolve_hand example_env (snd (the_ok reopened)) ''u0'' example_payouts =
      Inr (fst (the_ok paid_twice), snd (the_ok paid_twice))"
    using ok by (simp_all add: reopened_def paid_twice_def)
  have "ResolveHandRequest_ck example_payouts" "total_paid example_payouts = 3" by code_simp+
  then show ?thesis
    using reopened_hand_pays_again [OF dealt_db_ok dealt_reads(1) dealt_hand_ok resolved _ runs] by simp
qed

text \<open>
  Reopening a hand can block the game. If another round of the game is active,
  reopening a completed one leaves two active rounds; the query for the active round then
  raises, and with it every attempt to start a round.
\<close>

theorem reopen_hand_blocks_game:
  assumes "db_ok db" and "reopen_hand env db rid dealer reason = Inr (entry, db')" and "fetch_round db rid = Inr r"
    and "get_active_round db (r_game_id r) = Inr (Some r2)" and "r_round_id r2 \<noteq> rid"
    and "fetch_game db (r_game_id r) = Inr game" and "g_status game = ACTIVE"
  shows "start_round env' db' (r_game_id r) data = Inl MultipleResultsFound"
  using assms(2)
proof (rule reopen_hand_cases)
  fix r0
  assume o: "fetch_round db rid = Inr r0" "db_rounds db' = put_row r_round_id (reopen_round r0) (db_rounds db)"
    "db_games db' = db_games db" "fetch_round db' rid = Inr (reopen_round r0)"
  let ?act = "\<lambda>x. r_game_id x = r_game_id r \<and> r_status x = ROUND_ACTIVE"
  have r0: "r0 = r" using o(1) assms(3) by simp
  have "reopen_round r \<in> set (db_rounds db')"
    using o(4) by (auto simp: r0 fetch_round_def fetch_or_raise_Inr filter_eq_Cons_iff)
  then have one: "reopen_round r \<in> set (filter ?act (db_rounds db'))" by (simp add: reopen_round_def)
  have "r2 \<in> set (db_rounds db)" "?act r2"
    using assms(4) by (auto simp: get_active_round_def scalar_some filter_eq_Cons_iff)
  moreover have "r_round_id (reopen_round r) = rid" using rounds.fetch_key [OF assms(3)] by (simp add: reopen_round_def)
  ultimately have two: "r2 \<in> set (filter ?act (db_rounds db'))" and ne: "r2 \<noteq> reopen_round r"
    using assms(5) by (auto simp: o(2) r0 put_row_def intro: rev_image_eqI)
  have "scalar_one_or_none (filter ?act (db_rounds db')) = Inl MultipleResultsFound"
    using one two ne by (cases "filter ?act (db_rounds db')" rule: scalar_one_or_none.cases) auto
  moreover have "fetch_game db' (r_game_id r) = Inr game" using assms(6) o(3) by (simp add: fetch_game_def)
  ultimately show ?thesis using assms(7) by (simp add: start_round_def get_active_round_def)
qed

definition second_round :: GameDb where
  "second_round = settled_db\<lparr>db_rounds := db_rounds settled_db @ [first_round\<lparr>r_round_id := ''x'', r_round_number := 2\<rparr>]\<rparr>"

theorem reopen_hand_blocks_game_witness:
  "start_round example_env (snd (the_ok (reopen_hand example_env second_round ''u0'' None None))) ''g'' by_controller =
    Inl MultipleResultsFound"
proof -
  let ?R = "reopen_hand example_env second_round ''u0'' None None"
  let ?r = "complete_round example_env first_round"
  have "is_ok ?R" "is_ok (fetch_game second_round ''g'')" by code_simp+
  note ok = this [THEN is_okD]
  have run: "?R = Inr (fst (the_ok ?R), snd (the_ok ?R))" using ok(1) by simp
  have "db_ok second_round" by code_simp
  moreover have "fetch_round second_round ''u0'' = Inr ?r" "r_game_id ?r = ''g''"
    "get_active_round second_round ''g'' = Inr (Some (first_round\<lparr>r_round_id := ''x'', r_round_number := 2\<rparr>))"
    "r_round_id (first_round\<lparr>r_round_id := ''x'', r_round_number := 2\<rparr>) \<noteq> ''u0''"
    "g_status (the_ok (fetch_game second_round ''g'')) = ACTIVE" by code_simp+
  ultimately show ?thesis
    using reopen_hand_blocks_game [OF _ run, of ?r "first_round\<lparr>r_round_id := ''x'', r_round_number := 2\<rparr>"
        "the_ok (fetch_game second_round ''g'')" example_env by_controller] ok(2) by simp
qed

text \<open>
  A correction can be lost. A stack adjustment committed between the reading and the
  writing of a bet passes the bet's compare-and-swap, because corrections do not change
  the version; the bet then writes the stack it computed from the old row. The adjustment
  is in the ledger and not in the stack.
\<close>

theorem adjust_stack_lost_update:
  "\<exists>e db1 resp db2 p. place_bet_read example_db (bet_request ''a'') = Inr (example_round, example_players) \<and>
    adjust_stack example_env example_db ''r'' ''a'' 50 None None = Inr (e, db1) \<and>
    place_bet_write example_env (bet_request ''a'') (example_round, example_players) db1 = Inr (resp, db2) \<and>
    List.find (\<lambda>p. rp_player_id p = ''a'') (get_round_players db2 ''r'') = Some p \<and>
    rp_stack_remaining p = 100 - 30 \<and>
    map_option snap_stack_adjustment (dict_get (hs_players (get_hand_state db2 ''r'')) ''a'') = Some 50"
proof -
  let ?A = "adjust_stack example_env example_db ''r'' ''a'' 50 None None"
  let ?W = "place_bet_write example_env (bet_request ''a'') (example_round, example_players) (snd (the_ok ?A))"
  have "is_ok ?A" "is_ok ?W" by code_simp+
  note ok = this [THEN is_okD]
  have "map_option rp_stack_remaining (List.find (\<lambda>p. rp_player_id p = ''a'') (get_round_players (snd (the_ok ?W)) ''r'')) = Some 70"
    "map_option snap_stack_adjustment (dict_get (hs_players (get_hand_state (snd (the_ok ?W)) ''r'')) ''a'') = Some 50"
    by code_simp+
  with ok example_reads(2) show ?thesis
    by (intro exI [of _ "fst (the_ok ?A)"] exI [of _ "snd (the_ok ?A)"] exI [of _ "fst (the_ok ?W)"]
        exI [of _ "snd (the_ok ?W)"] exI [of _ "the (List.find (\<lambda>p. rp_player_id p = ''a'') (get_round_players (snd (the_ok ?W)) ''r''))"])
      (auto simp del: prod.collapse simp: prod.collapse)
qed

end
