(* ===== verification/Table_Commands.thy ===== *)
theory Table_Commands
  imports Game_Commands
begin

text \<open>
  \<^verbatim>\<open>application/commands/table_runtime_command_service.py\<close>: pausing and resuming a table,
  synchronising its hand counter and blind clock, and the status of its session. The
  dictionaries it returns have the fields of \<^verbatim>\<open>GameResponse\<close>,
  \<^verbatim>\<open>RecordHandCompletedResponse\<close> and \<^verbatim>\<open>SessionStatusResponse\<close>.
\<close>

section \<open>The service\<close>

definition table_status_of :: "GameStatus \<Rightarrow> TableStatus" where
  "table_status_of s = (case s of
     ACTIVE \<Rightarrow> RUNNING
   | WAITING \<Rightarrow> TABLE_WAITING
   | PAUSED \<Rightarrow> TABLE_PAUSED
   | FINISHED \<Rightarrow> TABLE_FINISHED)"

definition build_runtime_from_game :: "int \<Rightarrow> Game \<Rightarrow> TableSeat list \<Rightarrow> TableRuntime" where
  "build_runtime_from_game now game seats =
     \<lparr>tr_game_id = g_game_id game, tr_status = table_status_of (g_status game), tr_seats = seats,
      tr_blind_clock = \<lparr>bc_current_level = g_current_blind_level game,
        bc_level_started_at = instant (ensure_utc now (g_level_started_at game)),
        bc_hands_at_level = g_hands_at_current_level game\<rparr>,
      tr_hands_played = g_hands_played game, tr_dealer_seat = Some (g_current_dealer_seat game)\<rparr>"

definition table_seat_of :: "PlayerConfig \<Rightarrow> TableSeat" where
  "table_seat_of p = \<lparr>tseat_seat_number = cfg_seat_number p, tseat_player_id = Some (cfg_player_id p),
     tseat_status = SEAT_ACTIVE, tseat_chip_count = cfg_chip_count p, tseat_hands_sat_out = 0\<rparr>"

definition load_runtime :: "Env \<Rightarrow> GameDb \<Rightarrow> game_id \<Rightarrow> (Game \<times> TableRuntime \<times> RoomConfig) result" where
  "load_runtime env db gid =
     bindE (fetch_game db gid) (\<lambda>game.
     bindE (load_room_snapshot db gid) (\<lambda>room_config.
     Inr (game, build_runtime_from_game (env_now env) game (map table_seat_of (active_players room_config)), room_config)))"

definition pause_table :: "Env \<Rightarrow> GameDb \<Rightarrow> game_id \<Rightarrow> (GameResponse \<times> GameDb) result" where
  "pause_table env db gid =
     bindE (load_runtime env db gid) (\<lambda>(game, runtime, room_config).
     if g_status game \<noteq> ACTIVE then raise GameNotActive GAME_NOT_ACTIVE
     else
     let runtime' = pause_session runtime;
         game' = game\<lparr>g_status := PAUSED\<rparr> in
     bindE (commit (put_game game' db)) (\<lambda>db'. Inr (game_to_response game', db')))"

definition resume_table :: "Env \<Rightarrow> GameDb \<Rightarrow> game_id \<Rightarrow> (GameResponse \<times> GameDb) result" where
  "resume_table env db gid =
     bindE (load_runtime env db gid) (\<lambda>(game, runtime, room_config).
     if g_status game \<noteq> PAUSED then raise GameNotActive GAME_NOT_PAUSED
     else
     bindE (resume_session runtime) (\<lambda>runtime'.
     let game' = game\<lparr>g_status := ACTIVE\<rparr> in
     bindE (commit (put_game game' db)) (\<lambda>db'. Inr (game_to_response game', db'))))"

record RecordHandCompletedResponse =
  hcr_game_id :: game_id
  hcr_hands_played :: int
  hcr_hands_at_current_level :: int
  hcr_blind_level_advanced :: bool
  hcr_current_blind_level :: int

definition sync_hand_completed :: "Env \<Rightarrow> GameDb \<Rightarrow> game_id \<Rightarrow> (RecordHandCompletedResponse \<times> GameDb) result" where
  "sync_hand_completed env db gid =
     bindE (load_runtime env db gid) (\<lambda>(game, runtime, room_config).
     let completed_rounds = count_completed_rounds db gid;
         should_count_hand = g_hands_played game < completed_rounds;
         completion = apply_hand_completion (env_now env) game room_config should_count_hand in
     bindE (commit (put_game (store_completion completion game) db)) (\<lambda>db'.
     Inr (\<lparr>hcr_game_id = gid, hcr_hands_played = hc_hands_played completion,
           hcr_hands_at_current_level = hc_hands_at_current_level completion,
           hcr_blind_level_advanced = hc_blind_level_advanced completion,
           hcr_current_blind_level = hc_current_blind_level completion\<rparr>, db')))"

record SessionStatusResponse =
  ss_game_id :: game_id
  ss_status :: GameStatus
  ss_hands_played :: int
  ss_current_blind_level :: int
  ss_hands_at_current_level :: int
  ss_hands_until_blind_advance :: "int option"
  ss_seconds_until_blind_advance :: "int option"
  ss_max_blind_level :: int
  ss_small_blind :: "int option"
  ss_big_blind :: "int option"
  ss_ante :: int
  ss_dealer_seat :: int

text \<open>\<^verbatim>\<open>int(seconds)\<close> of a span in microseconds: towards zero.\<close>

definition whole_seconds :: "int \<Rightarrow> int" where
  "whole_seconds micros = (if 0 \<le> micros then micros div MICROS else - ((- micros) div MICROS))"

definition seconds_until :: "int \<Rightarrow> Game \<Rightarrow> RoomConfig \<Rightarrow> int option" where
  "seconds_until now game room_config =
     (case (seconds_per_level room_config (g_current_blind_level game), g_level_started_at game) of
        (Some secs, Some started) \<Rightarrow>
          if g_current_blind_level game < max_level room_config
          then let elapsed = now - instant (ensure_utc now (Some started));
                   remaining_seconds = whole_seconds (secs * MICROS - elapsed)
               in Some (max 0 remaining_seconds)
          else None
      | _ \<Rightarrow> None)"

definition get_session_status :: "Env \<Rightarrow> GameDb \<Rightarrow> game_id \<Rightarrow> SessionStatusResponse result" where
  "get_session_status env db gid =
     bindE (fetch_game db gid) (\<lambda>game.
     bindE (load_room_snapshot db gid) (\<lambda>room_config.
     let current_bl = blind_level room_config (g_current_blind_level game) in
     Inr \<lparr>ss_game_id = g_game_id game, ss_status = g_status game, ss_hands_played = g_hands_played game,
          ss_current_blind_level = g_current_blind_level game,
          ss_hands_at_current_level = g_hands_at_current_level game, ss_hands_until_blind_advance = None,
          ss_seconds_until_blind_advance = seconds_until (env_now env) game room_config,
          ss_max_blind_level = max_level room_config,
          ss_small_blind = map_option bl_small_blind current_bl, ss_big_blind = map_option bl_big_blind current_bl,
          ss_ante = (case current_bl of Some bl \<Rightarrow> ante_amount room_config bl | None \<Rightarrow> 0),
          ss_dealer_seat = g_current_dealer_seat game\<rparr>))"


section \<open>Pausing and resuming\<close>

lemma put_game_frame [simp]:
  "load_room_snapshot (put_game g db) gid = load_room_snapshot db gid"
  "count_completed_rounds (put_game g db) gid = count_completed_rounds db gid"
  "get_active_round (put_game g db) gid = get_active_round db gid"
  by (rule load_room_snapshot_frame) (simp_all add: put_game_def count_completed_rounds_def get_active_round_def)

lemma load_runtime_Inr:
  "load_runtime env db gid = Inr (game, rt, rc) \<longleftrightarrow> fetch_game db gid = Inr game \<and> load_room_snapshot db gid = Inr rc \<and>
    rt = build_runtime_from_game (env_now env) game (map table_seat_of (active_players rc))"
  by (auto simp: load_runtime_def bindE_simps)

lemma pause_tableE:
  assumes "pause_table env db gid = Inr (resp, db')"
  obtains game rc where "fetch_game db gid = Inr game" "load_room_snapshot db gid = Inr rc" "g_status game = ACTIVE"
    "db' = put_game (game\<lparr>g_status := PAUSED\<rparr>) db" "db_ok db'" "resp = game_to_response (game\<lparr>g_status := PAUSED\<rparr>)"
  using assms by (auto simp: pause_table_def bindE_simps load_runtime_Inr Let_def split: if_splits)

text \<open>
  C38: a pause can be taken back. A successful \<^verbatim>\<open>pause_table\<close> changes one thing, the status
  of an active game to PAUSED, and resuming, at any later time, gives back exactly the
  tables before the pause and a response that differs from the pause's only in its status.
  In whatever state of the tables a game is paused, starting a round, the command that
  advances the blinds and another pause are refused. The blinds of a paused table can
  still rise when a completed hand is recorded (lemma \<open>paused_blinds_rise\<close>).
\<close>

theorem pause_resume_round_trip:
  assumes "db_ok db" and "pause_table env db gid = Inr (resp, db')"
    and "fetch_game later gid = Inr halted" and "g_status halted = PAUSED"
  shows "(\<exists>game. fetch_game db gid = Inr game \<and> g_status game = ACTIVE \<and>
      fetch_game db' gid = Inr (game\<lparr>g_status := PAUSED\<rparr>) \<and> db' = db\<lparr>db_games := db_games db'\<rparr>) \<and>
    resume_table env' db' gid = Inr (resp\<lparr>gr_status := ACTIVE\<rparr>, db) \<and>
    start_round env' later gid data = raise GameNotActive GAME_NOT_ACTIVE \<and>
    advance_blinds env' later gid = raise GameNotActive GAME_NOT_ACTIVE \<and>
    \<not> is_ok (pause_table env' later gid)"
proof -
  from assms(2) obtain game rc where g: "fetch_game db gid = Inr game" and rc: "load_room_snapshot db gid = Inr rc"
    and act: "g_status game = ACTIVE" and db': "db' = put_game (game\<lparr>g_status := PAUSED\<rparr>) db"
    and resp: "resp = game_to_response (game\<lparr>g_status := PAUSED\<rparr>)"
    by (rule pause_tableE)
  have key: "g_game_id game = gid" using games.fetch_key [OF g] .
  have g': "fetch_game db' gid = Inr (game\<lparr>g_status := PAUSED\<rparr>)"
    unfolding db' using games.fetch_after_update [OF g, of "\<lambda>g. g\<lparr>g_status := PAUSED\<rparr>"] by simp
  have run: "load_runtime env' db' gid = Inr (game\<lparr>g_status := PAUSED\<rparr>,
      build_runtime_from_game (env_now env') (game\<lparr>g_status := PAUSED\<rparr>) (map table_seat_of (active_players rc)), rc)"
    using g' rc by (simp add: load_runtime_def db')
  have undone: "put_game game db' = db"
    unfolding db' using games.undo_update [OF g, of "game\<lparr>g_status := PAUSED\<rparr>"] key by simp
  have same: "game\<lparr>g_status := ACTIVE\<rparr> = game" using act by simp
  have "resume_table env' db' gid = Inr (game_to_response game, db)"
    using assms(1) by (simp add: resume_table_def run resume_session_def build_runtime_from_game_def table_status_of_def same
        commit_def undone)
  moreover have "db' = db\<lparr>db_games := db_games db'\<rparr>" by (simp add: db' put_game_def)
  moreover have "\<not> is_ok (pause_table env' later gid)"
    using assms(3,4) by (auto simp: is_ok_iff elim!: pause_tableE)
  ultimately show ?thesis
    using g g' act assms(3,4) by (simp add: start_round_def advance_blinds_def resp game_to_response_def)
qed

text \<open>The table of the examples, with its snapshot.\<close>

definition pausable_db :: GameDb where
  "pausable_db = save_room_snapshot (example_db\<lparr>db_rounds := [], db_round_players := []\<rparr>) ''g'' three_seats"

definition paused :: "(GameResponse \<times> GameDb) result" where
  "paused = pause_table example_env pausable_db ''g''"

lemma pausable: "db_ok pausable_db" "pause_table example_env pausable_db ''g'' = Inr (fst (the_ok paused), snd (the_ok paused))"
proof -
  show "db_ok pausable_db" by code_simp
  have "is_ok paused" by code_simp
  from is_okD [OF this] show "pause_table example_env pausable_db ''g'' = Inr (fst (the_ok paused), snd (the_ok paused))"
    by (simp add: paused_def)
qed

definition timed_seats :: RoomConfig where
  "timed_seats = \<lparr>rc_room_id = ''room'', rc_starting_dealer_seat = 1, rc_antes_enabled = False,
     rc_players = [\<lparr>cfg_player_id = ''a'', cfg_seat_number = 1, cfg_chip_count = 100, cfg_is_active = True, cfg_is_eliminated = False\<rparr>,
       \<lparr>cfg_player_id = ''b'', cfg_seat_number = 2, cfg_chip_count = 50, cfg_is_active = True, cfg_is_eliminated = False\<rparr>],
     rc_blind_levels = [\<lparr>bl_level = 1, bl_small_blind = 5, bl_big_blind = 10, bl_ante = 0, bl_duration_minutes = Some 10\<rparr>,
       \<lparr>bl_level = 2, bl_small_blind = 10, bl_big_blind = 20, bl_ante = 0, bl_duration_minutes = Some 10\<rparr>]\<rparr>"

definition later_env :: Env where
  "later_env = example_env\<lparr>env_now := 700 * MICROS\<rparr>"

theorem pause_resume_round_trip_witness:
  "(\<exists>resp. resume_table example_env (snd (the_ok paused)) ''g'' = Inr (resp, pausable_db)) \<and>
    start_round example_env (snd (the_ok paused)) ''g'' by_controller = raise GameNotActive GAME_NOT_ACTIVE"
proof -
  have "is_ok (fetch_game (snd (the_ok paused)) ''g'')"
    "g_status (the_ok (fetch_game (snd (the_ok paused)) ''g'')) = PAUSED" by code_simp+
  from pause_resume_round_trip [OF pausable is_okD [OF this(1)] this(2)] show ?thesis by blast
qed


section \<open>Counting hands\<close>

lemma instant_ensure_utc [simp]: "instant (ensure_utc now (Some (Aware t))) = t"
  by (simp add: ensure_utc_def)

text \<open>What one completed hand does to the counters and the clock of a game.\<close>

lemma apply_hand_completion_counts:
  "hc_hands_played (apply_hand_completion now game rc counting) = g_hands_played game + (if counting then 1 else 0)"
  by (simp add: apply_hand_completion_def Let_def)

lemma apply_hand_completion_level:
  fixes counting :: bool and now :: int and game :: Game and rc :: RoomConfig
  defines "c \<equiv> apply_hand_completion now game rc counting"
  shows "hc_blind_level_advanced c \<longleftrightarrow> counting \<and> g_current_blind_level game < max_level rc \<and>
      (\<exists>secs. seconds_per_level rc (g_current_blind_level game) = Some secs \<and>
        secs * MICROS \<le> now - instant (ensure_utc now (g_level_started_at game)))"
    and "hc_blind_level_advanced c \<Longrightarrow> hc_current_blind_level c = g_current_blind_level game + 1 \<and>
      hc_hands_at_current_level c = 0 \<and> hc_level_started_at c = Aware now"
    and "\<not> hc_blind_level_advanced c \<Longrightarrow> hc_current_blind_level c = g_current_blind_level game \<and>
      hc_hands_at_current_level c = g_hands_at_current_level game + (if counting then 1 else 0) \<and>
      hc_level_started_at c = Aware (instant (ensure_utc now (g_level_started_at game)))"
  unfolding c_def
  by (auto simp: apply_hand_completion_def Let_def should_advance_def record_hand_def advance_def split: option.splits if_splits)

lemma sync_hand_completedE:
  assumes "sync_hand_completed env db gid = Inr (resp, db')"
  obtains game rc where "fetch_game db gid = Inr game" "load_room_snapshot db gid = Inr rc"
    "db' = put_game (store_completion (apply_hand_completion (env_now env) game rc
       (g_hands_played game < count_completed_rounds db gid)) game) db" "db_ok db'"
  using assms by (auto simp: sync_hand_completed_def bindE_simps load_runtime_Inr Let_def)

lemma fetch_store_completion:
  assumes "fetch_game db gid = Inr game"
  shows "fetch_game (put_game (store_completion c game) db) gid = Inr (store_completion c game)"
  using games.fetch_after_update [OF assms, of "store_completion c"] by (simp add: store_completion_def)

text \<open>
  The hand counter never runs ahead of the hands. \<^verbatim>\<open>record_hand_completed\<close> adds one to
  the hands played exactly when fewer are counted than rounds are completed; the blind
  level moves by at most one, only with a counted hand, never past the last level, and
  only when its time is over, and then the clock restarts; the seats and the status stay.
  Once the count has caught up, calling it again changes nothing.
\<close>

theorem sync_hand_completed_counts:
  assumes "sync_hand_completed env db gid = Inr (resp, db')" and "fetch_game db gid = Inr game"
    and "load_room_snapshot db gid = Inr rc"
  shows "\<exists>game'. fetch_game db' gid = Inr game' \<and> db_ok db' \<and>
    g_hands_played game' = (if g_hands_played game < count_completed_rounds db gid then g_hands_played game + 1 else g_hands_played game) \<and>
    g_current_blind_level game \<le> g_current_blind_level game' \<and> g_current_blind_level game' \<le> g_current_blind_level game + 1 \<and>
    (g_current_blind_level game' \<noteq> g_current_blind_level game \<longrightarrow> g_hands_played game < g_hands_played game' \<and>
      g_current_blind_level game' \<le> max_level rc \<and> g_hands_at_current_level game' = 0 \<and>
      g_level_started_at game' = Some (Aware (env_now env)) \<and>
      (\<exists>secs. seconds_per_level rc (g_current_blind_level game) = Some secs \<and>
        secs * MICROS \<le> env_now env - instant (ensure_utc (env_now env) (g_level_started_at game)))) \<and>
    g_status game' = g_status game \<and> g_current_dealer_seat game' = g_current_dealer_seat game \<and>
    (count_completed_rounds db gid \<le> g_hands_played game' \<longrightarrow>
      (\<exists>resp'. sync_hand_completed env' db' gid = Inr (resp', db')))"
proof -
  define counting where "counting \<longleftrightarrow> g_hands_played game < count_completed_rounds db gid"
  define c where "c = apply_hand_completion (env_now env) game rc counting"
  define game' where "game' = store_completion c game"
  have db': "db' = put_game game' db" and ok: "db_ok db'"
    using assms by (auto elim!: sync_hand_completedE simp: game'_def c_def counting_def)
  have g': "fetch_game db' gid = Inr game'"
    unfolding db' game'_def by (rule fetch_store_completion [OF assms(2)])
  have hands: "g_hands_played game' = g_hands_played game + (if counting then 1 else 0)"
    by (simp add: game'_def store_completion_def c_def apply_hand_completion_counts)
  note level = apply_hand_completion_level [where now = "env_now env" and game = game and rc = rc and counting = counting, folded c_def]
  have again: "sync_hand_completed env' db' gid = Inr (resp', db')"
    if caught_up: "count_completed_rounds db gid \<le> g_hands_played game'"
      and resp': "resp' = \<lparr>hcr_game_id = gid, hcr_hands_played = g_hands_played game',
        hcr_hands_at_current_level = g_hands_at_current_level game', hcr_blind_level_advanced = False,
        hcr_current_blind_level = g_current_blind_level game'\<rparr>" for resp'
  proof -
    define c' where "c' = apply_hand_completion (env_now env') game' rc False"
    have started: "g_level_started_at game' = Some (hc_level_started_at c)" by (simp add: game'_def store_completion_def)
    have "\<exists>t. hc_level_started_at c = Aware t" using level by (cases "hc_blind_level_advanced c") auto
    then obtain t where t: "g_level_started_at game' = Some (Aware t)" using started by auto
    have c': "\<not> hc_blind_level_advanced c'" "hc_hands_played c' = g_hands_played game'"
      "hc_current_blind_level c' = g_current_blind_level game'" "hc_hands_at_current_level c' = g_hands_at_current_level game'"
      "hc_level_started_at c' = Aware t"
      using apply_hand_completion_level [where now = "env_now env'" and game = game' and rc = rc and counting = False, folded c'_def]
        apply_hand_completion_counts [of "env_now env'" game' rc False, folded c'_def] t by simp_all
    have "store_completion c' game' = game'" using c' t by (simp add: store_completion_def)
    moreover have "put_game game' db' = db'" using g' by (rule games.put_same)
    moreover have "load_room_snapshot db' gid = Inr rc" "count_completed_rounds db' gid = count_completed_rounds db gid"
      using assms(3) by (simp_all add: db')
    ultimately show ?thesis
      using caught_up g' ok c' by (simp add: sync_hand_completed_def load_runtime_def c'_def [symmetric] Let_def commit_def resp' not_less)
  qed
  have fields: "g_current_blind_level game' = hc_current_blind_level c" "g_hands_at_current_level game' = hc_hands_at_current_level c"
    "g_level_started_at game' = Some (hc_level_started_at c)" "g_status game' = g_status game"
    "g_current_dealer_seat game' = g_current_dealer_seat game"
    by (simp_all add: game'_def store_completion_def)
  show ?thesis
  proof (intro exI [of _ game'] conjI impI)
    show "g_current_blind_level game \<le> g_current_blind_level game'" "g_current_blind_level game' \<le> g_current_blind_level game + 1"
      using level(2,3) fields by fastforce+
  next
    assume "g_current_blind_level game' \<noteq> g_current_blind_level game"
    then have adv: "hc_blind_level_advanced c" using level(3) fields by auto
    with level(1) have "counting" "g_current_blind_level game < max_level rc" by simp_all
    then show "g_hands_played game < g_hands_played game'" "g_current_blind_level game' \<le> max_level rc"
      using hands fields(1) level(2) [OF adv] by simp_all
    show "g_hands_at_current_level game' = 0" "g_level_started_at game' = Some (Aware (env_now env))"
      using level(2) [OF adv] fields by simp_all
    show "\<exists>secs. seconds_per_level rc (g_current_blind_level game) = Some secs \<and>
        secs * MICROS \<le> env_now env - instant (ensure_utc (env_now env) (g_level_started_at game))"
      using adv level(1) by simp
  qed (use g' ok hands again fields in \<open>auto simp: counting_def\<close>)
qed

definition uncounted_db :: GameDb where
  "uncounted_db = save_room_snapshot (example_db\<lparr>db_rounds := [example_round\<lparr>r_status := ROUND_COMPLETED\<rparr>]\<rparr>) ''g'' timed_seats"

definition counted_sync :: "(RecordHandCompletedResponse \<times> GameDb) result" where
  "counted_sync = sync_hand_completed later_env uncounted_db ''g''"

theorem sync_hand_completed_counts_witness:
  "\<exists>game'. fetch_game (snd (the_ok counted_sync)) ''g'' = Inr game' \<and> g_hands_played game' = 1"
proof -
  have "is_ok counted_sync" by code_simp
  from is_okD [OF this]
  have run: "sync_hand_completed later_env uncounted_db ''g'' = Inr (fst (the_ok counted_sync), snd (the_ok counted_sync))"
    by (simp add: counted_sync_def)
  have g: "fetch_game uncounted_db ''g'' = Inr example_game" by code_simp
  have rc: "load_room_snapshot uncounted_db ''g'' = Inr timed_seats" by code_simp
  have "g_hands_played example_game = 0" "count_completed_rounds uncounted_db ''g'' = 1" by code_simp+
  then show ?thesis using sync_hand_completed_counts [OF run g rc, of example_env] by auto
qed

text \<open>
  A paused table goes on counting. Recording a completed hand asks nothing of the status of
  the game: on a table that was paused before its last hand was counted, it counts the hand
  and, when the time of the level is over, raises the blinds.
\<close>

definition paused_uncounted :: "(GameResponse \<times> GameDb) result" where
  "paused_uncounted = pause_table example_env uncounted_db ''g''"

definition paused_sync :: "(RecordHandCompletedResponse \<times> GameDb) result" where
  "paused_sync = sync_hand_completed later_env (snd (the_ok paused_uncounted)) ''g''"

lemma paused_blinds_rise:
  "is_ok paused_uncounted" "is_ok paused_sync"
  "mapE (\<lambda>g. (g_status g, g_current_blind_level g)) (fetch_game (snd (the_ok paused_uncounted)) ''g'') = Inr (PAUSED, 1)"
  "mapE (\<lambda>g. (g_status g, g_current_blind_level g)) (fetch_game (snd (the_ok paused_sync)) ''g'') = Inr (PAUSED, 2)"
  by code_simp+


section \<open>The countdown\<close>

lemma whole_seconds_bounds:
  assumes "0 \<le> n"
  shows "whole_seconds n * MICROS \<le> n" "n < (whole_seconds n + 1) * MICROS"
proof -
  have M: "0 < MICROS" by (simp add: MICROS_def)
  have n: "whole_seconds n * MICROS + n mod MICROS = n" using assms by (simp add: whole_seconds_def)
  have "0 \<le> n mod MICROS" "n mod MICROS < MICROS" using M by simp_all
  with n show "whole_seconds n * MICROS \<le> n" "n < (whole_seconds n + 1) * MICROS"
    unfolding distrib_right by linarith+
qed

lemma whole_seconds_neg: "n < 0 \<Longrightarrow> whole_seconds n \<le> 0"
  by (simp add: whole_seconds_def MICROS_def)

text \<open>
  The countdown tells when the blinds go up. When the session status shows \<open>s\<close> seconds
  until the next level, a hand completed before they have passed does not raise the
  level, and one completed a second or more after they have passed does.
\<close>

theorem countdown_predicts_level:
  assumes "get_session_status env db gid = Inr st" and "ss_seconds_until_blind_advance st = Some s"
    and "fetch_game db gid = Inr game" and "load_room_snapshot db gid = Inr rc" and "env_now env \<le> later"
  shows "0 \<le> s \<and>
    (later < env_now env + s * MICROS \<longrightarrow> \<not> hc_blind_level_advanced (apply_hand_completion later game rc True)) \<and>
    (env_now env + (s + 1) * MICROS \<le> later \<longrightarrow> hc_blind_level_advanced (apply_hand_completion later game rc True))"
proof -
  have "seconds_until (env_now env) game rc = Some s"
    using assms(1-4) by (auto simp: get_session_status_def Let_def)
  then obtain secs started where secs: "seconds_per_level rc (g_current_blind_level game) = Some secs"
    and started: "g_level_started_at game = Some started" and below: "g_current_blind_level game < max_level rc"
    and s: "s = max 0 (whole_seconds (secs * MICROS - (env_now env - instant (ensure_utc (env_now env) (Some started)))))"
    by (auto simp: seconds_until_def Let_def split: option.splits if_splits)
  have same: "instant (ensure_utc later (Some started)) = instant (ensure_utc (env_now env) (Some started))"
    by (simp add: ensure_utc_def split: datetime.splits)
  define left where "left = secs * MICROS - (env_now env - instant (ensure_utc (env_now env) (Some started)))"
  have adv: "hc_blind_level_advanced (apply_hand_completion later game rc True) \<longleftrightarrow> left \<le> later - env_now env"
    unfolding apply_hand_completion_level(1) using secs below by (auto simp: started same left_def)
  have "later - env_now env < left" if "later < env_now env + s * MICROS"
  proof (cases "0 \<le> left")
    case True
    with whole_seconds_bounds(1) [OF True] have "s * MICROS \<le> left"
      unfolding s left_def [symmetric] by (auto simp: max_def)
    with that show ?thesis by linarith
  next
    case False
    then have "s = 0" unfolding s left_def [symmetric] using whole_seconds_neg [of left] by simp
    with that assms(5) show ?thesis by simp
  qed
  moreover have "left \<le> later - env_now env" if "env_now env + (s + 1) * MICROS \<le> later"
  proof (cases "0 \<le> left")
    case True
    have "(whole_seconds left + 1) * MICROS \<le> (s + 1) * MICROS"
      unfolding s left_def [symmetric] by (rule mult_right_mono) (simp_all add: MICROS_def)
    with whole_seconds_bounds(2) [OF True] that show ?thesis by linarith
  next
    case False
    with assms(5) show ?thesis by linarith
  qed
  ultimately show ?thesis unfolding adv s by force
qed

theorem countdown_predicts_level_witness:
  "hc_blind_level_advanced (apply_hand_completion (601 * MICROS) example_game timed_seats True)"
proof -
  have "is_ok (get_session_status example_env uncounted_db ''g'')" by code_simp
  note st = is_okD [OF this]
  have s: "ss_seconds_until_blind_advance (the_ok (get_session_status example_env uncounted_db ''g'')) = Some 600" by code_simp
  have g: "fetch_game uncounted_db ''g'' = Inr example_game" by code_simp
  have rc: "load_room_snapshot uncounted_db ''g'' = Inr timed_seats" by code_simp
  have "env_now example_env \<le> 601 * MICROS" "env_now example_env + (600 + 1) * MICROS \<le> 601 * MICROS" by code_simp+
  then show ?thesis using countdown_predicts_level [OF st s g rc, of "601 * MICROS"] by simp
qed

end
