(* ===== verification/Queries.thy ===== *)
theory Queries
  imports Corrections Settlement_Explainer
begin

text \<open>
  \<^verbatim>\<open>application/queries/game_query_service.py\<close> and \<^verbatim>\<open>bet_query_service.py\<close>: what the service
  answers about games, rounds and bets. Nothing here changes the tables. The dictionaries
  of the timeline and the winners of an explanation are records with their keys.
\<close>

section \<open>Games and rounds\<close>

definition get_game :: "GameDb \<Rightarrow> game_id \<Rightarrow> GameResponse result" where
  "get_game db gid = bindE (fetch_game db gid) (\<lambda>game. Inr (game_to_response game))"

definition get_game_for_room :: "GameDb \<Rightarrow> room_id \<Rightarrow> GameResponse option result" where
  "get_game_for_room db room_id =
     bindE (scalar_one_or_none (filter (\<lambda>g. g_room_id g = room_id \<and> g_status g = ACTIVE) (db_games db))) (\<lambda>game.
     Inr (map_option game_to_response game))"

definition round_view :: "GameDb \<Rightarrow> Round \<Rightarrow> RoundResponse" where
  "round_view db r = round_to_response r (get_round_players db (r_round_id r)) (get_round_payouts db (r_round_id r))"

definition list_rounds :: "GameDb \<Rightarrow> game_id \<Rightarrow> RoundResponse list" where
  "list_rounds db gid = map (round_view db) (get_rounds_for_game db gid)"

definition get_round :: "GameDb \<Rightarrow> round_id \<Rightarrow> RoundResponse result" where
  "get_round db rid = bindE (fetch_round db rid) (\<lambda>game_round.
     Inr (round_to_response game_round (get_round_players db rid) (get_round_payouts db rid)))"

definition query_active_round :: "GameDb \<Rightarrow> game_id \<Rightarrow> RoundResponse option result" where
  "query_active_round db gid = bindE (get_active_round db gid) (\<lambda>game_round.
     Inr (map_option (round_view db) game_round))"


section \<open>The ledger's views\<close>

record ReplayStepResponse =
  rs_step_number :: int
  rs_entry_id :: string
  rs_entry_type :: LedgerEntryType
  rs_player_id :: "player_id option"
  rs_amount :: "int option"
  rs_pot_total :: int
  rs_players :: "PlayerSnapshotResponse list"

record ReplayResponse =
  rpl_round_id :: round_id
  rpl_entry_count :: int
  rpl_is_consistent :: bool
  rpl_steps :: "ReplayStepResponse list"

definition replay_step_to_response :: "HandStep \<Rightarrow> ReplayStepResponse" where
  "replay_step_to_response s = \<lparr>rs_step_number = hstep_step_number s, rs_entry_id = hstep_entry_id s,
     rs_entry_type = hstep_entry_type s, rs_player_id = hstep_player_id s, rs_amount = hstep_amount s,
     rs_pot_total = hs_pot_total (hstep_state_after s),
     rs_players = map snapshot_to_response (map snd (hs_players (hstep_state_after s)))\<rparr>"

definition get_replay :: "GameDb \<Rightarrow> round_id \<Rightarrow> ReplayResponse result" where
  "get_replay db rid = bindE (fetch_round db rid) (\<lambda>_.
     let res = replay_hand (ledger_rows db rid) in
     Inr \<lparr>rpl_round_id = rid, rpl_entry_count = rr_entry_count res, rpl_is_consistent = rr_is_consistent res,
          rpl_steps = map replay_step_to_response (rr_steps res)\<rparr>)"

record TimelineStreetResponse =
  tsr_name :: string
  tsr_actions :: "ActionEntry list"

record CorrectionView =
  cv_entry_id :: string
  cv_correction_type :: LedgerEntryType
  cv_player_id :: "player_id option"
  cv_amount :: "int option"
  cv_original_entry_id :: "string option"

record TimelineResponse =
  tlr_round_id :: round_id
  tlr_streets :: "TimelineStreetResponse list"
  tlr_payouts :: "PayoutEntry list"
  tlr_corrections :: "CorrectionView list"

definition get_timeline :: "GameDb \<Rightarrow> round_id \<Rightarrow> TimelineResponse result" where
  "get_timeline db rid = bindE (fetch_round db rid) (\<lambda>_.
     let timeline = build_hand_timeline rid (ledger_rows db rid) in
     Inr \<lparr>tlr_round_id = rid,
          tlr_streets = map (\<lambda>s. \<lparr>tsr_name = ss_street s, tsr_actions = ss_actions s\<rparr>) (tl_streets timeline),
          tlr_payouts = tl_payouts timeline,
          tlr_corrections = map (\<lambda>c. \<lparr>cv_entry_id = ce_entry_id c, cv_correction_type = ce_correction_type c,
              cv_player_id = ce_player_id c, cv_amount = ce_amount c, cv_original_entry_id = ce_original_entry_id c\<rparr>)
            (tl_corrections timeline)\<rparr>)"

record PotView =
  pv_pot_index :: int
  pv_pot_type :: string
  pv_amount :: int
  pv_contributors :: "player_id list"
  pv_winners :: "WinnerDetail list"

record SettlementExplanationResponse =
  ser_round_id :: round_id
  ser_pots :: "PotView list"
  ser_narrative :: "string list"

definition contribution_view :: "RoundPlayer \<Rightarrow> PlayerContribution" where
  "contribution_view rp = \<lparr>pc_player_id = rp_player_id rp, pc_committed_this_hand = rp_committed_this_hand rp,
     pc_has_folded = rp_has_folded rp, pc_reached_showdown = (\<not> rp_has_folded rp)\<rparr>"

text \<open>The dictionary \<^verbatim>\<open>submitted\<close>: the stored payouts grouped by pot, in order.\<close>

definition submitted_of :: "RoundPayout list \<Rightarrow> (int \<times> WinnerShare list) list" where
  "submitted_of payouts = foldl (\<lambda>d p.
     dict_set (po_pot_index p) (get_or (dict_get d (po_pot_index p)) [] @
       [\<lparr>ws_player_id = po_player_id p, ws_amount = po_amount p\<rparr>]) d) [] payouts"

definition get_settlement_explanation :: "GameDb \<Rightarrow> round_id \<Rightarrow> SettlementExplanationResponse result" where
  "get_settlement_explanation db rid = bindE (fetch_round db rid) (\<lambda>_.
     let explanation = explain_settlement (map contribution_view (get_round_players db rid))
           (submitted_of (get_round_payouts db rid)) in
     Inr \<lparr>ser_round_id = rid,
          ser_pots = map (\<lambda>pe. \<lparr>pv_pot_index = px_index pe, pv_pot_type = px_label pe, pv_amount = px_pot pe,
              pv_contributors = px_contributors pe, pv_winners = px_winner_details pe\<rparr>) (se_pots explanation),
          ser_narrative = se_narrative explanation\<rparr>)"

record ConsistencyCheckResponse =
  cc_round_id :: round_id
  cc_is_consistent :: bool
  cc_discrepancies :: "string list"

definition live_committed :: "RoundPlayer list \<Rightarrow> (player_id \<times> int) list" where
  "live_committed ps = foldl (\<lambda>d rp. dict_set (rp_player_id rp) (rp_committed_this_hand rp) d) [] ps"

definition check_consistency :: "GameDb \<Rightarrow> round_id \<Rightarrow> ConsistencyCheckResponse result" where
  "check_consistency db rid = bindE (fetch_round db rid) (\<lambda>game_round.
     let discrepancies = verify_consistency (ledger_rows db rid) (r_pot_amount game_round)
           (live_committed (get_round_players db rid)) in
     Inr \<lparr>cc_round_id = rid, cc_is_consistent = (discrepancies = []), cc_discrepancies = discrepancies\<rparr>)"


section \<open>The table state\<close>

record LegalAction =
  la_action :: BetAction
  la_min_amount :: "int option"
  la_max_amount :: "int option"

record TableStateResponse =
  tst_round_id :: round_id
  tst_game_id :: game_id
  tst_round_number :: int
  tst_street :: Street
  tst_pot_amount :: int
  tst_acting_player_id :: "player_id option"
  tst_current_highest_bet :: int
  tst_minimum_raise_amount :: int
  tst_is_action_closed :: bool
  tst_state_version :: "int option"
  tst_dealer_seat :: int
  tst_small_blind_seat :: int
  tst_big_blind_seat :: int
  tst_last_aggressor_seat :: "int option"
  tst_call_amount :: "int option"
  tst_is_showdown_ready :: bool
  tst_legal_actions :: "LegalAction list"
  tst_players :: "RoundPlayerResponse list"

definition plain :: "BetAction \<Rightarrow> LegalAction" where
  "plain a = \<lparr>la_action = a, la_min_amount = None, la_max_amount = None\<rparr>"

definition ranged :: "BetAction \<Rightarrow> int \<Rightarrow> int \<Rightarrow> LegalAction" where
  "ranged a lo hi = \<lparr>la_action = a, la_min_amount = Some lo, la_max_amount = Some hi\<rparr>"

definition legal_actions_of :: "Round \<Rightarrow> RoundPlayer \<Rightarrow> LegalAction list" where
  "legal_actions_of r acting_rp =
     (let call_amount = max 0 (r_current_highest_bet r - rp_committed_this_street acting_rp);
          stack = rp_stack_remaining acting_rp in
      [plain FOLD] @
      (if call_amount = 0 then [plain CHECK]
       else let effective_call = min call_amount stack in [ranged CALL effective_call effective_call]) @
      (if r_current_highest_bet r = 0 \<and> stack > 0 then [ranged BET (r_minimum_raise_amount r) stack]
       else if r_current_highest_bet r > 0 \<and> stack > call_amount
         then [ranged RAISE (r_current_highest_bet r + r_minimum_raise_amount r)
                (rp_committed_this_street acting_rp + stack)]
       else []) @
      (if stack > 0 then [ranged ALL_IN stack stack] else []))"

definition acting_row :: "Round \<Rightarrow> RoundPlayer list \<Rightarrow> RoundPlayer option" where
  "acting_row r ps = (case truthy (r_acting_player_id r) of
     Some pid \<Rightarrow> if \<not> r_is_action_closed r then List.find (\<lambda>rp. rp_player_id rp = pid) ps else None
   | None \<Rightarrow> None)"

definition get_table_state :: "GameDb \<Rightarrow> round_id \<Rightarrow> TableStateResponse result" where
  "get_table_state db rid = bindE (fetch_round db rid) (\<lambda>r.
     let round_players = get_round_players db rid; acting = acting_row r round_players in
     Inr \<lparr>tst_round_id = rid, tst_game_id = r_game_id r, tst_round_number = r_round_number r, tst_street = r_street r,
          tst_pot_amount = r_pot_amount r, tst_acting_player_id = r_acting_player_id r,
          tst_current_highest_bet = r_current_highest_bet r, tst_minimum_raise_amount = r_minimum_raise_amount r,
          tst_is_action_closed = r_is_action_closed r, tst_state_version = r_state_version r,
          tst_dealer_seat = r_dealer_seat r, tst_small_blind_seat = r_small_blind_seat r,
          tst_big_blind_seat = r_big_blind_seat r, tst_last_aggressor_seat = r_last_aggressor_seat r,
          tst_call_amount = map_option (\<lambda>p. max 0 (r_current_highest_bet r - rp_committed_this_street p)) acting,
          tst_is_showdown_ready = (r_street r = SHOWDOWN \<or> r_status r = ROUND_COMPLETED),
          tst_legal_actions = (case acting of Some p \<Rightarrow> legal_actions_of r p | None \<Rightarrow> []),
          tst_players = map round_player_to_response round_players\<rparr>)"


section \<open>Bets\<close>

record PotResponse =
  pot_round_id :: round_id
  pot_total_pot :: int
  pot_bets :: "BetResponse list"

record PlayerBetSummary =
  pbs_player_id :: player_id
  pbs_total_bet :: int
  pbs_last_action :: BetAction
  pbs_is_folded :: bool

definition query_bets_for_round :: "GameDb \<Rightarrow> round_id \<Rightarrow> BetResponse list" where
  "query_bets_for_round db rid = map bet_to_response (get_bets_for_round db rid)"

definition get_pot :: "GameDb \<Rightarrow> round_id \<Rightarrow> PotResponse" where
  "get_pot db rid = \<lparr>pot_round_id = rid, pot_total_pot = get_pot_total db rid,
     pot_bets = map bet_to_response (get_bets_for_round db rid)\<rparr>"

definition summarize :: "(player_id \<times> PlayerBetSummary) list \<Rightarrow> Bet \<Rightarrow> (player_id \<times> PlayerBetSummary) list" where
  "summarize player_data bet =
     (let pid = b_player_id bet;
          d = get_or (dict_get player_data pid) \<lparr>pbs_player_id = pid, pbs_total_bet = 0, pbs_last_action = b_action bet,
                pbs_is_folded = False\<rparr>;
          d1 = d\<lparr>pbs_total_bet := pbs_total_bet d + b_amount bet, pbs_last_action := b_action bet\<rparr>
      in dict_set pid (if b_action bet = FOLD then d1\<lparr>pbs_is_folded := True\<rparr> else d1) player_data)"

definition get_player_summaries :: "GameDb \<Rightarrow> round_id \<Rightarrow> PlayerBetSummary list" where
  "get_player_summaries db rid = map snd (foldl summarize [] (get_bets_for_round db rid))"


section \<open>What is offered is accepted\<close>

text \<open>An amount within an offer: in its range, or anything when there is no range.\<close>

definition within :: "LegalAction \<Rightarrow> int \<Rightarrow> bool" where
  "within la n \<longleftrightarrow> (case (la_min_amount la, la_max_amount la) of
     (Some lo, Some hi) \<Rightarrow> lo \<le> n \<and> n \<le> hi
   | _ \<Rightarrow> True)"

text \<open>
  What an offer says of an action that asked for \<open>n\<close> and moved \<open>m\<close> chips: a bet or raise
  lies in the offered range, a call or all-in has exactly the offered amount.
\<close>

definition covers :: "LegalAction \<Rightarrow> int \<Rightarrow> int \<Rightarrow> bool" where
  "covers la n m \<longleftrightarrow> (case la_action la of
     FOLD \<Rightarrow> True | CHECK \<Rightarrow> True
   | CALL \<Rightarrow> la_min_amount la = Some m \<and> la_max_amount la = Some m
   | ALL_IN \<Rightarrow> la_min_amount la = Some m \<and> la_max_amount la = Some m
   | BET \<Rightarrow> within la n | RAISE \<Rightarrow> within la n)"

lemmas offer_simps = legal_actions_of_def Let_def plain_def ranged_def within_def owed_def build_hand_context_def player_ok_def

lemma offered_legal:
  assumes "la \<in> set (legal_actions_of r p)" and "within la n" and "player_ok (r_current_highest_bet r) p"
    and "0 \<le> r_current_highest_bet r" and "0 < r_minimum_raise_amount r"
  shows "legal (build_hand_context r ps) (player_state_of p) (la_action la) n"
  using assms by (auto simp: offer_simps split: if_splits)

text \<open>Of a bet or raise above the offered minimum, legality is the offered range.\<close>

lemma offered_range:
  assumes "la \<in> set (legal_actions_of r p)" and "la_action la \<in> {BET, RAISE}" and "la_min_amount la = Some lo"
    and "lo \<le> n" and "legal (build_hand_context r ps) (player_state_of p) (la_action la) n"
  shows "within la n"
  using assms by (auto simp: offer_simps split: if_splits)

lemma legal_offered:
  assumes "legal (build_hand_context r ps) (player_state_of p) a n" and "player_ok (r_current_highest_bet r) p"
    and "0 < rp_stack_remaining p" and "0 < r_minimum_raise_amount r" and "0 \<le> r_current_highest_bet r"
    and "v = effective (build_hand_context r ps) (player_state_of p) a n"
  shows "\<exists>la \<in> set (legal_actions_of r p). la_action la = va_action v \<and> covers la n (va_amount v)"
  using assms by (cases a) (auto simp: offer_simps effective_def covers_def)

lemma acting_player_row:
  assumes "hand_ok r ps" and "r_status r = ROUND_ACTIVE" and "r_acting_player_id r = Some pid" and "pid \<noteq> []"
  obtains p where "acting_row r ps = Some p" "p \<in> set ps" "able p" "player_ok (r_current_highest_bet r) p"
    "may_act (build_hand_context r ps) pid (player_state_of p)"
proof -
  from assms obtain p where p: "p \<in> set ps" "rp_player_id p = pid" "able p" and opened: "\<not> r_is_action_closed r"
    by (auto simp: hand_ok_def turn_ok_def)
  have "List.find (\<lambda>rp. rp_player_id rp = pid) ps = Some p"
    using assms(1) p(1,2) by (auto simp: hand_ok_def intro: find_key_unique)
  moreover from this have "get_player (build_hand_context r ps) pid = Some (player_state_of p)"
    by (simp add: get_player_context)
  ultimately show ?thesis
    using assms p opened by (intro that [of p]) (auto simp: acting_row_def hand_ok_def may_act_def able_def build_hand_context_def)
qed

text \<open>
  C18: the table offers exactly what the engine accepts. In a well-formed active hand with
  a positive minimum raise and a player on turn whose identifier is not empty,
  \<^verbatim>\<open>get_table_state\<close> offers actions, and the engine accepts whatever is offered, with any
  amount in the offered range. Conversely, whatever the engine accepts from him is offered
  under the name it is carried out as: a bet or raise with its amount in the offered
  range, a call or all-in with exactly the chips it moves. The maximum of a bet or raise
  is sharp: from the offered minimum on, the amounts accepted are those in the range.
\<close>

theorem table_state_offers_legal_actions:
  assumes "get_table_state db rid = Inr ts" and "fetch_round db rid = Inr r" and "ps = get_round_players db rid"
    and "hand_ok r ps" and "r_status r = ROUND_ACTIVE" and "r_acting_player_id r = Some pid" and "pid \<noteq> []"
    and "0 < r_minimum_raise_amount r"
  shows "tst_legal_actions ts \<noteq> [] \<and>
    (\<forall>la \<in> set (tst_legal_actions ts). \<forall>n. within la n \<longrightarrow>
       is_ok (apply_action r ps pid (BetAction_value (la_action la)) n NO_LIMIT_HOLDEM None)) \<and>
    (\<forall>a n res r' ps'. apply_action r ps pid (BetAction_value a) n NO_LIMIT_HOLDEM None = Inr (res, r', ps') \<longrightarrow>
       (\<exists>la \<in> set (tst_legal_actions ts). la_action la = ar_action res \<and> covers la n (ar_amount res))) \<and>
    (\<forall>la \<in> set (tst_legal_actions ts). \<forall>lo n. la_action la \<in> {BET, RAISE} \<and> la_min_amount la = Some lo \<and> lo \<le> n \<longrightarrow>
       is_ok (apply_action r ps pid (BetAction_value (la_action la)) n NO_LIMIT_HOLDEM None) = within la n)"
proof -
  from assms(4-7) obtain p where p: "acting_row r ps = Some p" "p \<in> set ps" "able p" "player_ok (r_current_highest_bet r) p"
    and may: "may_act (build_hand_context r ps) pid (player_state_of p)" by (rule acting_player_row)
  let ?ctx = "build_hand_context r ps" and ?p = "player_state_of p"
  have offers: "tst_legal_actions ts = legal_actions_of r p"
    using assms(1-3) p(1) by (auto simp: get_table_state_def Let_def)
  have bounds: "0 \<le> r_current_highest_bet r" "0 < rp_stack_remaining p" "distinct (map rp_player_id ps)"
    using assms(4) p by (auto simp: hand_ok_def player_ok_def)
  have accepts: "(\<exists>v. validate_bet ?ctx pid (BetAction_value a) n NO_LIMIT_HOLDEM = Inr v) \<longleftrightarrow> legal ?ctx ?p a n" for a n
    using may may_act_unique unfolding validate_bet_accepts by (auto simp: BetAction_of_Some)
  have refused: "apply_action r ps pid (BetAction_value a) n NO_LIMIT_HOLDEM None = Inl e \<longleftrightarrow>
      validate_bet ?ctx pid (BetAction_value a) n NO_LIMIT_HOLDEM = Inl e" for a n e
    using apply_action_Inl [of r ps pid "BetAction_value a" n NO_LIMIT_HOLDEM None e] by simp
  have ok: "is_ok (apply_action r ps pid (BetAction_value a) n NO_LIMIT_HOLDEM None) \<longleftrightarrow> legal ?ctx ?p a n" for a n
    unfolding accepts [symmetric] is_ok_iff by (metis refused sum.exhaust sum.distinct(1))
  have offered: "\<exists>la \<in> set (legal_actions_of r p). la_action la = ar_action res \<and> covers la n (ar_amount res)"
    if run: "apply_action r ps pid (BetAction_value a) n NO_LIMIT_HOLDEM None = Inr (res, r', ps')" for a n res r' ps'
  proof -
    obtain v where v: "validate_bet ?ctx pid (BetAction_value a) n NO_LIMIT_HOLDEM = Inr v"
      "ar_action res = va_action v" "ar_amount res = va_amount v"
      by (rule apply_action_cases [OF run bounds(3)]) simp
    then have "legal ?ctx ?p a n" "v = effective ?ctx ?p a n"
      using may may_act_unique by (auto simp: validate_bet_accepts BetAction_of_Some)
    then show ?thesis using legal_offered [OF _ p(4) bounds(2) assms(8) bounds(1)] v(2,3) by simp
  qed
  have "legal_actions_of r p \<noteq> []" by (simp add: legal_actions_of_def Let_def)
  moreover note offered_legal [OF _ _ p(4) bounds(1) assms(8), of _ _ ps] offered_range [of _ r p _ _ ps]
  ultimately show ?thesis using offered unfolding offers ok by blast
qed

definition example_view :: TableStateResponse where
  "example_view = the_ok (get_table_state example_db ''r'')"

theorem table_state_offers_legal_actions_witness:
  "ranged BET 10 100 \<in> set (tst_legal_actions example_view) \<and>
    is_ok (apply_action example_round example_players ''a'' ''BET'' 10 NO_LIMIT_HOLDEM None) \<and>
    is_ok (apply_action example_round example_players ''a'' ''BET'' 100 NO_LIMIT_HOLDEM None)"
proof -
  have "is_ok (get_table_state example_db ''r'')" by code_simp
  note ts = is_okD [OF this, folded example_view_def]
  have r: "r_status example_round = ROUND_ACTIVE" "r_acting_player_id example_round = Some ''a''" "''a'' \<noteq> []"
    "0 < r_minimum_raise_amount example_round" by code_simp+
  have bet: "ranged BET 10 100 \<in> set (tst_legal_actions example_view)" by code_simp
  have BET: "BetAction_value (la_action (ranged BET 10 100)) = ''BET''" by code_simp
  have "within (ranged BET 10 100) 10" "within (ranged BET 10 100) 100" by (simp_all add: within_def ranged_def)
  with bet show ?thesis
    using table_state_offers_legal_actions [OF ts example_reads(3) example_reads(4) [symmetric] example_hand_ok r]
    by (metis BET)
qed


section \<open>The consistency check\<close>

lemma live_committed_get:
  assumes "distinct (map rp_player_id ps)"
  shows "dict_get (live_committed ps) pid = map_option rp_committed_this_hand (List.find (\<lambda>p. rp_player_id p = pid) ps)"
    and "distinct (map fst (live_committed ps))"
proof -
  have "dict_get (foldl (\<lambda>d rp. dict_set (rp_player_id rp) (rp_committed_this_hand rp) d) d ps) pid =
      (case List.find (\<lambda>p. rp_player_id p = pid) ps of Some p \<Rightarrow> Some (rp_committed_this_hand p) | None \<Rightarrow> dict_get d pid)" for d
    using assms
  proof (induction ps arbitrary: d)
    case (Cons p ps)
    have "List.find (\<lambda>q. rp_player_id q = rp_player_id p) ps = None"
      using Cons.prems by (auto simp: find_None_mem image_iff)
    with Cons show ?case by (auto split: option.splits)
  qed simp
  then show "dict_get (live_committed ps) pid = map_option rp_committed_this_hand (List.find (\<lambda>p. rp_player_id p = pid) ps)"
    by (auto simp: live_committed_def split: option.splits)
  have "distinct (map fst (foldl (\<lambda>d rp. dict_set (rp_player_id rp) (rp_committed_this_hand rp) d) d ps))"
    if "distinct (map fst d)" for d
    using that by (induction ps arbitrary: d) (simp_all add: distinct_dict_set)
  then show "distinct (map fst (live_committed ps))" by (simp add: live_committed_def)
qed

text \<open>Everybody in the hand is in the rebuilt state, and nobody else.\<close>

definition same_players :: "GameDb \<Rightarrow> round_id \<Rightarrow> bool" where
  "same_players db rid \<longleftrightarrow> fst ` set (hs_players (get_hand_state db rid)) = rp_player_id ` set (get_round_players db rid)"

text \<open>
  C34: the consistency check is the agreement of rows and ledger. For players with
  non-empty identifiers, \<^verbatim>\<open>check_consistency\<close> reports a round as consistent exactly when
  pot and commitments agree with the state rebuilt from the ledger and the ledger knows
  exactly the players of the hand. So a player who has posted nothing, and so has no
  entry, makes it report an inconsistency.
\<close>

theorem check_consistency_iff_agreement:
  assumes "db_ok db" and "check_consistency db rid = Inr resp"
    and "list_all (\<lambda>p. rp_player_id p \<noteq> []) (get_round_players db rid)"
  shows "(cc_is_consistent resp \<longleftrightarrow> ledger_agrees db rid \<and> same_players db rid) \<and>
    (cc_is_consistent resp \<longleftrightarrow> cc_discrepancies resp = [])"
proof -
  let ?ps = "get_round_players db rid" and ?s = "rebuild_hand_state (ledger_rows db rid)"
  from assms(2) obtain r where r: "fetch_round db rid = Inr r"
    and cc: "cc_is_consistent resp \<longleftrightarrow> verify_consistency (ledger_rows db rid) (r_pot_amount r) (live_committed ?ps) = []"
      "cc_is_consistent resp \<longleftrightarrow> cc_discrepancies resp = []"
    by (auto simp: check_consistency_def bindE_simps Let_def)
  have dist: "distinct (map rp_player_id ?ps)" using get_round_players_distinct(1) [OF db_ok_round_rows [OF assms(1)]] .
  have find: "List.find (\<lambda>p. rp_player_id p = pid) ?ps = Some p \<longleftrightarrow> p \<in> set ?ps \<and> rp_player_id p = pid" for pid p
    using find_key_unique [OF dist] find_Some_mem by fastforce
  have iff: "(\<forall>pid. map_option snap_total_committed (dict_get (hs_players ?s) pid) = dict_get (live_committed ?ps) pid) \<longleftrightarrow>
      same_players db rid \<and> (\<forall>p \<in> set ?ps. committed_by (rp_player_id p) ?s = rp_committed_this_hand p)" (is "?L \<longleftrightarrow> ?R")
  proof
    assume L: ?L
    have "same_players db rid" unfolding same_players_def get_hand_state_def
    proof (rule set_eqI)
      fix pid
      have "pid \<in> fst ` set (hs_players ?s) \<longleftrightarrow> dict_get (live_committed ?ps) pid \<noteq> None"
        using L [rule_format, of pid] dict_get_None_iff [of "hs_players ?s" pid] by (metis option.map_disc_iff)
      also have "\<dots> \<longleftrightarrow> pid \<in> rp_player_id ` set ?ps"
        by (auto simp: live_committed_get(1) [OF dist] find_None_mem)
      finally show "pid \<in> fst ` set (hs_players ?s) \<longleftrightarrow> pid \<in> rp_player_id ` set ?ps" .
    qed
    moreover have "committed_by (rp_player_id p) ?s = rp_committed_this_hand p" if "p \<in> set ?ps" for p
    proof -
      have "dict_get (live_committed ?ps) (rp_player_id p) = Some (rp_committed_this_hand p)"
        using find that by (auto simp: live_committed_get(1) [OF dist])
      with L [rule_format, of "rp_player_id p"] show ?thesis by (auto simp: committed_by_def)
    qed
    ultimately show ?R by blast
  next
    assume R: ?R
    show ?L
    proof
      fix pid
      show "map_option snap_total_committed (dict_get (hs_players ?s) pid) = dict_get (live_committed ?ps) pid"
      proof (cases "List.find (\<lambda>p. rp_player_id p = pid) ?ps")
        case None
        then have "pid \<notin> rp_player_id ` set ?ps" by (auto simp: find_None_mem)
        with R have "dict_get (hs_players ?s) pid = None"
          by (auto simp: dict_get_None_iff same_players_def get_hand_state_def)
        with None show ?thesis by (simp add: live_committed_get(1) [OF dist])
      next
        case (Some p)
        then have p: "p \<in> set ?ps" "rp_player_id p = pid" using find by auto
        with R have "pid \<in> fst ` set (hs_players ?s)" by (auto simp: same_players_def get_hand_state_def)
        then obtain ps where "dict_get (hs_players ?s) pid = Some ps" using dict_get_None_iff by fastforce
        with R p Some show ?thesis by (auto simp: live_committed_get(1) [OF dist] committed_by_def)
      qed
    qed
  qed
  have "ledger_agrees db rid \<longleftrightarrow> hs_pot_total ?s = r_pot_amount r \<and>
      (\<forall>p \<in> set ?ps. committed_by (rp_player_id p) ?s = rp_committed_this_hand p)"
    using assms(3) by (auto simp: ledger_agrees_def r Let_def list_all_iff)
  then show ?thesis
    using cc iff verify_consistency_Nil [OF live_committed_get(2) [OF dist], of "ledger_rows db rid" "r_pot_amount r"] by blast
qed

theorem check_consistency_iff_agreement_witness:
  "cc_is_consistent (the_ok (check_consistency dealt_db ''u0'')) \<longleftrightarrow> ledger_agrees dealt_db ''u0'' \<and> same_players dealt_db ''u0''"
proof -
  have "is_ok (check_consistency dealt_db ''u0'')" by code_simp
  note cc = is_okD [OF this]
  have "db_ok dealt_db" "list_all (\<lambda>p. rp_player_id p \<noteq> []) (get_round_players dealt_db ''u0'')" by code_simp+
  then show ?thesis using check_consistency_iff_agreement [OF _ cc] by blast
qed


section \<open>Summaries of the bets\<close>

definition bets_of :: "player_id \<Rightarrow> Bet list \<Rightarrow> Bet list" where
  "bets_of pid bets = filter (\<lambda>b. b_player_id b = pid) bets"

lemma summarize_distinct: "distinct (map fst d) \<Longrightarrow> distinct (map fst (foldl summarize d bets))"
  by (induction bets arbitrary: d) (simp_all add: summarize_def Let_def distinct_dict_set)

lemma summarize_total:
  assumes "distinct (map fst d)"
  shows "sum_list (map (pbs_total_bet \<circ> snd) (summarize d b)) = sum_list (map (pbs_total_bet \<circ> snd) d) + b_amount b"
  using sum_dict_set [OF assms, of pbs_total_bet "b_player_id b"]
  by (cases "dict_get d (b_player_id b)") (auto simp: summarize_def Let_def get_or_def)

lemma summaries_get:
  "dict_get (foldl summarize [] bets) pid =
    (if bets_of pid bets = [] then None
     else Some \<lparr>pbs_player_id = pid, pbs_total_bet = sum_list (map b_amount (bets_of pid bets)),
       pbs_last_action = b_action (last (bets_of pid bets)),
       pbs_is_folded = list_ex (\<lambda>b. b_action b = FOLD) (bets_of pid bets)\<rparr>)"
proof (induction bets rule: rev_induct)
  case (snoc b bets)
  then show ?case by (auto simp: summarize_def Let_def get_or_def bets_of_def)
qed (simp add: bets_of_def)

text \<open>
  The summaries add up. \<^verbatim>\<open>get_player_summaries\<close> has one summary for each player who
  acted and none for anybody else: his total is the sum of his bets, his last action the
  latest of them, and he is folded exactly when one of them was a fold; together the
  totals make up the pot that \<^verbatim>\<open>get_pot\<close> reports.
\<close>

theorem player_summaries_correct:
  "distinct (map pbs_player_id (get_player_summaries db rid)) \<and>
   set (get_player_summaries db rid) = (\<lambda>pid. let bs = bets_of pid (get_bets_for_round db rid) in
     \<lparr>pbs_player_id = pid, pbs_total_bet = sum_list (map b_amount bs), pbs_last_action = b_action (last bs),
      pbs_is_folded = list_ex (\<lambda>b. b_action b = FOLD) bs\<rparr>) ` b_player_id ` set (get_bets_for_round db rid) \<and>
   sum_list (map pbs_total_bet (get_player_summaries db rid)) = pot_total_pot (get_pot db rid)"
proof -
  let ?bets = "get_bets_for_round db rid"
  define d where "d = foldl summarize [] ?bets"
  have dist: "distinct (map fst d)" unfolding d_def by (rule summarize_distinct) simp
  have mem: "(pid, x) \<in> set d \<longleftrightarrow> dict_get d pid = Some x" for pid x
    using dist by (simp add: dict_get_def map_of_eq_Some_iff)
  have key: "pbs_player_id (snd kv) = fst kv" if "kv \<in> set d" for kv
  proof -
    have "dict_get d (fst kv) = Some (snd kv)" using mem [of "fst kv" "snd kv"] that by simp
    then show ?thesis unfolding d_def summaries_get by (cases kv) (auto split: if_splits)
  qed
  have "map pbs_player_id (map snd d) = map fst d" using key by simp
  then have one: "distinct (map pbs_player_id (get_player_summaries db rid))"
    unfolding get_player_summaries_def d_def [symmetric] using dist by (simp only:)
  define f where "f pid = (let bs = bets_of pid ?bets in
     \<lparr>pbs_player_id = pid, pbs_total_bet = sum_list (map b_amount bs), pbs_last_action = b_action (last bs),
      pbs_is_folded = list_ex (\<lambda>b. b_action b = FOLD) bs\<rparr>)" for pid
  have get: "dict_get d pid = (if pid \<in> b_player_id ` set ?bets then Some (f pid) else None)" for pid
    unfolding d_def summaries_get f_def Let_def by (auto simp: bets_of_def filter_empty_conv)
  have "snd ` set d = f ` b_player_id ` set ?bets"
  proof (rule set_eqI)
    fix x
    have "x \<in> snd ` set d \<longleftrightarrow> (\<exists>pid. dict_get d pid = Some x)" by (force simp: mem [symmetric])
    then show "x \<in> snd ` set d \<longleftrightarrow> x \<in> f ` b_player_id ` set ?bets" by (auto simp: get split: if_splits)
  qed
  then have all: "set (get_player_summaries db rid) = f ` b_player_id ` set ?bets"
    by (simp add: get_player_summaries_def d_def)
  have "sum_list (map (pbs_total_bet \<circ> snd) (foldl summarize [] bets)) = sum_list (map b_amount bets)" for bets
  proof (induction bets rule: rev_induct)
    case (snoc b bets)
    have "distinct (map fst (foldl summarize [] bets))" by (rule summarize_distinct) simp
    from summarize_total [OF this, of b] snoc show ?case by (simp add: comp_def)
  qed simp
  then have "sum_list (map pbs_total_bet (get_player_summaries db rid)) = pot_total_pot (get_pot db rid)"
    by (simp add: get_player_summaries_def get_pot_def get_pot_total_def comp_def)
  with one all show ?thesis unfolding f_def by blast
qed

end
