(* ===== verification/Betting_Round.thy ===== *)
theory Betting_Round
  imports Action_Pipeline Step_Systems
begin

text \<open>
  A betting round as a system of its own: the accepted actions of \<^verbatim>\<open>apply_action\<close> as steps.
  Each step uses up something, so a betting round ends; and while it is open the player
  on turn can move, so it only stops by closing.
\<close>

section \<open>Betting runs down\<close>

inductive bet_step :: "Round \<times> RoundPlayer list \<Rightarrow> Round \<times> RoundPlayer list \<Rightarrow> bool" where
  "apply_action r ps pid x n rules ev = Inr (res, r', ps') \<Longrightarrow> bet_step (r, ps) (r', ps')"

inductive_simps bet_step_simps: "bet_step (r, ps) (r', ps')"

definition live_stack :: "RoundPlayer \<Rightarrow> int" where
  "live_stack p = (if able p then rp_stack_remaining p else 0)"

definition live_stacks :: "RoundPlayer list \<Rightarrow> int" where
  "live_stacks ps = sum_list (map live_stack ps)"

definition on_turn_owes :: "Round \<Rightarrow> RoundPlayer list \<Rightarrow> bool" where
  "on_turn_owes r ps \<longleftrightarrow> (\<exists>q \<in> set ps. r_acting_player_id r = Some (rp_player_id q) \<and>
     rp_committed_this_street q < r_current_highest_bet r)"

definition betting_rank :: "Round \<times> RoundPlayer list \<Rightarrow> nat" where
  "betting_rank s = (case s of (r, ps) \<Rightarrow>
     nat (live_stacks ps) + (if r_is_action_closed r \<or> on_turn_owes r ps then 0 else 1))"

definition betting_inv :: "Round \<times> RoundPlayer list \<Rightarrow> bool" where
  "betting_inv s \<longleftrightarrow> (case s of (r, ps) \<Rightarrow> hand_ok r ps \<and> r_status r = ROUND_ACTIVE \<and>
     (r_is_action_closed r \<or> r_acting_player_id r \<noteq> None))"

lemma moves_chips:
  assumes "legal ctx p a n" and "0 < ps_stack_remaining p" and "va_action (effective ctx p a n) \<notin> {FOLD, CHECK}"
  shows "0 < va_amount (effective ctx p a n)"
  using assms by (cases a) (auto simp: effective_simps split: if_splits)

lemma live_stacks_after:
  assumes "accepted r ps pid p v"
  shows "live_stacks (players_after v pid ps) \<le> live_stacks ps"
    and "va_action v \<noteq> CHECK \<Longrightarrow> live_stacks (players_after v pid ps) < live_stacks ps"
proof -
  from assms obtain x n rules where val: "validate_bet (build_hand_context r ps) pid x n rules = Inr v"
    and may: "may_act (build_hand_context r ps) pid (player_state_of p)" by (auto simp: accepted_def)
  have p: "able p" "0 < rp_stack_remaining p" using acceptedD(5,6) [OF assms] by (auto simp: player_ok_def)
  have sum: "live_stacks (players_after v pid ps) = live_stacks ps - rp_stack_remaining p + live_stack (acted v p)"
    using sum_update_first [OF acceptedD(2) [OF assms], of live_stack "acted v"] p(1)
    by (simp add: live_stacks_def players_after_def live_stack_def)
  have le: "live_stack (acted v p) \<le> rp_stack_remaining p - va_amount v"
    using accepted_amount(2) [OF assms] by (simp add: live_stack_def)
  then show "live_stacks (players_after v pid ps) \<le> live_stacks ps"
    using sum accepted_amount(1) [OF assms] by simp
  assume no_check: "va_action v \<noteq> CHECK"
  show "live_stacks (players_after v pid ps) < live_stacks ps"
  proof (cases "va_action v = FOLD")
    case True
    then have "live_stack (acted v p) = 0" by (simp add: live_stack_def able_def)
    with sum p(2) show ?thesis by simp
  next
    case False
    from val may obtain a where "legal (build_hand_context r ps) (player_state_of p) a n"
      "v = effective (build_hand_context r ps) (player_state_of p) a n" by (rule validate_bet_effective)
    with moves_chips p(2) no_check False have "0 < va_amount v" by fastforce
    with sum le show ?thesis by simp
  qed
qed

lemma live_stacks_nonneg: "hand_ok r ps \<Longrightarrow> 0 \<le> live_stacks ps"
  by (auto simp: live_stacks_def live_stack_def hand_ok_def player_ok_def intro!: sum_list_nonneg)

lemma owing_cannot_check:
  assumes "accepted r ps pid p v" and "on_turn_owes r ps"
  shows "va_action v \<noteq> CHECK"
proof
  assume check: "va_action v = CHECK"
  from assms(1) obtain x n rules where val: "validate_bet (build_hand_context r ps) pid x n rules = Inr v"
    and may: "may_act (build_hand_context r ps) pid (player_state_of p)" by (auto simp: accepted_def)
  from assms(2) obtain q where q: "q \<in> set ps" "r_acting_player_id r = Some (rp_player_id q)"
    "rp_committed_this_street q < r_current_highest_bet r" by (auto simp: on_turn_owes_def)
  then have "q = p"
    using acceptedD(1,3,4,8) [OF assms(1)] distinct_key_eq [of rp_player_id ps q p] by (auto simp: hand_ok_def)
  with no_limit.check_matched [OF val may check] q(3) show False by (simp add: build_hand_context_def)
qed

interpretation betting: ranked_system bet_step betting_inv betting_rank
proof
  fix s s' assume step: "bet_step s s'" and inv: "betting_inv s"
  obtain r ps r' ps' where s: "s = (r, ps)" "s' = (r', ps')" by (metis surj_pair)
  have ok: "hand_ok r ps" and act: "r_status r = ROUND_ACTIVE" using inv by (simp_all add: s betting_inv_def)
  from step obtain pid x n rules ev res where run: "apply_action r ps pid x n rules ev = Inr (res, r', ps')"
    by (auto simp: s bet_step_simps)
  from run ok show "betting_inv s' \<and> betting_rank s' < betting_rank s"
  proof (rule apply_action_accepted)
    fix p v assume acc: "accepted r ps pid p v" and out: "ps' = players_after v pid ps" "r' = round_after v p r ps'"
    have ok': "hand_ok r' ps'" using hand_ok_after [OF acc out(1)] out(2) by simp
    have next': "r_is_action_closed r' \<or> on_turn_owes r' ps'" "r_is_action_closed r' \<or> r_acting_player_id r' \<noteq> None"
      using action_closing [OF ok run] by (auto simp: on_turn_owes_def)
    have opened: "\<not> r_is_action_closed r" using acceptedD(7) [OF acc] .
    note stacks = live_stacks_after [OF acc, folded out(1)]
    have "betting_rank (r', ps') < betting_rank (r, ps)"
    proof (cases "on_turn_owes r ps")
      case True
      then have "live_stacks ps' < live_stacks ps" using stacks(2) owing_cannot_check [OF acc] by blast
      with live_stacks_nonneg [OF ok'] next'(1) True show ?thesis by (simp add: betting_rank_def)
    next
      case False
      with stacks(1) next'(1) opened show ?thesis by (simp add: betting_rank_def nat_mono less_Suc_eq_le)
    qed
    moreover have "r_status r' = ROUND_ACTIVE" using act out(2) by (simp add: round_after_def)
    ultimately show ?thesis using ok' next'(2) by (simp add: s betting_inv_def)
  qed
qed

lemma on_turn_can_fold:
  assumes "hand_ok r ps" and "r_status r = ROUND_ACTIVE" and "\<not> r_is_action_closed r" and "r_acting_player_id r = Some pid"
  shows "\<exists>t. bet_step (r, ps) t"
proof -
  from assms(1,4) obtain p where p: "p \<in> set ps" "rp_player_id p = pid" "able p" by (auto simp: hand_ok_def turn_ok_def)
  have "List.find (\<lambda>rp. rp_player_id rp = pid) ps = Some p"
    using assms(1) p(1,2) by (auto simp: hand_ok_def intro: find_key_unique)
  then have "get_player (build_hand_context r ps) pid = Some (player_state_of p)" by (simp add: get_player_context)
  with assms p have may: "may_act (build_hand_context r ps) pid (player_state_of p)"
    by (simp add: may_act_def able_def build_hand_context_def)
  have "BetAction_of (upper (BetAction_value a)) = Some a" for a by (simp add: BetAction_of_Some)
  with may have "\<exists>v. validate_bet (build_hand_context r ps) pid (BetAction_value FOLD) 0 NO_LIMIT_HOLDEM = Inr v"
    unfolding validate_bet_accepts by (metis legal.simps(1))
  then have "apply_action r ps pid (BetAction_value FOLD) 0 NO_LIMIT_HOLDEM None \<noteq> Inl e" for e
    using apply_action_Inl [of r ps pid "BetAction_value FOLD" 0 NO_LIMIT_HOLDEM None e] by auto
  then obtain out where "apply_action r ps pid (BetAction_value FOLD) 0 NO_LIMIT_HOLDEM None = Inr out"
    by (metis sum.exhaust)
  then show ?thesis by (cases out) (auto intro: bet_step.intros)
qed

text \<open>
  C5: every betting round ends, and only by closing. From a well-formed active hand with a
  player on turn, no sequence of accepted actions is longer than the chips in the stacks
  of the players able to act, plus one; after any sequence the street is closed or a
  further action is accepted; so some sequence of actions closes it.
\<close>

theorem betting_round_ends:
  assumes "hand_ok r ps" and "r_status r = ROUND_ACTIVE" and "r_acting_player_id r = Some pid"
  shows "((bet_step ^^ k) (r, ps) s \<longrightarrow> int k \<le> live_stacks ps + 1) \<and>
    (bet_step\<^sup>*\<^sup>* (r, ps) (r', ps') \<longrightarrow> r_is_action_closed r' \<or> (\<exists>t. bet_step (r', ps') t)) \<and>
    (\<exists>r'' ps''. bet_step\<^sup>*\<^sup>* (r, ps) (r'', ps'') \<and> r_is_action_closed r'')"
proof -
  have inv: "betting_inv (r, ps)" using assms by (simp add: betting_inv_def)
  have "int k \<le> live_stacks ps + 1" if "(bet_step ^^ k) (r, ps) s"
  proof -
    have "k \<le> betting_rank (r, ps)" using betting.run_bounded [OF that inv] by simp
    also have "betting_rank (r, ps) \<le> nat (live_stacks ps) + 1" by (simp add: betting_rank_def)
    finally show ?thesis using live_stacks_nonneg [OF assms(1)] by linarith
  qed
  moreover have stuck: "r_is_action_closed r' \<or> (\<exists>t. bet_step (r', ps') t)" if "bet_step\<^sup>*\<^sup>* (r, ps) (r', ps')" for r' ps'
    using betting.run_inv [OF that inv] on_turn_can_fold [of r' ps'] by (auto simp: betting_inv_def)
  moreover have "\<exists>r'' ps''. bet_step\<^sup>*\<^sup>* (r, ps) (r'', ps'') \<and> r_is_action_closed r''"
    using betting.run_stops [OF inv] stuck by (metis surj_pair)
  ultimately show ?thesis by blast
qed

theorem betting_round_ends_witness:
  "\<exists>r'' ps''. bet_step\<^sup>*\<^sup>* (example_round, example_players) (r'', ps'') \<and> r_is_action_closed r''"
proof -
  have "r_status example_round = ROUND_ACTIVE" "r_acting_player_id example_round = Some ''a''" by code_simp+
  from betting_round_ends [OF example_hand_ok this] show ?thesis by blast
qed

end
