(* ===== verification/Outbox_Worker.thy ===== *)
theory Outbox_Worker
  imports Models Step_Systems
begin

text \<open>
  \<^verbatim>\<open>shared/core/outbox/worker.py\<close>: the loop that publishes the events the commands left in
  the outbox. The table is the list of its rows in the order of their ids; a row is
  identified by its event id, which is unique as the id is. The message broker is a
  parameter: a publisher tells of each row whether \<^verbatim>\<open>publish\<close> succeeds (None) or raises,
  and with which text.
\<close>

type_synonym ('t, 'd) outbox = "('t, 'd) OutboxEvent list"
type_synonym ('t, 'd) publisher = "('t, 'd) OutboxEvent \<Rightarrow> string option"


section \<open>One poll\<close>

text \<open>\<^verbatim>\<open>locked\<close> are the rows another worker holds: \<^verbatim>\<open>skip_locked=True\<close>.\<close>

definition claim_batch :: "string list \<Rightarrow> nat \<Rightarrow> ('t, 'd) outbox \<Rightarrow> ('t, 'd) outbox" where
  "claim_batch locked batch_size rows =
     take batch_size (filter (\<lambda>e. ox_status e = PENDING \<and> ox_event_id e \<notin> set locked) rows)"

definition mark_sent :: "int \<Rightarrow> string \<Rightarrow> ('t, 'd) outbox \<Rightarrow> ('t, 'd) outbox" where
  "mark_sent now row_id rows = map (\<lambda>e. if ox_event_id e = row_id
     then e\<lparr>ox_status := SENT, ox_published_at := Some now, ox_last_error := None\<rparr> else e) rows"

definition mark_failure :: "string \<Rightarrow> int \<Rightarrow> string \<Rightarrow> int \<Rightarrow> ('t, 'd) outbox \<Rightarrow> ('t, 'd) outbox" where
  "mark_failure row_id attempts err max_attempts rows =
     (let new_status = (if attempts \<ge> max_attempts then FAILED else PENDING) in
      map (\<lambda>e. if ox_event_id e = row_id
        then e\<lparr>ox_status := new_status, ox_attempts := attempts, ox_last_error := Some (take 500 err)\<rparr> else e) rows)"

text \<open>One pass of the loop over the batch; the second component collects what was published.\<close>

definition process_event ::
    "int \<Rightarrow> int \<Rightarrow> ('t, 'd) publisher \<Rightarrow> ('t, 'd) outbox \<times> ('t, 'd) Event list \<Rightarrow> ('t, 'd) OutboxEvent \<Rightarrow>
     ('t, 'd) outbox \<times> ('t, 'd) Event list" where
  "process_event now max_attempts publish s ev = (case s of (rows, published) \<Rightarrow>
     (case publish ev of
        None \<Rightarrow> (mark_sent now (ox_event_id ev) rows, published @ [ox_payload ev])
      | Some e \<Rightarrow>
          let next_attempts = ox_attempts ev + 1 in
          (mark_failure (ox_event_id ev) next_attempts e max_attempts rows, published)))"

definition poll_once ::
    "int \<Rightarrow> int \<Rightarrow> nat \<Rightarrow> string list \<Rightarrow> ('t, 'd) publisher \<Rightarrow> ('t, 'd) outbox \<Rightarrow> ('t, 'd) outbox \<times> ('t, 'd) Event list" where
  "poll_once now max_attempts batch_size locked publish rows =
     foldl (process_event now max_attempts publish) (rows, []) (claim_batch locked batch_size rows)"

text \<open>
  The iterations of \<^verbatim>\<open>run_outbox_loop\<close> until it is stopped. An iteration whose transaction
  fails rolls the rows back; what it published before failing stays published.
\<close>

record ('t, 'd) iteration =
  it_now :: int
  it_locked :: "string list"
  it_publish :: "('t, 'd) publisher"
  it_fails_after :: "nat option"

definition loop_step ::
    "int \<Rightarrow> nat \<Rightarrow> ('t, 'd) outbox \<times> ('t, 'd) Event list \<Rightarrow> ('t, 'd) iteration \<Rightarrow> ('t, 'd) outbox \<times> ('t, 'd) Event list" where
  "loop_step max_attempts batch_size s it = (case s of (rows, log) \<Rightarrow>
     (case poll_once (it_now it) max_attempts batch_size (it_locked it) (it_publish it) rows of (rows', published) \<Rightarrow>
        (case it_fails_after it of
           None \<Rightarrow> (rows', log @ published)
         | Some k \<Rightarrow> (rows, log @ take k published))))"

definition run_outbox_loop ::
    "int \<Rightarrow> nat \<Rightarrow> ('t, 'd) outbox \<Rightarrow> ('t, 'd) iteration list \<Rightarrow> ('t, 'd) outbox \<times> ('t, 'd) Event list" where
  "run_outbox_loop max_attempts batch_size rows its = foldl (loop_step max_attempts batch_size) (rows, []) its"

record OutboxStats =
  st_pending :: nat
  st_failed :: nat
  st_sent :: nat

definition make_outbox_stats :: "('t, 'd) outbox \<Rightarrow> OutboxStats" where
  "make_outbox_stats rows =
     \<lparr>st_pending = length (filter (\<lambda>e. ox_status e = PENDING) rows),
      st_failed = length (filter (\<lambda>e. ox_status e = FAILED) rows),
      st_sent = length (filter (\<lambda>e. ox_status e = SENT) rows)\<rparr>"


section \<open>What a poll does to each row\<close>

definition outcome :: "int \<Rightarrow> int \<Rightarrow> ('t, 'd) publisher \<Rightarrow> ('t, 'd) OutboxEvent \<Rightarrow> ('t, 'd) OutboxEvent" where
  "outcome now max_attempts publish e = (case publish e of
     None \<Rightarrow> e\<lparr>ox_status := SENT, ox_published_at := Some now, ox_last_error := None\<rparr>
   | Some err \<Rightarrow> e\<lparr>ox_status := (if ox_attempts e + 1 \<ge> max_attempts then FAILED else PENDING),
       ox_attempts := ox_attempts e + 1, ox_last_error := Some (take 500 err)\<rparr>)"

lemma outcome_key [simp]:
  "ox_event_id (outcome now m pub e) = ox_event_id e" "ox_payload (outcome now m pub e) = ox_payload e"
  by (simp_all add: outcome_def split: option.splits)

lemma claim_batch_rows:
  "set (claim_batch locked n rows) \<subseteq> {e \<in> set rows. ox_status e = PENDING}"
  by (auto simp: claim_batch_def dest: in_set_takeD)

lemma claim_batch_distinct:
  assumes "distinct (map ox_event_id rows)"
  shows "distinct (claim_batch locked n rows)"
  using assms by (auto simp: claim_batch_def distinct_map)

lemma process_batch:
  assumes "distinct (map ox_event_id rows)" and "set batch \<subseteq> set rows" and "distinct batch"
  shows "foldl (process_event now m pub) (rows, []) batch =
    (map (\<lambda>e. if e \<in> set batch then outcome now m pub e else e) rows, map ox_payload (filter (\<lambda>e. pub e = None) batch))"
  using assms(2,3)
proof (induction batch rule: rev_induct)
  case (snoc b batch)
  have same: "ox_event_id e = ox_event_id b \<longleftrightarrow> e = b" if "e \<in> set rows" for e
    using assms(1) that snoc.prems(1) by (auto simp: distinct_map inj_on_def)
  have IH: "foldl (process_event now m pub) (rows, []) batch =
      (map (\<lambda>e. if e \<in> set batch then outcome now m pub e else e) rows, map ox_payload (filter (\<lambda>e. pub e = None) batch))"
    using snoc by simp
  have "b \<notin> set batch" using snoc.prems(2) by simp
  then have "process_event now m pub (map (\<lambda>e. if e \<in> set batch then outcome now m pub e else e) rows, l) b =
      (map (\<lambda>e. if e \<in> set (batch @ [b]) then outcome now m pub e else e) rows,
       l @ (if pub b = None then [ox_payload b] else []))" for l
    by (cases "pub b") (auto simp: process_event_def mark_sent_def mark_failure_def Let_def same outcome_def [of now m pub b])
  then show ?case by (simp add: IH)
qed simp

lemma poll_once_rows:
  assumes "distinct (map ox_event_id rows)"
  shows "poll_once now m n locked pub rows =
    (map (\<lambda>e. if e \<in> set (claim_batch locked n rows) then outcome now m pub e else e) rows,
     map ox_payload (filter (\<lambda>e. pub e = None) (claim_batch locked n rows)))"
  unfolding poll_once_def
  using process_batch [OF assms _ claim_batch_distinct [OF assms]] claim_batch_rows by fastforce



section \<open>The rows of a working outbox\<close>

text \<open>Pending rows have attempts left; a row that failed has used them all.\<close>

definition row_ok :: "int \<Rightarrow> ('t, 'd) OutboxEvent \<Rightarrow> bool" where
  "row_ok max_attempts e \<longleftrightarrow> 0 \<le> ox_attempts e \<and>
     (ox_status e = PENDING \<longrightarrow> ox_attempts e < max_attempts) \<and> (ox_status e = FAILED \<longrightarrow> ox_attempts e = max_attempts)"

definition outbox_ok :: "int \<Rightarrow> ('t, 'd) outbox \<Rightarrow> bool" where
  "outbox_ok max_attempts rows \<longleftrightarrow> distinct (map ox_event_id rows) \<and> list_all (row_ok max_attempts) rows"

lemma outcome_ok: "row_ok m e \<Longrightarrow> ox_status e = PENDING \<Longrightarrow> row_ok m (outcome now m pub e)"
  by (auto simp: row_ok_def outcome_def split: option.splits)

lemma poll_once_ok:
  assumes "outbox_ok m rows"
  shows "outbox_ok m (fst (poll_once now m n locked pub rows))"
    and "map ox_event_id (fst (poll_once now m n locked pub rows)) = map ox_event_id rows"
    and "map ox_payload (fst (poll_once now m n locked pub rows)) = map ox_payload rows"
proof -
  have dist: "distinct (map ox_event_id rows)" and ok: "list_all (row_ok m) rows" using assms by (simp_all add: outbox_ok_def)
  show ids: "map ox_event_id (fst (poll_once now m n locked pub rows)) = map ox_event_id rows"
    and "map ox_payload (fst (poll_once now m n locked pub rows)) = map ox_payload rows"
    by (simp_all add: poll_once_rows [OF dist])
  have "list_all (row_ok m) (fst (poll_once now m n locked pub rows))"
    using ok claim_batch_rows [of locked n rows] by (auto simp: poll_once_rows [OF dist] list_all_iff intro!: outcome_ok)
  with dist ids show "outbox_ok m (fst (poll_once now m n locked pub rows))" by (simp add: outbox_ok_def)
qed


section \<open>The outbox drains\<close>

definition tries_left :: "int \<Rightarrow> ('t, 'd) OutboxEvent \<Rightarrow> nat" where
  "tries_left max_attempts e = (if ox_status e = PENDING then nat (max_attempts - ox_attempts e) else 0)"

definition outbox_rank :: "int \<Rightarrow> ('t, 'd) outbox \<Rightarrow> nat" where
  "outbox_rank max_attempts rows = sum_list (map (tries_left max_attempts) rows)"

text \<open>A completed poll of a worker that is alone, while there is something to do.\<close>

inductive drain_step :: "int \<Rightarrow> nat \<Rightarrow> ('t, 'd) outbox \<Rightarrow> ('t, 'd) outbox \<Rightarrow> bool" for max_attempts batch_size where
  "0 < batch_size \<Longrightarrow> e \<in> set rows \<Longrightarrow> ox_status e = PENDING \<Longrightarrow>
   rows' = fst (poll_once now max_attempts batch_size [] publish rows) \<Longrightarrow> drain_step max_attempts batch_size rows rows'"

lemma outcome_tries:
  "row_ok m e \<Longrightarrow> ox_status e = PENDING \<Longrightarrow> tries_left m (outcome now m pub e) < tries_left m e"
  by (auto simp: tries_left_def outcome_def row_ok_def split: option.splits)

lemma sum_list_strict_mono_nat:
  fixes f g :: "'a \<Rightarrow> nat"
  assumes "\<And>x. x \<in> set xs \<Longrightarrow> f x \<le> g x" and "y \<in> set xs" and "f y < g y"
  shows "sum_list (map f xs) < sum_list (map g xs)"
  using assms
proof (induction xs)
  case (Cons x xs)
  have le: "sum_list (map f xs) \<le> sum_list (map g xs)" using Cons.prems(1) by (intro sum_list_mono) simp
  show ?case
  proof (cases "y = x")
    case True
    with Cons.prems(3) le show ?thesis by simp
  next
    case False
    with Cons have "sum_list (map f xs) < sum_list (map g xs)" by simp
    with Cons.prems(1) [of x] show ?thesis by simp
  qed
qed simp

interpretation draining: ranked_system "drain_step m n" "outbox_ok m" "outbox_rank m" for m n
proof
  fix rows rows' :: "('t, 'd) outbox"
  assume "drain_step m n rows rows'" and ok: "outbox_ok m rows"
  then obtain e now pub where n: "0 < n" and e: "e \<in> set rows" "ox_status e = PENDING"
    and rows': "rows' = fst (poll_once now m n [] pub rows)" by (auto elim: drain_step.cases)
  have dist: "distinct (map ox_event_id rows)" and rok: "list_all (row_ok m) rows" using ok by (simp_all add: outbox_ok_def)
  let ?b = "set (claim_batch [] n rows)"
  have "filter (\<lambda>e. ox_status e = PENDING) rows \<noteq> []" using e by (auto simp: filter_empty_conv)
  then obtain b where b: "b \<in> ?b" using n by (cases "filter (\<lambda>e. ox_status e = PENDING) rows"; cases n) (auto simp: claim_batch_def)
  have less: "tries_left m (outcome now m pub x) < tries_left m x" if "x \<in> ?b" for x
    using that claim_batch_rows [of "[]" n rows] rok by (auto simp: list_all_iff intro!: outcome_tries)
  have "outbox_rank m rows' < outbox_rank m rows"
    unfolding rows' poll_once_rows [OF dist] outbox_rank_def fst_conv map_map
    using b claim_batch_rows [of "[]" n rows] less by (intro sum_list_strict_mono_nat [of _ _ _ b]) (auto simp: less_imp_le)
  then show "outbox_ok m rows' \<and> outbox_rank m rows' < outbox_rank m rows"
    using poll_once_ok(1) [OF ok] rows' by blast
qed

lemma rank_zero:
  assumes "outbox_ok m rows" and "outbox_rank m rows = 0" and "e \<in> set rows"
  shows "ox_status e \<noteq> PENDING"
proof -
  have "tries_left m e = 0" using assms(2,3) unfolding outbox_rank_def sum_list_eq_0_iff by simp
  moreover have "row_ok m e" using assms(1,3) by (simp add: outbox_ok_def list_all_iff)
  ultimately show ?thesis by (auto simp: tries_left_def row_ok_def)
qed

lemma poll_rank:
  assumes "outbox_ok m rows" and "0 < n"
  shows "outbox_rank m (fst (poll_once now m n [] pub rows)) \<le> outbox_rank m rows - 1"
proof (cases "\<exists>e \<in> set rows. ox_status e = PENDING")
  case True
  then have "drain_step m n rows (fst (poll_once now m n [] pub rows))" using assms(2) by (auto intro: drain_step.intros)
  from draining.step_ranked [OF this assms(1)] show ?thesis by linarith
next
  case False
  then have "claim_batch [] n rows = []" by (auto simp: claim_batch_def filter_empty_conv)
  moreover have "outbox_rank m rows = 0" using False by (auto simp: outbox_rank_def tries_left_def)
  ultimately show ?thesis by (simp add: poll_once_def)
qed

lemma loop_rank:
  assumes "outbox_ok m rows" and "0 < n" and "list_all (\<lambda>it. it_fails_after it = None \<and> it_locked it = []) its"
  shows "outbox_rank m (fst (foldl (loop_step m n) (rows, log) its)) \<le> outbox_rank m rows - length its"
  using assms
proof (induction its arbitrary: rows log)
  case (Cons it its)
  let ?p = "poll_once (it_now it) m n [] (it_publish it) rows"
  have step: "loop_step m n (rows, log) it = (fst ?p, log @ snd ?p)"
    using Cons.prems(3) by (simp add: loop_step_def case_prod_unfold)
  have "outbox_rank m (fst (foldl (loop_step m n) (fst ?p, log @ snd ?p) its)) \<le> outbox_rank m (fst ?p) - length its"
    using Cons poll_once_ok(1) [OF Cons.prems(1)] by simp
  with poll_rank [OF Cons.prems(1,2), of "it_now it" "it_publish it"] show ?case by (simp add: step)
qed simp


section \<open>What has been published\<close>

text \<open>
  Where a row stands compared with the table at the start: its event is the same; if it
  was not pending it has not been touched; if it became SENT, its event was published.
\<close>

definition row_delivered :: "('t, 'd) Event list \<Rightarrow> ('t, 'd) OutboxEvent \<Rightarrow> ('t, 'd) OutboxEvent \<Rightarrow> bool" where
  "row_delivered log e e' \<longleftrightarrow> ox_event_id e' = ox_event_id e \<and> ox_payload e' = ox_payload e \<and>
     (ox_status e \<noteq> PENDING \<longrightarrow> e' = e) \<and> (ox_status e = PENDING \<and> ox_status e' = SENT \<longrightarrow> ox_payload e \<in> set log)"

definition delivered :: "('t, 'd) outbox \<Rightarrow> ('t, 'd) outbox \<times> ('t, 'd) Event list \<Rightarrow> bool" where
  "delivered rows0 s \<longleftrightarrow> (case s of (rows, log) \<Rightarrow> list_all2 (row_delivered log) rows0 rows \<and>
     set log \<subseteq> ox_payload ` {e \<in> set rows0. ox_status e = PENDING})"

lemma row_delivered_mono: "row_delivered log e e' \<Longrightarrow> set log \<subseteq> set log' \<Longrightarrow> row_delivered log' e e'"
  by (auto simp: row_delivered_def)

lemma delivered_refl: "delivered rows (rows, [])"
  by (auto simp: delivered_def row_delivered_def intro: list.rel_refl_strong)

lemma outcome_delivered:
  assumes "row_delivered log e e'" and "ox_status e' = PENDING" and "pub e' = None \<Longrightarrow> ox_payload e' \<in> set log'"
    and "set log \<subseteq> set log'"
  shows "row_delivered log' e (outcome now m pub e')"
  using assms by (auto simp: row_delivered_def outcome_def split: option.splits)

lemma list_all2_left: "list_all2 P xs ys \<Longrightarrow> y \<in> set ys \<Longrightarrow> \<exists>x \<in> set xs. P x y"
  by (induction rule: list_all2_induct) auto

lemma list_all2_right: "list_all2 P xs ys \<Longrightarrow> x \<in> set xs \<Longrightarrow> \<exists>y \<in> set ys. P x y"
  by (induction rule: list_all2_induct) auto

lemma delivered_pending:
  assumes "delivered rows0 (rows, log)" and "e' \<in> set rows" and "ox_status e' = PENDING"
  shows "ox_payload e' \<in> ox_payload ` {e \<in> set rows0. ox_status e = PENDING}"
proof -
  have "list_all2 (row_delivered log) rows0 rows" using assms(1) by (simp add: delivered_def)
  from list_all2_left [OF this assms(2)] obtain e where "e \<in> set rows0" "row_delivered log e e'" ..
  with assms(3) show ?thesis by (force simp: row_delivered_def)
qed

lemma loop_step_delivered:
  assumes "outbox_ok m (fst s)" and "delivered rows0 s"
  shows "outbox_ok m (fst (loop_step m n s it)) \<and> delivered rows0 (loop_step m n s it)"
proof -
  obtain rows log where s: "s = (rows, log)" by fastforce
  let ?b = "claim_batch (it_locked it) n rows" and ?pub = "it_publish it"
  have ok: "outbox_ok m rows" and del: "delivered rows0 (rows, log)" using assms by (simp_all add: s)
  then have dist: "distinct (map ox_event_id rows)" by (simp add: outbox_ok_def)
  obtain rows' published where poll: "poll_once (it_now it) m n (it_locked it) ?pub rows = (rows', published)" by fastforce
  have pubs: "published = map ox_payload (filter (\<lambda>e. ?pub e = None) ?b)"
    and rows': "rows' = map (\<lambda>e. if e \<in> set ?b then outcome (it_now it) m ?pub e else e) rows"
    using poll poll_once_rows [OF dist] by auto
  have old: "set published \<subseteq> ox_payload ` {e \<in> set rows0. ox_status e = PENDING}"
  proof
    fix x assume "x \<in> set published"
    then obtain e' where "e' \<in> set ?b" "x = ox_payload e'" by (auto simp: pubs)
    with claim_batch_rows [of "it_locked it" n rows] delivered_pending [OF del]
    show "x \<in> ox_payload ` {e \<in> set rows0. ox_status e = PENDING}" by blast
  qed
  have each: "list_all2 (row_delivered log) rows0 rows" using del by (simp add: delivered_def)
  show ?thesis
  proof (cases "it_fails_after it")
    case None
    have "list_all2 (row_delivered (log @ published)) rows0 rows'"
      unfolding rows' list.rel_map
    proof (rule list.rel_mono_strong [OF each])
      fix e e' assume "e' \<in> set rows" and d: "row_delivered log e e'"
      show "row_delivered (log @ published) e (if e' \<in> set ?b then outcome (it_now it) m ?pub e' else e')"
      proof (cases "e' \<in> set ?b")
        case True
        then have "ox_status e' = PENDING" using claim_batch_rows by blast
        moreover have "?pub e' = None \<Longrightarrow> ox_payload e' \<in> set (log @ published)" using True by (simp add: pubs)
        ultimately show ?thesis using outcome_delivered [OF d] True by simp
      qed (use row_delivered_mono [OF d] in simp)
    qed
    with None del old poll_once_ok(1) [OF ok] poll show ?thesis
      by (simp add: s loop_step_def delivered_def) (metis fst_conv)
  next
    case (Some k)
    have "list_all2 (row_delivered (log @ take k published)) rows0 rows"
      using each by (rule list.rel_mono_strong) (auto intro: row_delivered_mono)
    moreover have "set (take k published) \<subseteq> set published" by (rule set_take_subset)
    ultimately show ?thesis using Some ok del old poll by (auto simp: s loop_step_def delivered_def)
  qed
qed

lemma run_delivered:
  assumes "outbox_ok m (fst s)" and "delivered rows0 s"
  shows "outbox_ok m (fst (foldl (loop_step m n) s its)) \<and> delivered rows0 (foldl (loop_step m n) s its)"
  using assms by (induction its arbitrary: s) (auto simp: loop_step_delivered)


lemma run_outbox_loop_keeps:
  assumes "outbox_ok m rows" and "run_outbox_loop m n rows its = (rows', log)"
  shows "outbox_ok m rows' \<and> delivered rows (rows', log)"
  using run_delivered [OF _ delivered_refl [of rows], of m n its] assms by (simp add: run_outbox_loop_def)


section \<open>Properties\<close>

text \<open>
  C36: no event is lost, and none is invented. Whatever the broker does, whichever rows other
  workers hold and however many iterations fail and roll back, every row keeps its event;
  a row is marked SENT only if its event was published, FAILED only after
  \<^verbatim>\<open>max_attempts\<close> attempts, and otherwise stays PENDING; a row that was not pending is not
  touched; and only events of pending rows are ever published.
\<close>

theorem outbox_at_least_once:
  assumes "outbox_ok max_attempts rows" and "run_outbox_loop max_attempts batch_size rows its = (rows', log)"
  shows "list_all2 (\<lambda>e e'. ox_event_id e' = ox_event_id e \<and> ox_payload e' = ox_payload e \<and>
      (ox_status e \<noteq> PENDING \<longrightarrow> e' = e) \<and>
      (ox_status e = PENDING \<longrightarrow> (case ox_status e' of
         SENT \<Rightarrow> ox_payload e \<in> set log
       | FAILED \<Rightarrow> ox_attempts e' = max_attempts
       | PENDING \<Rightarrow> ox_attempts e' < max_attempts))) rows rows' \<and>
    set log \<subseteq> ox_payload ` {e \<in> set rows. ox_status e = PENDING} \<and> outbox_ok max_attempts rows'"
proof -
  have run: "outbox_ok max_attempts rows'" "delivered rows (rows', log)"
    using run_outbox_loop_keeps [OF assms] by simp_all
  have "list_all2 (row_delivered log) rows rows'" using run(2) by (simp add: delivered_def)
  then have "list_all2 (\<lambda>e e'. ox_event_id e' = ox_event_id e \<and> ox_payload e' = ox_payload e \<and>
      (ox_status e \<noteq> PENDING \<longrightarrow> e' = e) \<and>
      (ox_status e = PENDING \<longrightarrow> (case ox_status e' of
         SENT \<Rightarrow> ox_payload e \<in> set log
       | FAILED \<Rightarrow> ox_attempts e' = max_attempts
       | PENDING \<Rightarrow> ox_attempts e' < max_attempts))) rows rows'"
  proof (rule list.rel_mono_strong)
    fix e e' assume "e' \<in> set rows'" and "row_delivered log e e'"
    moreover from this run(1) have "row_ok max_attempts e'" by (auto simp: outbox_ok_def list_all_iff)
    ultimately show "ox_event_id e' = ox_event_id e \<and> ox_payload e' = ox_payload e \<and>
      (ox_status e \<noteq> PENDING \<longrightarrow> e' = e) \<and>
      (ox_status e = PENDING \<longrightarrow> (case ox_status e' of
         SENT \<Rightarrow> ox_payload e \<in> set log
       | FAILED \<Rightarrow> ox_attempts e' = max_attempts
       | PENDING \<Rightarrow> ox_attempts e' < max_attempts))"
      by (auto simp: row_delivered_def row_ok_def split: OutboxStatus.splits)
  qed
  with run show ?thesis by (simp add: delivered_def)
qed

text \<open>
  C37: the outbox drains. With a batch size of at least one, a worker that is alone and whose
  transactions succeed leaves no row pending after as many polls as the pending rows have
  attempts left together, whatever the broker does: every event has then been published
  or has failed for good.
\<close>

theorem outbox_drains:
  assumes "outbox_ok max_attempts rows" and "0 < batch_size"
    and "list_all (\<lambda>it. it_fails_after it = None \<and> it_locked it = []) its"
    and "outbox_rank max_attempts rows \<le> length its"
    and "run_outbox_loop max_attempts batch_size rows its = (rows', log)"
  shows "st_pending (make_outbox_stats rows') = 0 \<and> length rows' = length rows \<and>
    (\<forall>e \<in> set rows. ox_status e = PENDING \<longrightarrow> ox_payload e \<in> set log \<or>
      (\<exists>e' \<in> set rows'. ox_event_id e' = ox_event_id e \<and> ox_status e' = FAILED \<and> ox_attempts e' = max_attempts))"
proof -
  have run: "outbox_ok max_attempts rows'" "delivered rows (rows', log)"
    using run_outbox_loop_keeps [OF assms(1,5)] by simp_all
  have "outbox_rank max_attempts rows' = 0"
    using loop_rank [OF assms(1-3), of "[]"] assms(4,5) by (simp add: run_outbox_loop_def)
  with rank_zero [OF run(1)] have none: "ox_status e' \<noteq> PENDING" if "e' \<in> set rows'" for e' using that by blast
  have each: "list_all2 (row_delivered log) rows rows'" using run(2) by (simp add: delivered_def)
  have "ox_payload e \<in> set log \<or>
      (\<exists>e' \<in> set rows'. ox_event_id e' = ox_event_id e \<and> ox_status e' = FAILED \<and> ox_attempts e' = max_attempts)"
    if "e \<in> set rows" "ox_status e = PENDING" for e
  proof -
    from list_all2_right [OF each that(1)] obtain e' where e': "e' \<in> set rows'" "row_delivered log e e'" ..
    moreover have "row_ok max_attempts e'" using e'(1) run(1) by (auto simp: outbox_ok_def list_all_iff)
    ultimately show ?thesis using none [OF e'(1)] that(2)
      by (cases "ox_status e'") (auto simp: row_delivered_def row_ok_def)
  qed
  with none list_all2_lengthD [OF each] show ?thesis by (simp add: make_outbox_stats_def filter_empty_conv)
qed

text \<open>Two events, one of which the broker never takes; two attempts each.\<close>

definition outbox_row :: "string \<Rightarrow> (GameEventType, event_data) OutboxEvent" where
  "outbox_row i = \<lparr>ox_event_id = i, ox_event_type = GAME_FINISHED, ox_routing_key = GAME_FINISHED,
     ox_payload = \<lparr>ev_event_id = i, ev_event_type = GAME_FINISHED, ev_occurred_at = 0, ev_source = ''s'', ev_data = []\<rparr>,
     ox_status = PENDING, ox_attempts = 0, ox_last_error = None, ox_published_at = None\<rparr>"

definition two_rows :: "(GameEventType, event_data) outbox" where
  "two_rows = [outbox_row ''a'', outbox_row ''b'']"

definition four_polls :: "(GameEventType, event_data) iteration list" where
  "four_polls = replicate 4 \<lparr>it_now = 7, it_locked = [],
     it_publish = (\<lambda>e. if ox_event_id e = ''b'' then Some ''refused'' else None), it_fails_after = None\<rparr>"

lemma two_rows_ok: "outbox_ok 2 two_rows"
  by code_simp

theorem outbox_at_least_once_witness:
  "set (snd (run_outbox_loop 2 1 two_rows four_polls)) \<subseteq> ox_payload ` set two_rows"
proof -
  have "run_outbox_loop 2 1 two_rows four_polls =
    (fst (run_outbox_loop 2 1 two_rows four_polls), snd (run_outbox_loop 2 1 two_rows four_polls))" by simp
  from outbox_at_least_once [OF two_rows_ok this] show ?thesis by blast
qed

theorem outbox_drains_witness:
  "st_pending (make_outbox_stats (fst (run_outbox_loop 2 1 two_rows four_polls))) = 0"
proof -
  have "0 < (1::nat)" "list_all (\<lambda>it. it_fails_after it = None \<and> it_locked it = []) four_polls"
    "outbox_rank 2 two_rows \<le> length four_polls" by code_simp+
  from outbox_drains [OF two_rows_ok this prod.collapse [symmetric]] show ?thesis by simp
qed

end
