(* ===== verification/Scenario_Runner.thy ===== *)
theory Scenario_Runner
  imports Action_Pipeline Blind_Posting
begin

text \<open>
  \<^verbatim>\<open>domain/scenario_runner.py\<close>: scripted hands with expectations. The engine is an argument
  of the runner, as it is in the code; a call that raises leaves the rows as they were,
  which \<^verbatim>\<open>apply_action\<close> does, since it validates before it changes anything.
\<close>

section \<open>Data\<close>

record PlayerSetup =
  su_player_id :: player_id
  su_seat :: int
  su_stack :: int

record BlindSetup =
  bs_small :: int
  bs_big :: int
  bs_ante :: int

record ScriptedAction =
  sc_player_id :: player_id
  sc_action :: string
  sc_amount :: int

text \<open>\<^verbatim>\<open>check_type\<close> with its arguments; the last case is any other type.\<close>

datatype Expectation =
    ExpectPot int
  | ExpectActionClosed
  | ExpectPlayerStack player_id int
  | ExpectPlayerFolded player_id
  | ExpectError string
  | ExpectOther string

record ExpectationResult =
  er_passed :: bool
  er_expectation :: Expectation
  er_message :: string

record HandScenario =
  hsc_name :: string
  hsc_players :: "PlayerSetup list"
  hsc_blinds :: BlindSetup
  hsc_dealer_seat :: int
  hsc_actions :: "ScriptedAction list"
  hsc_expectations :: "Expectation list"

record ScenarioResult =
  scr_scenario_name :: string
  scr_passed :: bool
  scr_actions_applied :: int
  scr_expectation_results :: "ExpectationResult list"
  scr_error :: "string option"

definition add_action :: "HandScenario \<Rightarrow> player_id \<Rightarrow> string \<Rightarrow> int \<Rightarrow> HandScenario" where
  "add_action s pid action amount = s\<lparr>hsc_actions := hsc_actions s @
     [\<lparr>sc_player_id = pid, sc_action = action, sc_amount = amount\<rparr>]\<rparr>"

definition expect :: "Expectation \<Rightarrow> HandScenario \<Rightarrow> HandScenario" where
  "expect e s = s\<lparr>hsc_expectations := hsc_expectations s @ [e]\<rparr>"

definition failures :: "ScenarioResult \<Rightarrow> ExpectationResult list" where
  "failures r = filter (\<lambda>e. \<not> er_passed e) (scr_expectation_results r)"


section \<open>Setting up the hand\<close>

definition seat_left_of :: "int \<Rightarrow> PlayerSetup list \<Rightarrow> int result" where
  "seat_left_of seat players =
     (let seats = sort (map su_seat players);
          idx = (case index_of seats seat of Some i \<Rightarrow> i | None \<Rightarrow> 0)
      in if seats = [] then Inl ZeroDivisionError else Inr (seats ! ((idx + 1) mod length seats)))"

definition setup_row :: "PlayerSetup \<Rightarrow> RoundPlayer" where
  "setup_row ps = \<lparr>rp_round_id = ''scenario-round'', rp_player_id = su_player_id ps, rp_seat_number = su_seat ps,
     rp_stack_remaining = su_stack ps, rp_committed_this_street = 0, rp_committed_this_hand = 0,
     rp_has_folded = False, rp_is_all_in = False, rp_is_active_in_hand = True\<rparr>"

definition seat_player_row :: "RoundPlayer \<Rightarrow> SeatPlayer" where
  "seat_player_row rp = \<lparr>seat_player_id = rp_player_id rp, seat_seat_number = rp_seat_number rp,
     seat_stack = rp_stack_remaining rp\<rparr>"

definition store_posted :: "PostedPlayer \<Rightarrow> RoundPlayer \<Rightarrow> RoundPlayer" where
  "store_posted pp rp = rp\<lparr>rp_stack_remaining := posted_stack_remaining pp,
     rp_committed_this_street := posted_committed_this_street pp,
     rp_committed_this_hand := posted_committed_this_hand pp, rp_is_all_in := posted_is_all_in pp\<rparr>"

definition post_blinds :: "Round \<Rightarrow> RoundPlayer list \<Rightarrow> HandScenario \<Rightarrow> (Round \<times> RoundPlayer list) result" where
  "post_blinds game_round round_players scenario =
     (let posting = post_blinds_and_antes (map seat_player_row round_players) (r_small_blind_seat game_round)
            (r_big_blind_seat game_round) (bs_small (hsc_blinds scenario)) (bs_big (hsc_blinds scenario))
            (bs_ante (hsc_blinds scenario));
          rows = foldl (\<lambda>rows pp. update_first (\<lambda>rp. rp_player_id rp = posted_player_id pp) (store_posted pp) rows)
            round_players (posting_players posting) in
      bindE (seat_left_of (r_big_blind_seat game_round) (hsc_players scenario)) (\<lambda>first_seat.
      let acting = (case List.find (\<lambda>rp. rp_seat_number rp = first_seat) rows of
            Some rp \<Rightarrow> Some (rp_player_id rp) | None \<Rightarrow> r_acting_player_id game_round) in
      Inr (game_round\<lparr>r_pot_amount := posting_pot_total posting,
             r_current_highest_bet := posting_current_highest_bet posting,
             r_minimum_raise_amount := bs_big (hsc_blinds scenario), r_acting_player_id := acting\<rparr>, rows)))"

definition setup_hand :: "HandScenario \<Rightarrow> (Round \<times> RoundPlayer list) result" where
  "setup_hand scenario =
     bindE (seat_left_of (hsc_dealer_seat scenario) (hsc_players scenario)) (\<lambda>sb_seat.
     bindE (seat_left_of sb_seat (hsc_players scenario)) (\<lambda>bb_seat.
     post_blinds
       \<lparr>r_round_id = ''scenario-round'', r_game_id = ''scenario-game'', r_round_number = 1,
        r_dealer_seat = hsc_dealer_seat scenario, r_small_blind_seat = sb_seat, r_big_blind_seat = bb_seat,
        r_small_blind_amount = bs_small (hsc_blinds scenario), r_big_blind_amount = bs_big (hsc_blinds scenario),
        r_ante_amount = bs_ante (hsc_blinds scenario), r_status = ROUND_ACTIVE, r_pot_amount = 0,
        r_street = PRE_FLOP, r_acting_player_id = None, r_current_highest_bet = 0,
        r_minimum_raise_amount = bs_big (hsc_blinds scenario), r_is_action_closed = False,
        r_last_aggressor_seat = None, r_engine_version = [], r_state_version = None, r_completed_at = None\<rparr>
       (map setup_row (hsc_players scenario)) scenario))"


section \<open>Playing the script\<close>

type_synonym engine = "Round \<Rightarrow> RoundPlayer list \<Rightarrow> player_id \<Rightarrow> string \<Rightarrow> int \<Rightarrow> (Round \<times> RoundPlayer list) result"

definition play_action ::
    "engine \<Rightarrow> (Round \<times> RoundPlayer list) \<times> error option \<times> int \<Rightarrow> ScriptedAction \<Rightarrow>
     (Round \<times> RoundPlayer list) \<times> error option \<times> int" where
  "play_action apply_action_fn s sa = (case s of ((r, ps), last_error, applied) \<Rightarrow>
     (case apply_action_fn r ps (sc_player_id sa) (sc_action sa) (sc_amount sa) of
        Inr state \<Rightarrow> (state, None, applied + 1)
      | Inl exc \<Rightarrow> ((r, ps), Some exc, applied + 1)))"

definition play_script ::
    "engine \<Rightarrow> ScriptedAction list \<Rightarrow> Round \<times> RoundPlayer list \<Rightarrow> (Round \<times> RoundPlayer list) \<times> error option \<times> int" where
  "play_script apply_action_fn actions hand = foldl (play_action apply_action_fn) (hand, None, 0) actions"

primrec exc_class_name :: "exc_class \<Rightarrow> string" where
  "exc_class_name RoundNotActive = ''RoundNotActive''"
| "exc_class_name ActionClosed = ''ActionClosed''"
| "exc_class_name RoundNotCompleted = ''RoundNotCompleted''"
| "exc_class_name RoundAlreadyActive = ''RoundAlreadyActive''"
| "exc_class_name AlreadyAtShowdown = ''AlreadyAtShowdown''"
| "exc_class_name PlayerNotInHand = ''PlayerNotInHand''"
| "exc_class_name PlayerAlreadyFolded = ''PlayerAlreadyFolded''"
| "exc_class_name PlayerAlreadyAllIn = ''PlayerAlreadyAllIn''"
| "exc_class_name NotYourTurn = ''NotYourTurn''"
| "exc_class_name IllegalAction = ''IllegalAction''"
| "exc_class_name CheckNotAllowed = ''CheckNotAllowed''"
| "exc_class_name CallNotAllowed = ''CallNotAllowed''"
| "exc_class_name BetNotAllowed = ''BetNotAllowed''"
| "exc_class_name RaiseNotAllowed = ''RaiseNotAllowed''"
| "exc_class_name RaiseBelowMinimum = ''RaiseBelowMinimum''"
| "exc_class_name AmountExceedsStack = ''AmountExceedsStack''"
| "exc_class_name InvalidAmount = ''InvalidAmount''"
| "exc_class_name GameNotActive = ''GameNotActive''"
| "exc_class_name GameAlreadyExists = ''GameAlreadyExists''"
| "exc_class_name RoundStartNotAllowed = ''RoundStartNotAllowed''"
| "exc_class_name NotFound = ''NotFound''"
| "exc_class_name LedgerEntryNotFound = ''LedgerEntryNotFound''"
| "exc_class_name EntryAlreadyReversed = ''EntryAlreadyReversed''"
| "exc_class_name CannotReverseCorrection = ''CannotReverseCorrection''"
| "exc_class_name PayoutExceedsPot = ''PayoutExceedsPot''"
| "exc_class_name PayoutEmpty = ''PayoutEmpty''"
| "exc_class_name PayoutMismatch = ''PayoutMismatch''"
| "exc_class_name StaleStateError = ''StaleStateError''"
| "exc_class_name DuplicateActionError = ''DuplicateActionError''"
| "exc_class_name IdempotencyConflict = ''IdempotencyConflict''"
| "exc_class_name TableRuntimeError = ''TableRuntimeError''"
| "exc_class_name NotEnoughActivePlayers = ''NotEnoughActivePlayers''"
| "exc_class_name SessionNotPaused = ''SessionNotPaused''"
| "exc_class_name SeatNotActive = ''SeatNotActive''"
| "exc_class_name SeatNotSittingOut = ''SeatNotSittingOut''"
| "exc_class_name SeatNotFound = ''SeatNotFound''"

definition type_name :: "error \<Rightarrow> string" where
  "type_name e = (case e of
     DomainError c msg \<Rightarrow> exc_class_name c
   | HTTPException status detail \<Rightarrow> ''HTTPException''
   | AssertionError \<Rightarrow> ''AssertionError''
   | IndexError \<Rightarrow> ''IndexError''
   | ZeroDivisionError \<Rightarrow> ''ZeroDivisionError''
   | MultipleResultsFound \<Rightarrow> ''MultipleResultsFound''
   | IntegrityError \<Rightarrow> ''IntegrityError''
   | HTTPStatusError status \<Rightarrow> ''HTTPStatusError''
   | TransportError \<Rightarrow> ''HTTPError''
   | ValidationError \<Rightarrow> ''ValidationError''
   | RuntimeError msg \<Rightarrow> ''RuntimeError''
   | ValueError \<Rightarrow> ''ValueError'')"

definition outcome_of :: "Expectation \<Rightarrow> bool \<Rightarrow> string \<Rightarrow> ExpectationResult" where
  "outcome_of e ok msg = \<lparr>er_passed = ok, er_expectation = e, er_message = (if ok then [] else msg)\<rparr>"

definition player_not_found :: "player_id \<Rightarrow> string" where
  "player_not_found pid = ''Player '' @ pid @ '' not found''"

definition evaluate :: "Round \<Rightarrow> RoundPlayer list \<Rightarrow> error option \<Rightarrow> Expectation \<Rightarrow> ExpectationResult" where
  "evaluate r ps last_error e = (case e of
     ExpectPot expected \<Rightarrow> outcome_of e (r_pot_amount r = expected)
       (''Expected pot='' @ str_int expected @ '', got '' @ str_int (r_pot_amount r))
   | ExpectActionClosed \<Rightarrow> outcome_of e (r_is_action_closed r) ''Expected action_closed=True''
   | ExpectPlayerStack pid expected \<Rightarrow>
       (case List.find (\<lambda>p. rp_player_id p = pid) ps of
          None \<Rightarrow> outcome_of e False (player_not_found pid)
        | Some p \<Rightarrow> outcome_of e (rp_stack_remaining p = expected)
            (''Expected '' @ pid @ '' stack='' @ str_int expected @ '', got '' @ str_int (rp_stack_remaining p)))
   | ExpectPlayerFolded pid \<Rightarrow>
       (case List.find (\<lambda>p. rp_player_id p = pid) ps of
          None \<Rightarrow> outcome_of e False (player_not_found pid)
        | Some p \<Rightarrow> outcome_of e (rp_has_folded p) (''Expected '' @ pid @ '' to be folded''))
   | ExpectError expected_type \<Rightarrow>
       (case last_error of
          None \<Rightarrow> outcome_of e False (''Expected error '' @ expected_type @ '' but no error occurred'')
        | Some exc \<Rightarrow> outcome_of e (type_name exc = expected_type)
            (''Expected '' @ expected_type @ '', got '' @ type_name exc))
   | ExpectOther check_type \<Rightarrow> outcome_of e False (''Unknown expectation type: '' @ check_type))"

definition run_scenario :: "engine \<Rightarrow> HandScenario \<Rightarrow> ScenarioResult result" where
  "run_scenario apply_action_fn scenario =
     bindE (setup_hand scenario) (\<lambda>hand.
     case play_script apply_action_fn (hsc_actions scenario) hand of ((r, ps), last_error, applied) \<Rightarrow>
     let results = map (evaluate r ps last_error) (hsc_expectations scenario) in
     Inr \<lparr>scr_scenario_name = hsc_name scenario, scr_passed = list_all er_passed results,
          scr_actions_applied = applied, scr_expectation_results = results, scr_error = None\<rparr>)"

text \<open>The engine the tests pass: \<^verbatim>\<open>apply_action\<close> with its default arguments.\<close>

definition pipeline :: engine where
  "pipeline r ps pid action amount =
     bindE (apply_action r ps pid action amount NO_LIMIT_HOLDEM None) (\<lambda>(res, r', ps'). Inr (r', ps'))"


section \<open>The rows after the blinds\<close>

lemma foldl_update_keys:
  assumes "distinct (map k xs)" and "distinct (map kq qs)" and "\<And>q x. k (f q x) = k x"
  shows "foldl (\<lambda>xs q. update_first (\<lambda>x. k x = kq q) (f q) xs) xs qs =
    map (\<lambda>x. case List.find (\<lambda>q. kq q = k x) qs of Some q \<Rightarrow> f q x | None \<Rightarrow> x) xs"
  using assms(1,2)
proof (induction qs arbitrary: xs)
  case (Cons q qs)
  have one: "update_first (\<lambda>x. k x = kq q) (f q) xs = map (\<lambda>x. if k x = kq q then f q x else x) xs"
    using Cons.prems(1) by (rule update_first_map_if)
  have "map k (map (\<lambda>x. if k x = kq q then f q x else x) xs) = map k xs" using assms(3) by simp
  then have keys: "distinct (map k (map (\<lambda>x. if k x = kq q then f q x else x) xs))" using Cons.prems(1) by metis
  have gone: "List.find (\<lambda>q'. kq q' = kq q) qs = None" using Cons.prems(2) by (auto simp: find_None_mem image_iff)
  have "foldl (\<lambda>xs q. update_first (\<lambda>x. k x = kq q) (f q) xs) xs (q # qs) =
      map (\<lambda>x. case List.find (\<lambda>q. kq q = k x) qs of Some q \<Rightarrow> f q x | None \<Rightarrow> x)
        (map (\<lambda>x. if k x = kq q then f q x else x) xs)"
    unfolding foldl_Cons one using Cons.prems(2) by (intro Cons.IH keys) simp
  also have "\<dots> = map (\<lambda>x. case List.find (\<lambda>q. kq q = k x) (q # qs) of Some q \<Rightarrow> f q x | None \<Rightarrow> x) xs"
    using gone assms(3) by (auto split: option.splits)
  finally show ?case .
qed (simp add: map_idI)

lemma setup_hand_rows:
  assumes "setup_hand scenario = Inr (r, ps)" and "distinct (map su_player_id (hsc_players scenario))"
  shows "map rp_player_id ps = map su_player_id (hsc_players scenario)"
    and "chips_in_play r ps = sum_list (map su_stack (hsc_players scenario))"
    and "version_or_1 r = 1"
proof -
  let ?rows = "map setup_row (hsc_players scenario)"
  from assms(1) obtain sb bb where r: "r_pot_amount r = posting_pot_total (post_blinds_and_antes (map seat_player_row ?rows) sb bb
        (bs_small (hsc_blinds scenario)) (bs_big (hsc_blinds scenario)) (bs_ante (hsc_blinds scenario)))"
    and ps: "ps = foldl (\<lambda>rows pp. update_first (\<lambda>rp. rp_player_id rp = posted_player_id pp) (store_posted pp) rows) ?rows
        (posting_players (post_blinds_and_antes (map seat_player_row ?rows) sb bb
          (bs_small (hsc_blinds scenario)) (bs_big (hsc_blinds scenario)) (bs_ante (hsc_blinds scenario))))"
    and v: "version_or_1 r = 1"
    by (auto simp: setup_hand_def post_blinds_def bindE_simps Let_def version_or_1_def)
  define post where "post = post_player sb bb (bs_small (hsc_blinds scenario)) (bs_big (hsc_blinds scenario)) (bs_ante (hsc_blinds scenario))"
  have posted: "posting_players (post_blinds_and_antes (map seat_player_row ?rows) sb bb
      (bs_small (hsc_blinds scenario)) (bs_big (hsc_blinds scenario)) (bs_ante (hsc_blinds scenario))) =
    map (\<lambda>rp. post (seat_player_row rp)) ?rows"
    by (simp add: posting_players_eq post_def)
  have ids: "posted_player_id (post (seat_player_row rp)) = rp_player_id rp" for rp by (simp add: post_def seat_player_row_def)
  have dist: "distinct (map rp_player_id ?rows)" using assms(2) by (simp add: setup_row_def comp_def)
  have "distinct (map posted_player_id (map (\<lambda>rp. post (seat_player_row rp)) ?rows))"
    using dist by (simp only: map_map comp_def ids)
  from foldl_update_keys [OF dist this, of store_posted]
  have "ps = map (\<lambda>x. case List.find (\<lambda>q. posted_player_id q = rp_player_id x) (map (\<lambda>rp. post (seat_player_row rp)) ?rows) of
      Some q \<Rightarrow> store_posted q x | None \<Rightarrow> x) ?rows"
    unfolding ps posted by (simp add: store_posted_def)
  also have "\<dots> = map (\<lambda>x. store_posted (post (seat_player_row x)) x) ?rows"
  proof (rule map_cong [OF refl])
    fix x assume "x \<in> set ?rows"
    then have "List.find (\<lambda>q. rp_player_id q = rp_player_id x) ?rows = Some x" using find_key_unique [OF dist] by blast
    then show "(case List.find (\<lambda>q. posted_player_id q = rp_player_id x) (map (\<lambda>rp. post (seat_player_row rp)) ?rows) of
        Some q \<Rightarrow> store_posted q x | None \<Rightarrow> x) = store_posted (post (seat_player_row x)) x"
      using find_map [of "\<lambda>q. posted_player_id q = rp_player_id x" "\<lambda>rp. post (seat_player_row rp)" ?rows] by (simp only: ids option.simps)
  qed
  finally have ps': "ps = map (\<lambda>x. store_posted (post (seat_player_row x)) x) ?rows" .
  then show "map rp_player_id ps = map su_player_id (hsc_players scenario)"
    by (simp add: store_posted_def setup_row_def)
  have "map rp_stack_remaining ps = map posted_stack_remaining (map (\<lambda>rp. post (seat_player_row rp)) ?rows)"
    by (simp add: ps' store_posted_def)
  moreover have "map seat_stack (map seat_player_row ?rows) = map su_stack (hsc_players scenario)"
    by (simp add: seat_player_row_def setup_row_def)
  ultimately show "chips_in_play r ps = sum_list (map su_stack (hsc_players scenario))"
    using posting_chips [of "map seat_player_row ?rows" sb bb "bs_small (hsc_blinds scenario)" "bs_big (hsc_blinds scenario)"
        "bs_ante (hsc_blinds scenario)"]
    by (simp only: chips_in_play_def r posted)
  show "version_or_1 r = 1" by (rule v)
qed

lemma pipeline_step:
  assumes "pipeline r ps pid action n = Inr (r', ps')" and "distinct (map rp_player_id ps)" and "1 \<le> version_or_1 r"
  shows "map rp_player_id ps' = map rp_player_id ps \<and> chips_in_play r' ps' = chips_in_play r ps \<and>
    version_or_1 r' = version_or_1 r + 1"
proof -
  from assms(1) obtain res where "apply_action r ps pid action n NO_LIMIT_HOLDEM None = Inr (res, r', ps')"
    by (auto simp: pipeline_def bindE_simps)
  from this assms(2) show ?thesis
  proof (rule apply_action_cases)
    fix p v assume "List.find (\<lambda>rp. rp_player_id rp = pid) ps = Some p" "ps' = players_after v pid ps" "r' = round_after v p r ps'"
    then show ?thesis using players_after_sums(1) [of pid ps p v] assms(3)
      by (simp add: chips_in_play_def round_after_def version_or_1_def)
  qed
qed


section \<open>The script\<close>

lemma play_action_simps:
  "pipeline r ps (sc_player_id a) (sc_action a) (sc_amount a) = Inl exc \<Longrightarrow>
    play_action pipeline ((r, ps), e, n) a = ((r, ps), Some exc, n + 1)"
  "pipeline r ps (sc_player_id a) (sc_action a) (sc_amount a) = Inr s \<Longrightarrow>
    play_action pipeline ((r, ps), e, n) a = (s, None, n + 1)"
  by (simp_all add: play_action_def)

lemma play_script_inv:
  assumes "foldl (play_action pipeline) ((r, ps), e, n) acts = ((r', ps'), e', n')"
    and "distinct (map rp_player_id ps)" and "1 \<le> version_or_1 r"
  shows "map rp_player_id ps' = map rp_player_id ps \<and> chips_in_play r' ps' = chips_in_play r ps \<and>
    n' = n + int (length acts) \<and> version_or_1 r \<le> version_or_1 r' \<and>
    version_or_1 r' - version_or_1 r \<le> int (length acts)"
  using assms
proof (induction acts arbitrary: r ps e n)
  case (Cons a acts)
  show ?case
  proof (cases "pipeline r ps (sc_player_id a) (sc_action a) (sc_amount a)")
    case (Inl exc)
    then show ?thesis using Cons.IH [of r ps "Some exc" "n + 1"] Cons.prems by (simp add: play_action_simps)
  next
    case (Inr s)
    obtain r1 ps1 where s: "s = (r1, ps1)" by (cases s)
    note step = pipeline_step [OF Inr [unfolded s] Cons.prems(2,3)]
    have "foldl (play_action pipeline) ((r1, ps1), None, n + 1) acts = ((r', ps'), e', n')"
      using Cons.prems(1) by (simp add: play_action_simps(2) [OF Inr [unfolded s]])
    from Cons.IH [OF this] step Cons.prems(2,3) show ?thesis by simp
  qed
qed simp

lemma run_scenario_result:
  assumes "run_scenario fn scenario = Inr res"
  obtains hand r ps e where "setup_hand scenario = Inr hand"
    and "play_script fn (hsc_actions scenario) hand = ((r, ps), e, scr_actions_applied res)"
    and "scr_expectation_results res = map (evaluate r ps e) (hsc_expectations scenario)"
    and "scr_passed res \<longleftrightarrow> failures res = []"
proof -
  from assms obtain hand where hand: "setup_hand scenario = Inr hand" by (auto simp: run_scenario_def bindE_simps)
  obtain r ps e n where play: "play_script fn (hsc_actions scenario) hand = ((r, ps), e, n)" by (metis prod.exhaust)
  have res: "res = \<lparr>scr_scenario_name = hsc_name scenario,
      scr_passed = list_all er_passed (map (evaluate r ps e) (hsc_expectations scenario)), scr_actions_applied = n,
      scr_expectation_results = map (evaluate r ps e) (hsc_expectations scenario), scr_error = None\<rparr>"
    using assms by (simp add: run_scenario_def hand play bindE_simps Let_def)
  show ?thesis
  proof (rule that [OF hand])
    show "play_script fn (hsc_actions scenario) hand = ((r, ps), e, scr_actions_applied res)" by (simp add: play res)
    show "scr_expectation_results res = map (evaluate r ps e) (hsc_expectations scenario)" by (simp add: res)
    show "scr_passed res \<longleftrightarrow> failures res = []" by (simp add: res failures_def filter_empty_conv list_all_iff)
  qed
qed

text \<open>
  A scripted hand is a run of the pipeline on the hand the blinds leave. For a scenario whose
  player ids differ, every run of \<^verbatim>\<open>run_scenario\<close> with \<^verbatim>\<open>apply_action\<close> counts all the scripted
  actions, the refused ones too, keeps the seats and the chips the players brought, and raises
  the version of the round by at most one per action; its expectations are evaluated on that
  last state, so a \<^verbatim>\<open>pot\<close> expectation passes exactly when it names the chips that have left
  the stacks, and the scenario passes exactly when it has no failures.
\<close>

theorem scenario_conserves_chips:
  assumes "run_scenario pipeline scenario = Inr res" and "distinct (map su_player_id (hsc_players scenario))"
  shows "\<exists>(r :: Round) (ps :: RoundPlayer list) e. map rp_player_id ps = map su_player_id (hsc_players scenario) \<and>
    chips_in_play r ps = sum_list (map su_stack (hsc_players scenario)) \<and>
    scr_actions_applied res = int (length (hsc_actions scenario)) \<and>
    1 \<le> version_or_1 r \<and> version_or_1 r \<le> 1 + int (length (hsc_actions scenario)) \<and>
    scr_expectation_results res = map (evaluate r ps e) (hsc_expectations scenario) \<and>
    (\<forall>k. er_passed (evaluate r ps e (ExpectPot k)) \<longleftrightarrow>
       k = sum_list (map su_stack (hsc_players scenario)) - sum_list (map rp_stack_remaining ps)) \<and>
    (scr_passed res \<longleftrightarrow> failures res = [])"
proof -
  from assms(1) obtain r0 ps0 r ps e where hand: "setup_hand scenario = Inr (r0, ps0)"
    and play: "play_script pipeline (hsc_actions scenario) (r0, ps0) = ((r, ps), e, scr_actions_applied res)"
    and out: "scr_expectation_results res = map (evaluate r ps e) (hsc_expectations scenario)"
      "scr_passed res \<longleftrightarrow> failures res = []"
    by (auto elim!: run_scenario_result)
  note start = setup_hand_rows [OF hand assms(2)]
  have "map rp_player_id ps = map rp_player_id ps0 \<and> chips_in_play r ps = chips_in_play r0 ps0 \<and>
    scr_actions_applied res = 0 + int (length (hsc_actions scenario)) \<and> version_or_1 r0 \<le> version_or_1 r \<and>
    version_or_1 r - version_or_1 r0 \<le> int (length (hsc_actions scenario))"
    using play start(1,3) assms(2) by (intro play_script_inv [of r0 ps0 None 0]) (simp_all add: play_script_def)
  with out start show ?thesis
    by (intro exI [of _ r] exI [of _ ps] exI [of _ e]) (auto simp: evaluate_def outcome_of_def chips_in_play_def)
qed

text \<open>Three players; the small blind acts out of turn, then the button folds and the small blind calls.\<close>

definition example_scenario :: HandScenario where
  "example_scenario = expect (ExpectPot 20) (expect (ExpectPlayerStack ''a'' 100) (expect (ExpectPlayerFolded ''a'')
     (add_action (add_action (add_action
       \<lparr>hsc_name = ''call'', hsc_players = [\<lparr>su_player_id = ''a'', su_seat = 1, su_stack = 100\<rparr>,
          \<lparr>su_player_id = ''b'', su_seat = 2, su_stack = 80\<rparr>, \<lparr>su_player_id = ''c'', su_seat = 3, su_stack = 50\<rparr>],
        hsc_blinds = \<lparr>bs_small = 5, bs_big = 10, bs_ante = 0\<rparr>, hsc_dealer_seat = 1, hsc_actions = [], hsc_expectations = []\<rparr>
       ''b'' ''FOLD'' 0) ''a'' ''FOLD'' 0) ''b'' ''CALL'' 0)))"

definition example_scenario_result :: ScenarioResult where
  "example_scenario_result = (case run_scenario pipeline example_scenario of Inr res \<Rightarrow> res | Inl e \<Rightarrow> undefined)"

lemma example_scenario_ok:
  "run_scenario pipeline example_scenario = Inr example_scenario_result \<and> scr_passed example_scenario_result"
proof -
  have "case run_scenario pipeline example_scenario of Inr res \<Rightarrow> scr_passed res | Inl e \<Rightarrow> False" by code_simp
  then show ?thesis by (auto simp: example_scenario_result_def split: sum.splits)
qed

theorem scenario_conserves_chips_witness:
  "scr_actions_applied example_scenario_result = 3 \<and> failures example_scenario_result = [] \<and>
    (\<exists>(r :: Round) (ps :: RoundPlayer list). map rp_player_id ps = [''a'', ''b'', ''c''] \<and> chips_in_play r ps = 230)"
proof -
  have data: "map su_player_id (hsc_players example_scenario) = [''a'', ''b'', ''c'']"
    "sum_list (map su_stack (hsc_players example_scenario)) = 230" "length (hsc_actions example_scenario) = 3"
    by (simp_all add: example_scenario_def expect_def add_action_def)
  then have "distinct (map su_player_id (hsc_players example_scenario))" by simp
  from scenario_conserves_chips [OF conjunct1 [OF example_scenario_ok] this]
  obtain r :: Round and ps :: "RoundPlayer list" where "map rp_player_id ps = [''a'', ''b'', ''c'']" "chips_in_play r ps = 230"
    and "scr_actions_applied example_scenario_result = int 3"
    and "scr_passed example_scenario_result \<longleftrightarrow> failures example_scenario_result = []"
    unfolding data by (elim exE conjE) (rule that)
  then show ?thesis using example_scenario_ok by (intro conjI exI) simp_all
qed

end
