(* ===== verification/Room_Service.thy ===== *)
theory Room_Service
  imports Game_Db
begin

text \<open>
  room-service: rooms, the players who join them by code, their seats and the blind
  structure (\<^verbatim>\<open>app/domain\<close>, \<^verbatim>\<open>app/application\<close>, \<^verbatim>\<open>app/infrastructure/repositories\<close>). The tables are
  lists of rows in insertion order; a command returns the tables it commits. The generator
  behind \<^verbatim>\<open>secrets.choice\<close> is a parameter like \<^verbatim>\<open>uuid4\<close>: the \<open>n\<close>-th draw is \<open>re_rand env n\<close>.
  \<^verbatim>\<open>created_at\<close> and \<^verbatim>\<open>joined_at\<close> are set by the server when the row is inserted.
\<close>

section \<open>domain/constants.py\<close>

datatype RoomStatus = ROOM_WAITING | ROOM_ACTIVE | ROOM_FINISHED

primrec RoomStatus_value :: "RoomStatus \<Rightarrow> string" where
  "RoomStatus_value ROOM_WAITING = ''WAITING''"
| "RoomStatus_value ROOM_ACTIVE = ''ACTIVE''"
| "RoomStatus_value ROOM_FINISHED = ''FINISHED''"

datatype RoomEventType =
    ROOM_CREATED | ROOM_ACTIVATED | ROOM_WAS_FINISHED | PLAYER_JOINED | PLAYER_ELIMINATED | CHIPS_UPDATED | SEATS_REORDERED

primrec RoomEventType_value :: "RoomEventType \<Rightarrow> string" where
  "RoomEventType_value ROOM_CREATED = ''room.created''"
| "RoomEventType_value ROOM_ACTIVATED = ''room.activated''"
| "RoomEventType_value ROOM_WAS_FINISHED = ''room.finished''"
| "RoomEventType_value PLAYER_JOINED = ''room.player_joined''"
| "RoomEventType_value PLAYER_ELIMINATED = ''room.player_eliminated''"
| "RoomEventType_value CHIPS_UPDATED = ''room.chips_updated''"
| "RoomEventType_value SEATS_REORDERED = ''room.seats_reordered''"

datatype RoomDataKey =
    K_ROOM_ID | K_CODE | K_STATUS | K_PLAYER_ID | K_PLAYER_NAME | K_SEAT_NUMBER | K_CHIP_COUNT | K_MAX_PLAYERS
  | K_CREATED_BY | K_ASSIGNMENTS

primrec RoomDataKey_value :: "RoomDataKey \<Rightarrow> string" where
  "RoomDataKey_value K_ROOM_ID = ''room_id''"
| "RoomDataKey_value K_CODE = ''code''"
| "RoomDataKey_value K_STATUS = ''status''"
| "RoomDataKey_value K_PLAYER_ID = ''player_id''"
| "RoomDataKey_value K_PLAYER_NAME = ''player_name''"
| "RoomDataKey_value K_SEAT_NUMBER = ''seat_number''"
| "RoomDataKey_value K_CHIP_COUNT = ''chip_count''"
| "RoomDataKey_value K_MAX_PLAYERS = ''max_players''"
| "RoomDataKey_value K_CREATED_BY = ''created_by''"
| "RoomDataKey_value K_ASSIGNMENTS = ''assignments''"

datatype RoomErrorMessage =
    R_ROOM_NOT_FOUND | R_PLAYER_NOT_FOUND | R_ROOM_FULL | R_ROOM_NOT_WAITING | R_ROOM_NOT_ACTIVE | R_INVALID_CODE
  | R_DUPLICATE_NAME | R_SEAT_TAKEN | R_INVALID_SEAT | R_DUPLICATE_SEAT_ASSIGNMENT | R_DUPLICATE_PLAYER_ASSIGNMENT
  | R_PLAYER_NOT_IN_ROOM

primrec RoomErrorMessage_value :: "RoomErrorMessage \<Rightarrow> string" where
  "RoomErrorMessage_value R_ROOM_NOT_FOUND = ''Room not found''"
| "RoomErrorMessage_value R_PLAYER_NOT_FOUND = ''Player not found''"
| "RoomErrorMessage_value R_ROOM_FULL = ''Room is full''"
| "RoomErrorMessage_value R_ROOM_NOT_WAITING = ''Room is not in WAITING status''"
| "RoomErrorMessage_value R_ROOM_NOT_ACTIVE = ''Room is not in ACTIVE status''"
| "RoomErrorMessage_value R_INVALID_CODE = ''Invalid room code''"
| "RoomErrorMessage_value R_DUPLICATE_NAME = ''A player with that name is already in the room''"
| "RoomErrorMessage_value R_SEAT_TAKEN = ''Seat is already taken''"
| "RoomErrorMessage_value R_INVALID_SEAT = ''Seat number is outside the room capacity''"
| "RoomErrorMessage_value R_DUPLICATE_SEAT_ASSIGNMENT = ''Seat assignments contain duplicate seats''"
| "RoomErrorMessage_value R_DUPLICATE_PLAYER_ASSIGNMENT = ''Seat assignments contain duplicate players''"
| "RoomErrorMessage_value R_PLAYER_NOT_IN_ROOM = ''All assigned players must belong to the room''"

definition CODE_LENGTH :: nat where
  "CODE_LENGTH = 4"

definition http_error :: "int \<Rightarrow> RoomErrorMessage \<Rightarrow> 'a result" where
  "http_error status m = Inl (HTTPException status (RoomErrorMessage_value m))"


section \<open>domain/models.py\<close>

record Room =
  rm_room_id :: room_id
  rm_code :: string
  rm_name :: "string option"
  rm_status :: RoomStatus
  rm_max_players :: int
  rm_starting_chips :: int
  rm_antes_enabled :: bool
  rm_starting_dealer_seat :: int
  rm_created_by :: string
  rm_created_at :: int

record RoomPlayer =
  rmp_room_id :: room_id
  rmp_player_id :: player_id
  rmp_player_name :: string
  rmp_seat_number :: int
  rmp_chip_count :: int
  rmp_is_active :: bool
  rmp_is_eliminated :: bool
  rmp_joined_at :: int

record BlindLevel =
  rml_room_id :: room_id
  rml_level :: int
  rml_small_blind :: int
  rml_big_blind :: int
  rml_ante :: int
  rml_duration_minutes :: int

type_synonym room_event_data = "(RoomDataKey \<times> json) list"

record RoomDb =
  rdb_rooms :: "Room list"
  rdb_players :: "RoomPlayer list"
  rdb_levels :: "BlindLevel list"
  rdb_outbox :: "(RoomEventType, room_event_data) OutboxEvent list"
  rdb_uuid :: nat
  rdb_draws :: nat

record RoomEnv =
  re_uuid :: "nat \<Rightarrow> string"
  re_rand :: "nat \<Rightarrow> nat"
  re_now :: int

text \<open>The unique columns; there are no other constraints in this schema.\<close>

definition room_unique_ok :: "RoomDb \<Rightarrow> bool" where
  "room_unique_ok db \<longleftrightarrow> distinct (map rm_room_id (rdb_rooms db)) \<and> distinct (map rm_code (rdb_rooms db)) \<and>
     distinct (map rmp_player_id (rdb_players db)) \<and> distinct (map ox_event_id (rdb_outbox db))"

definition room_commit :: "RoomDb \<Rightarrow> RoomDb result" where
  "room_commit db = (if room_unique_ok db then Inr db else Inl IntegrityError)"

definition room_uuid4 :: "RoomEnv \<Rightarrow> RoomDb \<Rightarrow> string \<times> RoomDb" where
  "room_uuid4 env db = (re_uuid env (rdb_uuid db), db\<lparr>rdb_uuid := Suc (rdb_uuid db)\<rparr>)"

definition emit_room :: "RoomEnv \<Rightarrow> RoomEventType \<Rightarrow> room_event_data \<Rightarrow> RoomDb \<Rightarrow> RoomDb" where
  "emit_room env event_type data db = (case room_uuid4 env db of (eid, db1) \<Rightarrow>
     db1\<lparr>rdb_outbox := rdb_outbox db1 @
       [\<lparr>ox_event_id = eid, ox_event_type = event_type, ox_routing_key = event_type,
         ox_payload = \<lparr>ev_event_id = eid, ev_event_type = event_type, ev_occurred_at = re_now env,
           ev_source = ''room-service'', ev_data = data\<rparr>,
         ox_status = PENDING, ox_attempts = 0, ox_last_error = None, ox_published_at = None\<rparr>]\<rparr>)"


section \<open>shared/schemas/rooms.py\<close>

record CreateRoom =
  cr_name :: "string option"
  cr_max_players :: int
  cr_starting_chips :: int
  cr_antes_enabled :: bool
  cr_created_by :: string

definition CreateRoom_ck :: "CreateRoom \<Rightarrow> bool" where
  "CreateRoom_ck d \<longleftrightarrow> 2 \<le> cr_max_players d \<and> cr_max_players d \<le> 10 \<and> 0 < cr_starting_chips d \<and> cr_created_by d \<noteq> []"

record BlindLevelInput =
  bi_level :: int
  bi_small_blind :: int
  bi_big_blind :: int
  bi_ante :: int
  bi_duration_minutes :: int

definition BlindLevelInput_ck :: "BlindLevelInput \<Rightarrow> bool" where
  "BlindLevelInput_ck d \<longleftrightarrow> 1 \<le> bi_level d \<and> 0 < bi_small_blind d \<and> 0 < bi_big_blind d \<and> 0 \<le> bi_ante d \<and>
     0 < bi_duration_minutes d"

record SetBlindStructure =
  sbs_levels :: "BlindLevelInput list"
  sbs_starting_dealer_seat :: int

definition SetBlindStructure_ck :: "SetBlindStructure \<Rightarrow> bool" where
  "SetBlindStructure_ck d \<longleftrightarrow> sbs_levels d \<noteq> [] \<and> list_all BlindLevelInput_ck (sbs_levels d) \<and> 1 \<le> sbs_starting_dealer_seat d"

record JoinRoom =
  jr_player_name :: string
  jr_seat_number :: "int option"

definition JoinRoom_ck :: "JoinRoom \<Rightarrow> bool" where
  "JoinRoom_ck d \<longleftrightarrow> jr_player_name d \<noteq> [] \<and> (case jr_seat_number d of Some s \<Rightarrow> 1 \<le> s | None \<Rightarrow> True)"

record SeatAssignment =
  sa_player_id :: player_id
  sa_seat_number :: int

definition SeatAssignment_ck :: "SeatAssignment \<Rightarrow> bool" where
  "SeatAssignment_ck a \<longleftrightarrow> sa_player_id a \<noteq> [] \<and> 1 \<le> sa_seat_number a"

record ReorderSeats =
  rs_assignments :: "SeatAssignment list"

definition ReorderSeats_ck :: "ReorderSeats \<Rightarrow> bool" where
  "ReorderSeats_ck d \<longleftrightarrow> rs_assignments d \<noteq> [] \<and> list_all SeatAssignment_ck (rs_assignments d)"

record UpdateChips =
  uc_chip_count :: int

definition UpdateChips_ck :: "UpdateChips \<Rightarrow> bool" where
  "UpdateChips_ck d \<longleftrightarrow> 0 \<le> uc_chip_count d"

record RoomResponse =
  rmr_room_id :: room_id
  rmr_code :: string
  rmr_name :: "string option"
  rmr_status :: RoomStatus
  rmr_max_players :: int
  rmr_starting_chips :: int
  rmr_antes_enabled :: bool
  rmr_created_by :: string
  rmr_created_at :: int

record RoomPlayerResponse =
  rmpr_player_id :: player_id
  rmpr_room_id :: room_id
  rmpr_player_name :: string
  rmpr_seat_number :: int
  rmpr_chip_count :: int
  rmpr_is_active :: bool
  rmpr_is_eliminated :: bool
  rmpr_joined_at :: int

record BlindLevelResponse =
  blr_level :: int
  blr_small_blind :: int
  blr_big_blind :: int
  blr_ante :: int
  blr_duration_minutes :: int

record RoomDetailResponse =
  rd_room :: RoomResponse
  rd_players :: "RoomPlayerResponse list"
  rd_blind_levels :: "BlindLevelResponse list"
  rd_starting_dealer_seat :: int

record DeleteRoomResponse =
  drr_message :: string
  drr_room_id :: room_id


section \<open>application/mappers.py\<close>

definition room_to_response :: "Room \<Rightarrow> RoomResponse" where
  "room_to_response room = \<lparr>rmr_room_id = rm_room_id room, rmr_code = rm_code room, rmr_name = rm_name room,
     rmr_status = rm_status room, rmr_max_players = rm_max_players room, rmr_starting_chips = rm_starting_chips room,
     rmr_antes_enabled = rm_antes_enabled room, rmr_created_by = rm_created_by room, rmr_created_at = rm_created_at room\<rparr>"

definition player_to_response :: "RoomPlayer \<Rightarrow> RoomPlayerResponse" where
  "player_to_response player = \<lparr>rmpr_player_id = rmp_player_id player, rmpr_room_id = rmp_room_id player,
     rmpr_player_name = rmp_player_name player, rmpr_seat_number = rmp_seat_number player,
     rmpr_chip_count = rmp_chip_count player, rmpr_is_active = rmp_is_active player,
     rmpr_is_eliminated = rmp_is_eliminated player, rmpr_joined_at = rmp_joined_at player\<rparr>"

definition blind_level_to_response :: "BlindLevel \<Rightarrow> BlindLevelResponse" where
  "blind_level_to_response bl = \<lparr>blr_level = rml_level bl, blr_small_blind = rml_small_blind bl,
     blr_big_blind = rml_big_blind bl, blr_ante = rml_ante bl, blr_duration_minutes = rml_duration_minutes bl\<rparr>"

definition room_detail_to_response :: "Room \<Rightarrow> RoomPlayer list \<Rightarrow> BlindLevel list \<Rightarrow> RoomDetailResponse" where
  "room_detail_to_response room players blind_levels = \<lparr>rd_room = room_to_response room,
     rd_players = map player_to_response players, rd_blind_levels = map blind_level_to_response blind_levels,
     rd_starting_dealer_seat = rm_starting_dealer_seat room\<rparr>"


section \<open>infrastructure/repositories\<close>

definition code_chars :: string where
  "code_chars = ''ABCDEFGHIJKLMNOPQRSTUVWXYZ0123456789''"

text \<open>\<^verbatim>\<open>secrets.choice(chars)\<close>\<close>

definition choice :: "RoomEnv \<Rightarrow> nat \<Rightarrow> char" where
  "choice env n = code_chars ! (re_rand env n mod length code_chars)"

definition draw_code :: "RoomEnv \<Rightarrow> RoomDb \<Rightarrow> string \<times> RoomDb" where
  "draw_code env db = (map (choice env) [rdb_draws db ..< rdb_draws db + CODE_LENGTH],
     db\<lparr>rdb_draws := rdb_draws db + CODE_LENGTH\<rparr>)"

fun draw_codes :: "nat \<Rightarrow> RoomEnv \<Rightarrow> RoomDb \<Rightarrow> (string \<times> RoomDb) result" where
  "draw_codes 0 env db = Inl (RuntimeError ''Failed to generate unique room code after 100 attempts'')"
| "draw_codes (Suc n) env db = (case draw_code env db of (code, db1) \<Rightarrow>
     bindE (scalar_one_or_none (filter (\<lambda>r. rm_code r = code) (rdb_rooms db))) (\<lambda>found.
     case found of None \<Rightarrow> Inr (code, db1) | Some r \<Rightarrow> draw_codes n env db1))"

definition generate_unique_code :: "RoomEnv \<Rightarrow> RoomDb \<Rightarrow> (string \<times> RoomDb) result" where
  "generate_unique_code env db = draw_codes 100 env db"

definition get_room_by_code :: "RoomDb \<Rightarrow> string \<Rightarrow> Room option result" where
  "get_room_by_code db code = scalar_one_or_none (filter (\<lambda>r. rm_code r = upper code) (rdb_rooms db))"

definition get_blind_levels :: "RoomDb \<Rightarrow> room_id \<Rightarrow> BlindLevel list" where
  "get_blind_levels db rid = sort_key rml_level (filter (\<lambda>bl. rml_room_id bl = rid) (rdb_levels db))"

definition get_players_in_room :: "RoomDb \<Rightarrow> room_id \<Rightarrow> RoomPlayer list" where
  "get_players_in_room db rid = sort_key rmp_seat_number (filter (\<lambda>p. rmp_room_id p = rid) (rdb_players db))"

definition count_players_in_room :: "RoomDb \<Rightarrow> room_id \<Rightarrow> int" where
  "count_players_in_room db rid = int (length (filter (\<lambda>p. rmp_room_id p = rid) (rdb_players db)))"

text \<open>\<^verbatim>\<open>func.max\<close> of no rows is \<^verbatim>\<open>NULL\<close>, and \<^verbatim>\<open>max_seat or 0\<close> is 0 then.\<close>

definition get_next_seat_number :: "RoomDb \<Rightarrow> room_id \<Rightarrow> int" where
  "get_next_seat_number db rid = (case map rmp_seat_number (filter (\<lambda>p. rmp_room_id p = rid) (rdb_players db)) of
     [] \<Rightarrow> 1 | s # ss \<Rightarrow> foldl max s ss + 1)"

definition seat_number_exists_in_room :: "RoomDb \<Rightarrow> room_id \<Rightarrow> int \<Rightarrow> bool result" where
  "seat_number_exists_in_room db rid seat = bindE
     (scalar_one_or_none (filter (\<lambda>p. rmp_room_id p = rid \<and> rmp_seat_number p = seat) (rdb_players db))) (\<lambda>found.
     Inr (found \<noteq> None))"

definition player_name_exists_in_room :: "RoomDb \<Rightarrow> room_id \<Rightarrow> string \<Rightarrow> bool result" where
  "player_name_exists_in_room db rid name = bindE
     (scalar_one_or_none (filter (\<lambda>p. rmp_room_id p = rid \<and> rmp_player_name p = name) (rdb_players db))) (\<lambda>found.
     Inr (found \<noteq> None))"

text \<open>\<^verbatim>\<open>shared/core/db/crud.py\<close>\<close>

definition fetch_or_404 :: "('r \<Rightarrow> bool) \<Rightarrow> 'r list \<Rightarrow> RoomErrorMessage \<Rightarrow> 'r result" where
  "fetch_or_404 P rows detail = bindE (scalar_one_or_none (filter P rows)) (\<lambda>obj.
     case obj of None \<Rightarrow> http_error 404 detail | Some x \<Rightarrow> Inr x)"

definition fetch_room :: "RoomDb \<Rightarrow> room_id \<Rightarrow> Room result" where
  "fetch_room db rid = fetch_or_404 (\<lambda>r. rm_room_id r = rid) (rdb_rooms db) R_ROOM_NOT_FOUND"

definition fetch_room_player :: "RoomDb \<Rightarrow> player_id \<Rightarrow> RoomPlayer result" where
  "fetch_room_player db pid = fetch_or_404 (\<lambda>p. rmp_player_id p = pid) (rdb_players db) R_PLAYER_NOT_FOUND"

definition put_room :: "Room \<Rightarrow> RoomDb \<Rightarrow> RoomDb" where
  "put_room r db = db\<lparr>rdb_rooms := put_row rm_room_id r (rdb_rooms db)\<rparr>"

definition put_room_player :: "RoomPlayer \<Rightarrow> RoomDb \<Rightarrow> RoomDb" where
  "put_room_player p db = db\<lparr>rdb_players := put_row rmp_player_id p (rdb_players db)\<rparr>"


section \<open>application/seat_helpers.py and application/room_details.py\<close>

text \<open>A requested seat of 0 is falsy, like \<^verbatim>\<open>None\<close>.\<close>

definition resolve_join_seat :: "RoomDb \<Rightarrow> Room \<Rightarrow> int option \<Rightarrow> int result" where
  "resolve_join_seat db room requested_seat =
     (let seat_number = (case requested_seat of
            Some s \<Rightarrow> if s \<noteq> 0 then s else get_next_seat_number db (rm_room_id room)
          | None \<Rightarrow> get_next_seat_number db (rm_room_id room)) in
      if seat_number > rm_max_players room then http_error 400 R_INVALID_SEAT
      else bindE (seat_number_exists_in_room db (rm_room_id room) seat_number) (\<lambda>taken.
        if taken then http_error 409 R_SEAT_TAKEN else Inr seat_number))"

definition validate_seat_assignments :: "Room \<Rightarrow> ReorderSeats \<Rightarrow> player_id list \<Rightarrow> unit result" where
  "validate_seat_assignments room data player_map =
     (let player_ids = map sa_player_id (rs_assignments data); seat_numbers = map sa_seat_number (rs_assignments data) in
      if \<not> distinct player_ids then http_error 400 R_DUPLICATE_PLAYER_ASSIGNMENT
      else if \<not> distinct seat_numbers then http_error 400 R_DUPLICATE_SEAT_ASSIGNMENT
      else if list_ex (\<lambda>seat. seat > rm_max_players room) seat_numbers then http_error 400 R_INVALID_SEAT
      else if list_ex (\<lambda>pid. pid \<notin> set player_map) player_ids then http_error 400 R_PLAYER_NOT_IN_ROOM
      else Inr ())"

definition build_room_detail_response :: "RoomDb \<Rightarrow> Room \<Rightarrow> RoomDetailResponse" where
  "build_room_detail_response db room =
     room_detail_to_response room (get_players_in_room db (rm_room_id room)) (get_blind_levels db (rm_room_id room))"


section \<open>application/commands/room_command_service.py\<close>

definition activate_room :: "RoomEnv \<Rightarrow> RoomDb \<Rightarrow> room_id \<Rightarrow> (RoomResponse \<times> RoomDb) result" where
  "activate_room env db rid = bindE (fetch_room db rid) (\<lambda>room.
     if rm_status room = ROOM_ACTIVE then Inr (room_to_response room, db)
     else if rm_status room \<noteq> ROOM_WAITING then http_error 400 R_ROOM_NOT_WAITING
     else let room1 = room\<lparr>rm_status := ROOM_ACTIVE\<rparr> in
       bindE (room_commit (emit_room env ROOM_ACTIVATED
           [(K_ROOM_ID, JStr rid), (K_STATUS, JStr (RoomStatus_value ROOM_ACTIVE))] (put_room room1 db))) (\<lambda>db1.
       Inr (room_to_response room1, db1)))"

definition finish_room :: "RoomEnv \<Rightarrow> RoomDb \<Rightarrow> room_id \<Rightarrow> (RoomResponse \<times> RoomDb) result" where
  "finish_room env db rid = bindE (fetch_room db rid) (\<lambda>room.
     if rm_status room = ROOM_FINISHED then Inr (room_to_response room, db)
     else if rm_status room \<noteq> ROOM_ACTIVE then http_error 400 R_ROOM_NOT_ACTIVE
     else let room1 = room\<lparr>rm_status := ROOM_FINISHED\<rparr> in
       bindE (room_commit (emit_room env ROOM_WAS_FINISHED
           [(K_ROOM_ID, JStr rid), (K_STATUS, JStr (RoomStatus_value ROOM_FINISHED))] (put_room room1 db))) (\<lambda>db1.
       Inr (room_to_response room1, db1)))"

definition create_room :: "RoomEnv \<Rightarrow> RoomDb \<Rightarrow> CreateRoom \<Rightarrow> (RoomResponse \<times> RoomDb) result" where
  "create_room env db data = (case room_uuid4 env db of (rid, db1) \<Rightarrow>
     bindE (generate_unique_code env db1) (\<lambda>(code, db2).
     let room = \<lparr>rm_room_id = rid, rm_code = code, rm_name = cr_name data, rm_status = ROOM_WAITING,
           rm_max_players = cr_max_players data, rm_starting_chips = cr_starting_chips data,
           rm_antes_enabled = cr_antes_enabled data, rm_starting_dealer_seat = 1,
           rm_created_by = cr_created_by data, rm_created_at = re_now env\<rparr> in
     bindE (room_commit (emit_room env ROOM_CREATED
         [(K_ROOM_ID, JStr rid), (K_CODE, JStr code), (K_MAX_PLAYERS, JInt (cr_max_players data)),
          (K_CREATED_BY, JStr (cr_created_by data))] (db2\<lparr>rdb_rooms := rdb_rooms db2 @ [room]\<rparr>))) (\<lambda>db3.
     Inr (room_to_response room, db3))))"

text \<open>The loop over the assignments sets the seat of each assigned player's row.\<close>

definition assign_seat :: "RoomDb \<Rightarrow> SeatAssignment \<Rightarrow> RoomDb" where
  "assign_seat db a = db\<lparr>rdb_players := map (\<lambda>p. if rmp_player_id p = sa_player_id a
     then p\<lparr>rmp_seat_number := sa_seat_number a\<rparr> else p) (rdb_players db)\<rparr>"

definition reorder_seats :: "RoomEnv \<Rightarrow> RoomDb \<Rightarrow> room_id \<Rightarrow> ReorderSeats \<Rightarrow> (RoomDetailResponse \<times> RoomDb) result" where
  "reorder_seats env db rid data = bindE (fetch_room db rid) (\<lambda>room.
     if rm_status room \<noteq> ROOM_WAITING then http_error 400 R_ROOM_NOT_WAITING
     else
     bindE (validate_seat_assignments room data (map rmp_player_id (get_players_in_room db rid))) (\<lambda>_.
     bindE (room_commit (emit_room env SEATS_REORDERED
         [(K_ROOM_ID, JStr rid),
          (K_ASSIGNMENTS, JList (map (\<lambda>a. JObj [(RoomDataKey_value K_PLAYER_ID, JStr (sa_player_id a)),
             (RoomDataKey_value K_SEAT_NUMBER, JInt (sa_seat_number a))]) (rs_assignments data)))]
         (foldl assign_seat db (rs_assignments data)))) (\<lambda>db1.
     Inr (build_room_detail_response db1 room, db1))))"

definition blind_level_row :: "room_id \<Rightarrow> BlindLevelInput \<Rightarrow> BlindLevel" where
  "blind_level_row rid d = \<lparr>rml_room_id = rid, rml_level = bi_level d, rml_small_blind = bi_small_blind d,
     rml_big_blind = bi_big_blind d, rml_ante = bi_ante d, rml_duration_minutes = bi_duration_minutes d\<rparr>"

definition set_blind_structure :: "RoomDb \<Rightarrow> room_id \<Rightarrow> SetBlindStructure \<Rightarrow> (RoomDetailResponse \<times> RoomDb) result" where
  "set_blind_structure db rid data = bindE (fetch_room db rid) (\<lambda>room.
     if rm_status room \<noteq> ROOM_WAITING then http_error 400 R_ROOM_NOT_WAITING
     else let room1 = room\<lparr>rm_starting_dealer_seat := sbs_starting_dealer_seat data\<rparr>;
         db1 = put_room room1 (db\<lparr>rdb_levels := filter (\<lambda>bl. rml_room_id bl \<noteq> rid) (rdb_levels db) @
           map (blind_level_row rid) (sbs_levels data)\<rparr>) in
       bindE (room_commit db1) (\<lambda>db2. Inr (build_room_detail_response db2 room1, db2)))"

definition delete_room :: "RoomDb \<Rightarrow> room_id \<Rightarrow> (DeleteRoomResponse \<times> RoomDb) result" where
  "delete_room db rid = bindE (fetch_room db rid) (\<lambda>room.
     bindE (room_commit (db\<lparr>rdb_players := filter (\<lambda>p. rmp_room_id p \<noteq> rid) (rdb_players db),
       rdb_levels := filter (\<lambda>bl. rml_room_id bl \<noteq> rid) (rdb_levels db),
       rdb_rooms := filter (\<lambda>r. rm_room_id r \<noteq> rm_room_id room) (rdb_rooms db)\<rparr>)) (\<lambda>db1.
     Inr (\<lparr>drr_message = ''deleted'', drr_room_id = rid\<rparr>, db1)))"


section \<open>application/commands/room_player_command_service.py\<close>

text \<open>
  A join reads and checks first (\<open>join_read\<close>), then inserts the row (\<open>join_write\<close>); another
  request may commit in between.
\<close>

definition join_read :: "RoomDb \<Rightarrow> string \<Rightarrow> JoinRoom \<Rightarrow> (Room \<times> int) result" where
  "join_read db code data = bindE (get_room_by_code db code) (\<lambda>found.
     case found of
       None \<Rightarrow> http_error 404 R_INVALID_CODE
     | Some room \<Rightarrow>
         if rm_status room \<noteq> ROOM_WAITING then http_error 400 R_ROOM_NOT_WAITING
         else if count_players_in_room db (rm_room_id room) \<ge> rm_max_players room then http_error 400 R_ROOM_FULL
         else bindE (player_name_exists_in_room db (rm_room_id room) (jr_player_name data)) (\<lambda>exists.
           if exists then http_error 409 R_DUPLICATE_NAME
           else bindE (resolve_join_seat db room (jr_seat_number data)) (\<lambda>seat_number. Inr (room, seat_number))))"

definition new_room_player :: "RoomEnv \<Rightarrow> player_id \<Rightarrow> Room \<Rightarrow> int \<Rightarrow> JoinRoom \<Rightarrow> RoomPlayer" where
  "new_room_player env pid room seat_number data =
     \<lparr>rmp_room_id = rm_room_id room, rmp_player_id = pid, rmp_player_name = jr_player_name data,
      rmp_seat_number = seat_number, rmp_chip_count = rm_starting_chips room, rmp_is_active = True,
      rmp_is_eliminated = False, rmp_joined_at = re_now env\<rparr>"

definition join_write :: "RoomEnv \<Rightarrow> RoomDb \<Rightarrow> Room \<Rightarrow> int \<Rightarrow> JoinRoom \<Rightarrow> (RoomPlayerResponse \<times> RoomDb) result" where
  "join_write env db room seat_number data = (case room_uuid4 env db of (pid, db1) \<Rightarrow>
     let player = new_room_player env pid room seat_number data in
     bindE (room_commit (emit_room env PLAYER_JOINED
         [(K_ROOM_ID, JStr (rm_room_id room)), (K_PLAYER_ID, JStr pid), (K_PLAYER_NAME, JStr (jr_player_name data)),
          (K_SEAT_NUMBER, JInt seat_number), (K_CHIP_COUNT, JInt (rm_starting_chips room))]
         (db1\<lparr>rdb_players := rdb_players db1 @ [player]\<rparr>))) (\<lambda>db2.
     Inr (player_to_response player, db2)))"

definition join_room_by_code :: "RoomEnv \<Rightarrow> RoomDb \<Rightarrow> string \<Rightarrow> JoinRoom \<Rightarrow> (RoomPlayerResponse \<times> RoomDb) result" where
  "join_room_by_code env db code data =
     bindE (join_read db code data) (\<lambda>(room, seat_number). join_write env db room seat_number data)"

definition update_player_chips :: "RoomEnv \<Rightarrow> RoomDb \<Rightarrow> player_id \<Rightarrow> UpdateChips \<Rightarrow> (RoomPlayerResponse \<times> RoomDb) result" where
  "update_player_chips env db pid data = bindE (fetch_room_player db pid) (\<lambda>player.
     let player1 = player\<lparr>rmp_chip_count := uc_chip_count data\<rparr> in
     bindE (room_commit (emit_room env CHIPS_UPDATED
         [(K_ROOM_ID, JStr (rmp_room_id player)), (K_PLAYER_ID, JStr (rmp_player_id player)),
          (K_CHIP_COUNT, JInt (uc_chip_count data))] (put_room_player player1 db))) (\<lambda>db1.
     Inr (player_to_response player1, db1)))"

definition eliminate_player :: "RoomEnv \<Rightarrow> RoomDb \<Rightarrow> player_id \<Rightarrow> (RoomPlayerResponse \<times> RoomDb) result" where
  "eliminate_player env db pid = bindE (fetch_room_player db pid) (\<lambda>player.
     let player1 = player\<lparr>rmp_is_eliminated := True, rmp_is_active := False, rmp_chip_count := 0\<rparr> in
     bindE (room_commit (emit_room env PLAYER_ELIMINATED
         [(K_ROOM_ID, JStr (rmp_room_id player)), (K_PLAYER_ID, JStr (rmp_player_id player)),
          (K_PLAYER_NAME, JStr (rmp_player_name player))] (put_room_player player1 db))) (\<lambda>db1.
     Inr (player_to_response player1, db1)))"


section \<open>application/queries\<close>

definition get_player :: "RoomDb \<Rightarrow> player_id \<Rightarrow> RoomPlayerResponse result" where
  "get_player db pid = bindE (fetch_room_player db pid) (\<lambda>player. Inr (player_to_response player))"

definition get_room :: "RoomDb \<Rightarrow> room_id \<Rightarrow> RoomDetailResponse result" where
  "get_room db rid = bindE (fetch_room db rid) (\<lambda>room. Inr (build_room_detail_response db room))"

definition query_room_by_code :: "RoomDb \<Rightarrow> string \<Rightarrow> RoomDetailResponse result" where
  "query_room_by_code db code = bindE (get_room_by_code db code) (\<lambda>found.
     case found of None \<Rightarrow> http_error 404 R_INVALID_CODE | Some room \<Rightarrow> Inr (build_room_detail_response db room))"

text \<open>Rows with the same \<^verbatim>\<open>created_at\<close>, whose order SQL leaves open, keep their table order. An empty status is falsy.\<close>

definition list_rooms :: "RoomDb \<Rightarrow> nat \<Rightarrow> nat \<Rightarrow> string option \<Rightarrow> RoomResponse list" where
  "list_rooms db limit offset status =
     map room_to_response (take limit (drop offset (sort_key (\<lambda>r. - rm_created_at r)
       (filter (\<lambda>r. case status of Some (c # cs) \<Rightarrow> RoomStatus_value (rm_status r) = c # cs | _ \<Rightarrow> True) (rdb_rooms db)))))"

end
