(* ===== verification/Room_Lifecycle.thy ===== *)
theory Room_Lifecycle
  imports Room_Service Step_Systems
begin

text \<open>
  What the commands of room-service keep. \<open>room_ok\<close> is the seating invariant, which the schema
  does not enforce: within a room no seat and no name is used twice and every seat is within
  the capacity. \<open>room_step\<close> is any command; the results hold along every sequence of commands.
\<close>

section \<open>Rows of room-service\<close>

lemma http_error_neq [simp]: "http_error status m \<noteq> Inr x" "Inr x \<noteq> http_error status m"
  by (simp_all add: http_error_def)

lemma bindE_http_error [simp, bindE_simps]: "bindE (http_error status m) f = http_error status m"
  by (simp add: http_error_def)

lemma fetch_or_404_Inr: "fetch_or_404 P rows m = Inr x \<longleftrightarrow> filter P rows = [x]"
  by (cases "filter P rows" rule: scalar_one_or_none.cases) (simp_all add: fetch_or_404_def)

lemma fetch_or_404_mem: "fetch_or_404 P rows m = Inr x \<Longrightarrow> x \<in> set rows \<and> P x"
  by (auto simp: fetch_or_404_Inr filter_eq_Cons_iff)

lemma fetch_or_404_unique:
  assumes "fetch_or_404 P rows m = Inr x" and "y \<in> set rows" and "P y"
  shows "y = x"
proof -
  have "y \<in> set (filter P rows)" using assms(2,3) by simp
  then have "y \<in> set [x]" using assms(1) by (simp only: fetch_or_404_Inr)
  then show ?thesis by simp
qed

lemma fetch_room_mem: "fetch_room db rid = Inr r \<Longrightarrow> r \<in> set (rdb_rooms db) \<and> rm_room_id r = rid"
  unfolding fetch_room_def by (drule fetch_or_404_mem) simp

lemma fetch_room_player_mem: "fetch_room_player db pid = Inr p \<Longrightarrow> p \<in> set (rdb_players db) \<and> rmp_player_id p = pid"
  unfolding fetch_room_player_def by (drule fetch_or_404_mem) simp

lemma fetch_put_404:
  assumes "fetch_or_404 (\<lambda>x. key x = k) rows m = Inr x" and "key y = k"
  shows "fetch_or_404 (\<lambda>x. key x = k) (put_row key y rows) m = Inr y"
  using assms filter_put_row [of key y rows] by (simp add: fetch_or_404_Inr)

lemma fetch_put_404_other:
  "k \<noteq> key y \<Longrightarrow> fetch_or_404 (\<lambda>x. key x = k) (put_row key y rows) m = fetch_or_404 (\<lambda>x. key x = k) rows m"
  by (simp add: fetch_or_404_def filter_put_row_other)

lemma put_row_put_row: "key x = key y \<Longrightarrow> put_row key y (put_row key x rows) = put_row key y rows"
  by (simp add: put_row_def)

interpretation room_rows: entity fetch_room put_room rm_room_id
proof
  show "fetch_room db k = Inr x \<Longrightarrow> rm_room_id x = k" for db k x by (simp add: fetch_room_mem)
  show "fetch_room db k = Inr x \<Longrightarrow> rm_room_id y = k \<Longrightarrow> fetch_room (put_room y db) k = Inr y" for db k x y
    by (simp add: fetch_room_def put_room_def fetch_put_404)
  show "k \<noteq> rm_room_id y \<Longrightarrow> fetch_room (put_room y db) k = fetch_room db k" for db k y
    by (simp add: fetch_room_def put_room_def fetch_put_404_other)
  show "rm_room_id x = rm_room_id y \<Longrightarrow> put_room y (put_room x db) = put_room y db" for db x y
    by (simp add: put_room_def put_row_put_row)
  show "fetch_room db k = Inr x \<Longrightarrow> put_room x db = db" for db k x
    by (simp add: fetch_room_def put_room_def fetch_or_404_Inr put_row_same)
qed

interpretation player_rows: entity fetch_room_player put_room_player rmp_player_id
proof
  show "fetch_room_player db k = Inr x \<Longrightarrow> rmp_player_id x = k" for db k x by (simp add: fetch_room_player_mem)
  show "fetch_room_player db k = Inr x \<Longrightarrow> rmp_player_id y = k \<Longrightarrow> fetch_room_player (put_room_player y db) k = Inr y" for db k x y
    by (simp add: fetch_room_player_def put_room_player_def fetch_put_404)
  show "k \<noteq> rmp_player_id y \<Longrightarrow> fetch_room_player (put_room_player y db) k = fetch_room_player db k" for db k y
    by (simp add: fetch_room_player_def put_room_player_def fetch_put_404_other)
  show "rmp_player_id x = rmp_player_id y \<Longrightarrow> put_room_player y (put_room_player x db) = put_room_player y db" for db x y
    by (simp add: put_room_player_def put_row_put_row)
  show "fetch_room_player db k = Inr x \<Longrightarrow> put_room_player x db = db" for db k x
    by (simp add: fetch_room_player_def put_room_player_def fetch_or_404_Inr put_row_same)
qed

lemma room_commit_Inr: "room_commit db = Inr db' \<longleftrightarrow> room_unique_ok db \<and> db' = db"
  by (auto simp: room_commit_def)

lemma emit_room_tables [simp]:
  "rdb_rooms (emit_room env t d db) = rdb_rooms db" "rdb_players (emit_room env t d db) = rdb_players db"
  "rdb_levels (emit_room env t d db) = rdb_levels db"
  by (simp_all add: emit_room_def room_uuid4_def)

lemma put_room_tables [simp]:
  "rdb_rooms (put_room r db) = put_row rm_room_id r (rdb_rooms db)" "rdb_players (put_room r db) = rdb_players db"
  "rdb_levels (put_room r db) = rdb_levels db"
  "rdb_rooms (put_room_player p db) = rdb_rooms db" "rdb_levels (put_room_player p db) = rdb_levels db"
  "rdb_players (put_room_player p db) = put_row rmp_player_id p (rdb_players db)"
  by (simp_all add: put_room_def put_room_player_def)

lemma draw_codes_tables:
  "draw_codes n env db = Inr (code, db') \<Longrightarrow> rdb_rooms db' = rdb_rooms db \<and> rdb_players db' = rdb_players db \<and>
    rdb_levels db' = rdb_levels db \<and> (\<forall>r \<in> set (rdb_rooms db). rm_code r \<noteq> code)"
proof (induction n arbitrary: db)
  case (Suc n)
  let ?code = "fst (draw_code env db)" and ?db1 = "snd (draw_code env db)"
  have same: "rdb_rooms ?db1 = rdb_rooms db" "rdb_players ?db1 = rdb_players db" "rdb_levels ?db1 = rdb_levels db"
    by (simp_all add: draw_code_def)
  show ?case
  proof (cases "filter (\<lambda>r. rm_code r = ?code) (rdb_rooms db)" rule: scalar_one_or_none.cases)
    case 1
    then show ?thesis using Suc.prems same by (auto simp: case_prod_unfold filter_empty_conv)
  next
    case 2
    then show ?thesis using Suc.prems Suc.IH [of ?db1] same by (simp add: case_prod_unfold)
  next
    case 3
    then show ?thesis using Suc.prems by (simp add: case_prod_unfold)
  qed
qed simp


section \<open>What a command changes\<close>

text \<open>Each successful command by its effect on rooms, players and blind levels.\<close>

lemma activate_room_cases:
  assumes "activate_room env db rid = Inr (res, db')"
  obtains room where "fetch_room db rid = Inr room" "rm_status room = ROOM_ACTIVE" "db' = db"
    | room where "fetch_room db rid = Inr room" "rm_status room = ROOM_WAITING" "room_unique_ok db'"
      "rdb_rooms db' = put_row rm_room_id (room\<lparr>rm_status := ROOM_ACTIVE\<rparr>) (rdb_rooms db)"
      "rdb_players db' = rdb_players db" "rdb_levels db' = rdb_levels db"
proof -
  from assms obtain room where room: "fetch_room db rid = Inr room" by (auto simp: activate_room_def bindE_simps)
  show ?thesis
  proof (cases "rm_status room")
    case ROOM_WAITING
    let ?db1 = "emit_room env ROOM_ACTIVATED
      [(K_ROOM_ID, JStr rid), (K_STATUS, JStr (RoomStatus_value ROOM_ACTIVE))] (put_room (room\<lparr>rm_status := ROOM_ACTIVE\<rparr>) db)"
    from assms room ROOM_WAITING have "room_commit ?db1 = Inr db'" by (auto simp: activate_room_def Let_def bindE_simps)
    then have "room_unique_ok db'" and "db' = ?db1" by (simp_all only: room_commit_Inr)
    with room ROOM_WAITING show ?thesis by (intro that(2)) simp_all
  next
    case ROOM_ACTIVE
    with assms room have "db' = db" by (simp add: activate_room_def)
    with room ROOM_ACTIVE show ?thesis by (rule that(1))
  next
    case ROOM_FINISHED
    with assms room have False by (simp add: activate_room_def)
    then show ?thesis ..
  qed
qed

lemma finish_room_cases:
  assumes "finish_room env db rid = Inr (res, db')"
  obtains room where "fetch_room db rid = Inr room" "rm_status room = ROOM_FINISHED" "db' = db"
    | room where "fetch_room db rid = Inr room" "rm_status room = ROOM_ACTIVE" "room_unique_ok db'"
      "rdb_rooms db' = put_row rm_room_id (room\<lparr>rm_status := ROOM_FINISHED\<rparr>) (rdb_rooms db)"
      "rdb_players db' = rdb_players db" "rdb_levels db' = rdb_levels db"
proof -
  from assms obtain room where room: "fetch_room db rid = Inr room" by (auto simp: finish_room_def bindE_simps)
  show ?thesis
  proof (cases "rm_status room")
    case ROOM_ACTIVE
    let ?db1 = "emit_room env ROOM_WAS_FINISHED
      [(K_ROOM_ID, JStr rid), (K_STATUS, JStr (RoomStatus_value ROOM_FINISHED))] (put_room (room\<lparr>rm_status := ROOM_FINISHED\<rparr>) db)"
    from assms room ROOM_ACTIVE have "room_commit ?db1 = Inr db'" by (auto simp: finish_room_def Let_def bindE_simps)
    then have "room_unique_ok db'" and "db' = ?db1" by (simp_all only: room_commit_Inr)
    with room ROOM_ACTIVE show ?thesis by (intro that(2)) simp_all
  next
    case ROOM_FINISHED
    with assms room have "db' = db" by (simp add: finish_room_def)
    with room ROOM_FINISHED show ?thesis by (rule that(1))
  next
    case ROOM_WAITING
    with assms room have False by (simp add: finish_room_def)
    then show ?thesis ..
  qed
qed

lemma create_room_cases:
  assumes "create_room env db data = Inr (res, db')"
  obtains room where "rdb_rooms db' = rdb_rooms db @ [room]" "rm_status room = ROOM_WAITING" "rm_starting_chips room = cr_starting_chips data"
    "rm_max_players room = cr_max_players data" "room_unique_ok db'"
    "rdb_players db' = rdb_players db" "rdb_levels db' = rdb_levels db"
proof -
  from assms obtain code db2 where "draw_codes 100 env (snd (room_uuid4 env db)) = Inr (code, db2)"
    and "rdb_rooms db' = rdb_rooms db2 @ [\<lparr>rm_room_id = fst (room_uuid4 env db), rm_code = code, rm_name = cr_name data,
      rm_status = ROOM_WAITING, rm_max_players = cr_max_players data, rm_starting_chips = cr_starting_chips data,
      rm_antes_enabled = cr_antes_enabled data, rm_starting_dealer_seat = 1,
      rm_created_by = cr_created_by data, rm_created_at = re_now env\<rparr>]"
    and "room_unique_ok db'" "rdb_players db' = rdb_players db2" "rdb_levels db' = rdb_levels db2"
    by (auto simp: create_room_def generate_unique_code_def Let_def bindE_simps room_commit_Inr case_prod_unfold)
  with draw_codes_tables show ?thesis by (fastforce intro: that simp: room_uuid4_def)
qed

lemma delete_room_cases:
  assumes "delete_room db rid = Inr (res, db')"
  obtains room where "fetch_room db rid = Inr room" "room_unique_ok db'"
    "rdb_rooms db' = filter (\<lambda>r. rm_room_id r \<noteq> rid) (rdb_rooms db)"
    "rdb_players db' = filter (\<lambda>p. rmp_room_id p \<noteq> rid) (rdb_players db)"
    "rdb_levels db' = filter (\<lambda>bl. rml_room_id bl \<noteq> rid) (rdb_levels db)"
  using assms fetch_room_mem by (auto simp: delete_room_def bindE_simps room_commit_Inr)

lemma set_blind_structure_cases:
  assumes "set_blind_structure db rid data = Inr (res, db')"
  obtains room where "fetch_room db rid = Inr room" "rm_status room = ROOM_WAITING" "room_unique_ok db'"
    "rdb_rooms db' = put_row rm_room_id (room\<lparr>rm_starting_dealer_seat := sbs_starting_dealer_seat data\<rparr>) (rdb_rooms db)"
    "rdb_players db' = rdb_players db"
    "rdb_levels db' = filter (\<lambda>bl. rml_room_id bl \<noteq> rid) (rdb_levels db) @ map (blind_level_row rid) (sbs_levels data)"
  using assms by (auto simp: set_blind_structure_def Let_def bindE_simps room_commit_Inr split: if_splits)

lemma join_read_Inr:
  assumes "join_read db code data = Inr (room, seat)"
  shows "room \<in> set (rdb_rooms db)" "rm_code room = upper code" "rm_status room = ROOM_WAITING"
    "count_players_in_room db (rm_room_id room) < rm_max_players room" "seat \<le> rm_max_players room"
    "\<forall>p \<in> set (rdb_players db). rmp_room_id p = rm_room_id room \<longrightarrow>
       rmp_player_name p \<noteq> jr_player_name data \<and> rmp_seat_number p \<noteq> seat"
    "seat = (case jr_seat_number data of Some s \<Rightarrow> if s \<noteq> 0 then s else get_next_seat_number db (rm_room_id room)
       | None \<Rightarrow> get_next_seat_number db (rm_room_id room))"
proof -
  have one: "scalar_one_or_none xs = Inr None \<longleftrightarrow> xs = []" "scalar_one_or_none xs = Inr (Some x) \<longleftrightarrow> xs = [x]" for xs and x :: "'z"
    by (cases xs rule: scalar_one_or_none.cases; simp)+
  from assms obtain found where found: "get_room_by_code db code = Inr (Some found)"
    by (auto simp: join_read_def bindE_simps split: option.splits)
  note run = assms [unfolded join_read_def found bindE_Inr option.case]
  from run have wait: "rm_status found = ROOM_WAITING" by (simp split: if_splits)
  from run wait have count: "count_players_in_room db (rm_room_id found) < rm_max_players found" by (simp split: if_splits)
  from run wait count have rest: "bindE (player_name_exists_in_room db (rm_room_id found) (jr_player_name data)) (\<lambda>exists.
      if exists then http_error 409 R_DUPLICATE_NAME
      else bindE (resolve_join_seat db found (jr_seat_number data)) (\<lambda>seat_number. Inr (found, seat_number))) = Inr (room, seat)"
    by simp
  then have name: "player_name_exists_in_room db (rm_room_id found) (jr_player_name data) = Inr False"
    by (auto simp: bindE_simps split: if_splits)
  with rest have seat: "resolve_join_seat db found (jr_seat_number data) = Inr seat" and [simp]: "found = room"
    by (auto simp: bindE_simps)
  from found have room: "filter (\<lambda>r. rm_code r = upper code) (rdb_rooms db) = [room]" by (simp add: get_room_by_code_def one)
  note wait = wait [simplified] and count = count [simplified] and name = name [simplified] and seat = seat [simplified]
  from room have "room \<in> set (filter (\<lambda>r. rm_code r = upper code) (rdb_rooms db))" by simp
  then show "room \<in> set (rdb_rooms db)" "rm_code room = upper code" by simp_all
  show "rm_status room = ROOM_WAITING" "count_players_in_room db (rm_room_id room) < rm_max_players room" by (fact wait count)+
  from name have "filter (\<lambda>p. rmp_room_id p = rm_room_id room \<and> rmp_player_name p = jr_player_name data) (rdb_players db) = []"
    by (simp add: player_name_exists_in_room_def bindE_simps one)
  moreover from seat have free: "filter (\<lambda>p. rmp_room_id p = rm_room_id room \<and> rmp_seat_number p = seat) (rdb_players db) = []"
    and le: "seat \<le> rm_max_players room"
    and seat_eq: "seat = (case jr_seat_number data of Some s \<Rightarrow> if s \<noteq> 0 then s else get_next_seat_number db (rm_room_id room)
       | None \<Rightarrow> get_next_seat_number db (rm_room_id room))"
    by (auto simp: resolve_join_seat_def seat_number_exists_in_room_def Let_def bindE_simps one split: if_splits)
  ultimately show "\<forall>p \<in> set (rdb_players db). rmp_room_id p = rm_room_id room \<longrightarrow>
       rmp_player_name p \<noteq> jr_player_name data \<and> rmp_seat_number p \<noteq> seat"
    by (auto simp: filter_empty_conv)
  show "seat \<le> rm_max_players room" by (fact le)
  show "seat = (case jr_seat_number data of Some s \<Rightarrow> if s \<noteq> 0 then s else get_next_seat_number db (rm_room_id room)
       | None \<Rightarrow> get_next_seat_number db (rm_room_id room))" by (fact seat_eq)
qed

lemma join_write_Inr:
  assumes "join_write env db room seat data = Inr (res, db')"
  shows "rdb_rooms db' = rdb_rooms db" "rdb_levels db' = rdb_levels db" "room_unique_ok db'"
    "rdb_players db' = rdb_players db @ [new_room_player env (re_uuid env (rdb_uuid db)) room seat data]"
    "res = player_to_response (new_room_player env (re_uuid env (rdb_uuid db)) room seat data)"
  using assms by (auto simp: join_write_def room_uuid4_def Let_def bindE_simps room_commit_Inr)

lemma update_player_chips_cases:
  assumes "update_player_chips env db pid data = Inr (res, db')"
  obtains p where "fetch_room_player db pid = Inr p" "room_unique_ok db'" "rdb_rooms db' = rdb_rooms db"
    "rdb_levels db' = rdb_levels db"
    "rdb_players db' = put_row rmp_player_id (p\<lparr>rmp_chip_count := uc_chip_count data\<rparr>) (rdb_players db)"
  using assms by (auto simp: update_player_chips_def Let_def bindE_simps room_commit_Inr)

lemma eliminate_player_cases:
  assumes "eliminate_player env db pid = Inr (res, db')"
  obtains p where "fetch_room_player db pid = Inr p" "room_unique_ok db'" "rdb_rooms db' = rdb_rooms db"
    "rdb_levels db' = rdb_levels db"
    "rdb_players db' = put_row rmp_player_id
       (p\<lparr>rmp_is_eliminated := True, rmp_is_active := False, rmp_chip_count := 0\<rparr>) (rdb_players db)"
  using assms by (auto simp: eliminate_player_def Let_def bindE_simps room_commit_Inr)

text \<open>The seat a player has after the assignments of a reordering.\<close>

definition reseated :: "SeatAssignment list \<Rightarrow> RoomPlayer \<Rightarrow> RoomPlayer" where
  "reseated as p = (case List.find (\<lambda>a. sa_player_id a = rmp_player_id p) as of
     Some a \<Rightarrow> p\<lparr>rmp_seat_number := sa_seat_number a\<rparr> | None \<Rightarrow> p)"

lemma reseated_simps [simp]:
  "rmp_player_id (reseated as p) = rmp_player_id p" "rmp_room_id (reseated as p) = rmp_room_id p"
  "rmp_player_name (reseated as p) = rmp_player_name p" "rmp_chip_count (reseated as p) = rmp_chip_count p"
  by (simp_all add: reseated_def split: option.splits)

lemma foldl_assign_seat:
  assumes "distinct (map sa_player_id as)"
  shows "foldl assign_seat db as = db\<lparr>rdb_players := map (reseated as) (rdb_players db)\<rparr>"
  using assms
proof (induction as arbitrary: db)
  case Nil
  then show ?case by (simp add: reseated_def)
next
  case (Cons a as)
  have "List.find (\<lambda>b. sa_player_id b = sa_player_id a) as = None" using Cons.prems by (auto simp: find_None_mem image_iff)
  then have "reseated as (if rmp_player_id p = sa_player_id a then p\<lparr>rmp_seat_number := sa_seat_number a\<rparr> else p) =
      reseated (a # as) p" for p
    by (auto simp: reseated_def)
  with Cons show ?case by (simp add: assign_seat_def comp_def)
qed

lemma reorder_seats_cases:
  assumes "reorder_seats env db rid data = Inr (res, db')"
  obtains room where "fetch_room db rid = Inr room" "rm_status room = ROOM_WAITING" "room_unique_ok db'"
    "rdb_rooms db' = rdb_rooms db" "rdb_levels db' = rdb_levels db"
    "rdb_players db' = map (reseated (rs_assignments data)) (rdb_players db)"
    "distinct (map sa_player_id (rs_assignments data))" "distinct (map sa_seat_number (rs_assignments data))"
    "\<forall>a \<in> set (rs_assignments data). sa_seat_number a \<le> rm_max_players room"
    "\<forall>a \<in> set (rs_assignments data). \<exists>p \<in> set (rdb_players db). rmp_player_id p = sa_player_id a \<and> rmp_room_id p = rid"
proof -
  from assms obtain room where room: "fetch_room db rid = Inr room" "rm_status room = ROOM_WAITING"
    and valid: "validate_seat_assignments room data (map rmp_player_id (get_players_in_room db rid)) = Inr ()"
    and db': "room_unique_ok db'" "rdb_rooms db' = rdb_rooms (foldl assign_seat db (rs_assignments data))"
      "rdb_levels db' = rdb_levels (foldl assign_seat db (rs_assignments data))"
      "rdb_players db' = rdb_players (foldl assign_seat db (rs_assignments data))"
    by (auto simp: reorder_seats_def bindE_simps room_commit_Inr split: if_splits)
  from valid have d: "distinct (map sa_player_id (rs_assignments data))" "distinct (map sa_seat_number (rs_assignments data))"
    "\<forall>a \<in> set (rs_assignments data). sa_seat_number a \<le> rm_max_players room"
    "\<forall>a \<in> set (rs_assignments data). sa_player_id a \<in> rmp_player_id ` set (get_players_in_room db rid)"
    by (auto simp: validate_seat_assignments_def Let_def list_ex_iff not_less split: if_splits)
  from d(4) have "\<forall>a \<in> set (rs_assignments data). \<exists>p \<in> set (rdb_players db). rmp_player_id p = sa_player_id a \<and> rmp_room_id p = rid"
    by (fastforce simp: get_players_in_room_def)
  with room d(1-3) db' show ?thesis by (intro that) (simp_all add: foldl_assign_seat)
qed


section \<open>The seating invariant\<close>

definition seat_ok :: "Room list \<Rightarrow> RoomPlayer \<Rightarrow> bool" where
  "seat_ok rooms p \<longleftrightarrow> list_ex (\<lambda>r. rm_room_id r = rmp_room_id p \<and> rmp_seat_number p \<le> rm_max_players r) rooms \<and>
     1 \<le> rmp_seat_number p \<and> 0 \<le> rmp_chip_count p"

definition seating_ok :: "Room list \<Rightarrow> RoomPlayer list \<Rightarrow> bool" where
  "seating_ok rooms players \<longleftrightarrow>
     distinct (map (\<lambda>p. (rmp_room_id p, rmp_seat_number p)) players) \<and>
     distinct (map (\<lambda>p. (rmp_room_id p, rmp_player_name p)) players) \<and>
     list_all (seat_ok rooms) players \<and> list_all (\<lambda>r. 0 < rm_starting_chips r) rooms"

definition room_ok :: "RoomDb \<Rightarrow> bool" where
  "room_ok db \<longleftrightarrow> room_unique_ok db \<and> seating_ok (rdb_rooms db) (rdb_players db)"

text \<open>No player left out of a reordering sits on a seat it gives away.\<close>

definition leaves_free :: "RoomDb \<Rightarrow> room_id \<Rightarrow> ReorderSeats \<Rightarrow> bool" where
  "leaves_free db rid data \<longleftrightarrow> list_all (\<lambda>p. rmp_room_id p = rid \<and> rmp_player_id p \<notin> set (map sa_player_id (rs_assignments data)) \<longrightarrow>
     rmp_seat_number p \<notin> set (map sa_seat_number (rs_assignments data))) (rdb_players db)"

text \<open>Any successful command.\<close>

inductive room_command :: "RoomDb \<Rightarrow> RoomDb \<Rightarrow> bool" where
  activate: "activate_room env db rid = Inr (res, db') \<Longrightarrow> room_command db db'"
| finish: "finish_room env db rid = Inr (res, db') \<Longrightarrow> room_command db db'"
| create: "create_room env db data = Inr (res, db') \<Longrightarrow> room_command db db'"
| reorder: "reorder_seats env db rid rdata = Inr (rres, db') \<Longrightarrow> room_command db db'"
| blinds: "set_blind_structure db rid bdata = Inr (rres, db') \<Longrightarrow> room_command db db'"
| delete: "delete_room db rid = Inr (dres, db') \<Longrightarrow> room_command db db'"
| join: "join_room_by_code env db code jdata = Inr (pres, db') \<Longrightarrow> room_command db db'"
| chips: "update_player_chips env db pid udata = Inr (pres, db') \<Longrightarrow> room_command db db'"
| eliminate: "eliminate_player env db pid = Inr (pres, db') \<Longrightarrow> room_command db db'"

text \<open>
  A command with a request that satisfies its schema and, if it is a reordering, leaves the
  seats of the others free.
\<close>

inductive room_step :: "RoomDb \<Rightarrow> RoomDb \<Rightarrow> bool" where
  activate: "activate_room env db rid = Inr (res, db') \<Longrightarrow> room_step db db'"
| finish: "finish_room env db rid = Inr (res, db') \<Longrightarrow> room_step db db'"
| create: "create_room env db data = Inr (res, db') \<Longrightarrow> CreateRoom_ck data \<Longrightarrow> room_step db db'"
| reorder: "reorder_seats env db rid rdata = Inr (rres, db') \<Longrightarrow> ReorderSeats_ck rdata \<Longrightarrow> leaves_free db rid rdata \<Longrightarrow> room_step db db'"
| blinds: "set_blind_structure db rid bdata = Inr (rres, db') \<Longrightarrow> SetBlindStructure_ck bdata \<Longrightarrow> room_step db db'"
| delete: "delete_room db rid = Inr (dres, db') \<Longrightarrow> room_step db db'"
| join: "join_room_by_code env db code jdata = Inr (pres, db') \<Longrightarrow> JoinRoom_ck jdata \<Longrightarrow> room_step db db'"
| chips: "update_player_chips env db pid udata = Inr (pres, db') \<Longrightarrow> UpdateChips_ck udata \<Longrightarrow> room_step db db'"
| eliminate: "eliminate_player env db pid = Inr (pres, db') \<Longrightarrow> room_step db db'"

lemma seating_ok_rooms:
  assumes "seating_ok rooms players" and "map rm_room_id rooms' = map rm_room_id rooms"
    and "map rm_max_players rooms' = map rm_max_players rooms" and "map rm_starting_chips rooms' = map rm_starting_chips rooms"
  shows "seating_ok rooms' players"
proof -
  have len: "length rooms' = length rooms" using assms(2) by (metis length_map)
  have nth: "rm_room_id (rooms' ! i) = rm_room_id (rooms ! i)" "rm_max_players (rooms' ! i) = rm_max_players (rooms ! i)"
    "rm_starting_chips (rooms' ! i) = rm_starting_chips (rooms ! i)" if "i < length rooms" for i
    using that len assms(2-4) by (metis nth_map)+
  have "seat_ok rooms' p" if "seat_ok rooms p" for p
    using that len nth by (auto simp: seat_ok_def list_ex_length)
  with assms(1) show ?thesis using len nth by (auto simp: seating_ok_def list_all_iff all_set_conv_all_nth)
qed

lemma seating_ok_put_room:
  assumes "seating_ok (rdb_rooms db) players" and "fetch_room db rid = Inr room" and "rm_room_id r = rm_room_id room"
    and "rm_max_players r = rm_max_players room" and "rm_starting_chips r = rm_starting_chips room"
  shows "seating_ok (put_row rm_room_id r (rdb_rooms db)) players"
proof (rule seating_ok_rooms [OF assms(1)])
  have only: "x = room" if "x \<in> set (rdb_rooms db)" "rm_room_id x = rid" for x
    using fetch_or_404_unique [OF assms(2) [unfolded fetch_room_def]] that by blast
  then show "map rm_room_id (put_row rm_room_id r (rdb_rooms db)) = map rm_room_id (rdb_rooms db)"
    "map rm_max_players (put_row rm_room_id r (rdb_rooms db)) = map rm_max_players (rdb_rooms db)"
    "map rm_starting_chips (put_row rm_room_id r (rdb_rooms db)) = map rm_starting_chips (rdb_rooms db)"
    using assms(3-5) fetch_room_mem [OF assms(2)] by (simp_all add: put_row_def)
qed

lemma seating_ok_put_player:
  assumes "seating_ok rooms (rdb_players db)" and "fetch_room_player db pid = Inr p" and "rmp_player_id p' = pid"
    and "rmp_room_id p' = rmp_room_id p" "rmp_seat_number p' = rmp_seat_number p" "rmp_player_name p' = rmp_player_name p"
    and "0 \<le> rmp_chip_count p'"
  shows "seating_ok rooms (put_row rmp_player_id p' (rdb_players db))"
proof -
  have only: "q = p" if "q \<in> set (rdb_players db)" "rmp_player_id q = pid" for q
    using fetch_or_404_unique [OF assms(2) [unfolded fetch_room_player_def]] that by blast
  have keys: "map (\<lambda>p. (rmp_room_id p, rmp_seat_number p)) (put_row rmp_player_id p' (rdb_players db)) =
      map (\<lambda>p. (rmp_room_id p, rmp_seat_number p)) (rdb_players db)"
    "map (\<lambda>p. (rmp_room_id p, rmp_player_name p)) (put_row rmp_player_id p' (rdb_players db)) =
      map (\<lambda>p. (rmp_room_id p, rmp_player_name p)) (rdb_players db)"
    using only assms(3-6) by (auto simp: put_row_def)
  have "seat_ok rooms p'"
    using assms(1,4,5,7) fetch_room_player_mem [OF assms(2)] by (auto simp: seating_ok_def list_all_iff seat_ok_def)
  then have "list_all (seat_ok rooms) (put_row rmp_player_id p' (rdb_players db))"
    using assms(1) by (auto simp: seating_ok_def list_all_iff put_row_def)
  then show ?thesis using assms(1) unfolding seating_ok_def keys by simp
qed

lemma seating_ok_reseated:
  assumes "seating_ok rooms players" and "distinct (map rmp_player_id players)"
    and "distinct (map sa_seat_number as)" and "\<forall>a \<in> set as. 1 \<le> sa_seat_number a \<and> sa_seat_number a \<le> rm_max_players room"
    and "room \<in> set rooms" "rm_room_id room = rid"
    and "\<forall>a \<in> set as. \<exists>p \<in> set players. rmp_player_id p = sa_player_id a \<and> rmp_room_id p = rid"
    and "\<forall>p \<in> set players. rmp_room_id p = rid \<and> rmp_player_id p \<notin> sa_player_id ` set as \<longrightarrow> rmp_seat_number p \<notin> sa_seat_number ` set as"
  shows "seating_ok rooms (map (reseated as) players)"
proof -
  have same: "p = q" if "p \<in> set players" "q \<in> set players" "rmp_player_id p = rmp_player_id q" for p q
    using assms(2) that by (auto simp: distinct_map inj_on_def)
  have moved: "reseated as p = p \<and> rmp_player_id p \<notin> sa_player_id ` set as \<or>
      (\<exists>a \<in> set as. sa_player_id a = rmp_player_id p \<and> rmp_seat_number (reseated as p) = sa_seat_number a \<and> rmp_room_id p = rid)"
    if p: "p \<in> set players" for p
  proof (cases "List.find (\<lambda>a. sa_player_id a = rmp_player_id p) as")
    case None
    then have "reseated as p = p" by (simp add: reseated_def)
    with None show ?thesis by (auto simp: find_None_iff image_iff)
  next
    case (Some a)
    then have "a \<in> set as" "sa_player_id a = rmp_player_id p" by (auto dest: find_Some_mem)
    moreover from this assms(7) obtain q where "q \<in> set players" "rmp_player_id q = rmp_player_id p" "rmp_room_id q = rid" by metis
    ultimately show ?thesis using same [of q p] p Some by (auto simp: reseated_def)
  qed
  have inj: "inj_on (\<lambda>p. (rmp_room_id p, rmp_seat_number (reseated as p))) (set players)"
  proof (rule inj_onI, clarify)
    fix p q assume pq: "p \<in> set players" "q \<in> set players" "rmp_room_id p = rmp_room_id q"
      "rmp_seat_number (reseated as p) = rmp_seat_number (reseated as q)"
    have seats: "a = b" if "a \<in> set as" "b \<in> set as" "sa_seat_number a = sa_seat_number b" for a b
      using assms(3) that by (auto simp: distinct_map inj_on_def)
    have "p = q" if "reseated as p = p" "reseated as q = q"
      using assms(1) pq that by (auto simp: seating_ok_def distinct_map inj_on_def)
    moreover have False if "reseated as x = x" "rmp_player_id x \<notin> sa_player_id ` set as" "x \<in> set players" "rmp_room_id x = rid"
      "a \<in> set as" "rmp_seat_number x = sa_seat_number a" for x a
      using assms(8) that by auto
    ultimately show "p = q" using moved [OF pq(1)] moved [OF pq(2)] pq same seats by (metis (no_types, lifting))
  qed
  have "seat_ok rooms (reseated as p)" if "p \<in> set players" for p
  proof -
    have old: "seat_ok rooms p" using assms(1) that by (simp add: seating_ok_def list_all_iff)
    with moved [OF that] assms(4-6) show ?thesis by (auto simp: seat_ok_def list_ex_iff)
  qed
  moreover have "distinct players" using assms(2) by (simp add: distinct_map)
  ultimately show ?thesis
    using assms(1) inj by (simp add: seating_ok_def distinct_map list_all_iff comp_def inj_on_def)
qed


lemma foldl_max_ge: "s \<le> foldl max s ss" for s :: int
proof (induction ss arbitrary: s)
  case (Cons t ss)
  show ?case using Cons [of "max s t"] by simp
qed simp

lemma next_seat_pos:
  assumes "list_all (seat_ok rooms) (rdb_players db)"
  shows "1 \<le> get_next_seat_number db rid"
proof (cases "map rmp_seat_number (filter (\<lambda>p. rmp_room_id p = rid) (rdb_players db))")
  case Nil
  then show ?thesis by (simp add: get_next_seat_number_def)
next
  case (Cons s ss)
  then have "s \<in> rmp_seat_number ` set (rdb_players db)" by (metis filter_is_subset image_mono list.set_intros(1) list.set_map subsetD)
  then have "1 \<le> s" using assms by (auto simp: list_all_iff seat_ok_def)
  with foldl_max_ge [of s ss] show ?thesis by (simp only: get_next_seat_number_def Cons list.case)
qed

lemma join_seating_ok:
  assumes "join_read db code data = Inr (room, seat)" and "join_write env db room seat data = Inr (res, db')"
    and "room_ok db" and "JoinRoom_ck data"
  shows "seating_ok (rdb_rooms db') (rdb_players db')"
proof -
  note read = join_read_Inr [OF assms(1)] and written = join_write_Inr [OF assms(2)]
  have seats: "list_all (seat_ok (rdb_rooms db)) (rdb_players db)" using assms(3) by (simp add: room_ok_def seating_ok_def)
  have "1 \<le> seat" using read(7) assms(4) next_seat_pos [OF seats] by (auto simp: JoinRoom_ck_def split: option.splits if_splits)
  moreover have "0 < rm_starting_chips room" using assms(3) read(1) by (simp add: room_ok_def seating_ok_def list_all_iff)
  ultimately have "seat_ok (rdb_rooms db) (new_room_player env pid room seat data)" for pid
    using read(1,5) by (auto simp: seat_ok_def new_room_player_def list_ex_iff)
  then show ?thesis
    using assms(3) read(6) by (auto simp: written room_ok_def seating_ok_def new_room_player_def)
qed

lemma room_command_unique: "room_command db db' \<Longrightarrow> room_unique_ok db \<Longrightarrow> room_unique_ok db'"
  by (erule room_command.cases)
    (auto elim: activate_room_cases finish_room_cases create_room_cases reorder_seats_cases set_blind_structure_cases
      delete_room_cases update_player_chips_cases eliminate_player_cases dest: join_write_Inr(3)
      simp: join_room_by_code_def bindE_simps)

lemma room_step_command: "room_step db db' \<Longrightarrow> room_command db db'"
  by (induction rule: room_step.induct) (blast intro: room_command.intros)+

lemma room_step_seating:
  assumes "room_step db db'" and "room_ok db"
  shows "seating_ok (rdb_rooms db') (rdb_players db')"
proof -
  have ok: "seating_ok (rdb_rooms db) (rdb_players db)" and ids: "distinct (map rmp_player_id (rdb_players db))"
    using assms(2) by (simp_all add: room_ok_def room_unique_ok_def)
  from assms(1) show ?thesis
  proof cases
    case (activate env rid res)
    from activate(1) show ?thesis
      by (rule activate_room_cases) (use ok in \<open>auto intro: seating_ok_put_room\<close>)
  next
    case (finish env rid res)
    from finish(1) show ?thesis
      by (rule finish_room_cases) (use ok in \<open>auto intro: seating_ok_put_room\<close>)
  next
    case (create env data res)
    from create(1) show ?thesis
      by (rule create_room_cases) (use ok create(2) in \<open>auto simp: seating_ok_def seat_ok_def list_all_iff CreateRoom_ck_def\<close>)
  next
    case (reorder env rid rdata rres)
    from reorder(1) show ?thesis
    proof (rule reorder_seats_cases)
      fix room assume "fetch_room db rid = Inr room" "rdb_rooms db' = rdb_rooms db"
        "rdb_players db' = map (reseated (rs_assignments rdata)) (rdb_players db)"
        "distinct (map sa_seat_number (rs_assignments rdata))"
        "\<forall>a \<in> set (rs_assignments rdata). sa_seat_number a \<le> rm_max_players room"
        "\<forall>a \<in> set (rs_assignments rdata). \<exists>p \<in> set (rdb_players db). rmp_player_id p = sa_player_id a \<and> rmp_room_id p = rid"
      then show ?thesis
        using reorder(2,3) fetch_room_mem seating_ok_reseated [OF ok ids, of "rs_assignments rdata" room rid]
        by (simp add: ReorderSeats_ck_def SeatAssignment_ck_def leaves_free_def list_all_iff)
    qed
  next
    case (blinds rid bdata rres)
    from blinds(1) show ?thesis
      by (rule set_blind_structure_cases) (use ok in \<open>auto intro: seating_ok_put_room\<close>)
  next
    case (delete rid dres)
    from delete(1) show ?thesis
      by (rule delete_room_cases)
        (use ok in \<open>auto 0 4 simp: seating_ok_def seat_ok_def list_all_iff list_ex_iff distinct_map_filter Bex_def\<close>)
  next
    case (join env code jdata pres)
    then show ?thesis using join_seating_ok assms(2) by (auto simp: join_room_by_code_def bindE_simps)
  next
    case (chips env pid udata pres)
    from chips(1) show ?thesis
    proof (rule update_player_chips_cases)
      fix p assume "fetch_room_player db pid = Inr p" "rdb_rooms db' = rdb_rooms db"
        "rdb_players db' = put_row rmp_player_id (p\<lparr>rmp_chip_count := uc_chip_count udata\<rparr>) (rdb_players db)"
      then show ?thesis
        using chips(2) fetch_room_player_mem by (simp add: seating_ok_put_player [OF ok] UpdateChips_ck_def)
    qed
  next
    case (eliminate env pid pres)
    from eliminate(1) show ?thesis
    proof (rule eliminate_player_cases)
      fix p assume "fetch_room_player db pid = Inr p" "rdb_rooms db' = rdb_rooms db"
        "rdb_players db' = put_row rmp_player_id (p\<lparr>rmp_is_eliminated := True, rmp_is_active := False, rmp_chip_count := 0\<rparr>) (rdb_players db)"
      then show ?thesis using fetch_room_player_mem by (simp add: seating_ok_put_player [OF ok])
    qed
  qed
qed

lemma room_step_ok: "room_step db db' \<Longrightarrow> room_ok db \<Longrightarrow> room_ok db'"
  using room_step_seating room_command_unique [OF room_step_command] by (simp add: room_ok_def)

text \<open>Distinct seats between 1 and the capacity are at most as many as the capacity.\<close>

lemma room_capacity:
  assumes "room_ok db" and "fetch_room db rid = Inr room"
  shows "length (get_players_in_room db rid) \<le> nat (rm_max_players room)"
proof -
  let ?ps = "filter (\<lambda>p. rmp_room_id p = rid) (rdb_players db)"
  have "distinct (map rmp_seat_number ?ps)"
    using assms(1) by (auto simp: room_ok_def seating_ok_def distinct_map inj_on_def)
  then have "length ?ps = card (rmp_seat_number ` set ?ps)" by (metis distinct_card length_map set_map)
  also have "\<dots> \<le> card {1 .. rm_max_players room}"
  proof (rule card_mono)
    have "rmp_seat_number p \<in> {1 .. rm_max_players room}" if "p \<in> set ?ps" for p
    proof -
      have "seat_ok (rdb_rooms db) p" using assms(1) that by (auto simp: room_ok_def seating_ok_def list_all_iff)
      moreover have "r = room" if "r \<in> set (rdb_rooms db)" "rm_room_id r = rid" for r
        using fetch_or_404_unique [OF assms(2) [unfolded fetch_room_def]] that by blast
      ultimately show ?thesis using that by (auto simp: seat_ok_def list_ex_iff)
    qed
    then show "rmp_seat_number ` set ?ps \<subseteq> {1 .. rm_max_players room}" by blast
  qed simp
  finally show ?thesis by (simp add: get_players_in_room_def)
qed


section \<open>The life of a room\<close>

text \<open>Who sits where under which name, the blinds, and what game-service reads besides.\<close>

definition setup_of :: "RoomDb \<Rightarrow> room_id \<Rightarrow> (player_id \<times> string \<times> int) list \<times> BlindLevel list \<times> int option" where
  "setup_of db rid = (map (\<lambda>p. (rmp_player_id p, rmp_player_name p, rmp_seat_number p)) (get_players_in_room db rid),
     get_blind_levels db rid, case fetch_room db rid of Inr r \<Rightarrow> Some (rm_starting_dealer_seat r) | Inl e \<Rightarrow> None)"

fun status_rank :: "RoomStatus \<Rightarrow> nat" where
  "status_rank ROOM_WAITING = 0"
| "status_rank ROOM_ACTIVE = 1"
| "status_rank ROOM_FINISHED = 2"

text \<open>A command during which the room stays in the tables.\<close>

definition kept_step :: "room_id \<Rightarrow> RoomDb \<Rightarrow> RoomDb \<Rightarrow> bool" where
  "kept_step rid db db' \<longleftrightarrow> room_command db db' \<and> is_ok (fetch_room db' rid)"

definition started :: "room_id \<Rightarrow> RoomDb \<Rightarrow> bool" where
  "started rid db \<longleftrightarrow> (case fetch_room db rid of Inr r \<Rightarrow> rm_status r \<noteq> ROOM_WAITING | Inl e \<Rightarrow> False)"

lemma fetch_room_put:
  assumes "rdb_rooms db' = put_row rm_room_id r (rdb_rooms db)" and "fetch_room db x = Inr room" "rm_room_id r = rm_room_id room"
  shows "fetch_room db' rid = (if rid = x then Inr r else fetch_room db rid)"
proof (cases "rid = x")
  case True
  have "rm_room_id r = x" using assms(2,3) fetch_room_mem by simp
  from fetch_put_404 [OF assms(2) [unfolded fetch_room_def] this] show ?thesis by (simp only: True fetch_room_def assms(1) simp_thms if_True)
next
  case False
  have "rid \<noteq> rm_room_id r" using False assms(2,3) fetch_room_mem by simp
  from fetch_put_404_other [of rid rm_room_id r, OF this] False show ?thesis by (simp only: fetch_room_def assms(1) if_False)
qed

lemma fetch_room_same: "rdb_rooms db' = rdb_rooms db \<Longrightarrow> fetch_room db' rid = fetch_room db rid"
  by (simp add: fetch_room_def)

lemma players_in_room_map:
  assumes "rdb_players db' = map f (rdb_players db)"
    and "\<And>p. p \<in> set (rdb_players db) \<Longrightarrow> rmp_room_id (f p) = rmp_room_id p"
    and "\<And>p. p \<in> set (rdb_players db) \<Longrightarrow> rmp_room_id p = rid \<Longrightarrow> rmp_seat_number (f p) = rmp_seat_number p"
  shows "get_players_in_room db' rid = map f (get_players_in_room db rid)"
proof -
  have "filter (\<lambda>p. rmp_room_id p = rid) (map f (rdb_players db)) = map f (filter (\<lambda>p. rmp_room_id p = rid) (rdb_players db))"
    using assms(2) by (auto simp: filter_map comp_def intro!: arg_cong [of _ _ "map f"] filter_cong)
  moreover have "sort_key rmp_seat_number (map f (filter (\<lambda>p. rmp_room_id p = rid) (rdb_players db))) =
      map f (sort_key rmp_seat_number (filter (\<lambda>p. rmp_room_id p = rid) (rdb_players db)))"
    unfolding sort_key_map using assms(3) by (intro arg_cong [of _ _ "map f"] sort_key_cong) simp
  ultimately show ?thesis by (simp add: get_players_in_room_def assms(1))
qed

definition ages :: "Room \<Rightarrow> Room \<Rightarrow> bool" where
  "ages r r' \<longleftrightarrow> status_rank (rm_status r) \<le> status_rank (rm_status r') \<and> rm_code r' = rm_code r \<and>
     rm_max_players r' = rm_max_players r \<and>
     (rm_status r \<noteq> ROOM_WAITING \<longrightarrow> rm_starting_dealer_seat r' = rm_starting_dealer_seat r)"

lemma ages_refl [simp]: "ages r r"
  by (simp add: ages_def)

lemma ages_step [simp]:
  "rm_status r = ROOM_WAITING \<Longrightarrow> ages r (r\<lparr>rm_status := ROOM_ACTIVE\<rparr>)"
  "rm_status r = ROOM_ACTIVE \<Longrightarrow> ages r (r\<lparr>rm_status := ROOM_FINISHED\<rparr>)"
  "rm_status r = ROOM_WAITING \<Longrightarrow> ages r (r\<lparr>rm_starting_dealer_seat := s\<rparr>)"
  by (simp_all add: ages_def)

lemma ages_trans: "ages r r' \<Longrightarrow> ages r' r'' \<Longrightarrow> ages r r''"
  by (cases "rm_status r"; cases "rm_status r'"; simp add: ages_def)

lemma put_room_ages:
  assumes "fetch_room db rid = Inr r" and "rdb_rooms db' = put_row rm_room_id r1 (rdb_rooms db)" and "fetch_room db x = Inr room"
    and "rm_room_id r1 = rm_room_id room" and "ages room r1"
  shows "\<exists>r'. fetch_room db' rid = Inr r' \<and> ages r r'"
  using fetch_room_put [OF assms(2,3,4), of rid] assms(1,3,5) by (cases "rid = x") simp_all

lemma same_room_ages: "fetch_room db rid = Inr r \<Longrightarrow> rdb_rooms db' = rdb_rooms db \<Longrightarrow> \<exists>r'. fetch_room db' rid = Inr r' \<and> ages r r'"
  by (simp add: fetch_room_def)


lemma room_command_status:
  assumes "room_command db db'" and "fetch_room db rid = Inr r" and "is_ok (fetch_room db' rid)"
  shows "\<exists>r'. fetch_room db' rid = Inr r' \<and> ages r r'"
  using assms(1)
proof cases
  case (activate env x res)
  from activate(1) show ?thesis
    by (rule activate_room_cases) (auto intro: put_room_ages [OF assms(2)] same_room_ages [OF assms(2)])
next
  case (finish env x res)
  from finish(1) show ?thesis
    by (rule finish_room_cases) (auto intro: put_room_ages [OF assms(2)] same_room_ages [OF assms(2)])
next
  case (create env data res)
  from create(1) show ?thesis
  proof (rule create_room_cases)
    fix room assume new: "rdb_rooms db' = rdb_rooms db @ [room]" "room_unique_ok db'"
    from assms(2) have "rid \<in> rm_room_id ` set (rdb_rooms db)" using fetch_room_mem by force
    with new have "rm_room_id room \<noteq> rid" by (auto simp: room_unique_ok_def)
    then have "fetch_room db' rid = Inr r" using assms(2) by (simp add: fetch_room_def fetch_or_404_Inr new(1))
    then show ?thesis by simp
  qed
next
  case (reorder env x rdata rres)
  from reorder(1) show ?thesis by (rule reorder_seats_cases) (rule same_room_ages [OF assms(2)])
next
  case (blinds x bdata rres)
  from blinds(1) show ?thesis
    by (rule set_blind_structure_cases) (auto intro: put_room_ages [OF assms(2)] same_room_ages [OF assms(2)])
next
  case (delete x dres)
  from delete(1) show ?thesis
  proof (rule delete_room_cases)
    fix room assume gone: "rdb_rooms db' = filter (\<lambda>r. rm_room_id r \<noteq> x) (rdb_rooms db)"
    have "x \<noteq> rid"
    proof
      assume "x = rid"
      then have "filter (\<lambda>r. rm_room_id r = rid) (rdb_rooms db') = []" by (auto simp: gone filter_empty_conv)
      then show False using assms(3) by (simp add: fetch_room_def fetch_or_404_def http_error_def)
    qed
    then have "filter (\<lambda>r. rm_room_id r = rid) (rdb_rooms db') = filter (\<lambda>r. rm_room_id r = rid) (rdb_rooms db)"
      unfolding gone filter_filter by (intro filter_cong) auto
    then have "fetch_room db' rid = Inr r" using assms(2) by (simp add: fetch_room_def fetch_or_404_Inr)
    then show ?thesis by simp
  qed
next
  case (join env code jdata pres)
  then show ?thesis using join_write_Inr(1) by (auto simp: join_room_by_code_def bindE_simps intro: same_room_ages [OF assms(2)])
next
  case (chips env pid udata pres)
  from chips(1) show ?thesis by (rule update_player_chips_cases) (rule same_room_ages [OF assms(2)])
next
  case (eliminate env pid pres)
  from eliminate(1) show ?thesis by (rule eliminate_player_cases) (rule same_room_ages [OF assms(2)])
qed


lemma setup_ofI:
  assumes "get_players_in_room db' rid = map f (get_players_in_room db rid)"
    and "\<And>p. p \<in> set (get_players_in_room db rid) \<Longrightarrow>
      rmp_player_id (f p) = rmp_player_id p \<and> rmp_player_name (f p) = rmp_player_name p \<and> rmp_seat_number (f p) = rmp_seat_number p"
    and "get_blind_levels db' rid = get_blind_levels db rid"
    and "fetch_room db rid = Inr r" "fetch_room db' rid = Inr r'" "rm_starting_dealer_seat r' = rm_starting_dealer_seat r"
  shows "setup_of db' rid = setup_of db rid"
  using assms by (simp add: setup_of_def)

lemma put_player_in_room:
  assumes "rdb_players db' = put_row rmp_player_id p' (rdb_players db)" and "fetch_room_player db pid = Inr p"
    and "rmp_player_id p' = pid" "rmp_room_id p' = rmp_room_id p" "rmp_seat_number p' = rmp_seat_number p"
      "rmp_player_name p' = rmp_player_name p"
  defines "f \<equiv> \<lambda>q. if rmp_player_id q = pid then p' else q"
  shows "get_players_in_room db' rid = map f (get_players_in_room db rid)"
    and "q \<in> set (get_players_in_room db rid) \<Longrightarrow>
      rmp_player_id (f q) = rmp_player_id q \<and> rmp_player_name (f q) = rmp_player_name q \<and> rmp_seat_number (f q) = rmp_seat_number q"
proof -
  have only: "q = p" if "q \<in> set (rdb_players db)" "rmp_player_id q = pid" for q
    using fetch_or_404_unique [OF assms(2) [unfolded fetch_room_player_def]] that by blast
  show "get_players_in_room db' rid = map f (get_players_in_room db rid)"
  proof (rule players_in_room_map)
    show "rdb_players db' = map f (rdb_players db)" using assms(1,3) by (simp add: put_row_def f_def)
  qed (use only assms(4,5) in \<open>auto simp: f_def\<close>)
  show "q \<in> set (get_players_in_room db rid) \<Longrightarrow>
      rmp_player_id (f q) = rmp_player_id q \<and> rmp_player_name (f q) = rmp_player_name q \<and> rmp_seat_number (f q) = rmp_seat_number q"
    using only assms(3,5,6) by (auto simp: f_def get_players_in_room_def)
qed

lemma same_players: "rdb_players db' = rdb_players db \<Longrightarrow> get_players_in_room db' rid = map (\<lambda>p. p) (get_players_in_room db rid)"
  by (simp add: get_players_in_room_def)

lemma same_levels: "rdb_levels db' = rdb_levels db \<Longrightarrow> get_blind_levels db' rid = get_blind_levels db rid"
  by (simp add: get_blind_levels_def)

lemma room_command_setup:
  assumes step: "room_command db db'" and ids: "room_unique_ok db" and r: "fetch_room db rid = Inr r" "rm_status r \<noteq> ROOM_WAITING"
    and r': "fetch_room db' rid = Inr r'"
  shows "setup_of db' rid = setup_of db rid"
proof -
  have "rm_starting_dealer_seat r' = rm_starting_dealer_seat r"
    using room_command_status [OF step r(1)] r(2) r' by (auto simp: ages_def)
  note frame = setup_ofI [OF _ _ _ r(1) r' this]
  note kept = frame [OF same_players _ same_levels]
  from step show ?thesis
  proof cases
    case (activate env x res)
    from activate(1) show ?thesis by (rule activate_room_cases) (auto intro: kept)
  next
    case (finish env x res)
    from finish(1) show ?thesis by (rule finish_room_cases) (auto intro: kept)
  next
    case (create env data res)
    from create(1) show ?thesis by (rule create_room_cases) (auto intro: kept)
  next
    case (reorder env x rdata rres)
    from reorder(1) show ?thesis
    proof (rule reorder_seats_cases)
      fix room assume room: "fetch_room db x = Inr room" "rm_status room = ROOM_WAITING" and levels: "rdb_levels db' = rdb_levels db"
        and players: "rdb_players db' = map (reseated (rs_assignments rdata)) (rdb_players db)"
        and assigned: "\<forall>a \<in> set (rs_assignments rdata). \<exists>p \<in> set (rdb_players db). rmp_player_id p = sa_player_id a \<and> rmp_room_id p = x"
      have "x \<noteq> rid" using room r by auto
      have still: "reseated (rs_assignments rdata) p = p" if p: "p \<in> set (rdb_players db)" "rmp_room_id p = rid" for p
      proof (cases "List.find (\<lambda>a. sa_player_id a = rmp_player_id p) (rs_assignments rdata)")
        case (Some a)
        then have "a \<in> set (rs_assignments rdata)" "sa_player_id a = rmp_player_id p" by (auto dest: find_Some_mem)
        with assigned obtain q where "q \<in> set (rdb_players db)" "rmp_player_id q = rmp_player_id p" "rmp_room_id q = x" by metis
        with p ids have "x = rid" by (auto simp: room_unique_ok_def distinct_map inj_on_def)
        with \<open>x \<noteq> rid\<close> show ?thesis ..
      qed (simp add: reseated_def)
      show ?thesis
        using still by (intro frame [OF players_in_room_map [OF players]] same_levels [OF levels]) (auto simp: get_players_in_room_def)
    qed
  next
    case (blinds x bdata rres)
    from blinds(1) show ?thesis
    proof (rule set_blind_structure_cases)
      fix room assume room: "fetch_room db x = Inr room" "rm_status room = ROOM_WAITING" and players: "rdb_players db' = rdb_players db"
        and levels: "rdb_levels db' = filter (\<lambda>bl. rml_room_id bl \<noteq> x) (rdb_levels db) @ map (blind_level_row x) (sbs_levels bdata)"
      have "x \<noteq> rid" using room r by auto
      then have "filter (\<lambda>bl. rml_room_id bl = rid) (rdb_levels db') = filter (\<lambda>bl. rml_room_id bl = rid) (rdb_levels db)"
        by (auto simp: levels blind_level_row_def filter_empty_conv intro: filter_cong)
      then show ?thesis by (intro frame [OF same_players [OF players]]) (simp_all add: get_blind_levels_def)
    qed
  next
    case (delete x dres)
    from delete(1) show ?thesis
    proof (rule delete_room_cases)
      fix room assume gone: "rdb_rooms db' = filter (\<lambda>r. rm_room_id r \<noteq> x) (rdb_rooms db)"
        "rdb_players db' = filter (\<lambda>p. rmp_room_id p \<noteq> x) (rdb_players db)"
        "rdb_levels db' = filter (\<lambda>bl. rml_room_id bl \<noteq> x) (rdb_levels db)"
      have "x \<noteq> rid" using fetch_room_mem [OF r'] by (auto simp: gone)
      then have "filter (\<lambda>p. rmp_room_id p = rid) (rdb_players db') = filter (\<lambda>p. rmp_room_id p = rid) (rdb_players db)"
        "filter (\<lambda>bl. rml_room_id bl = rid) (rdb_levels db') = filter (\<lambda>bl. rml_room_id bl = rid) (rdb_levels db)"
        by (auto simp: gone intro: filter_cong)
      then show ?thesis by (intro frame [of "\<lambda>p. p"]) (simp_all add: get_players_in_room_def get_blind_levels_def)
    qed
  next
    case (join env code jdata pres)
    then obtain room seat where read: "join_read db code jdata = Inr (room, seat)" and written: "join_write env db room seat jdata = Inr (pres, db')"
      by (auto simp: join_room_by_code_def bindE_simps)
    have "rm_room_id room \<noteq> rid"
      using join_read_Inr(1,3) [OF read] r fetch_or_404_unique [OF r(1) [unfolded fetch_room_def], of room] by auto
    then have "filter (\<lambda>p. rmp_room_id p = rid) (rdb_players db') = filter (\<lambda>p. rmp_room_id p = rid) (rdb_players db)"
      by (simp add: join_write_Inr(4) [OF written] new_room_player_def)
    then show ?thesis
      by (intro frame [of "\<lambda>p. p"] same_levels join_write_Inr(2) [OF written]) (simp_all add: get_players_in_room_def)
  next
    case (chips env pid udata pres)
    from chips(1) show ?thesis
    proof (rule update_player_chips_cases)
      fix p assume p: "fetch_room_player db pid = Inr p" and levels: "rdb_levels db' = rdb_levels db"
        and players: "rdb_players db' = put_row rmp_player_id (p\<lparr>rmp_chip_count := uc_chip_count udata\<rparr>) (rdb_players db)"
      have "rmp_player_id p = pid" using fetch_room_player_mem [OF p] by simp
      then show ?thesis
        by (intro frame [OF put_player_in_room(1) [OF players p] put_player_in_room(2) [OF players p] same_levels [OF levels]]) simp_all
    qed
  next
    case (eliminate env pid pres)
    from eliminate(1) show ?thesis
    proof (rule eliminate_player_cases)
      fix p assume p: "fetch_room_player db pid = Inr p" and levels: "rdb_levels db' = rdb_levels db"
        and players: "rdb_players db' = put_row rmp_player_id (p\<lparr>rmp_is_eliminated := True, rmp_is_active := False, rmp_chip_count := 0\<rparr>) (rdb_players db)"
      have "rmp_player_id p = pid" using fetch_room_player_mem [OF p] by simp
      then show ?thesis
        by (intro frame [OF put_player_in_room(1) [OF players p] put_player_in_room(2) [OF players p] same_levels [OF levels]]) simp_all
    qed
  qed
qed


interpretation lifecycle: conserving_system "kept_step rid" "\<lambda>db. room_unique_ok db \<and> started rid db" "\<lambda>db. setup_of db rid" for rid
proof
  fix db db' assume step: "kept_step rid db db'" and inv: "room_unique_ok db \<and> started rid db"
  from step obtain r' where run: "room_command db db'" and r': "fetch_room db' rid = Inr r'" by (auto simp: kept_step_def is_ok_iff)
  from inv obtain r where r: "fetch_room db rid = Inr r" "rm_status r \<noteq> ROOM_WAITING" by (auto simp: started_def split: sum.splits)
  from room_command_status [OF run r(1)] r' have "ages r r'" by auto
  then have "started rid db'" using r(2) r' by (cases "rm_status r"; cases "rm_status r'"; simp add: ages_def started_def)
  then show "(room_unique_ok db' \<and> started rid db') \<and> setup_of db' rid = setup_of db rid"
    using room_command_unique [OF run] room_command_setup [OF run _ r r'] inv by simp
qed

interpretation seating: conserving_system room_step room_ok "\<lambda>db. ()"
  by unfold_locales (simp add: room_step_ok)

lemma kept_run_ages:
  assumes "(kept_step rid)\<^sup>*\<^sup>* db db'" and "fetch_room db rid = Inr r"
  shows "\<exists>r'. fetch_room db' rid = Inr r' \<and> ages r r'"
  using assms
proof (induction rule: rtranclp_induct)
  case (step y z)
  then obtain r1 where "fetch_room y rid = Inr r1" "ages r r1" by blast
  with room_command_status [of y z rid r1] step(2) ages_trans show ?case by (auto simp: kept_step_def)
qed simp


section \<open>An example room\<close>

definition room_env :: RoomEnv where
  "room_env = \<lparr>re_uuid = \<lambda>n. [CHR ''u'', digit_char n], re_rand = \<lambda>n. n, re_now = 0\<rparr>"

definition no_rooms :: RoomDb where
  "no_rooms = \<lparr>rdb_rooms = [], rdb_players = [], rdb_levels = [], rdb_outbox = [], rdb_uuid = 0, rdb_draws = 0\<rparr>"

definition three_seat_room :: CreateRoom where
  "three_seat_room = \<lparr>cr_name = None, cr_max_players = 3, cr_starting_chips = 100, cr_antes_enabled = False, cr_created_by = ''x''\<rparr>"

definition new_room_db :: RoomDb where
  "new_room_db = snd (the_ok (create_room room_env no_rooms three_seat_room))"

definition one_player_db :: RoomDb where
  "one_player_db = snd (the_ok (join_room_by_code room_env new_room_db ''abcd'' \<lparr>jr_player_name = ''ann'', jr_seat_number = Some 3\<rparr>))"

definition two_player_db :: RoomDb where
  "two_player_db = snd (the_ok (join_room_by_code room_env one_player_db ''abcd'' \<lparr>jr_player_name = ''bob'', jr_seat_number = Some 1\<rparr>))"

definition active_room_db :: RoomDb where
  "active_room_db = snd (the_ok (activate_room room_env two_player_db ''u0''))"

definition chips_updated_db :: RoomDb where
  "chips_updated_db = snd (the_ok (update_player_chips room_env active_room_db ''u2'' \<lparr>uc_chip_count = 70\<rparr>))"

lemma is_ok_pair: "is_ok r \<Longrightarrow> r = Inr (fst (the_ok r), snd (the_ok r))"
  by (simp add: is_okD)

lemma example_room_steps: "room_step one_player_db two_player_db" "room_step active_room_db chips_updated_db"
proof -
  have "is_ok (join_room_by_code room_env one_player_db ''abcd'' \<lparr>jr_player_name = ''bob'', jr_seat_number = Some 1\<rparr>)"
    "is_ok (update_player_chips room_env active_room_db ''u2'' \<lparr>uc_chip_count = 70\<rparr>)" by code_simp+
  note runs = this [THEN is_ok_pair]
  show "room_step one_player_db two_player_db"
    by (rule room_step.join [OF runs(1) [folded two_player_db_def]]) code_simp
  show "room_step active_room_db chips_updated_db"
    by (rule room_step.chips [OF runs(2) [folded chips_updated_db_def]]) code_simp
qed

lemma example_rooms_ok: "room_ok one_player_db" "room_ok active_room_db"
  by code_simp+

definition example_room :: "RoomDb \<Rightarrow> Room" where
  "example_room db = the_ok (fetch_room db ''u0'')"

lemma example_fetch:
  "fetch_room two_player_db ''u0'' = Inr (example_room two_player_db)"
  "fetch_room active_room_db ''u0'' = Inr (example_room active_room_db)"
  "fetch_room chips_updated_db ''u0'' = Inr (example_room chips_updated_db)"
proof -
  have "is_ok (fetch_room two_player_db ''u0'')" "is_ok (fetch_room active_room_db ''u0'')" "is_ok (fetch_room chips_updated_db ''u0'')"
    by code_simp+
  note this [THEN is_okD, folded example_room_def]
  then show "fetch_room two_player_db ''u0'' = Inr (example_room two_player_db)"
    "fetch_room active_room_db ''u0'' = Inr (example_room active_room_db)"
    "fetch_room chips_updated_db ''u0'' = Inr (example_room chips_updated_db)" by blast+
qed


section \<open>Properties\<close>

text \<open>
  C20: a room never seats two players on one chair. Along every sequence of successful commands
  whose reorderings do not give away the seat of a player they leave out, and whatever rooms
  they concern: in each room no seat and no name is taken twice, seats lie between 1 and the
  capacity, no more players have joined than the room has seats, and no chip count is negative.
\<close>

theorem room_seating:
  assumes "room_step\<^sup>*\<^sup>* db db'" and "room_ok db" and "fetch_room db' rid = Inr room"
  shows "room_ok db' \<and> distinct (map rmp_seat_number (get_players_in_room db' rid)) \<and>
    distinct (map rmp_player_name (get_players_in_room db' rid)) \<and>
    list_all (\<lambda>p. 1 \<le> rmp_seat_number p \<and> rmp_seat_number p \<le> rm_max_players room \<and> 0 \<le> rmp_chip_count p) (get_players_in_room db' rid) \<and>
    length (get_players_in_room db' rid) \<le> nat (rm_max_players room)"
proof -
  have ok: "room_ok db'" using seating.run_keeps [OF assms(1,2)] by simp
  have only: "r = room" if "r \<in> set (rdb_rooms db')" "rm_room_id r = rid" for r
    using fetch_or_404_unique [OF assms(3) [unfolded fetch_room_def]] that by blast
  have "distinct (map rmp_seat_number (filter (\<lambda>p. rmp_room_id p = rid) (rdb_players db')))"
    "distinct (map rmp_player_name (filter (\<lambda>p. rmp_room_id p = rid) (rdb_players db')))"
    using ok by (auto simp: room_ok_def seating_ok_def distinct_map inj_on_def)
  then have "distinct (map rmp_seat_number (get_players_in_room db' rid))" "distinct (map rmp_player_name (get_players_in_room db' rid))"
    by (simp_all add: get_players_in_room_def distinct_map)
  moreover have "list_all (\<lambda>p. 1 \<le> rmp_seat_number p \<and> rmp_seat_number p \<le> rm_max_players room \<and> 0 \<le> rmp_chip_count p)
      (get_players_in_room db' rid)"
    using ok only by (fastforce simp: list_all_iff get_players_in_room_def room_ok_def seating_ok_def seat_ok_def list_ex_iff)
  ultimately show ?thesis using ok room_capacity [OF ok assms(3)] by blast
qed

theorem room_seating_witness:
  "room_ok two_player_db \<and> distinct (map rmp_seat_number (get_players_in_room two_player_db ''u0''))"
  using room_seating [OF r_into_rtranclp [where r = room_step, OF example_room_steps(1)] example_rooms_ok(1) example_fetch(1)] by blast

text \<open>
  C21: a room only moves forward. Along every sequence of successful commands, one after the
  other, of this room and of others, reorderings that make players share a seat included, that
  does not delete it, a room keeps its code and capacity and its status never goes back from ACTIVE to WAITING or
  from FINISHED to either; and once it is no longer WAITING, who sits where under which name,
  the blind structure and the starting dealer stay exactly as they were, so the configuration
  a game was started from cannot change under it.
\<close>

theorem room_lifecycle:
  assumes "(kept_step rid)\<^sup>*\<^sup>* db db'" and "room_unique_ok db" and "fetch_room db rid = Inr r"
  shows "(\<exists>r'. fetch_room db' rid = Inr r' \<and> status_rank (rm_status r) \<le> status_rank (rm_status r') \<and>
      rm_code r' = rm_code r \<and> rm_max_players r' = rm_max_players r) \<and>
    (rm_status r \<noteq> ROOM_WAITING \<longrightarrow> setup_of db' rid = setup_of db rid)"
proof -
  have "\<exists>r'. fetch_room db' rid = Inr r' \<and> ages r r'" using assms(1,3) by (rule kept_run_ages)
  moreover have "setup_of db' rid = setup_of db rid" if "rm_status r \<noteq> ROOM_WAITING"
    using lifecycle.run_quantity [OF assms(1)] assms(2,3) that by (simp add: started_def)
  ultimately show ?thesis by (auto simp: ages_def)
qed

text \<open>A run with a shared seat: bob is moved onto ann's chair, the room is activated, chips are updated.\<close>

definition shared_seat_db :: RoomDb where
  "shared_seat_db = snd (the_ok (reorder_seats room_env two_player_db ''u0''
     \<lparr>rs_assignments = [\<lparr>sa_player_id = ''u2'', sa_seat_number = 1\<rparr>]\<rparr>))"

definition shared_active_db :: RoomDb where
  "shared_active_db = snd (the_ok (activate_room room_env shared_seat_db ''u0''))"

definition shared_chips_db :: RoomDb where
  "shared_chips_db = snd (the_ok (update_player_chips room_env shared_active_db ''u2'' \<lparr>uc_chip_count = 70\<rparr>))"

lemma shared_seat_steps: "kept_step ''u0'' two_player_db shared_seat_db" "kept_step ''u0'' shared_seat_db shared_active_db"
  "kept_step ''u0'' shared_active_db shared_chips_db"
proof -
  have "is_ok (reorder_seats room_env two_player_db ''u0'' \<lparr>rs_assignments = [\<lparr>sa_player_id = ''u2'', sa_seat_number = 1\<rparr>]\<rparr>)"
    "is_ok (activate_room room_env shared_seat_db ''u0'')"
    "is_ok (update_player_chips room_env shared_active_db ''u2'' \<lparr>uc_chip_count = 70\<rparr>)" by code_simp+
  note runs = this [THEN is_ok_pair]
  have steps: "room_command two_player_db shared_seat_db" "room_command shared_seat_db shared_active_db"
    "room_command shared_active_db shared_chips_db"
    by (rule room_command.reorder [OF runs(1) [folded shared_seat_db_def]], rule room_command.activate [OF runs(2) [folded shared_active_db_def]],
      rule room_command.chips [OF runs(3) [folded shared_chips_db_def]])
  have "is_ok (fetch_room shared_seat_db ''u0'')" "is_ok (fetch_room shared_active_db ''u0'')" "is_ok (fetch_room shared_chips_db ''u0'')"
    by code_simp+
  with steps show "kept_step ''u0'' two_player_db shared_seat_db" "kept_step ''u0'' shared_seat_db shared_active_db"
    "kept_step ''u0'' shared_active_db shared_chips_db" by (simp_all only: kept_step_def)
qed

theorem room_lifecycle_witness:
  "(\<exists>r'. fetch_room shared_chips_db ''u0'' = Inr r' \<and> rm_code r' = rm_code (example_room two_player_db)) \<and>
    setup_of shared_chips_db ''u0'' = setup_of shared_active_db ''u0''"
proof -
  have run: "(kept_step ''u0'')\<^sup>*\<^sup>* two_player_db shared_chips_db"
    using shared_seat_steps by (meson converse_rtranclp_into_rtranclp rtranclp.rtrancl_refl)
  have "room_unique_ok two_player_db" "room_unique_ok shared_active_db" "is_ok (fetch_room shared_active_db ''u0'')"
    "rm_status (the_ok (fetch_room shared_active_db ''u0'')) \<noteq> ROOM_WAITING" by code_simp+
  note ok = this(1,2) is_okD [OF this(3)] this(4)
  from room_lifecycle [OF run ok(1) example_fetch(1)]
    room_lifecycle [OF r_into_rtranclp [where r = "kept_step ''u0''", OF shared_seat_steps(3)] ok(2,3)] ok(4)
  show ?thesis by blast
qed

text \<open>
  Two players can share a seat after a reordering. \<^verbatim>\<open>reorder_seats\<close> compares the assigned seats
  with each other but not with the seats of the players it leaves out: a schema-valid request
  that moves one player onto the seat of another is accepted.
\<close>

theorem reorder_seats_shares_seat:
  "\<exists>env db rid data res db'. room_ok db \<and> ReorderSeats_ck data \<and> reorder_seats env db rid data = Inr (res, db') \<and>
    map rmp_seat_number (get_players_in_room db' rid) = [1, 1]"
proof -
  let ?data = "\<lparr>rs_assignments = [\<lparr>sa_player_id = ''u2'', sa_seat_number = 1\<rparr>]\<rparr>"
  let ?run = "reorder_seats room_env two_player_db ''u0'' ?data"
  have "room_ok two_player_db" "ReorderSeats_ck ?data" "is_ok ?run"
    "map rmp_seat_number (get_players_in_room (snd (the_ok ?run)) ''u0'') = [1, 1]" by code_simp+
  then have "room_ok two_player_db \<and> ReorderSeats_ck ?data \<and> ?run = Inr (fst (the_ok ?run), snd (the_ok ?run)) \<and>
      map rmp_seat_number (get_players_in_room (snd (the_ok ?run)) ''u0'') = [1, 1]"
    using is_ok_pair by (intro conjI)
  then show ?thesis by (intro exI)
qed

text \<open>
  So can two players who join at the same time: each reads the tables before the other has
  written, both get the same next seat, and no constraint of the schema refuses the second.
\<close>

theorem concurrent_joins_share_seat:
  "\<exists>env db code d1 d2 room seat res1 db1 res2 db2. room_ok db \<and> JoinRoom_ck d1 \<and> JoinRoom_ck d2 \<and>
    join_read db code d1 = Inr (room, seat) \<and> join_read db code d2 = Inr (room, seat) \<and>
    join_write env db room seat d1 = Inr (res1, db1) \<and> join_write env db1 room seat d2 = Inr (res2, db2) \<and>
    map rmp_seat_number (get_players_in_room db2 (rm_room_id room)) = [1, 1]"
proof -
  let ?d1 = "\<lparr>jr_player_name = ''ann'', jr_seat_number = None\<rparr>" and ?d2 = "\<lparr>jr_player_name = ''bob'', jr_seat_number = None\<rparr>"
  let ?read = "join_read new_room_db ''ABCD''" and ?room = "fst (the_ok (join_read new_room_db ''ABCD'' \<lparr>jr_player_name = ''ann'', jr_seat_number = None\<rparr>))"
  let ?w1 = "join_write room_env new_room_db ?room 1 ?d1"
  let ?w2 = "join_write room_env (snd (the_ok ?w1)) ?room 1 ?d2"
  have "room_ok new_room_db" "JoinRoom_ck ?d1" "JoinRoom_ck ?d2" "is_ok (?read ?d1)" "is_ok (?read ?d2)" "is_ok ?w1" "is_ok ?w2"
    "snd (the_ok (?read ?d1)) = 1" "the_ok (?read ?d2) = the_ok (?read ?d1)"
    "map rmp_seat_number (get_players_in_room (snd (the_ok ?w2)) (rm_room_id ?room)) = [1, 1]" by code_simp+
  then have "room_ok new_room_db \<and> JoinRoom_ck ?d1 \<and> JoinRoom_ck ?d2 \<and> ?read ?d1 = Inr (?room, 1) \<and> ?read ?d2 = Inr (?room, 1) \<and>
      ?w1 = Inr (fst (the_ok ?w1), snd (the_ok ?w1)) \<and> ?w2 = Inr (fst (the_ok ?w2), snd (the_ok ?w2)) \<and>
      map rmp_seat_number (get_players_in_room (snd (the_ok ?w2)) (rm_room_id ?room)) = [1, 1]"
    using is_ok_pair [of "?read ?d1"] is_ok_pair [of "?read ?d2"] is_ok_pair [of ?w1] is_ok_pair [of ?w2] by (simp only:)
  then show ?thesis by (intro exI)
qed

text \<open>
  A free seat may not be found. The seat offered to a player who names none is one above the
  highest taken, so a player on the last seat makes every such join fail while seats are free.
\<close>

theorem last_seat_blocks_joining:
  "count_players_in_room one_player_db ''u0'' = 1 \<and> rm_max_players (example_room two_player_db) = 3 \<and>
    join_room_by_code room_env one_player_db ''ABCD'' \<lparr>jr_player_name = ''bob'', jr_seat_number = None\<rparr> = http_error 400 R_INVALID_SEAT"
  by code_simp

end
