(* ===== verification/Room_Game.thy ===== *)
theory Room_Game
  imports Game_Commands Room_Lifecycle
begin

text \<open>
  game-service and room-service together: the answers room-service gives to the two requests
  of \<^verbatim>\<open>start_game\<close> (\<^verbatim>\<open>GET /rooms/{id}\<close> and \<^verbatim>\<open>POST /rooms/{id}/activate\<close>) are computed by its
  model instead of being left open. FastAPI turns an \<^verbatim>\<open>HTTPException\<close> into a response with its
  status and a JSON body with its detail, any other exception into a 500, and the response
  model into a JSON body with all its fields.
\<close>

section \<open>Answers\<close>

definition http_status :: "error \<Rightarrow> int" where
  "http_status e = (case e of HTTPException status detail \<Rightarrow> status | _ \<Rightarrow> 500)"

definition http_detail :: "error \<Rightarrow> string option" where
  "http_detail e = (case e of HTTPException status detail \<Rightarrow> Some detail | _ \<Rightarrow> None)"

definition json_player :: "RoomPlayerResponse \<Rightarrow> PlayerPayload" where
  "json_player p = \<lparr>pl_player_id = rmpr_player_id p, pl_seat_number = rmpr_seat_number p,
     pl_chip_count = Some (rmpr_chip_count p), pl_is_active = Some (rmpr_is_active p),
     pl_is_eliminated = Some (rmpr_is_eliminated p)\<rparr>"

definition json_level :: "BlindLevelResponse \<Rightarrow> BlindPayload" where
  "json_level bl = \<lparr>bp_level = blr_level bl, bp_small_blind = blr_small_blind bl, bp_big_blind = blr_big_blind bl,
     bp_ante = Some (blr_ante bl), bp_duration_minutes = Some (blr_duration_minutes bl)\<rparr>"

definition json_room :: "RoomDetailResponse \<Rightarrow> RoomPayload" where
  "json_room d = \<lparr>rp_starting_dealer_seat = Some (rd_starting_dealer_seat d),
     rp_antes_enabled = Some (rmr_antes_enabled (rd_room d)), rp_players = map json_player (rd_players d),
     rp_blind_levels = map json_level (rd_blind_levels d)\<rparr>"

definition error_payload :: RoomPayload where
  "error_payload = \<lparr>rp_starting_dealer_seat = None, rp_antes_enabled = None, rp_players = [], rp_blind_levels = []\<rparr>"

definition answer_get_room :: "RoomDb \<Rightarrow> room_id \<Rightarrow> room_outcome" where
  "answer_get_room rdb rid = (case get_room rdb rid of
     Inr d \<Rightarrow> RoomAnswer 200 (json_room d) | Inl e \<Rightarrow> RoomAnswer (http_status e) error_payload)"

definition answer_post :: "RoomEnv \<Rightarrow> RoomDb \<Rightarrow> room_id \<Rightarrow> string \<Rightarrow> http_outcome \<times> RoomDb" where
  "answer_post renv rdb rid action =
     (case (if action = ''activate'' then activate_room renv rdb rid else finish_room renv rdb rid) of
        Inr (res, rdb') \<Rightarrow> (Response 200 None [], rdb')
      | Inl e \<Rightarrow> (Response (http_status e) (http_detail e) [], rdb))"

text \<open>The environment of game-service when these are the answers it gets.\<close>

definition connected :: "Env \<Rightarrow> RoomEnv \<Rightarrow> RoomDb \<Rightarrow> Env" where
  "connected env renv rdb = env\<lparr>env_get_room := answer_get_room rdb,
     env_post_room := \<lambda>rid action. fst (answer_post renv rdb rid action)\<rparr>"


section \<open>The configuration a game starts from\<close>

definition player_config_of :: "RoomPlayer \<Rightarrow> PlayerConfig" where
  "player_config_of p = \<lparr>cfg_player_id = rmp_player_id p, cfg_seat_number = rmp_seat_number p,
     cfg_chip_count = rmp_chip_count p, cfg_is_active = rmp_is_active p, cfg_is_eliminated = rmp_is_eliminated p\<rparr>"

definition level_config_of :: "BlindLevel \<Rightarrow> BlindLevelConfig" where
  "level_config_of bl = \<lparr>bl_level = rml_level bl, bl_small_blind = rml_small_blind bl, bl_big_blind = rml_big_blind bl,
     bl_ante = rml_ante bl, bl_duration_minutes = Some (rml_duration_minutes bl)\<rparr>"

definition config_of :: "RoomDb \<Rightarrow> Room \<Rightarrow> RoomConfig" where
  "config_of rdb room = \<lparr>rc_room_id = rm_room_id room, rc_starting_dealer_seat = rm_starting_dealer_seat room,
     rc_antes_enabled = rm_antes_enabled room, rc_players = map player_config_of (get_players_in_room rdb (rm_room_id room)),
     rc_blind_levels = map level_config_of (get_blind_levels rdb (rm_room_id room))\<rparr>"

lemma fetch_room_cases:
  obtains room where "fetch_room rdb rid = Inr room"
    | "fetch_room rdb rid = http_error 404 R_ROOM_NOT_FOUND" | "fetch_room rdb rid = Inl MultipleResultsFound"
proof (cases "filter (\<lambda>r. rm_room_id r = rid) (rdb_rooms rdb)" rule: scalar_one_or_none.cases)
  case 1
  then show ?thesis by (intro that(2)) (simp add: fetch_room_def fetch_or_404_def)
next
  case (2 x)
  then show ?thesis by (intro that(1) [of x]) (simp add: fetch_room_def fetch_or_404_def)
next
  case (3 x y xs)
  then show ?thesis by (intro that(3)) (simp add: fetch_room_def fetch_or_404_def)
qed

lemma fetched_config:
  assumes "fetch_room_config_http (env_get_room (connected env renv rdb) rid) rid = Inr rc"
  obtains room where "fetch_room rdb rid = Inr room" and "rc = config_of rdb room"
proof -
  from assms have run: "fetch_room_config_http (answer_get_room rdb rid) rid = Inr rc" by (simp add: connected_def)
  show ?thesis
  proof (rule fetch_room_cases [of rdb rid])
    fix room assume room: "fetch_room rdb rid = Inr room"
    then have "get_room rdb rid = Inr (build_room_detail_response rdb room)" by (simp add: get_room_def)
    with run have "rc = config_of rdb room"
      using fetch_room_mem [OF room]
      by (simp add: answer_get_room_def fetch_room_config_http_def room_config_of_def json_room_def json_player_def json_level_def
          build_room_detail_response_def room_detail_to_response_def room_to_response_def player_to_response_def
          blind_level_to_response_def get_or_def config_of_def player_config_of_def [abs_def] level_config_of_def [abs_def] comp_def)
    with room show ?thesis by (rule that)
  qed (use run in \<open>simp_all add: answer_get_room_def get_room_def fetch_room_config_http_def http_status_def http_error_def\<close>)
qed

lemma activate_room_status:
  assumes "activate_room renv rdb rid = Inl e"
  shows "400 \<le> http_status e"
proof (rule fetch_room_cases [of rdb rid])
  fix room assume room: "fetch_room rdb rid = Inr room"
  show ?thesis
    using assms by (cases "rm_status room")
      (auto simp: activate_room_def room Let_def room_commit_def http_error_def http_status_def split: if_splits)
qed (use assms in \<open>auto simp: activate_room_def http_error_def http_status_def\<close>)

lemma posted_activation:
  assumes "post_room_status_update (env_post_room (connected env renv rdb) rid ''activate'') ''activate'' = Inr ()"
    and "fetch_room rdb rid = Inr room"
  shows "rm_status room \<noteq> ROOM_FINISHED"
    and "fetch_room (snd (answer_post renv rdb rid ''activate'')) rid = Inr (room\<lparr>rm_status := ROOM_ACTIVE\<rparr>)"
proof -
  have "is_ok (activate_room renv rdb rid)"
  proof (cases "activate_room renv rdb rid")
    case (Inl e)
    with assms(1) activate_room_status [OF Inl] show ?thesis
      by (auto simp: connected_def answer_post_def post_room_status_update_def split: if_splits)
  qed simp
  then obtain res rdb' where run: "activate_room renv rdb rid = Inr (res, rdb')" by (auto simp: is_ok_iff)
  then have after: "snd (answer_post renv rdb rid ''activate'') = rdb'" by (simp add: answer_post_def)
  from run show "rm_status room \<noteq> ROOM_FINISHED" by (rule activate_room_cases) (use assms(2) in auto)
  from run show "fetch_room (snd (answer_post renv rdb rid ''activate'')) rid = Inr (room\<lparr>rm_status := ROOM_ACTIVE\<rparr>)"
    unfolding after
  proof (rule activate_room_cases)
    fix r assume "fetch_room rdb rid = Inr r" "rm_status r = ROOM_ACTIVE" "rdb' = rdb"
    then show "fetch_room rdb' rid = Inr (room\<lparr>rm_status := ROOM_ACTIVE\<rparr>)" using assms(2) by (cases r) simp
  next
    fix r assume r: "fetch_room rdb rid = Inr r"
      "rdb_rooms rdb' = put_row rm_room_id (r\<lparr>rm_status := ROOM_ACTIVE\<rparr>) (rdb_rooms rdb)"
    have "r = room" using r(1) assms(2) by simp
    with fetch_room_put [OF r(2,1), of rid] show "fetch_room rdb' rid = Inr (room\<lparr>rm_status := ROOM_ACTIVE\<rparr>)" by simp
  qed
qed


section \<open>Starting a game\<close>

lemma start_game_Inr:
  assumes "start_game env db rid = Inr (resp, db')"
  obtains rc d sb bb where "get_active_game_for_room db rid = Inr None"
    and "fetch_room_config_http (env_get_room env rid) rid = Inr rc" and "rc_blind_levels rc \<noteq> []"
    and "2 \<le> length (room_active_seats rc)"
    and "assign_positions (room_active_seats rc) (rc_starting_dealer_seat rc) = Inr (d, sb, bb)"
    and "post_room_status_update (env_post_room env rid ''activate'') ''activate'' = Inr ()"
    and "gr_game_id resp = env_uuid env (db_uuid db)" "gr_current_dealer_seat resp = d"
      "gr_current_small_blind_seat resp = sb" "gr_current_big_blind_seat resp = bb" "gr_status resp = ACTIVE" "gr_room_id resp = rid"
    and "db_ok db'" and "map g_game_id (db_games db') = map g_game_id (db_games db) @ [gr_game_id resp]"
    and "load_room_snapshot db' (gr_game_id resp) = load_room_snapshot (save_room_snapshot db (gr_game_id resp) rc) (gr_game_id resp)"
proof -
  from assms have none: "get_active_game_for_room db rid = Inr None"
    by (auto simp: start_game_def bindE_simps split: if_splits)
  note run = assms [unfolded start_game_def none bindE_Inr, simplified]
  from run obtain rc where rc: "fetch_room_config_http (env_get_room env rid) rid = Inr rc" by (auto simp: bindE_eq_Inr)
  note run = run [unfolded rc bindE_Inr]
  from run have levels: "rc_blind_levels rc \<noteq> []" and seats: "2 \<le> length (room_active_seats rc)"
    by (auto simp: Let_def split: if_splits)
  note run = run [unfolded if_not_P [OF levels] Let_def if_not_P [OF leD [OF seats]]]
  from run obtain d sb bb where pos: "assign_positions (room_active_seats rc) (rc_starting_dealer_seat rc) = Inr (d, sb, bb)"
    by (auto simp: bindE_eq_Inr)
  note run = run [unfolded pos bindE_Inr prod.case uuid4_def]
  from run have post: "post_room_status_update (env_post_room env rid ''activate'') ''activate'' = Inr ()"
    by (auto simp: bindE_eq_Inr)
  note run = run [unfolded post bindE_Inr]
  show ?thesis
  proof (rule that [OF none rc levels seats pos post])
  qed (use run in \<open>auto simp: bindE_eq_Inr commit_def game_to_response_def emit_def build_event_def uuid4_def add_outbox_event_def
      save_room_snapshot_def intro!: load_room_snapshot_frame split: if_splits\<close>)
qed


lemma config_sorted:
  "sort_key cfg_seat_number (rc_players (config_of rdb room)) = rc_players (config_of rdb room)"
  "sort_key bl_level (rc_blind_levels (config_of rdb room)) = rc_blind_levels (config_of rdb room)"
  by (simp_all add: config_of_def get_players_in_room_def get_blind_levels_def player_config_of_def level_config_of_def
      sort_key_map_comp comp_def sort_key_id_if_sorted)

lemma config_distinct:
  assumes "room_ok rdb"
  shows "distinct (room_active_seats (config_of rdb room))"
proof (rule distinct_active(1))
  let ?ps = "filter (\<lambda>p. rmp_room_id p = rm_room_id room) (rdb_players rdb)"
  have "distinct (map rmp_seat_number ?ps)" using assms by (auto simp: room_ok_def seating_ok_def distinct_map inj_on_def)
  then have "distinct (map rmp_seat_number (sort_key rmp_seat_number ?ps))" by (simp add: distinct_map)
  then show "distinct (map cfg_seat_number (rc_players (config_of rdb room)))"
    by (simp add: config_of_def get_players_in_room_def player_config_of_def comp_def)
qed

lemma fresh_game:
  assumes "db_ok db" and "db_ok db'" and "map g_game_id (db_games db') = map g_game_id (db_games db) @ [gid]"
  shows "without_game gid db"
proof -
  have "gid \<notin> set (map g_game_id (db_games db))"
    using assms(2,3) by (metis db_ok_def unique_ok_def distinct_append disjoint_iff list.set_intros(1))
  then show ?thesis
    using assms(1) by (auto simp: db_ok_def foreign_ok_def Let_def list_all_iff without_game_def)
qed

text \<open>
  C19: a game starts from its room. When \<^verbatim>\<open>start_game\<close> succeeds against room-service, no other
  game of the room was active; the room was waiting or already active and is active
  afterwards; the snapshot of the new game holds exactly the room's players by seat, with
  their chips, its blind levels by number, its ante rule and its starting dealer; and button
  and blinds are seats of players with chips, the button on the starting dealer's seat when
  that is one of them.
\<close>

theorem start_game_from_room:
  assumes "start_game (connected env renv rdb) gdb rid = Inr (resp, gdb')" and "db_ok gdb" and "room_ok rdb"
  shows "db_ok gdb' \<and> get_active_game_for_room gdb rid = Inr None \<and>
    (\<exists>room rc. fetch_room rdb rid = Inr room \<and> rm_status room \<noteq> ROOM_FINISHED \<and>
      fetch_room (snd (answer_post renv rdb rid ''activate'')) rid = Inr (room\<lparr>rm_status := ROOM_ACTIVE\<rparr>) \<and>
      load_room_snapshot gdb' (gr_game_id resp) = Inr rc \<and>
      rc_players rc = map player_config_of (get_players_in_room rdb rid) \<and>
      rc_blind_levels rc = map level_config_of (get_blind_levels rdb rid) \<and>
      rc_antes_enabled rc = rm_antes_enabled room \<and> rc_starting_dealer_seat rc = rm_starting_dealer_seat room \<and>
      {gr_current_dealer_seat resp, gr_current_small_blind_seat resp, gr_current_big_blind_seat resp} \<subseteq> set (room_active_seats rc) \<and>
      gr_current_small_blind_seat resp \<noteq> gr_current_big_blind_seat resp \<and>
      gr_current_dealer_seat resp = (if rm_starting_dealer_seat room \<in> set (room_active_seats rc)
        then rm_starting_dealer_seat room else hd (room_active_seats rc)))"
  using assms(1)
proof (rule start_game_Inr)
  fix rc d sb bb
  assume none: "get_active_game_for_room gdb rid = Inr None"
    and rc: "fetch_room_config_http (env_get_room (connected env renv rdb) rid) rid = Inr rc"
    and two: "2 \<le> length (room_active_seats rc)"
    and pos: "assign_positions (room_active_seats rc) (rc_starting_dealer_seat rc) = Inr (d, sb, bb)"
    and post: "post_room_status_update (env_post_room (connected env renv rdb) rid ''activate'') ''activate'' = Inr ()"
    and resp: "gr_current_dealer_seat resp = d" "gr_current_small_blind_seat resp = sb" "gr_current_big_blind_seat resp = bb"
    and ok: "db_ok gdb'" and ids: "map g_game_id (db_games gdb') = map g_game_id (db_games gdb) @ [gr_game_id resp]"
    and load: "load_room_snapshot gdb' (gr_game_id resp) = load_room_snapshot (save_room_snapshot gdb (gr_game_id resp) rc) (gr_game_id resp)"
  from rc obtain room where room: "fetch_room rdb rid = Inr room" and conf: "rc = config_of rdb room" by (rule fetched_config)
  have id: "rm_room_id room = rid" using fetch_room_mem [OF room] by simp
  have snap: "load_room_snapshot gdb' (gr_game_id resp) = Inr rc"
    using load_saved_snapshot [OF fresh_game [OF assms(2) ok ids], of rc] load config_sorted [of rdb room] by (simp add: conf)
  from assign_positions_correct [OF _ two, of "rc_starting_dealer_seat rc"] pos config_distinct [OF assms(3), of room]
  have "{d, sb, bb} \<subseteq> set (room_active_seats rc)" "sb \<noteq> bb"
    "d = (if rc_starting_dealer_seat rc \<in> set (room_active_seats rc) then rc_starting_dealer_seat rc else hd (room_active_seats rc))"
    by (auto simp: conf)
  moreover have "rc_starting_dealer_seat rc = rm_starting_dealer_seat room" "rc_antes_enabled rc = rm_antes_enabled room"
    "rc_players rc = map player_config_of (get_players_in_room rdb rid)" "rc_blind_levels rc = map level_config_of (get_blind_levels rdb rid)"
    by (simp_all add: conf config_of_def id)
  ultimately show ?thesis
    using ok none room posted_activation [OF post room] snap unfolding resp by (intro conjI exI [of _ room] exI [of _ rc]) simp_all
qed

definition one_level :: SetBlindStructure where
  "one_level = \<lparr>sbs_levels = [\<lparr>bi_level = 1, bi_small_blind = 5, bi_big_blind = 10, bi_ante = 0, bi_duration_minutes = 15\<rparr>],
     sbs_starting_dealer_seat = 3\<rparr>"

definition ready_room_db :: RoomDb where
  "ready_room_db = snd (the_ok (set_blind_structure two_player_db ''u0'' one_level))"

definition started_game :: "(GameResponse \<times> GameDb) result" where
  "started_game = start_game (connected example_env room_env ready_room_db) empty_db ''u0''"

theorem start_game_from_room_witness:
  "db_ok (snd (the_ok started_game)) \<and>
    (\<exists>rc. load_room_snapshot (snd (the_ok started_game)) (gr_game_id (fst (the_ok started_game))) = Inr rc \<and>
      rc_players rc = map player_config_of (get_players_in_room ready_room_db ''u0''))"
proof -
  have "is_ok started_game" and ok: "db_ok empty_db" "room_ok ready_room_db" by code_simp+
  from this(1) have "start_game (connected example_env room_env ready_room_db) empty_db ''u0'' =
      Inr (fst (the_ok started_game), snd (the_ok started_game))"
    unfolding started_game_def by (rule is_ok_pair)
  from start_game_from_room [OF this ok] show ?thesis by blast
qed

text \<open>
  A failed start leaves the room activated. The snapshot is written to the database only when
  the transaction ends, after room-service has been told to activate the room: when it is
  refused there, because two players share a seat or a blind level occurs twice, the game is
  rolled back but the room is ACTIVE, and neither its seats nor its blinds can be changed any more.
\<close>

definition shared_seat_db :: RoomDb where
  "shared_seat_db = snd (the_ok (reorder_seats room_env ready_room_db ''u0''
     \<lparr>rs_assignments = [\<lparr>sa_player_id = ''u2'', sa_seat_number = 1\<rparr>]\<rparr>))"

theorem failed_start_activates_room:
  "start_game (connected example_env room_env shared_seat_db) empty_db ''u0'' = Inl IntegrityError \<and>
    (let rdb = snd (answer_post room_env shared_seat_db ''u0'' ''activate'') in
      is_ok (fetch_room rdb ''u0'') \<and> rm_status (the_ok (fetch_room rdb ''u0'')) = ROOM_ACTIVE \<and>
      reorder_seats room_env rdb ''u0'' \<lparr>rs_assignments = [\<lparr>sa_player_id = ''u2'', sa_seat_number = 3\<rparr>]\<rparr> =
        http_error 400 R_ROOM_NOT_WAITING \<and>
      set_blind_structure rdb ''u0'' one_level = http_error 400 R_ROOM_NOT_WAITING)"
  by code_simp

end
