(* ===== verification/Auth_Service.thy ===== *)
theory Auth_Service
  imports Game_Db
begin

text \<open>
  auth-service: accounts, login sessions with rotating refresh tokens, and password resets
  (\<^verbatim>\<open>app/application\<close>, \<^verbatim>\<open>app/domain\<close>, \<^verbatim>\<open>app/infrastructure/token_service.py\<close> and
  \<^verbatim>\<open>password_hasher.py\<close>). What comes from libraries is a parameter, the record \<open>AuthLib\<close>:
  \<^verbatim>\<open>jwt.encode\<close> and \<^verbatim>\<open>jwt.decode\<close> of python-jose with the service's secret (decoding depends on the
  time, since an expired token raises \<^verbatim>\<open>JWTError\<close>, here None), \<^verbatim>\<open>bcrypt\<close> (\<open>hashpw\<close> and \<open>checkpw\<close> are
  None when they raise \<^verbatim>\<open>ValueError\<close>, as for a password of more than 72 bytes), SHA-256, the random sources (the \<open>n\<close>-th draw; draws of a request that
  fails are not counted, as nothing of them is kept), the SMTP exchange (given the address and the link; False when
  it raises) and the configuration of the environment. Times are in microseconds and not
  before 1970; a request reads the clock once, and \<^verbatim>\<open>func.now()\<close> of the database is that time. The columns
  \<^verbatim>\<open>created_at\<close>, \<^verbatim>\<open>ip\<close> and \<^verbatim>\<open>user_agent\<close>, which no code reads, are left out.
\<close>

section \<open>Libraries and configuration\<close>

record Claims =
  cl_sub :: "string option"
  cl_roles :: "string list option"
  cl_iat :: int
  cl_exp :: int
  cl_jti :: string
  cl_sid :: "string option"
  cl_typ :: "string option"

record AuthLib =
  jwt_encode :: "Claims \<Rightarrow> string"
  jwt_decode :: "int \<Rightarrow> string \<Rightarrow> Claims option"
  sha256_hex :: "string \<Rightarrow> string"
  bcrypt_hashpw :: "nat \<Rightarrow> string \<Rightarrow> string option"
  bcrypt_checkpw :: "string \<Rightarrow> string \<Rightarrow> bool option"
  lib_uuid :: "nat \<Rightarrow> string"
  token_urlsafe :: "nat \<Rightarrow> string"
  smtp_send :: "string \<Rightarrow> string \<Rightarrow> bool"
  ACCESS_TOKEN_TTL_MIN :: int
  REFRESH_TOKEN_TTL_DAYS :: int
  PASSWORD_RESET_TOKEN_TTL_MIN :: int
  PASSWORD_RESET_INCLUDE_DEBUG_TOKEN :: bool
  PASSWORD_RESET_BASE_URL :: string
  PASSWORD_RESET_EMAIL_BACKEND :: string
  SMTP_HOST :: "string option"


section \<open>domain/constants.py and domain/models.py\<close>

datatype AuthErrorMessage =
    EMAIL_ALREADY_EXISTS | USER_REGISTERED | INVALID_CREDENTIALS | INVALID_OR_EXPIRED_REFRESH_TOKEN | INVALID_TOKEN_TYPE
  | MALFORMED_REFRESH_TOKEN | SESSION_NOT_FOUND | SESSION_REVOKED | SESSION_EXPIRED | AUTH_USER_NOT_FOUND
  | PASSWORD_RESET_REQUESTED | PASSWORD_RESET_COMPLETE | INVALID_OR_EXPIRED_RESET_TOKEN | PASSWORD_RESET_EMAIL_FAILED

primrec AuthErrorMessage_value :: "AuthErrorMessage \<Rightarrow> string" where
  "AuthErrorMessage_value EMAIL_ALREADY_EXISTS = ''Email already exists''"
| "AuthErrorMessage_value USER_REGISTERED = ''User registered''"
| "AuthErrorMessage_value INVALID_CREDENTIALS = ''Invalid credentials''"
| "AuthErrorMessage_value INVALID_OR_EXPIRED_REFRESH_TOKEN = ''Invalid or expired refresh token''"
| "AuthErrorMessage_value INVALID_TOKEN_TYPE = ''Invalid token type''"
| "AuthErrorMessage_value MALFORMED_REFRESH_TOKEN = ''Malformed refresh token''"
| "AuthErrorMessage_value SESSION_NOT_FOUND = ''Session not found''"
| "AuthErrorMessage_value SESSION_REVOKED = ''Session revoked''"
| "AuthErrorMessage_value SESSION_EXPIRED = ''Session expired''"
| "AuthErrorMessage_value AUTH_USER_NOT_FOUND = ''User not found''"
| "AuthErrorMessage_value PASSWORD_RESET_REQUESTED = ''Password reset requested''"
| "AuthErrorMessage_value PASSWORD_RESET_COMPLETE = ''Password reset complete''"
| "AuthErrorMessage_value INVALID_OR_EXPIRED_RESET_TOKEN = ''Invalid or expired reset token''"
| "AuthErrorMessage_value PASSWORD_RESET_EMAIL_FAILED = ''Password reset email could not be sent''"

definition auth_error :: "int \<Rightarrow> AuthErrorMessage \<Rightarrow> 'a result" where
  "auth_error status m = Inl (HTTPException status (AuthErrorMessage_value m))"

definition REFRESH :: string where
  "REFRESH = ''refresh''"

record AuthUser =
  au_id :: int
  au_email :: string
  au_password :: string
  au_roles :: "string list"
  au_last_login_at :: "int option"

record AuthSession =
  as_id :: string
  as_user_id :: int
  as_refresh_token_hash :: string
  as_expires_at :: datetime
  as_revoked_at :: "int option"
  as_last_seen_at :: int

record PasswordResetToken =
  prt_id :: string
  prt_user_id :: int
  prt_token_hash :: string
  prt_expires_at :: datetime
  prt_used_at :: "int option"

text \<open>The tables, the next serial id of a user, and the draws made so far.\<close>

record AuthDb =
  ad_users :: "AuthUser list"
  ad_sessions :: "AuthSession list"
  ad_resets :: "PasswordResetToken list"
  ad_next_id :: int
  ad_draws :: nat

definition auth_unique_ok :: "AuthDb \<Rightarrow> bool" where
  "auth_unique_ok db \<longleftrightarrow> distinct (map au_id (ad_users db)) \<and> distinct (map au_email (ad_users db)) \<and>
     distinct (map as_id (ad_sessions db)) \<and> distinct (map prt_id (ad_resets db)) \<and> distinct (map prt_token_hash (ad_resets db)) \<and>
     list_all (\<lambda>s. as_user_id s \<in> set (map au_id (ad_users db))) (ad_sessions db) \<and>
     list_all (\<lambda>t. prt_user_id t \<in> set (map au_id (ad_users db))) (ad_resets db)"

definition auth_commit :: "AuthDb \<Rightarrow> AuthDb result" where
  "auth_commit db = (if auth_unique_ok db then Inr db else Inl IntegrityError)"

definition draw :: "AuthDb \<Rightarrow> nat \<times> AuthDb" where
  "draw db = (ad_draws db, db\<lparr>ad_draws := Suc (ad_draws db)\<rparr>)"


section \<open>shared/core/auth/roles.py and shared/schemas/auth.py\<close>

definition ALLOWED_ROLES :: "string list" where
  "ALLOWED_ROLES = [''user'', ''admin'']"

definition lower_char :: "char \<Rightarrow> char" where
  "lower_char c = (if 65 \<le> (of_char c :: nat) \<and> (of_char c :: nat) \<le> 90 then char_of ((of_char c :: nat) + 32) else c)"

definition lower :: "string \<Rightarrow> string" where
  "lower s = map lower_char s"

fun normalize_loop :: "string list \<Rightarrow> string list \<Rightarrow> string list result" where
  "normalize_loop normalized [] = Inr normalized"
| "normalize_loop normalized (r # rs) =
     (let rr = lower (strip r) in
      if rr \<notin> set ALLOWED_ROLES then Inl ValueError
      else normalize_loop (if rr \<in> set normalized then normalized else normalized @ [rr]) rs)"

definition normalize_roles :: "string list \<Rightarrow> bool \<Rightarrow> string list option \<Rightarrow> string list result" where
  "normalize_roles roles allow_empty dflt = bindE (normalize_loop [] roles) (\<lambda>normalized.
     if normalized = [] \<and> \<not> allow_empty then (case dflt of Some d \<Rightarrow> Inr d | None \<Rightarrow> Inl ValueError)
     else Inr normalized)"

record Register =
  rg_email :: string
  rg_password :: string
  rg_roles :: "string list"

text \<open>
  Building the request object: the length of the password, then \<^verbatim>\<open>model_post_init\<close>, whose
  \<^verbatim>\<open>ValueError\<close> pydantic reports as a validation error.
\<close>

definition validated :: "'a result \<Rightarrow> 'a result" where
  "validated r = (case r of Inl ValueError \<Rightarrow> Inl ValidationError | _ \<Rightarrow> r)"

definition make_Register :: "string \<Rightarrow> string \<Rightarrow> string list \<Rightarrow> Register result" where
  "make_Register email password roles = (if length password < 6 then Inl ValidationError
     else bindE (validated (normalize_roles roles False (Some [''user'']))) (\<lambda>rs.
       Inr \<lparr>rg_email = email, rg_password = password, rg_roles = rs\<rparr>))"

record TokenPairResponse =
  tpr_access_token :: string
  tpr_refresh_token :: string
  tpr_expires_in :: int

record AuthActionResponse =
  aar_ok :: bool
  aar_debug_token :: "string option"

record ResetPasswordRequest =
  rpr_token :: string
  rpr_new_password :: string

definition make_ResetPasswordRequest :: "string \<Rightarrow> string \<Rightarrow> ResetPasswordRequest result" where
  "make_ResetPasswordRequest token new_password = (if length new_password < 6 then Inl ValidationError
     else Inr \<lparr>rpr_token = token, rpr_new_password = new_password\<rparr>)"

record AuthUserResponse =
  aur_id :: int
  aur_email :: string
  aur_roles :: "string list"
  aur_last_login_at :: "int option"

record UpdateAuthUser =
  uau_password :: "string option"
  uau_roles :: "string list option"

definition make_UpdateAuthUser :: "string option \<Rightarrow> string list option \<Rightarrow> UpdateAuthUser result" where
  "make_UpdateAuthUser password roles =
     (if (case password of Some p \<Rightarrow> length p < 6 | None \<Rightarrow> False) then Inl ValidationError
      else case roles of
        None \<Rightarrow> Inr \<lparr>uau_password = password, uau_roles = None\<rparr>
      | Some rs \<Rightarrow> bindE (validated (normalize_roles rs False None)) (\<lambda>rs'. Inr \<lparr>uau_password = password, uau_roles = Some rs'\<rparr>))"

definition to_auth_user_response :: "AuthUser \<Rightarrow> AuthUserResponse" where
  "to_auth_user_response u = \<lparr>aur_id = au_id u, aur_email = au_email u, aur_roles = au_roles u,
     aur_last_login_at = au_last_login_at u\<rparr>"


section \<open>infrastructure/token_service.py and password_hasher.py\<close>

definition timestamp :: "int \<Rightarrow> int" where
  "timestamp t = t div 1000000"

definition decode_token :: "AuthLib \<Rightarrow> int \<Rightarrow> string \<Rightarrow> Claims option" where
  "decode_token lib now token = jwt_decode lib (timestamp now) token"

definition hash_token :: "AuthLib \<Rightarrow> string \<Rightarrow> string" where
  "hash_token lib token = sha256_hex lib token"

record TokenPair =
  tp_access_token :: string
  tp_refresh_token :: string
  tp_access_expires_at :: int
  tp_refresh_expires_at :: int

definition access_claims :: "AuthLib \<Rightarrow> int \<Rightarrow> nat \<Rightarrow> string \<Rightarrow> string list \<Rightarrow> string \<Rightarrow> Claims" where
  "access_claims lib now jti email roles sid = \<lparr>cl_sub = Some email, cl_roles = Some roles, cl_iat = timestamp now,
     cl_exp = timestamp (now + ACCESS_TOKEN_TTL_MIN lib * 60000000), cl_jti = lib_uuid lib jti, cl_sid = Some sid, cl_typ = None\<rparr>"

definition refresh_claims :: "AuthLib \<Rightarrow> int \<Rightarrow> nat \<Rightarrow> string \<Rightarrow> string list \<Rightarrow> string \<Rightarrow> Claims" where
  "refresh_claims lib now jti email roles sid = \<lparr>cl_sub = Some email, cl_roles = Some roles, cl_iat = timestamp now,
     cl_exp = timestamp (now + REFRESH_TOKEN_TTL_DAYS lib * 86400000000), cl_jti = lib_uuid lib jti, cl_sid = Some sid,
     cl_typ = Some REFRESH\<rparr>"

definition issue_token_pair :: "AuthLib \<Rightarrow> int \<Rightarrow> AuthDb \<Rightarrow> string \<Rightarrow> string list \<Rightarrow> string \<Rightarrow> TokenPair \<times> AuthDb" where
  "issue_token_pair lib now db email roles sid = (case draw db of (j1, db1) \<Rightarrow> case draw db1 of (j2, db2) \<Rightarrow>
     (\<lparr>tp_access_token = jwt_encode lib (access_claims lib now j1 email roles sid),
       tp_refresh_token = jwt_encode lib (refresh_claims lib now j2 email roles sid),
       tp_access_expires_at = now + ACCESS_TOKEN_TTL_MIN lib * 60000000,
       tp_refresh_expires_at = now + REFRESH_TOKEN_TTL_DAYS lib * 86400000000\<rparr>, db2))"

definition hash_password :: "AuthLib \<Rightarrow> AuthDb \<Rightarrow> string \<Rightarrow> (string \<times> AuthDb) result" where
  "hash_password lib db raw = (case draw db of (n, db1) \<Rightarrow>
     case bcrypt_hashpw lib n raw of None \<Rightarrow> Inl ValueError | Some hashed \<Rightarrow> Inr (hashed, db1))"

definition verify_password :: "AuthLib \<Rightarrow> string \<Rightarrow> string \<Rightarrow> bool" where
  "verify_password lib raw hashed = (case bcrypt_checkpw lib raw hashed of Some b \<Rightarrow> b | None \<Rightarrow> False)"


section \<open>application/helpers.py\<close>

definition get_user_by_email :: "AuthDb \<Rightarrow> string \<Rightarrow> AuthUser option result" where
  "get_user_by_email db email = scalar_one_or_none (filter (\<lambda>u. au_email u = email) (ad_users db))"

definition get_reset_token :: "AuthLib \<Rightarrow> AuthDb \<Rightarrow> string \<Rightarrow> PasswordResetToken option result" where
  "get_reset_token lib db token = scalar_one_or_none (filter (\<lambda>t. prt_token_hash t = hash_token lib token) (ad_resets db))"

definition revoke_active_sessions :: "AuthDb \<Rightarrow> int \<Rightarrow> int \<Rightarrow> AuthDb" where
  "revoke_active_sessions db user_id revoked_at = db\<lparr>ad_sessions := map (\<lambda>s.
     if as_user_id s = user_id \<and> as_revoked_at s = None then s\<lparr>as_revoked_at := Some revoked_at\<rparr> else s) (ad_sessions db)\<rparr>"

text \<open>\<^verbatim>\<open>db.get\<close>: the row with that primary key, or None.\<close>

definition get_session :: "AuthDb \<Rightarrow> string \<Rightarrow> AuthSession option" where
  "get_session db sid = List.find (\<lambda>s. as_id s = sid) (ad_sessions db)"

definition get_user :: "AuthDb \<Rightarrow> int \<Rightarrow> AuthUser option" where
  "get_user db uid = List.find (\<lambda>u. au_id u = uid) (ad_users db)"

definition put_user :: "AuthUser \<Rightarrow> AuthDb \<Rightarrow> AuthDb" where
  "put_user u db = db\<lparr>ad_users := put_row au_id u (ad_users db)\<rparr>"

definition put_session :: "AuthSession \<Rightarrow> AuthDb \<Rightarrow> AuthDb" where
  "put_session s db = db\<lparr>ad_sessions := put_row as_id s (ad_sessions db)\<rparr>"

definition put_reset :: "PasswordResetToken \<Rightarrow> AuthDb \<Rightarrow> AuthDb" where
  "put_reset t db = db\<lparr>ad_resets := put_row prt_id t (ad_resets db)\<rparr>"


section \<open>application/commands/auth_authentication_command_service.py\<close>

definition register :: "AuthLib \<Rightarrow> AuthDb \<Rightarrow> Register \<Rightarrow> (string list \<times> AuthDb) result" where
  "register lib db data = bindE (get_user_by_email db (rg_email data)) (\<lambda>existing.
     if existing \<noteq> None then auth_error 409 EMAIL_ALREADY_EXISTS
     else bindE (hash_password lib db (rg_password data)) (\<lambda>(hashed, db1).
       let user = \<lparr>au_id = ad_next_id db1, au_email = rg_email data, au_password = hashed, au_roles = rg_roles data,
             au_last_login_at = None\<rparr> in
       bindE (auth_commit (db1\<lparr>ad_users := ad_users db1 @ [user], ad_next_id := ad_next_id db1 + 1\<rparr>)) (\<lambda>db2.
       Inr (au_roles user, db2))))"

text \<open>The constructor calls \<^verbatim>\<open>AuthSession(...)\<close>: a session row with the refresh token just issued.\<close>

definition new_session :: "AuthLib \<Rightarrow> int \<Rightarrow> string \<Rightarrow> int \<Rightarrow> TokenPair \<Rightarrow> AuthSession" where
  "new_session lib now sid uid tokens = \<lparr>as_id = sid, as_user_id = uid,
     as_refresh_token_hash = hash_token lib (tp_refresh_token tokens), as_expires_at = Aware (tp_refresh_expires_at tokens),
     as_revoked_at = None, as_last_seen_at = now\<rparr>"

definition token_response :: "int \<Rightarrow> TokenPair \<Rightarrow> TokenPairResponse" where
  "token_response now tokens = \<lparr>tpr_access_token = tp_access_token tokens, tpr_refresh_token = tp_refresh_token tokens,
     tpr_expires_in = (tp_access_expires_at tokens - now) div 1000000\<rparr>"

definition login :: "AuthLib \<Rightarrow> int \<Rightarrow> AuthDb \<Rightarrow> string \<Rightarrow> string \<Rightarrow> (TokenPairResponse \<times> AuthDb) result" where
  "login lib now db email password = bindE (get_user_by_email db email) (\<lambda>found.
     case found of
       None \<Rightarrow> auth_error 401 INVALID_CREDENTIALS
     | Some user \<Rightarrow>
         if \<not> verify_password lib password (au_password user) then auth_error 401 INVALID_CREDENTIALS
         else case draw db of (n, db1) \<Rightarrow>
         case issue_token_pair lib now db1 (au_email user) (au_roles user) (lib_uuid lib n) of (tokens, db2) \<Rightarrow>
         let db3 = put_user (user\<lparr>au_last_login_at := Some now\<rparr>) db2 in
         bindE (auth_commit (db3\<lparr>ad_sessions := ad_sessions db3 @ [new_session lib now (lib_uuid lib n) (au_id user) tokens]\<rparr>)) (\<lambda>db4.
         Inr (token_response now tokens, db4)))"

text \<open>An absent and an empty claim are both falsy.\<close>

definition claim :: "string option \<Rightarrow> string option" where
  "claim v = (case v of Some (c # cs) \<Rightarrow> Some (c # cs) | _ \<Rightarrow> None)"

definition refresh_session :: "AuthLib \<Rightarrow> int \<Rightarrow> AuthDb \<Rightarrow> string \<Rightarrow> (AuthSession \<times> string \<times> string list) result" where
  "refresh_session lib now db token = (case decode_token lib now token of
     None \<Rightarrow> auth_error 401 INVALID_OR_EXPIRED_REFRESH_TOKEN
   | Some payload \<Rightarrow>
       if cl_typ payload \<noteq> Some REFRESH then auth_error 401 INVALID_TOKEN_TYPE
       else case (claim (cl_sid payload), claim (cl_sub payload)) of
         (Some sid, Some sub) \<Rightarrow>
           (case get_session db sid of
              None \<Rightarrow> auth_error 401 SESSION_NOT_FOUND
            | Some session \<Rightarrow>
                if as_revoked_at session \<noteq> None then auth_error 401 SESSION_REVOKED
                else if instant (ensure_utc now (Some (as_expires_at session))) \<le> now then auth_error 401 SESSION_EXPIRED
                else if as_refresh_token_hash session \<noteq> hash_token lib token
                  then auth_error 401 INVALID_OR_EXPIRED_REFRESH_TOKEN
                else Inr (session, sub, case cl_roles payload of Some rs \<Rightarrow> rs | None \<Rightarrow> []))
       | _ \<Rightarrow> auth_error 401 MALFORMED_REFRESH_TOKEN)"

text \<open>The second half of \<^verbatim>\<open>refresh_tokens\<close>: the session that was read is revoked and replaced.\<close>

definition rotate_session :: "AuthLib \<Rightarrow> int \<Rightarrow> AuthDb \<Rightarrow> AuthSession \<times> string \<times> string list \<Rightarrow> (TokenPairResponse \<times> AuthDb) result" where
  "rotate_session lib now db = (\<lambda>(session, sub, roles).
     let db1 = put_session (session\<lparr>as_revoked_at := Some now\<rparr>) db in
     bindE (get_user_by_email db1 sub) (\<lambda>found.
     case found of
       None \<Rightarrow> auth_error 401 AUTH_USER_NOT_FOUND
     | Some user \<Rightarrow>
         case draw db1 of (n, db2) \<Rightarrow>
         case issue_token_pair lib now db2 (au_email user) (if au_roles user \<noteq> [] then au_roles user else roles) (lib_uuid lib n)
           of (tokens, db3) \<Rightarrow>
         bindE (auth_commit (db3\<lparr>ad_sessions := ad_sessions db3 @ [new_session lib now (lib_uuid lib n) (au_id user) tokens]\<rparr>)) (\<lambda>db4.
         Inr (token_response now tokens, db4))))"

definition refresh_tokens :: "AuthLib \<Rightarrow> int \<Rightarrow> AuthDb \<Rightarrow> string \<Rightarrow> (TokenPairResponse \<times> AuthDb) result" where
  "refresh_tokens lib now db token = bindE (refresh_session lib now db token) (rotate_session lib now db)"

definition logout :: "AuthLib \<Rightarrow> int \<Rightarrow> AuthDb \<Rightarrow> string \<Rightarrow> (AuthActionResponse \<times> AuthDb) result" where
  "logout lib now db token = (case decode_token lib now token of
     None \<Rightarrow> auth_error 401 INVALID_OR_EXPIRED_REFRESH_TOKEN
   | Some payload \<Rightarrow>
       (case claim (cl_sid payload) of
          None \<Rightarrow> auth_error 401 MALFORMED_REFRESH_TOKEN
        | Some sid \<Rightarrow>
            let ok = \<lparr>aar_ok = True, aar_debug_token = None\<rparr> in
            (case get_session db sid of
               None \<Rightarrow> Inr (ok, db)
             | Some session \<Rightarrow>
                 if as_refresh_token_hash session \<noteq> hash_token lib token
                   then auth_error 401 INVALID_OR_EXPIRED_REFRESH_TOKEN
                 else if as_revoked_at session = None then
                   bindE (auth_commit (put_session (session\<lparr>as_revoked_at := Some now\<rparr>) db)) (\<lambda>db1. Inr (ok, db1))
                 else Inr (ok, db))))"


section \<open>infrastructure/password_reset_email.py\<close>

text \<open>\<^verbatim>\<open>urllib.parse.quote\<close> on ASCII text.\<close>

definition quote_safe :: "char \<Rightarrow> bool" where
  "quote_safe c \<longleftrightarrow> (let n = (of_char c :: nat) in
     (48 \<le> n \<and> n \<le> 57) \<or> (65 \<le> n \<and> n \<le> 90) \<or> (97 \<le> n \<and> n \<le> 122) \<or> c \<in> set ''_.-~/'')"

definition quote_char :: "char \<Rightarrow> string" where
  "quote_char c = (if quote_safe c then [c]
     else let n = (of_char c :: nat) in [CHR ''%'', ''0123456789ABCDEF'' ! (n div 16), ''0123456789ABCDEF'' ! (n mod 16)])"

definition quote :: "string \<Rightarrow> string" where
  "quote s = concat (map quote_char s)"

definition build_password_reset_url :: "AuthLib \<Rightarrow> string \<Rightarrow> string" where
  "build_password_reset_url lib token = PASSWORD_RESET_BASE_URL lib @
     (if CHR ''?'' \<in> set (PASSWORD_RESET_BASE_URL lib) then ''&'' else ''?'') @ ''token='' @ quote token"

text \<open>\<^verbatim>\<open>_send_smtp\<close> and \<^verbatim>\<open>send_password_reset\<close>: False is \<^verbatim>\<open>EmailDeliveryError\<close>.\<close>

definition send_smtp :: "AuthLib \<Rightarrow> string \<Rightarrow> string \<Rightarrow> bool" where
  "send_smtp lib email reset_url \<longleftrightarrow> SMTP_HOST lib \<noteq> None \<and> SMTP_HOST lib \<noteq> Some [] \<and> smtp_send lib email reset_url"

definition send_password_reset :: "AuthLib \<Rightarrow> string \<Rightarrow> string \<Rightarrow> bool" where
  "send_password_reset lib email reset_url =
     (if PASSWORD_RESET_EMAIL_BACKEND lib = ''disabled'' then True
      else if PASSWORD_RESET_EMAIL_BACKEND lib = ''console'' then True
      else if PASSWORD_RESET_EMAIL_BACKEND lib = ''smtp'' then send_smtp lib email reset_url
      else False)"


section \<open>application/commands/auth_password_command_service.py\<close>

definition forgot_password :: "AuthLib \<Rightarrow> int \<Rightarrow> AuthDb \<Rightarrow> string \<Rightarrow> (AuthActionResponse \<times> AuthDb) result" where
  "forgot_password lib now db email = bindE (get_user_by_email db email) (\<lambda>found.
     case found of
       None \<Rightarrow> Inr (\<lparr>aar_ok = True, aar_debug_token = None\<rparr>, db)
     | Some user \<Rightarrow>
         case draw db of (n, db1) \<Rightarrow> case draw db1 of (m, db2) \<Rightarrow>
         let token = token_urlsafe lib n;
             row = \<lparr>prt_id = lib_uuid lib m, prt_user_id = au_id user, prt_token_hash = hash_token lib token,
               prt_expires_at = Aware (now + PASSWORD_RESET_TOKEN_TTL_MIN lib * 60000000), prt_used_at = None\<rparr> in
         if \<not> send_password_reset lib (au_email user) (build_password_reset_url lib token) then auth_error 503 PASSWORD_RESET_EMAIL_FAILED
         else bindE (auth_commit (db2\<lparr>ad_resets := ad_resets db2 @ [row]\<rparr>)) (\<lambda>db3.
           Inr (\<lparr>aar_ok = True, aar_debug_token = (if PASSWORD_RESET_INCLUDE_DEBUG_TOKEN lib then Some token else None)\<rparr>, db3)))"

definition reset_password :: "AuthLib \<Rightarrow> int \<Rightarrow> AuthDb \<Rightarrow> ResetPasswordRequest \<Rightarrow> (AuthActionResponse \<times> AuthDb) result" where
  "reset_password lib now db data = bindE (get_reset_token lib db (rpr_token data)) (\<lambda>found.
     case found of
       None \<Rightarrow> auth_error 401 INVALID_OR_EXPIRED_RESET_TOKEN
     | Some reset_token \<Rightarrow>
         if prt_used_at reset_token \<noteq> None \<or> instant (ensure_utc now (Some (prt_expires_at reset_token))) \<le> now
           then auth_error 401 INVALID_OR_EXPIRED_RESET_TOKEN
         else case get_user db (prt_user_id reset_token) of
           None \<Rightarrow> auth_error 404 AUTH_USER_NOT_FOUND
         | Some user \<Rightarrow>
             bindE (hash_password lib db (rpr_new_password data)) (\<lambda>(hashed, db1).
             bindE (auth_commit (revoke_active_sessions (put_reset (reset_token\<lparr>prt_used_at := Some now\<rparr>)
                 (put_user (user\<lparr>au_password := hashed\<rparr>) db1)) (au_id user) now)) (\<lambda>db2.
             Inr (\<lparr>aar_ok = True, aar_debug_token = None\<rparr>, db2))))"


section \<open>application/commands/auth_user_command_service.py and the queries\<close>

definition fetch_auth_user :: "('r \<Rightarrow> bool) \<Rightarrow> 'r list \<Rightarrow> 'r result" where
  "fetch_auth_user P rows = bindE (scalar_one_or_none (filter P rows)) (\<lambda>obj.
     case obj of None \<Rightarrow> Inl (HTTPException 404 ''Auth user not found'') | Some x \<Rightarrow> Inr x)"

definition update_auth_user :: "AuthLib \<Rightarrow> AuthDb \<Rightarrow> int \<Rightarrow> UpdateAuthUser \<Rightarrow> (AuthUserResponse \<times> AuthDb) result" where
  "update_auth_user lib db uid data = bindE (fetch_auth_user (\<lambda>u. au_id u = uid) (ad_users db)) (\<lambda>u.
     bindE (case uau_password data of
         Some p \<Rightarrow> bindE (hash_password lib db p) (\<lambda>(hashed, db1). Inr (u\<lparr>au_password := hashed\<rparr>, db1))
       | None \<Rightarrow> Inr (u, db)) (\<lambda>(u1, db1).
     let u2 = (case uau_roles data of Some rs \<Rightarrow> u1\<lparr>au_roles := rs\<rparr> | None \<Rightarrow> u1) in
     bindE (auth_commit (put_user u2 db1)) (\<lambda>db2. Inr (to_auth_user_response u2, db2))))"

text \<open>The foreign keys are declared with \<^verbatim>\<open>ondelete="CASCADE"\<close>.\<close>

definition delete_auth_user :: "AuthDb \<Rightarrow> int \<Rightarrow> (int \<times> AuthDb) result" where
  "delete_auth_user db uid = bindE (fetch_auth_user (\<lambda>u. au_id u = uid) (ad_users db)) (\<lambda>u.
     bindE (auth_commit (db\<lparr>ad_users := filter (\<lambda>x. au_id x \<noteq> au_id u) (ad_users db),
       ad_sessions := filter (\<lambda>s. as_user_id s \<noteq> au_id u) (ad_sessions db),
       ad_resets := filter (\<lambda>t. prt_user_id t \<noteq> au_id u) (ad_resets db)\<rparr>)) (\<lambda>db1. Inr (uid, db1)))"

definition list_auth_users :: "AuthDb \<Rightarrow> nat \<Rightarrow> nat \<Rightarrow> AuthUserResponse list" where
  "list_auth_users db limit offset = map to_auth_user_response (take limit (drop offset (sort_key au_id (ad_users db))))"

definition get_by_id :: "AuthDb \<Rightarrow> int \<Rightarrow> AuthUserResponse result" where
  "get_by_id db uid = bindE (fetch_auth_user (\<lambda>u. au_id u = uid) (ad_users db)) (\<lambda>u. Inr (to_auth_user_response u))"

definition get_auth_user_by_email :: "AuthDb \<Rightarrow> string \<Rightarrow> AuthUserResponse result" where
  "get_auth_user_by_email db email = bindE (fetch_auth_user (\<lambda>u. au_email u = email) (ad_users db)) (\<lambda>u.
     Inr (to_auth_user_response u))"

end
