(* ===== verification/Auth_Sessions.thy ===== *)
theory Auth_Sessions
  imports Auth_Service Step_Systems
begin

text \<open>
  What the commands of auth-service keep. Sessions and reset tokens are rows that are spent once
  (revoked, used) and whose keys are drawn at random; the locale \<open>aging_rows\<close> says of any such table that
  a spent key stays spent along every run. It is interpreted for the sessions and for the reset tokens:
  a refresh token works once, and a password reset ends all sessions of the account for good.
\<close>

section \<open>Tables whose rows are spent once\<close>

text \<open>
  Every row of the later table either was there before, and is still spent if it was,
  or is new, with a key drawn since.
\<close>

definition rows_age :: "('r \<Rightarrow> 'k) \<Rightarrow> ('r \<Rightarrow> bool) \<Rightarrow> (nat \<Rightarrow> 'k) \<Rightarrow> nat \<times> 'r list \<Rightarrow> nat \<times> 'r list \<Rightarrow> bool" where
  "rows_age key spent gen t t' \<longleftrightarrow> fst t \<le> fst t' \<and>
     (\<forall>r' \<in> set (snd t'). (\<exists>r \<in> set (snd t). key r = key r' \<and> (spent r \<longrightarrow> spent r')) \<or>
       (\<exists>n. key r' = gen n \<and> fst t \<le> n \<and> n < fst t'))"

text \<open>A key that was drawn, and of which no unspent row is left.\<close>

definition spent_key :: "('r \<Rightarrow> 'k) \<Rightarrow> ('r \<Rightarrow> bool) \<Rightarrow> (nat \<Rightarrow> 'k) \<Rightarrow> nat \<times> 'r list \<Rightarrow> 'k \<Rightarrow> bool" where
  "spent_key key spent gen t k \<longleftrightarrow> (\<exists>n < fst t. k = gen n) \<and> (\<forall>r \<in> set (snd t). key r = k \<longrightarrow> spent r)"

definition keys_drawn :: "('r \<Rightarrow> 'k) \<Rightarrow> (nat \<Rightarrow> 'k) \<Rightarrow> nat \<times> 'r list \<Rightarrow> bool" where
  "keys_drawn key gen t \<longleftrightarrow> (\<forall>r \<in> set (snd t). \<exists>n < fst t. key r = gen n)"

lemma rows_age_same: "n \<le> n' \<Longrightarrow> rows_age key spent gen (n, rs) (n', rs)"
  by (auto simp: rows_age_def)

lemma rows_age_filter: "rows_age key spent gen (n, rs) (n, filter P rs)"
  by (auto simp: rows_age_def)

lemma rows_age_map:
  assumes "\<And>r. r \<in> set rs \<Longrightarrow> key (f r) = key r \<and> (spent r \<longrightarrow> spent (f r))" and "n \<le> n'"
  shows "rows_age key spent gen (n, rs) (n', map f rs)"
  using assms by (fastforce simp: rows_age_def)

lemma rows_age_put:
  assumes "r \<in> set rs" and "key r' = key r" and "spent r'" and "n \<le> n'"
  shows "rows_age key spent gen (n, rs) (n', put_row key r' rs)"
  unfolding put_row_def using assms by (intro rows_age_map) auto

lemma rows_age_add:
  assumes "rows_age key spent gen (n, rs) (n', rs')" and "key r = gen n" and "n < n'"
  shows "rows_age key spent gen (n, rs) (n', rs' @ [r])"
  using assms by (auto simp: rows_age_def)

lemma rows_age_row:
  assumes "rows_age key spent gen t t'" and "r' \<in> set (snd t')"
  obtains (old) r where "r \<in> set (snd t)" and "key r = key r'" and "spent r \<longrightarrow> spent r'"
    | (drawn) n where "key r' = gen n" and "fst t \<le> n" and "n < fst t'"
proof -
  from assms have "(\<exists>r \<in> set (snd t). key r = key r' \<and> (spent r \<longrightarrow> spent r')) \<or> (\<exists>n. key r' = gen n \<and> fst t \<le> n \<and> n < fst t')"
    by (simp only: rows_age_def)
  then show ?thesis by (elim disjE bexE exE conjE) (rule old, assumption+, rule drawn)
qed

lemma rows_ageI:
  assumes "fst t \<le> fst t'"
    and "\<And>r'. r' \<in> set (snd t') \<Longrightarrow>
      (\<exists>r \<in> set (snd t). key r = key r' \<and> (spent r \<longrightarrow> spent r')) \<or> (\<exists>n. key r' = gen n \<and> fst t \<le> n \<and> n < fst t')"
  shows "rows_age key spent gen t t'"
  using assms unfolding rows_age_def by simp

lemma rows_age_trans:
  assumes "rows_age key spent gen t u" and "rows_age key spent gen u v"
  shows "rows_age key spent gen t v"
proof (rule rows_ageI)
  from assms have le: "fst t \<le> fst u" "fst u \<le> fst v" by (simp_all add: rows_age_def)
  then show "fst t \<le> fst v" by simp
  fix r' assume "r' \<in> set (snd v)"
  with assms(2) show "(\<exists>r \<in> set (snd t). key r = key r' \<and> (spent r \<longrightarrow> spent r')) \<or> (\<exists>n. key r' = gen n \<and> fst t \<le> n \<and> n < fst v)"
  proof (cases rule: rows_age_row)
    case (old q)
    from assms(1) old(1) show ?thesis
    proof (cases rule: rows_age_row)
      case (old r)
      with \<open>key q = key r'\<close> \<open>spent q \<longrightarrow> spent r'\<close> show ?thesis by auto
    next
      case (drawn n)
      with \<open>key q = key r'\<close> le show ?thesis by (intro disjI2 exI [of _ n]) simp
    qed
  next
    case (drawn n)
    with le show ?thesis by (intro disjI2 exI [of _ n]) simp
  qed
qed

lemma keys_drawn_age:
  assumes "keys_drawn key gen t" and "rows_age key spent gen t t'"
  shows "keys_drawn key gen t'"
proof -
  have "\<exists>n < fst t'. key r' = gen n" if "r' \<in> set (snd t')" for r'
    using assms(2) that
  proof (cases rule: rows_age_row)
    case (old r)
    from assms(1) old(1) obtain n where "n < fst t" "key r = gen n" unfolding keys_drawn_def by blast
    moreover have "fst t \<le> fst t'" using assms(2) by (simp add: rows_age_def)
    ultimately show ?thesis using old(2) by (intro exI [of _ n]) simp
  next
    case (drawn n)
    then show ?thesis by blast
  qed
  then show ?thesis by (simp add: keys_drawn_def)
qed

lemma spent_key_age:
  assumes "inj gen" and "rows_age key spent gen t t'" and "spent_key key spent gen t k"
  shows "spent_key key spent gen t' k"
proof -
  from assms(3) obtain m where m: "k = gen m" "m < fst t" by (auto simp: spent_key_def)
  have "spent r'" if "r' \<in> set (snd t')" "key r' = k" for r'
    using assms(2) that(1)
  proof (cases rule: rows_age_row)
    case (old r)
    then show ?thesis using assms(3) that(2) by (simp add: spent_key_def)
  next
    case (drawn n)
    with m that(2) have "n = m" using assms(1) by (simp add: inj_eq)
    with drawn m show ?thesis by simp
  qed
  moreover have "fst t \<le> fst t'" using assms(2) by (simp add: rows_age_def)
  ultimately show ?thesis using m by (auto simp: spent_key_def intro!: exI [of _ m])
qed

locale aging_rows =
  fixes step :: "'s \<Rightarrow> 's \<Rightarrow> bool" and table :: "'s \<Rightarrow> nat \<times> 'r list" and key :: "'r \<Rightarrow> 'k"
    and spent :: "'r \<Rightarrow> bool" and gen :: "nat \<Rightarrow> 'k"
  assumes step_ages: "step s s' \<Longrightarrow> rows_age key spent gen (table s) (table s')"
begin

lemma run_ages: "step\<^sup>*\<^sup>* s s' \<Longrightarrow> rows_age key spent gen (table s) (table s')"
proof (induction rule: rtranclp_induct)
  case base
  show ?case using rows_age_same [of "fst (table s)" "fst (table s)" key spent gen "snd (table s)"] by simp
next
  case (step y z)
  then show ?case using step_ages rows_age_trans by blast
qed

lemma run_spent: "inj gen \<Longrightarrow> step\<^sup>*\<^sup>* s s' \<Longrightarrow> spent_key key spent gen (table s) k \<Longrightarrow> spent_key key spent gen (table s') k"
  by (rule spent_key_age [OF _ run_ages])

lemma run_drawn: "step\<^sup>*\<^sup>* s s' \<Longrightarrow> keys_drawn key gen (table s) \<Longrightarrow> keys_drawn key gen (table s')"
  by (rule keys_drawn_age [OF _ run_ages])

end

section \<open>Effects of the commands\<close>

lemma auth_error_neq [simp]: "auth_error status m \<noteq> Inr x" "Inr x \<noteq> auth_error status m"
  by (simp_all add: auth_error_def)

lemma bindE_auth_error [simp, bindE_simps]: "bindE (auth_error status m) f = auth_error status m"
  by (simp add: auth_error_def)

lemma auth_commit_Inr: "auth_commit db = Inr db' \<longleftrightarrow> auth_unique_ok db \<and> db' = db"
  by (auto simp: auth_commit_def)

lemma draw_simps [simp]: "draw db = (ad_draws db, db\<lparr>ad_draws := Suc (ad_draws db)\<rparr>)"
  by (simp add: draw_def)

lemma issue_token_pair_snd [simp]: "snd (issue_token_pair lib now db email roles sid) = db\<lparr>ad_draws := ad_draws db + 2\<rparr>"
  by (simp add: issue_token_pair_def)

lemma hash_password_Inr: "hash_password lib db raw = Inr (hashed, db') \<longleftrightarrow>
    bcrypt_hashpw lib (ad_draws db) raw = Some hashed \<and> db' = db\<lparr>ad_draws := Suc (ad_draws db)\<rparr>"
  by (auto simp: hash_password_def split: option.split)

text \<open>No schema bounds a password from above and no handler answers the \<^verbatim>\<open>ValueError\<close>: the request ends with status 500.\<close>

lemma long_password_unanswered:
  assumes "get_user_by_email db (rg_email data) = Inr None" and "bcrypt_hashpw lib (ad_draws db) (rg_password data) = None"
  shows "register lib db data = Inl ValueError"
  using assms by (simp add: register_def hash_password_def)

lemma put_tables [simp]:
  "ad_sessions (put_user u db) = ad_sessions db" "ad_draws (put_user u db) = ad_draws db" "ad_resets (put_user u db) = ad_resets db"
  "ad_sessions (put_reset t db) = ad_sessions db" "ad_draws (put_reset t db) = ad_draws db" "ad_users (put_reset t db) = ad_users db"
  "ad_draws (put_session s db) = ad_draws db" "ad_users (put_session s db) = ad_users db" "ad_resets (put_session s db) = ad_resets db"
  "ad_draws (revoke_active_sessions db uid now) = ad_draws db" "ad_users (revoke_active_sessions db uid now) = ad_users db"
  "ad_resets (revoke_active_sessions db uid now) = ad_resets db"
  by (simp_all add: put_user_def put_reset_def put_session_def revoke_active_sessions_def)


text \<open>What each command does when it succeeds.\<close>

lemma register_Inr:
  assumes "register lib db data = Inr (roles, db')"
  shows "get_user_by_email db (rg_email data) = Inr None" "auth_unique_ok db'"
    "ad_users db' = ad_users db @ [\<lparr>au_id = ad_next_id db, au_email = rg_email data,
       au_password = the (bcrypt_hashpw lib (ad_draws db) (rg_password data)), au_roles = rg_roles data, au_last_login_at = None\<rparr>]"
    "ad_sessions db' = ad_sessions db" "ad_resets db' = ad_resets db" "ad_draws db' = Suc (ad_draws db)"
  using assms by (auto simp: register_def Let_def bindE_simps hash_password_Inr auth_commit_Inr split: if_splits)

abbreviation login_tokens :: "AuthLib \<Rightarrow> int \<Rightarrow> AuthDb \<Rightarrow> string \<Rightarrow> string list \<Rightarrow> TokenPair" where
  "login_tokens lib now db email roles \<equiv> fst (issue_token_pair lib now (snd (draw db)) email roles (lib_uuid lib (ad_draws db)))"

lemma login_Inr:
  assumes "login lib now db email password = Inr (res, db')"
  obtains user where "get_user_by_email db email = Inr (Some user)" and "verify_password lib password (au_password user)"
    and "res = token_response now (login_tokens lib now db (au_email user) (au_roles user))"
    and "ad_draws db' = ad_draws db + 3" and "ad_resets db' = ad_resets db"
    and "ad_sessions db' = ad_sessions db @ [new_session lib now (lib_uuid lib (ad_draws db)) (au_id user)
      (login_tokens lib now db (au_email user) (au_roles user))]"
    and "ad_users db' = put_row au_id (user\<lparr>au_last_login_at := Some now\<rparr>) (ad_users db)" and "auth_unique_ok db'"
proof -
  from assms obtain user where user: "get_user_by_email db email = Inr (Some user)"
    by (auto simp: login_def bindE_simps split: option.splits)
  note run = assms [unfolded login_def user bindE_Inr option.case]
  from run have pw: "verify_password lib password (au_password user)" by (auto split: if_splits)
  from run pw show ?thesis
    by (intro that [OF user pw]) (auto simp: Let_def case_prod_unfold bindE_simps auth_commit_Inr put_user_def)
qed

lemma refresh_session_Inr:
  assumes "refresh_session lib now db token = Inr (session, sub, roles)"
  obtains payload sid where "decode_token lib now token = Some payload" and "claim (cl_sid payload) = Some sid"
    and "claim (cl_sub payload) = Some sub" and "get_session db sid = Some session" and "as_revoked_at session = None"
  using assms by (auto simp: refresh_session_def Let_def split: option.splits if_splits)

lemma get_session_mem: "get_session db sid = Some session \<Longrightarrow> session \<in> set (ad_sessions db) \<and> as_id session = sid"
  by (auto simp: get_session_def find_Some_iff)

lemma rotate_session_Inr:
  assumes "rotate_session lib now db (session, sub, roles) = Inr (res, db')"
  obtains user tokens where "get_user_by_email db sub = Inr (Some user)"
    and "tokens = login_tokens lib now db (au_email user) (if au_roles user \<noteq> [] then au_roles user else roles)"
    and "res = token_response now tokens" and "ad_draws db' = ad_draws db + 3" and "ad_resets db' = ad_resets db"
    and "ad_sessions db' = put_row as_id (session\<lparr>as_revoked_at := Some now\<rparr>) (ad_sessions db) @
      [new_session lib now (lib_uuid lib (ad_draws db)) (au_id user) tokens]"
    and "ad_users db' = ad_users db" and "auth_unique_ok db'"
proof -
  have same: "get_user_by_email (put_session x db) sub = get_user_by_email db sub" for x by (simp add: get_user_by_email_def)
  from assms obtain user where user: "get_user_by_email db sub = Inr (Some user)"
    by (auto simp: rotate_session_def Let_def bindE_simps same split: option.splits)
  note run = assms [unfolded rotate_session_def Let_def prod.case same user bindE_Inr option.case]
  from run show ?thesis
    by (intro that [OF user refl]) (auto simp: issue_token_pair_def bindE_simps auth_commit_Inr put_session_def)
qed

lemma logout_Inr:
  assumes "logout lib now db token = Inr (ares, db')"
  shows "db' = db \<or> (\<exists>session \<in> set (ad_sessions db).
    db' = put_session (session\<lparr>as_revoked_at := Some now\<rparr>) db \<and> auth_unique_ok db')"
  using assms by (auto simp: logout_def Let_def bindE_simps auth_commit_Inr dest!: get_session_mem split: option.splits if_splits)

lemma forgot_password_Inr:
  assumes "forgot_password lib now db email = Inr (ares, db')"
  shows "db' = db \<or> (ad_draws db' = ad_draws db + 2 \<and> ad_users db' = ad_users db \<and> ad_sessions db' = ad_sessions db \<and>
    auth_unique_ok db' \<and> (\<exists>row. prt_token_hash row = hash_token lib (token_urlsafe lib (ad_draws db)) \<and> ad_resets db' = ad_resets db @ [row]))"
  using assms by (auto simp: forgot_password_def Let_def case_prod_unfold bindE_simps auth_commit_Inr split: option.splits if_splits)

lemma reset_password_Inr:
  assumes "reset_password lib now db data = Inr (ares, db')"
  obtains t user hashed where "get_reset_token lib db (rpr_token data) = Inr (Some t)" and "prt_used_at t = None"
    and "now < instant (ensure_utc now (Some (prt_expires_at t)))" and "get_user db (prt_user_id t) = Some user"
    and "ad_users db' = put_row au_id (user\<lparr>au_password := hashed\<rparr>) (ad_users db)"
    and "ad_resets db' = put_row prt_id (t\<lparr>prt_used_at := Some now\<rparr>) (ad_resets db)"
    and "ad_sessions db' = ad_sessions (revoke_active_sessions db (au_id user) now)"
    and "ad_draws db' = Suc (ad_draws db)" and "auth_unique_ok db'"
    and "bcrypt_hashpw lib (ad_draws db) (rpr_new_password data) = Some hashed"
proof -
  from assms obtain t where t: "get_reset_token lib db (rpr_token data) = Inr (Some t)"
    by (auto simp: reset_password_def bindE_simps split: option.splits)
  note run = assms [unfolded reset_password_def t bindE_Inr option.case]
  from run have open_t: "prt_used_at t = None" "now < instant (ensure_utc now (Some (prt_expires_at t)))"
    by (auto split: if_splits)
  with run obtain user where user: "get_user db (prt_user_id t) = Some user" by (auto split: if_splits option.splits)
  with run open_t obtain hashed where hashed: "bcrypt_hashpw lib (ad_draws db) (rpr_new_password data) = Some hashed"
    by (auto simp: bindE_simps hash_password_Inr)
  from run open_t user hashed show ?thesis
    by (intro that [OF t open_t user, where hashed = hashed])
      (auto simp: bindE_simps hash_password_Inr auth_commit_Inr put_user_def put_reset_def revoke_active_sessions_def)
qed

lemma update_auth_user_Inr:
  assumes "update_auth_user lib db uid data = Inr (ures, db')"
  obtains u v where "u \<in> set (ad_users db)" and "au_id v = au_id u" and "au_roles v = (case uau_roles data of Some rs \<Rightarrow> rs | None \<Rightarrow> au_roles u)"
    and "ad_users db' = put_row au_id v (ad_users db)" and "ad_sessions db' = ad_sessions db" and "ad_resets db' = ad_resets db"
    and "ad_draws db \<le> ad_draws db'" and "auth_unique_ok db'" and "au_email v = au_email u"
proof -
  from assms obtain u where u: "filter (\<lambda>u. au_id u = uid) (ad_users db) = [u]"
    by (auto simp: update_auth_user_def fetch_auth_user_def bindE_simps scalar_some split: option.splits)
  then have mem: "u \<in> set (ad_users db)" "au_id u = uid" by (auto simp: filter_eq_Cons_iff)
  note run = assms [unfolded update_auth_user_def fetch_auth_user_def u scalar_one_or_none.simps bindE_Inr option.case]
  show ?thesis
  proof (cases "uau_password data")
    case None
    with run show ?thesis
      by (intro that [OF mem(1), of "case uau_roles data of Some rs \<Rightarrow> u\<lparr>au_roles := rs\<rparr> | None \<Rightarrow> u"])
        (auto simp: Let_def bindE_simps auth_commit_Inr put_user_def split: option.splits)
  next
    case (Some p)
    with run obtain hashed where hashed: "bcrypt_hashpw lib (ad_draws db) p = Some hashed"
      by (auto simp: bindE_simps hash_password_Inr)
    let ?u = "u\<lparr>au_password := hashed\<rparr>"
    from Some hashed run show ?thesis
      by (intro that [OF mem(1), of "case uau_roles data of Some rs \<Rightarrow> ?u\<lparr>au_roles := rs\<rparr> | None \<Rightarrow> ?u"])
        (auto simp: Let_def bindE_simps hash_password_Inr auth_commit_Inr put_user_def split: option.splits)
  qed
qed

lemma delete_auth_user_Inr:
  assumes "delete_auth_user db uid = Inr (did, db')"
  shows "ad_users db' = filter (\<lambda>x. au_id x \<noteq> uid) (ad_users db)" "ad_sessions db' = filter (\<lambda>s. as_user_id s \<noteq> uid) (ad_sessions db)"
    "ad_resets db' = filter (\<lambda>t. prt_user_id t \<noteq> uid) (ad_resets db)" "ad_draws db' = ad_draws db" "auth_unique_ok db'"
proof -
  from assms obtain u where u: "filter (\<lambda>u. au_id u = uid) (ad_users db) = [u]"
    by (auto simp: delete_auth_user_def fetch_auth_user_def bindE_simps scalar_some split: option.splits)
  then have id: "au_id u = uid" by (auto simp: filter_eq_Cons_iff)
  note run = assms [unfolded delete_auth_user_def fetch_auth_user_def u scalar_one_or_none.simps bindE_Inr option.case id]
  from run show "ad_users db' = filter (\<lambda>x. au_id x \<noteq> uid) (ad_users db)" "ad_sessions db' = filter (\<lambda>s. as_user_id s \<noteq> uid) (ad_sessions db)"
    "ad_resets db' = filter (\<lambda>t. prt_user_id t \<noteq> uid) (ad_resets db)" "ad_draws db' = ad_draws db" "auth_unique_ok db'"
    by (auto simp: bindE_simps auth_commit_Inr)
qed


section \<open>Runs of the service\<close>

text \<open>Any command, at any time, with request objects that were validated.\<close>

inductive auth_step :: "AuthLib \<Rightarrow> AuthDb \<Rightarrow> AuthDb \<Rightarrow> bool" for lib where
  register: "make_Register email password rs = Inr data \<Longrightarrow> register lib db data = Inr (roles, db') \<Longrightarrow> auth_step lib db db'"
| login: "login lib now db email password = Inr (res, db') \<Longrightarrow> auth_step lib db db'"
| refresh: "refresh_tokens lib now db token = Inr (res, db') \<Longrightarrow> auth_step lib db db'"
| logout: "logout lib now db token = Inr (ares, db') \<Longrightarrow> auth_step lib db db'"
| forgot: "forgot_password lib now db email = Inr (ares, db') \<Longrightarrow> auth_step lib db db'"
| reset: "make_ResetPasswordRequest token password = Inr rdata \<Longrightarrow> reset_password lib now db rdata = Inr (ares, db') \<Longrightarrow> auth_step lib db db'"
| update: "make_UpdateAuthUser new_password new_roles = Inr udata \<Longrightarrow> update_auth_user lib db uid udata = Inr (ures, db') \<Longrightarrow>
    auth_step lib db db'"
| delete: "delete_auth_user db uid = Inr (did, db') \<Longrightarrow> auth_step lib db db'"

abbreviation session_table :: "AuthDb \<Rightarrow> nat \<times> AuthSession list" where
  "session_table db \<equiv> (ad_draws db, ad_sessions db)"

abbreviation reset_table :: "AuthDb \<Rightarrow> nat \<times> PasswordResetToken list" where
  "reset_table db \<equiv> (ad_draws db, ad_resets db)"

abbreviation revoked :: "AuthSession \<Rightarrow> bool" where
  "revoked session \<equiv> as_revoked_at session \<noteq> None"

abbreviation used :: "PasswordResetToken \<Rightarrow> bool" where
  "used t \<equiv> prt_used_at t \<noteq> None"

abbreviation reset_hash :: "AuthLib \<Rightarrow> nat \<Rightarrow> string" where
  "reset_hash lib n \<equiv> hash_token lib (token_urlsafe lib n)"

lemma rows_age_put_by:
  assumes "r \<in> set rs" and "distinct (map pk rs)" and "pk r' = pk r" and "key r' = key r" and "spent r'" and "n \<le> n'"
  shows "rows_age key spent gen (n, rs) (n', put_row pk r' rs)"
proof -
  have "q = r" if "q \<in> set rs" "pk q = pk r'" for q
    using assms(1-3) that by (auto simp: distinct_map dest: inj_onD)
  then show ?thesis unfolding put_row_def using assms(4-6) by (intro rows_age_map) auto
qed

lemma unique_keys: "auth_unique_ok db \<Longrightarrow> distinct (map as_id (ad_sessions db))"
  "auth_unique_ok db \<Longrightarrow> distinct (map prt_id (ad_resets db))"
  by (simp_all add: auth_unique_ok_def)

lemma get_reset_token_mem:
  "get_reset_token lib db token = Inr (Some t) \<Longrightarrow> t \<in> set (ad_resets db) \<and> prt_token_hash t = hash_token lib token"
  by (auto simp: get_reset_token_def scalar_some filter_eq_Cons_iff)

lemma refresh_tokens_Inr:
  assumes "refresh_tokens lib now db token = Inr (res, db')"
  obtains session sub roles where "refresh_session lib now db token = Inr (session, sub, roles)"
    and "rotate_session lib now db (session, sub, roles) = Inr (res, db')"
  using assms by (cases "refresh_session lib now db token") (auto simp: refresh_tokens_def)

lemma rotate_session_ages:
  assumes "rotate_session lib now db (session, sub, roles) = Inr (res, db')" and "session \<in> set (ad_sessions db)"
  shows "rows_age as_id revoked (lib_uuid lib) (session_table db) (session_table db')"
  using assms(1)
proof (cases rule: rotate_session_Inr)
  case (1 user tokens)
  have "rows_age as_id revoked (lib_uuid lib) (ad_draws db, ad_sessions db)
    (ad_draws db + 3, put_row as_id (session\<lparr>as_revoked_at := Some now\<rparr>) (ad_sessions db))"
    using assms(2) by (rule rows_age_put) simp_all
  then show ?thesis unfolding 1(4,6) by (rule rows_age_add) (simp_all add: new_session_def)
qed

lemma auth_step_ages_sessions:
  assumes "auth_step lib db db'"
  shows "rows_age as_id revoked (lib_uuid lib) (session_table db) (session_table db')"
  using assms
proof cases
  case (register email password rs data roles)
  then show ?thesis by (simp add: register_Inr(4,6) rows_age_same)
next
  case (login now email password res)
  from login show ?thesis
  proof (cases rule: login_Inr)
    case (1 user)
    show ?thesis unfolding 1(4,6) by (intro rows_age_add rows_age_same) (simp_all add: new_session_def)
  qed
next
  case (refresh now token res)
  then obtain session sub roles where r: "refresh_session lib now db token = Inr (session, sub, roles)"
    "rotate_session lib now db (session, sub, roles) = Inr (res, db')" by (rule refresh_tokens_Inr)
  from r(1) have "session \<in> set (ad_sessions db)" by (cases rule: refresh_session_Inr) (simp add: get_session_mem)
  with r(2) show ?thesis by (rule rotate_session_ages)
next
  case (logout now token ares)
  from logout_Inr [OF logout] show ?thesis
    by (elim disjE bexE conjE) (simp_all add: put_session_def rows_age_same rows_age_put)
next
  case (forgot now email ares)
  from forgot_password_Inr [OF forgot] show ?thesis by (elim disjE conjE exE) (simp_all add: rows_age_same)
next
  case (reset token password rdata now ares)
  from reset(2) show ?thesis
  proof (cases rule: reset_password_Inr)
    case (1 t user)
    show ?thesis unfolding 1(7,8) by (auto simp: revoke_active_sessions_def intro!: rows_age_map)
  qed
next
  case (update new_password new_roles udata uid ures)
  from update(2) show ?thesis by (cases rule: update_auth_user_Inr) (simp add: rows_age_same)
next
  case (delete uid did)
  show ?thesis unfolding delete_auth_user_Inr(2,4) [OF delete] by (rule rows_age_filter)
qed

lemma auth_step_ages_resets:
  assumes "auth_step lib db db'"
  shows "rows_age prt_token_hash used (reset_hash lib) (reset_table db) (reset_table db')"
  using assms
proof cases
  case (register email password rs data roles)
  then show ?thesis by (simp add: register_Inr(5,6) rows_age_same)
next
  case (login now email password res)
  from login show ?thesis by (cases rule: login_Inr) (simp add: rows_age_same)
next
  case (refresh now token res)
  then obtain session sub roles where "rotate_session lib now db (session, sub, roles) = Inr (res, db')" by (rule refresh_tokens_Inr)
  then show ?thesis by (cases rule: rotate_session_Inr) (simp add: rows_age_same)
next
  case (logout now token ares)
  from logout_Inr [OF logout] show ?thesis by (auto intro: rows_age_same)
next
  case (forgot now email ares)
  from forgot_password_Inr [OF forgot] show ?thesis by (auto intro!: rows_age_same rows_age_add)
next
  case (reset token password rdata now ares)
  from reset(2) show ?thesis
  proof (cases rule: reset_password_Inr)
    case (1 t user)
    from 1(6,9) have "distinct (map prt_id (ad_resets db))" by (auto dest: unique_keys(2))
    with 1(1) show ?thesis unfolding 1(6,8) by (intro rows_age_put_by [of t]) (auto dest: get_reset_token_mem)
  qed
next
  case (update new_password new_roles udata uid ures)
  from update(2) show ?thesis by (cases rule: update_auth_user_Inr) (simp add: rows_age_same)
next
  case (delete uid did)
  show ?thesis unfolding delete_auth_user_Inr(3,4) [OF delete] by (rule rows_age_filter)
qed

interpretation session_rows: aging_rows "auth_step lib" session_table as_id revoked "lib_uuid lib" for lib
  by unfold_locales (rule auth_step_ages_sessions)

interpretation reset_rows: aging_rows "auth_step lib" reset_table prt_token_hash used "reset_hash lib" for lib
  by unfold_locales (rule auth_step_ages_resets)


section \<open>Well-formed accounts\<close>

definition valid_roles :: "string list \<Rightarrow> bool" where
  "valid_roles rs \<longleftrightarrow> rs \<noteq> [] \<and> distinct rs \<and> set rs \<subseteq> set ALLOWED_ROLES"

definition auth_ok :: "AuthLib \<Rightarrow> AuthDb \<Rightarrow> bool" where
  "auth_ok lib db \<longleftrightarrow> auth_unique_ok db \<and> list_all (\<lambda>u. valid_roles (au_roles u)) (ad_users db) \<and>
     keys_drawn as_id (lib_uuid lib) (session_table db) \<and> keys_drawn prt_token_hash (reset_hash lib) (reset_table db)"

lemma normalize_loop_valid:
  assumes "normalize_loop acc rs = Inr out" and "distinct acc" and "set acc \<subseteq> set ALLOWED_ROLES"
  shows "distinct out \<and> set out \<subseteq> set ALLOWED_ROLES"
  using assms by (induction acc rs rule: normalize_loop.induct) (auto simp: Let_def split: if_splits)

lemma normalize_roles_valid:
  assumes "normalize_roles rs False dflt = Inr out" and "\<And>d. dflt = Some d \<Longrightarrow> valid_roles d"
  shows "valid_roles out"
  using assms normalize_loop_valid [of "[]" rs]
  by (auto simp: normalize_roles_def bindE_simps valid_roles_def split: if_splits option.splits)

lemma validated_Inr [simp]: "validated r = Inr x \<longleftrightarrow> r = Inr x"
  by (auto simp: validated_def split: sum.splits error.splits)

lemma make_Register_valid: "make_Register email password rs = Inr data \<Longrightarrow> valid_roles (rg_roles data)"
  by (auto simp: make_Register_def bindE_simps valid_roles_def ALLOWED_ROLES_def dest!: normalize_roles_valid split: if_splits)

lemma make_UpdateAuthUser_valid:
  "make_UpdateAuthUser password rs = Inr data \<Longrightarrow> uau_roles data = Some out \<Longrightarrow> valid_roles out"
  by (auto simp: make_UpdateAuthUser_def bindE_simps dest!: normalize_roles_valid split: if_splits option.splits)

lemma get_user_by_email_mem:
  "get_user_by_email db email = Inr (Some u) \<Longrightarrow> u \<in> set (ad_users db) \<and> au_email u = email"
  by (auto simp: get_user_by_email_def scalar_some filter_eq_Cons_iff)

lemma get_user_mem: "get_user db uid = Some u \<Longrightarrow> u \<in> set (ad_users db) \<and> au_id u = uid"
  by (auto simp: get_user_def find_Some_iff)

lemma roles_put_row:
  assumes "list_all (\<lambda>u. valid_roles (au_roles u)) rows" and "valid_roles (au_roles v)"
  shows "list_all (\<lambda>u. valid_roles (au_roles u)) (put_row au_id v rows)"
  using assms by (auto simp: list_all_iff dest: in_put_row)

lemma auth_step_roles:
  assumes "auth_step lib db db'" and "list_all (\<lambda>u. valid_roles (au_roles u)) (ad_users db)"
  shows "list_all (\<lambda>u. valid_roles (au_roles u)) (ad_users db')"
  using assms(1)
proof cases
  case (register email password rs data roles)
  then show ?thesis using assms(2) by (simp add: register_Inr(3) make_Register_valid)
next
  case (login now email password res)
  from login show ?thesis
  proof (cases rule: login_Inr)
    case (1 user)
    then have "user \<in> set (ad_users db)" by (simp add: get_user_by_email_mem)
    then show ?thesis unfolding 1(7) using assms(2) by (intro roles_put_row) (auto simp: list_all_iff)
  qed
next
  case (refresh now token res)
  then obtain session sub roles where "rotate_session lib now db (session, sub, roles) = Inr (res, db')" by (rule refresh_tokens_Inr)
  then show ?thesis using assms(2) by (cases rule: rotate_session_Inr) simp
next
  case (logout now token ares)
  from logout_Inr [OF logout] show ?thesis using assms(2) by auto
next
  case (forgot now email ares)
  from forgot_password_Inr [OF forgot] show ?thesis using assms(2) by auto
next
  case (reset token password rdata now ares)
  from reset(2) show ?thesis
  proof (cases rule: reset_password_Inr)
    case (1 t user)
    then have "user \<in> set (ad_users db)" by (simp add: get_user_mem)
    then show ?thesis unfolding 1(5) using assms(2) by (intro roles_put_row) (auto simp: list_all_iff)
  qed
next
  case (update new_password new_roles udata uid ures)
  from update(2) show ?thesis
  proof (cases rule: update_auth_user_Inr)
    case (1 u v)
    then have "valid_roles (au_roles v)"
      using assms(2) make_UpdateAuthUser_valid [OF update(1)] by (auto simp: list_all_iff split: option.splits)
    then show ?thesis unfolding 1(4) using assms(2) by (intro roles_put_row)
  qed
next
  case (delete uid did)
  show ?thesis unfolding delete_auth_user_Inr(1) [OF delete] using assms(2) by (auto simp: list_all_iff)
qed

lemma auth_step_unique:
  assumes "auth_step lib db db'" and "auth_unique_ok db"
  shows "auth_unique_ok db'"
  using assms(1)
proof cases
  case (register email password rs data roles)
  then show ?thesis by (simp add: register_Inr(2))
next
  case (login now email password res)
  then show ?thesis by (rule login_Inr)
next
  case (refresh now token res)
  then obtain session sub roles where "rotate_session lib now db (session, sub, roles) = Inr (res, db')" by (rule refresh_tokens_Inr)
  then show ?thesis by (rule rotate_session_Inr)
next
  case (logout now token ares)
  from logout_Inr [OF logout] show ?thesis using assms(2) by auto
next
  case (forgot now email ares)
  from forgot_password_Inr [OF forgot] show ?thesis using assms(2) by auto
next
  case (reset token password rdata now ares)
  from reset(2) show ?thesis by (rule reset_password_Inr)
next
  case (update new_password new_roles udata uid ures)
  from update(2) show ?thesis by (rule update_auth_user_Inr)
next
  case (delete uid did)
  then show ?thesis by (rule delete_auth_user_Inr(5))
qed

lemma auth_step_ok: "auth_step lib db db' \<Longrightarrow> auth_ok lib db \<Longrightarrow> auth_ok lib db'"
  unfolding auth_ok_def
  using auth_step_unique auth_step_roles keys_drawn_age [OF _ auth_step_ages_sessions] keys_drawn_age [OF _ auth_step_ages_resets]
  by blast

interpretation accounts: conserving_system "auth_step lib" "auth_ok lib" "\<lambda>_. ()" for lib
  by unfold_locales (simp add: auth_step_ok)


section \<open>When the commands succeed\<close>

lemma fresh_session_id:
  assumes "inj (lib_uuid lib)" and "keys_drawn as_id (lib_uuid lib) (session_table db)"
  shows "lib_uuid lib (ad_draws db) \<notin> as_id ` set (ad_sessions db)"
proof
  assume "lib_uuid lib (ad_draws db) \<in> as_id ` set (ad_sessions db)"
  then obtain s where "s \<in> set (ad_sessions db)" "lib_uuid lib (ad_draws db) = as_id s" by (rule imageE)
  with assms(2) obtain n where "n < ad_draws db" "lib_uuid lib (ad_draws db) = lib_uuid lib n"
    unfolding keys_drawn_def by auto
  with assms(1) show False by (simp add: inj_eq)
qed

text \<open>A row is added to the sessions, one of which may be replaced, and an account may be updated.\<close>

lemma session_commits:
  assumes "auth_ok lib db" and "inj (lib_uuid lib)" and "u \<in> set (ad_users db)"
    and "map au_id users' = map au_id (ad_users db)" and "map au_email users' = map au_email (ad_users db)"
    and "map as_id sessions' = map as_id (ad_sessions db)" and "map as_user_id sessions' = map as_user_id (ad_sessions db)"
    and "as_id s = lib_uuid lib (ad_draws db)" and "as_user_id s = au_id u"
  shows "auth_unique_ok (db\<lparr>ad_draws := n, ad_users := users', ad_sessions := sessions' @ [s]\<rparr>)"
proof -
  from assms(1) have ok: "auth_unique_ok db" and drawn: "keys_drawn as_id (lib_uuid lib) (session_table db)" by (simp_all add: auth_ok_def)
  have ids: "set (map au_id users') = set (map au_id (ad_users db))" "set (map as_user_id sessions') = set (map as_user_id (ad_sessions db))"
    "set (map as_id sessions') = set (map as_id (ad_sessions db))"
    by (simp_all only: assms(4,6,7))
  have "distinct (map as_id (sessions' @ [s]))"
    using ok fresh_session_id [OF assms(2) drawn] ids(3) by (simp add: auth_unique_ok_def assms(6,8))
  moreover have "list_all (\<lambda>s. as_user_id s \<in> set (map au_id users')) (sessions' @ [s])"
  proof -
    have "as_user_id x \<in> set (map au_id (ad_users db))" if "x \<in> set sessions'" for x
    proof -
      from that have "as_user_id x \<in> set (map as_user_id sessions')" by simp
      then show ?thesis using ok unfolding ids(2) by (auto simp: auth_unique_ok_def list_all_iff)
    qed
    then show ?thesis unfolding ids(1) using assms(3,9) by (auto simp: list_all_iff)
  qed
  ultimately show ?thesis using ok assms(4,5) ids(1) unfolding auth_unique_ok_def by simp
qed

lemma email_put_row:
  assumes "auth_unique_ok db" and "u \<in> set (ad_users db)" and "au_id v = au_id u" and "au_email v = au_email u"
  shows "map au_email (put_row au_id v (ad_users db)) = map au_email (ad_users db)"
proof -
  have "x = u" if "x \<in> set (ad_users db)" "au_id x = au_id v" for x
    using assms that by (auto simp: auth_unique_ok_def distinct_map dest: inj_onD)
  with assms(4) show ?thesis by (auto simp: put_row_def)
qed

lemma login_succeeds:
  assumes "auth_ok lib db" and "inj (lib_uuid lib)" and "get_user_by_email db email = Inr (Some user)"
    and "verify_password lib password (au_password user)"
  shows "\<exists>res db'. login lib now db email password = Inr (res, db')"
proof -
  from assms(3) have mem: "user \<in> set (ad_users db)" by (simp add: get_user_by_email_mem)
  have "auth_unique_ok (db\<lparr>ad_draws := Suc (Suc (Suc (ad_draws db))), ad_users := put_row au_id (user\<lparr>au_last_login_at := Some now\<rparr>) (ad_users db),
    ad_sessions := ad_sessions db @ [new_session lib now (lib_uuid lib (ad_draws db)) (au_id user)
      (login_tokens lib now db (au_email user) (au_roles user))]\<rparr>)"
    using assms(1,2) mem by (rule session_commits)
      (use assms(1) mem in \<open>simp_all add: new_session_def auth_ok_def email_put_row map_put_row\<close>)
  then show ?thesis using assms(3,4)
    by (simp add: login_def bindE_simps put_user_def case_prod_unfold Let_def auth_commit_def issue_token_pair_def)
qed

lemma keep_users: "db\<lparr>ad_draws := n, ad_users := ad_users db, ad_sessions := rows\<rparr> = db\<lparr>ad_draws := n, ad_sessions := rows\<rparr>"
  by (cases db) simp

lemma rotate_session_succeeds:
  assumes "auth_ok lib db" and "inj (lib_uuid lib)" and "get_user_by_email db sub = Inr (Some user)"
    and "x \<in> set (ad_sessions db)" and "as_id session = as_id x" and "as_user_id session = as_user_id x"
  shows "\<exists>res db'. rotate_session lib now db (session, sub, roles) = Inr (res, db')"
proof -
  from assms(3) have mem: "user \<in> set (ad_users db)" by (simp add: get_user_by_email_mem)
  let ?rows = "put_row as_id (session\<lparr>as_revoked_at := Some now\<rparr>) (ad_sessions db)"
  let ?tokens = "login_tokens lib now db (au_email user) (if au_roles user \<noteq> [] then au_roles user else roles)"
  have same: "y = x" if "y \<in> set (ad_sessions db)" "as_id y = as_id x" for y
    using assms(1,4) that by (auto simp: auth_ok_def auth_unique_ok_def distinct_map dest: inj_onD)
  have "auth_unique_ok (db\<lparr>ad_draws := Suc (Suc (Suc (ad_draws db))), ad_users := ad_users db,
    ad_sessions := ?rows @ [new_session lib now (lib_uuid lib (ad_draws db)) (au_id user) ?tokens]\<rparr>)"
    using assms(1,2) mem
  proof (rule session_commits)
    show "map as_user_id ?rows = map as_user_id (ad_sessions db)"
      using same assms(5,6) by (auto simp: put_row_def)
  qed (simp_all add: new_session_def map_put_row)
  then show ?thesis using assms(3) unfolding keep_users
    by (cases "au_roles user = []")
      (simp_all add: rotate_session_def get_user_by_email_def bindE_simps put_session_def case_prod_unfold Let_def auth_commit_def
        issue_token_pair_def)
qed

text \<open>A token whose session is spent is refused.\<close>

lemma refresh_spent:
  assumes "spent_key as_id revoked (lib_uuid lib) (session_table db) sid"
    and "\<And>payload. decode_token lib now token = Some payload \<Longrightarrow> claim (cl_sid payload) = Some sid"
  shows "\<exists>m. refresh_tokens lib now db token = auth_error 401 m"
proof (cases "decode_token lib now token")
  case None
  then show ?thesis by (auto simp: refresh_tokens_def refresh_session_def)
next
  case (Some payload)
  from assms(2) [OF this] have sid: "claim (cl_sid payload) = Some sid" .
  have "get_session db sid = Some session \<Longrightarrow> revoked session" for session
    using assms(1) by (auto simp: spent_key_def dest: get_session_mem)
  with Some sid show ?thesis
    by (cases "claim (cl_sub payload)"; cases "get_session db sid") (auto simp: refresh_tokens_def refresh_session_def)
qed

lemma key_unique: "distinct (map key rows) \<Longrightarrow> x \<in> set rows \<Longrightarrow> y \<in> set rows \<Longrightarrow> key x = key y \<Longrightarrow> x = y"
  by (auto simp: distinct_map dest: inj_onD)

lemma filter_key_one:
  assumes "distinct (map key rows)" and "x \<in> set rows"
  shows "filter (\<lambda>y. key y = key x) rows = [x]"
  using assms
proof (induction rows)
  case (Cons y rows)
  show ?case
  proof (cases "x = y")
    case True
    with Cons.prems have "filter (\<lambda>z. key z = key x) rows = []" by (auto simp: filter_empty_conv image_iff)
    with True show ?thesis by simp
  next
    case False
    with Cons.prems have "key y \<noteq> key x" "x \<in> set rows" "distinct (map key rows)" by auto
    with Cons.IH show ?thesis by simp
  qed
qed simp

lemma scalar_distinct:
  assumes "distinct (map key rows)"
  shows "\<exists>found. scalar_one_or_none (filter (\<lambda>x. key x = k) rows) = Inr found"
proof (cases "\<exists>x \<in> set rows. key x = k")
  case True
  then obtain x where "x \<in> set rows" "k = key x" by blast
  with assms show ?thesis by (simp add: filter_key_one)
next
  case False
  then have "filter (\<lambda>x. key x = k) rows = []" by (simp add: filter_empty_conv)
  then show ?thesis by simp
qed

lemma lookups_ok:
  assumes "auth_unique_ok db"
  shows "\<exists>found. get_reset_token lib db token = Inr found" and "\<exists>found. get_user_by_email db email = Inr found"
  using assms unfolding auth_unique_ok_def get_reset_token_def get_user_by_email_def by (simp_all add: scalar_distinct)

lemma reset_spent:
  assumes "auth_unique_ok db" and "spent_key prt_token_hash used (reset_hash lib) (reset_table db) (hash_token lib (rpr_token data))"
  shows "reset_password lib now db data = auth_error 401 INVALID_OR_EXPIRED_RESET_TOKEN"
proof -
  obtain found where f: "get_reset_token lib db (rpr_token data) = Inr found" using lookups_ok(1) [OF assms(1)] by blast
  show ?thesis
  proof (cases found)
    case None
    with f show ?thesis by (simp add: reset_password_def)
  next
    case (Some t)
    with f have "used t" using assms(2) by (auto simp: spent_key_def dest!: get_reset_token_mem)
    with f Some show ?thesis by (simp add: reset_password_def)
  qed
qed


section \<open>What the service promises\<close>

text \<open>
  C25: whatever requests are served, the tables keep their keys and references, every account has at least
  one role, only allowed ones and none twice, and the look-ups by e-mail and by reset
  token never find two rows.
\<close>

theorem accounts_well_formed:
  assumes "(auth_step lib)\<^sup>*\<^sup>* db db'" and "auth_ok lib db"
  shows "auth_ok lib db' \<and> get_user_by_email db' email \<noteq> Inl MultipleResultsFound \<and> get_reset_token lib db' token \<noteq> Inl MultipleResultsFound"
proof -
  from accounts.run_keeps [OF assms] have ok: "auth_ok lib db'" by simp
  then have "auth_unique_ok db'" by (simp add: auth_ok_def)
  from lookups_ok [OF this] ok show ?thesis by (metis Inl_Inr_False)
qed

text \<open>
  C22: a refresh token is good for one use: the refresh opens a new session, whose token is in the response,
  and after it, at any later point of any run, the old token is answered with 401. Assumed: the
  drawn identifiers are distinct, and decoding gives the same claims whenever it succeeds.
\<close>

theorem refresh_token_single_use:
  assumes "inj (lib_uuid lib)"
    and "\<And>t u c d. jwt_decode lib t token = Some c \<Longrightarrow> jwt_decode lib u token = Some d \<Longrightarrow> d = c"
    and "auth_ok lib db" and "refresh_tokens lib now db token = Inr (res, db')" and "(auth_step lib)\<^sup>*\<^sup>* db' db''"
  shows "(\<exists>session \<in> set (ad_sessions db'). \<not> revoked session \<and> as_id session = lib_uuid lib (ad_draws db) \<and>
      as_refresh_token_hash session = hash_token lib (tpr_refresh_token res)) \<and>
    (\<exists>m. refresh_tokens lib later db'' token = auth_error 401 m)"
proof -
  from assms(4) obtain session sub roles where r: "refresh_session lib now db token = Inr (session, sub, roles)"
    "rotate_session lib now db (session, sub, roles) = Inr (res, db')" by (rule refresh_tokens_Inr)
  from r(1) obtain payload sid where p: "decode_token lib now token = Some payload" "claim (cl_sid payload) = Some sid"
    "get_session db sid = Some session" by (rule refresh_session_Inr)
  from get_session_mem [OF p(3)] have mem: "session \<in> set (ad_sessions db)" "as_id session = sid" by simp_all
  from r(2) obtain user :: AuthUser and tokens where rot: "res = token_response now tokens" "ad_draws db' = ad_draws db + 3"
    "ad_sessions db' = put_row as_id (session\<lparr>as_revoked_at := Some now\<rparr>) (ad_sessions db) @
      [new_session lib now (lib_uuid lib (ad_draws db)) (au_id user) tokens]"
    by (rule rotate_session_Inr)
  from assms(3) mem obtain n where n: "n < ad_draws db" "sid = lib_uuid lib n"
    by (auto simp: auth_ok_def keys_drawn_def)
  have "lib_uuid lib (ad_draws db) \<noteq> sid" using assms(1) n by (simp add: inj_eq)
  then have "spent_key as_id revoked (lib_uuid lib) (session_table db') sid"
    using n mem(2) unfolding spent_key_def rot(2,3)
    by (auto simp: new_session_def put_row_def intro!: exI [of _ n])
  then have dead: "spent_key as_id revoked (lib_uuid lib) (session_table db'') sid"
    by (rule session_rows.run_spent [OF assms(1,5)])
  have "claim (cl_sid d) = Some sid" if "decode_token lib later token = Some d" for d
    using that p(1,2) assms(2) unfolding decode_token_def by blast
  from refresh_spent [OF dead this] show ?thesis
    by (intro conjI bexI [of _ "new_session lib now (lib_uuid lib (ad_draws db)) (au_id user) tokens"])
      (simp_all add: rot new_session_def token_response_def)
qed

lemma get_user_by_email_put:
  assumes "auth_unique_ok db" and "user \<in> set (ad_users db)" and "au_id v = au_id user" and "au_email v = au_email user"
    and "ad_users db' = put_row au_id v (ad_users db)"
  shows "get_user_by_email db' (au_email user) = Inr (Some v)"
proof -
  have "map au_email (ad_users db') = map au_email (ad_users db)"
    unfolding assms(5) by (rule email_put_row [OF assms(1-4)])
  then have "distinct (map au_email (ad_users db'))" using assms(1) by (simp add: auth_unique_ok_def)
  moreover have "v \<in> set (ad_users db')" using assms(2,3,5) by (auto simp: put_row_def)
  ultimately show ?thesis unfolding get_user_by_email_def scalar_some assms(4) [symmetric] by (rule filter_key_one)
qed

text \<open>The three effects of a password reset.\<close>

lemma reset_then_login:
  assumes "inj (lib_uuid lib)" and "auth_ok lib db'" and "auth_unique_ok db" and "user \<in> set (ad_users db)"
    and "ad_users db' = put_row au_id (user\<lparr>au_password := hashed\<rparr>) (ad_users db)" and "verify_password lib password hashed"
  shows "\<exists>res db2. login lib later db' (au_email user) password = Inr (res, db2)"
  using assms(1,2,6) get_user_by_email_put [OF assms(3,4) _ _ assms(5)]
  by (intro login_succeeds [where user = "user\<lparr>au_password := hashed\<rparr>"]) simp_all

lemma revoked_sessions_spent:
  assumes "auth_ok lib db" and "session \<in> set (ad_sessions db)" and "as_user_id session = uid"
    and "ad_sessions db' = ad_sessions (revoke_active_sessions db uid now)" and "ad_draws db \<le> ad_draws db'"
  shows "spent_key as_id revoked (lib_uuid lib) (session_table db') (as_id session)"
proof -
  from assms(1,2) obtain n where "n < ad_draws db" "as_id session = lib_uuid lib n"
    by (auto simp: auth_ok_def keys_drawn_def)
  moreover have "x = session" if "x \<in> set (ad_sessions db)" "as_id x = as_id session" for x
    using assms(1,2) that by (auto simp: auth_ok_def auth_unique_ok_def distinct_map dest: inj_onD)
  ultimately show ?thesis
    unfolding spent_key_def using assms(3-5) by (auto simp: revoke_active_sessions_def intro!: exI [of _ n])
qed

lemma used_token_spent:
  assumes "auth_ok lib db" and "get_reset_token lib db token = Inr (Some t)" and "ad_draws db \<le> ad_draws db'"
    and "ad_resets db' = put_row prt_id (t\<lparr>prt_used_at := Some now\<rparr>) (ad_resets db)"
  shows "spent_key prt_token_hash used (reset_hash lib) (reset_table db') (hash_token lib token)"
proof -
  from get_reset_token_mem [OF assms(2)] have t: "t \<in> set (ad_resets db)" "prt_token_hash t = hash_token lib token" by simp_all
  from assms(1) t obtain n where n: "n < ad_draws db" "hash_token lib token = reset_hash lib n"
    by (auto simp: auth_ok_def keys_drawn_def)
  have "x = t" if "x \<in> set (ad_resets db)" "prt_token_hash x = hash_token lib token" for x
    using assms(1) that t by (intro key_unique [of prt_token_hash "ad_resets db"]) (simp_all add: auth_ok_def auth_unique_ok_def)
  then have "used r" if "r \<in> set (ad_resets db')" "prt_token_hash r = hash_token lib token" for r
    using that unfolding assms(4) by (auto simp: put_row_def)
  with n assms(3) show ?thesis unfolding spent_key_def by (intro conjI exI [of _ n] ballI impI) simp_all
qed

text \<open>
  C23: a password reset hands the account to the new password: it logs in; every session the account
  had is over for good, so that no token of one of them is refreshed at any later point of any run; and the reset
  token is refused from then on. Assumed: distinct draws, and that bcrypt accepts the password of a hash it made.
\<close>

theorem reset_password_takes_over:
  assumes "inj (lib_uuid lib)" and "inj (reset_hash lib)"
    and "\<And>n hashed. bcrypt_hashpw lib n password = Some hashed \<Longrightarrow> bcrypt_checkpw lib password hashed = Some True"
    and "auth_ok lib db" and "make_ResetPasswordRequest rtoken password = Inr data"
    and "reset_password lib now db data = Inr (ares, db')" and "(auth_step lib)\<^sup>*\<^sup>* db' db''"
  shows "\<exists>t user. get_reset_token lib db rtoken = Inr (Some t) \<and> get_user db (prt_user_id t) = Some user \<and>
    (\<exists>res db2. login lib later db' (au_email user) password = Inr (res, db2)) \<and>
    (\<forall>session \<in> set (ad_sessions db). \<forall>token. as_user_id session = au_id user \<longrightarrow>
      (\<forall>payload. decode_token lib later token = Some payload \<longrightarrow> claim (cl_sid payload) = Some (as_id session)) \<longrightarrow>
      (\<exists>m. refresh_tokens lib later db'' token = auth_error 401 m)) \<and>
    reset_password lib later db'' (data\<lparr>rpr_new_password := again\<rparr>) = auth_error 401 INVALID_OR_EXPIRED_RESET_TOKEN"
  using assms(6)
proof (cases rule: reset_password_Inr)
  case (1 t user hashed)
  from assms(5) have data: "rpr_token data = rtoken" "rpr_new_password data = password"
    by (auto simp: make_ResetPasswordRequest_def split: if_splits)
  have ok': "auth_ok lib db'" using auth_step.reset [OF assms(5,6)] assms(4) by (rule auth_step_ok)
  then have ok'': "auth_unique_ok db''" using accounts.run_keeps [OF assms(7)] by (simp add: auth_ok_def)
  note gone = session_rows.run_spent [OF assms(1,7) revoked_sessions_spent [OF assms(4) _ _ 1(7)]]
  note burnt = reset_rows.run_spent [OF assms(2,7) used_token_spent [OF assms(4) 1(1) _ 1(6)]]
  show ?thesis
  proof (rule exI [of _ t], rule exI [of _ user], intro conjI ballI allI impI)
    show "get_reset_token lib db rtoken = Inr (Some t)" "get_user db (prt_user_id t) = Some user" using 1(1,4) data by simp_all
    have "verify_password lib password hashed" using assms(3) 1(10) data by (simp add: verify_password_def)
    with reset_then_login [OF assms(1) ok' _ _ 1(5)] show "\<exists>res db2. login lib later db' (au_email user) password = Inr (res, db2)"
      using assms(4) 1(4) data by (auto simp: auth_ok_def dest: get_user_mem)
    show "\<exists>m. refresh_tokens lib later db'' token = auth_error 401 m"
      if "session \<in> set (ad_sessions db)" "as_user_id session = au_id user"
        "\<forall>payload. decode_token lib later token = Some payload \<longrightarrow> claim (cl_sid payload) = Some (as_id session)" for session token
      by (rule refresh_spent [OF gone]) (use that 1(8) in simp_all)
    show "reset_password lib later db'' (data\<lparr>rpr_new_password := again\<rparr>) = auth_error 401 INVALID_OR_EXPIRED_RESET_TOKEN"
      by (rule reset_spent [OF ok'']) (use burnt 1(8) in simp)
  qed
qed

lemma find_appended: "List.find P xs = None \<Longrightarrow> List.find P (xs @ ys) = List.find P ys"
  by (induction xs) (auto split: if_splits)

text \<open>The token of a fresh session, while the session lasts.\<close>

lemma refresh_session_fresh:
  assumes "auth_ok lib db" and "inj (lib_uuid lib)" and "lib_uuid lib (ad_draws db) \<noteq> []" and "sub \<noteq> []"
    and "ad_sessions db' = ad_sessions db @ [session]" and "as_id session = lib_uuid lib (ad_draws db)" and "\<not> revoked session"
    and "as_refresh_token_hash session = hash_token lib token" and "as_expires_at session = Aware expiry" and "later < expiry"
    and "decode_token lib later token = Some (refresh_claims lib now j sub roles (lib_uuid lib (ad_draws db)))"
  shows "refresh_session lib later db' token = Inr (session, sub, roles)"
proof -
  have "lib_uuid lib (ad_draws db) \<notin> as_id ` set (ad_sessions db)"
    using assms(1) by (intro fresh_session_id [OF assms(2)]) (simp add: auth_ok_def)
  then have "List.find (\<lambda>s. as_id s = lib_uuid lib (ad_draws db)) (ad_sessions db) = None" by (auto simp: find_None_iff image_iff)
  then have "get_session db' (lib_uuid lib (ad_draws db)) = Some session"
    using assms(6) by (simp add: get_session_def assms(5) find_appended)
  moreover have "claim (Some w) = Some w" if "w \<noteq> []" for w using that by (cases w) (simp_all add: claim_def)
  ultimately show ?thesis using assms(3,4,7-11)
    by (simp add: refresh_session_def refresh_claims_def REFRESH_def ensure_utc_def)
qed

text \<open>
  What a run leaves of a live session: the row is as it was opened, and its account is there under the same identifier
  and e-mail. No command changes an e-mail, an account is deleted with its sessions, and a session row changes only
  when it is revoked.
\<close>

definition session_account :: "AuthLib \<Rightarrow> AuthSession \<Rightarrow> string \<Rightarrow> AuthDb \<Rightarrow> bool" where
  "session_account lib opened email db \<longleftrightarrow> (\<exists>n < ad_draws db. as_id opened = lib_uuid lib n) \<and>
     (\<forall>s \<in> set (ad_sessions db). as_id s = as_id opened \<and> \<not> revoked s \<longrightarrow>
       s = opened \<and> (\<exists>u \<in> set (ad_users db). au_id u = as_user_id opened \<and> au_email u = email))"

definition keeps_account :: "AuthDb \<Rightarrow> AuthDb \<Rightarrow> int \<Rightarrow> bool" where
  "keeps_account db db' uid \<longleftrightarrow> (\<forall>u \<in> set (ad_users db). au_id u = uid \<longrightarrow>
     (\<exists>u' \<in> set (ad_users db'). au_id u' = uid \<and> au_email u' = au_email u))"

lemma keeps_account_same: "set (ad_users db) \<subseteq> set (ad_users db') \<Longrightarrow> keeps_account db db' uid"
  by (auto simp: keeps_account_def)

lemma keeps_account_put:
  assumes "auth_unique_ok db" and "u \<in> set (ad_users db)" and "au_id v = au_id u" and "au_email v = au_email u"
    and "ad_users db' = put_row au_id v (ad_users db)"
  shows "keeps_account db db' uid"
  unfolding keeps_account_def
proof (intro ballI impI)
  fix w assume w: "w \<in> set (ad_users db)" "au_id w = uid"
  show "\<exists>u' \<in> set (ad_users db'). au_id u' = uid \<and> au_email u' = au_email w"
  proof (cases "w = u")
    case True
    with w assms(3,4,5) show ?thesis by (intro bexI [of _ v]) (auto simp: put_row_def)
  next
    case False
    then have "au_id w \<noteq> au_id v"
      using assms(1,2,3) w(1) by (auto simp: auth_unique_ok_def distinct_map dest: inj_onD)
    with w assms(5) show ?thesis by (intro bexI [of _ w]) (auto simp: put_row_def)
  qed
qed

text \<open>A live session after a step was there, unchanged, and its account was kept; or its identifier was drawn in the step.\<close>

lemma auth_step_session:
  assumes "auth_step lib db db'" and "auth_unique_ok db" and "s \<in> set (ad_sessions db')" and "\<not> revoked s"
  shows "s \<in> set (ad_sessions db) \<and> keeps_account db db' (as_user_id s) \<or> (\<exists>n \<ge> ad_draws db. as_id s = lib_uuid lib n)"
  using assms(1)
proof cases
  case (register email password rs data roles)
  then show ?thesis using assms(3) by (simp add: register_Inr(3,4) keeps_account_same subset_insertI)
next
  case (login now email password res)
  from login show ?thesis
  proof (cases rule: login_Inr)
    case (1 user)
    have "keeps_account db db' (as_user_id s)"
      using 1(1) by (intro keeps_account_put [OF assms(2) _ _ _ 1(7)]) (auto dest: get_user_by_email_mem)
    with assms(3) show ?thesis unfolding 1(6) by (auto simp: new_session_def)
  qed
next
  case (refresh now token res)
  then obtain session sub roles where "rotate_session lib now db (session, sub, roles) = Inr (res, db')" by (rule refresh_tokens_Inr)
  then show ?thesis
  proof (cases rule: rotate_session_Inr)
    case (1 user tokens)
    with assms(3,4) show ?thesis by (auto simp: new_session_def keeps_account_same dest!: in_put_row)
  qed
next
  case (logout now token ares)
  from logout_Inr [OF logout] assms(3,4) show ?thesis by (auto simp: put_session_def keeps_account_same dest!: in_put_row)
next
  case (forgot now email ares)
  from forgot_password_Inr [OF forgot] assms(3) show ?thesis by (auto simp: keeps_account_same)
next
  case (reset token password rdata now ares)
  from reset(2) show ?thesis
  proof (cases rule: reset_password_Inr)
    case (1 t user)
    have "keeps_account db db' (as_user_id s)"
      using 1(4) by (intro keeps_account_put [OF assms(2) _ _ _ 1(5)]) (auto dest: get_user_mem)
    with assms(3,4) show ?thesis unfolding 1(7) by (auto simp: revoke_active_sessions_def split: if_splits)
  qed
next
  case (update new_password new_roles udata uid ures)
  from update(2) show ?thesis
  proof (cases rule: update_auth_user_Inr)
    case (1 u v)
    then show ?thesis using assms(3) keeps_account_put [OF assms(2) 1(1,2,9,4)] by simp
  qed
next
  case (delete uid did)
  note del = delete_auth_user_Inr [OF delete]
  from assms(3) have "s \<in> set (ad_sessions db)" "as_user_id s \<noteq> uid" by (simp_all add: del(2))
  then show ?thesis by (auto simp: keeps_account_def del(1))
qed

interpretation live_session: conserving_system "auth_step lib"
  "\<lambda>db. inj (lib_uuid lib) \<and> auth_ok lib db \<and> session_account lib opened email db" "\<lambda>_. ()" for lib opened email
proof
  fix db db' assume step: "auth_step lib db db'" and inv: "inj (lib_uuid lib) \<and> auth_ok lib db \<and> session_account lib opened email db"
  have unique: "auth_unique_ok db" using inv by (simp add: auth_ok_def)
  have more: "ad_draws db \<le> ad_draws db'" using auth_step_ages_sessions [OF step] by (simp add: rows_age_def)
  from inv obtain n where n: "n < ad_draws db" "as_id opened = lib_uuid lib n" by (auto simp: session_account_def)
  have "s = opened \<and> (\<exists>u \<in> set (ad_users db'). au_id u = as_user_id opened \<and> au_email u = email)"
    if s: "s \<in> set (ad_sessions db')" "as_id s = as_id opened" "\<not> revoked s" for s
    using auth_step_session [OF step unique s(1,3)]
  proof
    assume old: "s \<in> set (ad_sessions db) \<and> keeps_account db db' (as_user_id s)"
    with inv s(2,3) have "s = opened \<and> (\<exists>u \<in> set (ad_users db). au_id u = as_user_id opened \<and> au_email u = email)"
      by (auto simp: session_account_def)
    with old show ?thesis by (auto simp: keeps_account_def)
  next
    assume "\<exists>m \<ge> ad_draws db. as_id s = lib_uuid lib m"
    then obtain m where "ad_draws db \<le> m" "lib_uuid lib m = lib_uuid lib n" using s(2) n(2) by auto
    with inv n(1) show ?thesis by (simp add: inj_eq)
  qed
  then have "session_account lib opened email db'" using n more by (auto simp: session_account_def intro!: exI [of _ n])
  with step inv show "(inj (lib_uuid lib) \<and> auth_ok lib db' \<and> session_account lib opened email db') \<and> () = ()"
    using auth_step_ok by blast
qed

lemma get_user_by_email_one:
  "auth_unique_ok db \<Longrightarrow> u \<in> set (ad_users db) \<Longrightarrow> get_user_by_email db (au_email u) = Inr (Some u)"
  unfolding get_user_by_email_def scalar_some by (rule filter_key_one) (simp_all add: auth_unique_ok_def)

text \<open>
  C24: login and refresh work together. With the right password a login succeeds and opens a session; and whatever
  requests are served after it, for as long as that session is there, not revoked and not expired, its refresh token
  buys a new pair: both tokens name the same account, with the roles the account has by then, not those of the old
  token, and the new session. Assumed: distinct non-empty identifiers, a non-empty e-mail, and that the JWT library
  decodes the refresh token of this login until it expires.
\<close>

theorem login_then_refresh:
  fixes user :: AuthUser
  defines "claims \<equiv> \<lambda>lib now n. refresh_claims lib now (n + 2) (au_email user) (au_roles user) (lib_uuid lib n)"
  assumes "inj (lib_uuid lib)" and "\<And>n. lib_uuid lib n \<noteq> []" and "auth_ok lib db" and "au_email user \<noteq> []"
    and "get_user_by_email db (au_email user) = Inr (Some user)" and "verify_password lib password (au_password user)"
    and "\<And>t. t \<le> cl_exp (claims lib now (ad_draws db)) \<Longrightarrow>
      jwt_decode lib t (jwt_encode lib (claims lib now (ad_draws db))) = Some (claims lib now (ad_draws db))"
  shows "\<exists>res db' opened. login lib now db (au_email user) password = Inr (res, db') \<and>
    get_session db' (lib_uuid lib (ad_draws db)) = Some opened \<and> \<not> revoked opened \<and>
    (\<forall>db'' session later. (auth_step lib)\<^sup>*\<^sup>* db' db'' \<and> get_session db'' (lib_uuid lib (ad_draws db)) = Some session \<and>
        \<not> revoked session \<and> later < now + REFRESH_TOKEN_TTL_DAYS lib * 86400000000 \<longrightarrow>
      (\<exists>account res2 db3. account \<in> set (ad_users db'') \<and> au_id account = au_id user \<and> au_email account = au_email user \<and>
        refresh_tokens lib later db'' (tpr_refresh_token res) = Inr (res2, db3) \<and>
        tpr_access_token res2 = jwt_encode lib (access_claims lib later (ad_draws db'' + 1) (au_email user)
          (au_roles account) (lib_uuid lib (ad_draws db''))) \<and>
        tpr_refresh_token res2 = jwt_encode lib (refresh_claims lib later (ad_draws db'' + 2) (au_email user)
          (au_roles account) (lib_uuid lib (ad_draws db'')))))"
proof -
  let ?email = "au_email user" and ?sid = "lib_uuid lib (ad_draws db)"
  obtain res db' where log: "login lib now db ?email password = Inr (res, db')"
    using login_succeeds [OF assms(4,2,6,7)] by blast
  define opened where "opened = new_session lib now ?sid (au_id user) (login_tokens lib now db ?email (au_roles user))"
  from log have after: "res = token_response now (login_tokens lib now db ?email (au_roles user))" "ad_draws db' = ad_draws db + 3"
    "ad_sessions db' = ad_sessions db @ [opened]"
    "ad_users db' = put_row au_id (user\<lparr>au_last_login_at := Some now\<rparr>) (ad_users db)"
    unfolding opened_def by (cases rule: login_Inr; use assms(6) in simp)+
  have tok: "tpr_refresh_token res = jwt_encode lib (claims lib now (ad_draws db))"
    by (simp add: after(1) token_response_def issue_token_pair_def claims_def numeral_2_eq_2)
  have row: "as_id opened = ?sid" "as_user_id opened = au_id user" "\<not> revoked opened"
    "as_refresh_token_hash opened = hash_token lib (tpr_refresh_token res)"
    "as_expires_at opened = Aware (now + REFRESH_TOKEN_TTL_DAYS lib * 86400000000)"
    by (simp_all add: opened_def new_session_def after(1) token_response_def issue_token_pair_def)
  have new: "?sid \<notin> as_id ` set (ad_sessions db)"
    using assms(4) by (intro fresh_session_id [OF assms(2)]) (simp add: auth_ok_def)
  then have "List.find (\<lambda>s. as_id s = ?sid) (ad_sessions db) = None" by (auto simp: find_None_iff image_iff)
  then have here: "get_session db' ?sid = Some opened" using row(1) by (simp add: get_session_def after(3) find_appended)
  have ok': "auth_ok lib db'" using auth_step.login [OF log] assms(4) by (rule auth_step_ok)
  have "user\<lparr>au_last_login_at := Some now\<rparr> \<in> set (ad_users db')"
    using assms(6) by (auto simp: after(4) put_row_def dest!: get_user_by_email_mem)
  moreover have "s = opened" if "s \<in> set (ad_sessions db')" "as_id s = ?sid" for s
    using that new by (auto simp: after(3) image_iff)
  ultimately have "session_account lib opened ?email db'"
    unfolding session_account_def row(1,2)
    by (intro conjI exI [of _ "ad_draws db"] ballI impI bexI [of _ "user\<lparr>au_last_login_at := Some now\<rparr>"]) (simp_all add: after(2))
  note start = conjI [OF assms(2) conjI [OF ok' this]]
  have "\<exists>account res2 db3. account \<in> set (ad_users db'') \<and> au_id account = au_id user \<and> au_email account = ?email \<and>
      refresh_tokens lib later db'' (tpr_refresh_token res) = Inr (res2, db3) \<and>
      tpr_access_token res2 = jwt_encode lib (access_claims lib later (ad_draws db'' + 1) ?email (au_roles account) (lib_uuid lib (ad_draws db''))) \<and>
      tpr_refresh_token res2 = jwt_encode lib (refresh_claims lib later (ad_draws db'' + 2) ?email (au_roles account) (lib_uuid lib (ad_draws db'')))"
    if run: "(auth_step lib)\<^sup>*\<^sup>* db' db''" and live: "get_session db'' ?sid = Some session" "\<not> revoked session"
      and early: "later < now + REFRESH_TOKEN_TTL_DAYS lib * 86400000000" for db'' session later
  proof -
    from live_session.run_keeps [OF run start] have ok: "auth_ok lib db''" and acc: "session_account lib opened ?email db''" by simp_all
    from get_session_mem [OF live(1)] have ses: "session \<in> set (ad_sessions db'')" "as_id session = ?sid" by simp_all
    with acc live(2) row(1,2) obtain account where same: "session = opened" and account: "account \<in> set (ad_users db'')"
      "au_id account = au_id user" "au_email account = ?email" by (auto simp: session_account_def)
    have found: "get_user_by_email db'' ?email = Inr (Some account)"
      using ok get_user_by_email_one [OF _ account(1)] account(3) by (simp add: auth_ok_def)
    have roles: "au_roles account \<noteq> []" using ok account(1) by (auto simp: auth_ok_def list_all_iff valid_roles_def)
    have "timestamp later \<le> cl_exp (claims lib now (ad_draws db))"
      using early by (simp add: claims_def refresh_claims_def timestamp_def zdiv_mono1)
    then have "decode_token lib later (tpr_refresh_token res) = Some (claims lib now (ad_draws db))"
      using assms(8) by (simp add: decode_token_def tok)
    moreover have "claim (Some w) = Some w" if "w \<noteq> []" for w using that by (cases w) (simp_all add: claim_def)
    ultimately have "refresh_session lib later db'' (tpr_refresh_token res) = Inr (opened, ?email, au_roles user)"
      using assms(3,5) live same row(3-5) early
      by (simp add: refresh_session_def claims_def refresh_claims_def REFRESH_def ensure_utc_def)
    moreover from rotate_session_succeeds [OF ok assms(2) found ses(1) _ _] same
    obtain res2 db3 where rot: "rotate_session lib later db'' (opened, ?email, au_roles user) = Inr (res2, db3)" by blast
    moreover have "res2 = token_response later (login_tokens lib later db'' ?email (au_roles account))"
      using rot
    proof (cases rule: rotate_session_Inr)
      case (1 v tokens)
      then have "v = account" using found by simp
      with 1(2,3) roles account(3) show ?thesis by simp
    qed
    ultimately show ?thesis using account
      by (intro exI [of _ account] exI [of _ res2] exI [of _ db3])
        (simp add: refresh_tokens_def token_response_def issue_token_pair_def numeral_2_eq_2)
  qed
  with log here row(3) show ?thesis by (intro exI [of _ res] exI [of _ db'] exI [of _ opened]) blast
qed

text \<open>
  Two requests that read the session before either commits are both served, so one refresh
  token yields two live sessions: the row is neither locked nor re-checked.
\<close>

lemma concurrent_refreshes_both_succeed:
  assumes "auth_ok lib db" and "inj (lib_uuid lib)" and "refresh_session lib now db token = Inr (session, sub, roles)"
    and "rotate_session lib now db (session, sub, roles) = Inr (res1, db1)"
  shows "\<exists>res2 db2. rotate_session lib now db1 (session, sub, roles) = Inr (res2, db2)"
proof -
  from assms(3) have mem: "session \<in> set (ad_sessions db)" by (cases rule: refresh_session_Inr) (simp add: get_session_mem)
  have "refresh_tokens lib now db token = Inr (res1, db1)" by (simp add: refresh_tokens_def assms(3,4))
  then have ok: "auth_ok lib db1" using assms(1) by (rule auth_step_ok [OF auth_step.refresh])
  from assms(4) show ?thesis
  proof (cases rule: rotate_session_Inr)
    case (1 user tokens)
    have user: "get_user_by_email db1 sub = Inr (Some user)" using 1(1) by (simp add: get_user_by_email_def 1(7))
    have "session\<lparr>as_revoked_at := Some now\<rparr> \<in> set (ad_sessions db1)" using mem by (auto simp: 1(6) put_row_def)
    then show ?thesis by (rule rotate_session_succeeds [OF ok assms(2) user]) simp_all
  qed
qed


section \<open>Concrete runs\<close>

text \<open>Toy libraries: identifiers in unary, no hashing, and tokens of the one account of the example.\<close>

definition example_uuid :: "nat \<Rightarrow> string" where
  "example_uuid n = replicate (Suc n) CHR ''u''"

definition example_decode :: "int \<Rightarrow> string \<Rightarrow> Claims option" where
  "example_decode t s = (case s of
     c # sid \<Rightarrow> if c = CHR ''r'' \<and> t \<le> 2592000 then Some \<lparr>cl_sub = Some ''ann@x'', cl_roles = Some [''user''], cl_iat = 0,
       cl_exp = 2592000, cl_jti = sid @ ''uu'', cl_sid = Some sid, cl_typ = Some REFRESH\<rparr> else None
   | [] \<Rightarrow> None)"

definition example_lib :: AuthLib where
  "example_lib = \<lparr>jwt_encode = (\<lambda>c. (if cl_typ c = Some REFRESH then CHR ''r'' else CHR ''a'') # the (cl_sid c)),
     jwt_decode = example_decode, sha256_hex = (\<lambda>s. s), bcrypt_hashpw = (\<lambda>n raw. if length raw \<le> 72 then Some raw else None),
     bcrypt_checkpw = (\<lambda>raw hashed. Some (raw = hashed)), lib_uuid = example_uuid, token_urlsafe = (\<lambda>n. replicate n CHR ''t''),
     smtp_send = (\<lambda>email url. True), ACCESS_TOKEN_TTL_MIN = 15, REFRESH_TOKEN_TTL_DAYS = 30, PASSWORD_RESET_TOKEN_TTL_MIN = 60,
     PASSWORD_RESET_INCLUDE_DEBUG_TOKEN = False, PASSWORD_RESET_BASE_URL = ''http://localhost:3000/reset-password'',
     PASSWORD_RESET_EMAIL_BACKEND = ''console'', SMTP_HOST = None\<rparr>"

definition example_ann :: AuthUser where
  "example_ann = \<lparr>au_id = 1, au_email = ''ann@x'', au_password = ''secret'', au_roles = [''user''], au_last_login_at = None\<rparr>"

definition example_accounts :: AuthDb where
  "example_accounts = \<lparr>ad_users = [example_ann], ad_sessions = [], ad_resets = [], ad_next_id = 2, ad_draws = 0\<rparr>"

text \<open>The account with a session, the identifier of which was drawn first, and a reset token, drawn second.\<close>

definition example_sessions :: AuthDb where
  "example_sessions = example_accounts\<lparr>ad_sessions := [\<lparr>as_id = ''u'', as_user_id = 1, as_refresh_token_hash = ''ru'',
       as_expires_at = Aware 2592000000000, as_revoked_at = None, as_last_seen_at = 0\<rparr>],
     ad_resets := [\<lparr>prt_id = ''uuu'', prt_user_id = 1, prt_token_hash = ''t'', prt_expires_at = Aware 3600000000, prt_used_at = None\<rparr>],
     ad_draws := 3\<rparr>"

lemma example_laws:
  "inj (lib_uuid example_lib)" "inj (reset_hash example_lib)" "lib_uuid example_lib n \<noteq> []"
  "bcrypt_hashpw example_lib n p = Some hashed \<Longrightarrow> bcrypt_checkpw example_lib p hashed = Some True"
  "jwt_decode example_lib t token = Some c \<Longrightarrow> jwt_decode example_lib u token = Some d \<Longrightarrow> d = c"
proof -
  have "inj (\<lambda>n. replicate (f n) x)" if "inj f" for f :: "nat \<Rightarrow> nat" and x :: char
    using that by (auto simp: inj_def replicate_eq_replicate)
  from this [of Suc "CHR ''u''"] this [of "\<lambda>n. n" "CHR ''t''"]
  show "inj (lib_uuid example_lib)" "inj (reset_hash example_lib)"
    by (simp_all add: example_lib_def example_uuid_def hash_token_def inj_on_def)
  show "lib_uuid example_lib n \<noteq> []" by (simp add: example_lib_def example_uuid_def)
  show "bcrypt_checkpw example_lib p hashed = Some True" if "bcrypt_hashpw example_lib n p = Some hashed"
    using that by (auto simp: example_lib_def split: if_splits)
  show "d = c" if "jwt_decode example_lib t token = Some c" "jwt_decode example_lib u token = Some d"
    using that by (auto simp: example_lib_def example_decode_def split: list.splits if_splits)
qed

lemma example_accounts_ok: "auth_ok example_lib example_accounts"
  by (simp add: auth_ok_def auth_unique_ok_def example_accounts_def example_ann_def keys_drawn_def valid_roles_def ALLOWED_ROLES_def)

lemma example_sessions_ok: "auth_ok example_lib example_sessions"
proof -
  have "auth_unique_ok example_sessions" by code_simp
  moreover have "list_all (\<lambda>u. valid_roles (au_roles u)) (ad_users example_sessions)" by code_simp
  moreover have "keys_drawn as_id (lib_uuid example_lib) (session_table example_sessions)"
    by (auto simp: keys_drawn_def example_sessions_def example_lib_def example_uuid_def intro!: exI [of _ 0])
  moreover have "keys_drawn prt_token_hash (reset_hash example_lib) (reset_table example_sessions)"
    by (auto simp: keys_drawn_def example_sessions_def example_lib_def hash_token_def intro!: exI [of _ 1])
  ultimately show ?thesis by (simp add: auth_ok_def)
qed

lemma example_runs:
  "\<not> isl (refresh_tokens example_lib 1000000 example_sessions ''ru'')"
  "\<not> isl (reset_password example_lib 1000000 example_sessions \<lparr>rpr_token = ''t'', rpr_new_password = ''better''\<rparr>)"
  by code_simp+

lemma example_refresh: "\<exists>res db'. refresh_tokens example_lib 1000000 example_sessions ''ru'' = Inr (res, db')"
  using example_runs(1) by (cases "refresh_tokens example_lib 1000000 example_sessions ''ru''") auto

lemma example_reset:
  "\<exists>ares db'. reset_password example_lib 1000000 example_sessions \<lparr>rpr_token = ''t'', rpr_new_password = ''better''\<rparr> = Inr (ares, db')"
  using example_runs(2)
  by (cases "reset_password example_lib 1000000 example_sessions \<lparr>rpr_token = ''t'', rpr_new_password = ''better''\<rparr>") auto

theorem accounts_well_formed_witness:
  "\<exists>res db'. refresh_tokens example_lib 1000000 example_sessions ''ru'' = Inr (res, db') \<and> auth_ok example_lib db' \<and>
     get_user_by_email db' ''ann@x'' \<noteq> Inl MultipleResultsFound"
proof -
  obtain res db' where run: "refresh_tokens example_lib 1000000 example_sessions ''ru'' = Inr (res, db')"
    using example_refresh by blast
  then have "(auth_step example_lib)\<^sup>*\<^sup>* example_sessions db'" by (intro r_into_rtranclp auth_step.refresh)
  from accounts_well_formed [OF this example_sessions_ok, of "''ann@x''"] run show ?thesis by blast
qed

theorem refresh_token_single_use_witness:
  "\<exists>res db' m. refresh_tokens example_lib 1000000 example_sessions ''ru'' = Inr (res, db') \<and>
     refresh_tokens example_lib 2000000 db' ''ru'' = auth_error 401 m"
proof -
  obtain res db' where run: "refresh_tokens example_lib 1000000 example_sessions ''ru'' = Inr (res, db')"
    using example_refresh by blast
  have "(\<exists>session \<in> set (ad_sessions db'). \<not> revoked session \<and> as_id session = lib_uuid example_lib (ad_draws example_sessions) \<and>
      as_refresh_token_hash session = hash_token example_lib (tpr_refresh_token res)) \<and>
    (\<exists>m. refresh_tokens example_lib 2000000 db' ''ru'' = auth_error 401 m)"
    by (rule refresh_token_single_use [OF example_laws(1) _ example_sessions_ok run rtranclp.rtrancl_refl]) (rule example_laws(5))
  with run show ?thesis by blast
qed

theorem reset_password_takes_over_witness:
  "\<exists>ares db'. reset_password example_lib 1000000 example_sessions \<lparr>rpr_token = ''t'', rpr_new_password = ''better''\<rparr> = Inr (ares, db') \<and>
     reset_password example_lib 2000000 db' \<lparr>rpr_token = ''t'', rpr_new_password = ''stolen''\<rparr> = auth_error 401 INVALID_OR_EXPIRED_RESET_TOKEN"
proof -
  obtain ares db' where run: "reset_password example_lib 1000000 example_sessions \<lparr>rpr_token = ''t'', rpr_new_password = ''better''\<rparr> = Inr (ares, db')"
    using example_reset by blast
  have data: "make_ResetPasswordRequest ''t'' ''better'' = Inr \<lparr>rpr_token = ''t'', rpr_new_password = ''better''\<rparr>" by code_simp
  note effects = reset_password_takes_over [where later = 2000000 and again = "''stolen''",
    OF example_laws(1,2) _ example_sessions_ok data run rtranclp.rtrancl_refl]
  have "reset_password example_lib 2000000 db' \<lparr>rpr_token = ''t'', rpr_new_password = ''stolen''\<rparr> = auth_error 401 INVALID_OR_EXPIRED_RESET_TOKEN"
    by (rule effects [THEN exE], erule example_laws(4)) (elim exE conjE, simp)
  with run show ?thesis by blast
qed

text \<open>Ann logs in and is made an administrator; the next day her refresh token buys tokens with the new role.\<close>

definition logged_in :: "(TokenPairResponse \<times> AuthDb) result" where
  "logged_in = login example_lib 0 example_accounts ''ann@x'' ''secret''"

definition promotion :: "UpdateAuthUser result" where
  "promotion = make_UpdateAuthUser None (Some [''Admin''])"

definition promoted :: "(AuthUserResponse \<times> AuthDb) result" where
  "promoted = update_auth_user example_lib (snd (the_ok logged_in)) 1 (the_ok promotion)"

lemma promoted_run: "(auth_step example_lib)\<^sup>*\<^sup>* (snd (the_ok logged_in)) (snd (the_ok promoted))"
proof -
  have "is_ok promotion" "is_ok promoted" by code_simp+
  note run = this [THEN is_okD]
  have "auth_step example_lib (snd (the_ok logged_in)) (snd (the_ok promoted))"
    using run by (intro auth_step.update [of None "Some [''Admin'']" "the_ok promotion" _ _ 1 "fst (the_ok promoted)"])
      (simp_all add: promotion_def promoted_def)
  then show ?thesis by (rule r_into_rtranclp)
qed

lemma promoted_reads:
  "is_ok logged_in" "map au_roles (ad_users (snd (the_ok promoted))) = [[''admin'']]" "ad_draws (snd (the_ok promoted)) = 3"
  "map_option (\<lambda>s. as_revoked_at s = None) (get_session (snd (the_ok promoted)) (lib_uuid example_lib (ad_draws example_accounts))) = Some True"
  by code_simp+

theorem login_then_refresh_witness:
  "\<exists>res2 db3. refresh_tokens example_lib 86400000000 (snd (the_ok promoted)) (tpr_refresh_token (fst (the_ok logged_in))) = Inr (res2, db3) \<and>
     tpr_access_token res2 = jwt_encode example_lib (access_claims example_lib 86400000000 4 ''ann@x'' [''admin''] (lib_uuid example_lib 3))"
proof -
  let ?c = "refresh_claims example_lib 0 (ad_draws example_accounts + 2) (au_email example_ann) (au_roles example_ann)
    (lib_uuid example_lib (ad_draws example_accounts))" and ?db = "snd (the_ok promoted)"
  have found: "get_user_by_email example_accounts (au_email example_ann) = Inr (Some example_ann)" by code_simp
  have pw: "verify_password example_lib ''secret'' (au_password example_ann)" by code_simp
  have email: "au_email example_ann \<noteq> []" and ann: "au_email example_ann = ''ann@x''" by code_simp+
  have dec: "jwt_decode example_lib t (jwt_encode example_lib ?c) = Some ?c" if "t \<le> cl_exp ?c" for t
  proof -
    have "cl_exp ?c = 2592000" "jwt_encode example_lib ?c = ''ru''" by code_simp+
    moreover have "?c = \<lparr>cl_sub = Some ''ann@x'', cl_roles = Some [''user''], cl_iat = 0, cl_exp = 2592000,
      cl_jti = ''uuu'', cl_sid = Some ''u'', cl_typ = Some REFRESH\<rparr>" by code_simp
    ultimately show ?thesis using that by (simp add: example_lib_def example_decode_def)
  qed
  have early: "(86400000000::int) < 0 + REFRESH_TOKEN_TTL_DAYS example_lib * 86400000000" by code_simp
  obtain session where live: "get_session ?db (lib_uuid example_lib (ad_draws example_accounts)) = Some session" "\<not> revoked session"
    using promoted_reads(4) by auto
  have "\<exists>res db'. login example_lib 0 example_accounts (au_email example_ann) ''secret'' = Inr (res, db') \<and>
      ((auth_step example_lib)\<^sup>*\<^sup>* db' ?db \<longrightarrow> (\<exists>account res2 db3. account \<in> set (ad_users ?db) \<and>
        refresh_tokens example_lib 86400000000 ?db (tpr_refresh_token res) = Inr (res2, db3) \<and>
        tpr_access_token res2 = jwt_encode example_lib (access_claims example_lib 86400000000 (ad_draws ?db + 1) (au_email example_ann)
          (au_roles account) (lib_uuid example_lib (ad_draws ?db)))))"
    using login_then_refresh [where now = 0, OF example_laws(1,3) example_accounts_ok email found pw]
    apply -
    apply (drule meta_mp, rule dec, assumption)
    apply (elim exE conjE)
    apply (drule spec [where x = ?db], drule spec [where x = session], drule spec [where x = 86400000000])
    apply (use live early in fastforce)
    done
  then obtain res db' where log: "login example_lib 0 example_accounts (au_email example_ann) ''secret'' = Inr (res, db')"
    and later: "(auth_step example_lib)\<^sup>*\<^sup>* db' ?db \<longrightarrow> (\<exists>account res2 db3. account \<in> set (ad_users ?db) \<and>
        refresh_tokens example_lib 86400000000 ?db (tpr_refresh_token res) = Inr (res2, db3) \<and>
        tpr_access_token res2 = jwt_encode example_lib (access_claims example_lib 86400000000 (ad_draws ?db + 1) (au_email example_ann)
          (au_roles account) (lib_uuid example_lib (ad_draws ?db))))" by blast
  have same: "fst (the_ok logged_in) = res" "snd (the_ok logged_in) = db'"
    using log by (simp_all add: logged_in_def ann)
  from later promoted_run obtain account res2 db3 where
    out: "account \<in> set (ad_users ?db)" "refresh_tokens example_lib 86400000000 ?db (tpr_refresh_token res) = Inr (res2, db3)"
      "tpr_access_token res2 = jwt_encode example_lib (access_claims example_lib 86400000000 (ad_draws ?db + 1) (au_email example_ann)
        (au_roles account) (lib_uuid example_lib (ad_draws ?db)))" unfolding same by blast
  have "au_roles account \<in> set (map au_roles (ad_users ?db))" using out(1) by simp
  then have "au_roles account = [''admin'']" unfolding promoted_reads(2) by simp
  with out show ?thesis unfolding same promoted_reads(3) by (simp add: ann)
qed

end
