(* ===== verification/User_Service.thy ===== *)
theory User_Service
  imports Game_Db Hand_Ledger Outbox_Worker
begin

text \<open>
  user-service: profiles, each command leaving an event in the outbox (\<^verbatim>\<open>app/application\<close> and
  \<^verbatim>\<open>app/domain\<close> of \<^verbatim>\<open>services/user-service\<close>, \<^verbatim>\<open>shared/schemas/users.py\<close>), and what a service that
  only reads the events knows of the profiles.
\<close>

section \<open>domain/constants.py and domain/models.py\<close>

datatype UserEventType = USER_CREATED | USER_UPDATED | USER_DELETED

primrec UserEventType_value :: "UserEventType \<Rightarrow> string" where
  "UserEventType_value USER_CREATED = ''user.created''"
| "UserEventType_value USER_UPDATED = ''user.updated''"
| "UserEventType_value USER_DELETED = ''user.deleted''"

datatype UserDataKey = UK_EMAIL | UK_DISPLAY_NAME | UK_FIRST_NAME | UK_LAST_NAME

primrec UserDataKey_value :: "UserDataKey \<Rightarrow> string" where
  "UserDataKey_value UK_EMAIL = ''email''"
| "UserDataKey_value UK_DISPLAY_NAME = ''display_name''"
| "UserDataKey_value UK_FIRST_NAME = ''first_name''"
| "UserDataKey_value UK_LAST_NAME = ''last_name''"

datatype UserErrorMessage = USER_ALREADY_EXISTS | USER_NOT_FOUND

primrec UserErrorMessage_value :: "UserErrorMessage \<Rightarrow> string" where
  "UserErrorMessage_value USER_ALREADY_EXISTS = ''User already exists''"
| "UserErrorMessage_value USER_NOT_FOUND = ''User not found''"

definition user_error :: "int \<Rightarrow> UserErrorMessage \<Rightarrow> 'a result" where
  "user_error status m = Inl (HTTPException status (UserErrorMessage_value m))"

record User =
  us_id :: int
  us_email :: string
  us_display_name :: "string option"
  us_first_name :: "string option"
  us_last_name :: "string option"
  us_created_at :: int

type_synonym user_event_data = "(UserDataKey \<times> json) list"
type_synonym user_event = "(UserEventType, user_event_data) Event"

record UserDb =
  udb_users :: "User list"
  udb_outbox :: "(UserEventType, user_event_data) OutboxEvent list"
  udb_next_id :: int
  udb_uuid :: nat

record UserEnv =
  ue_uuid :: "nat \<Rightarrow> string"
  ue_now :: int

definition user_unique_ok :: "UserDb \<Rightarrow> bool" where
  "user_unique_ok db \<longleftrightarrow> distinct (map us_id (udb_users db)) \<and> distinct (map us_email (udb_users db)) \<and>
     distinct (map ox_event_id (udb_outbox db))"

definition user_commit :: "UserDb \<Rightarrow> UserDb result" where
  "user_commit db = (if user_unique_ok db then Inr db else Inl IntegrityError)"

text \<open>\<^verbatim>\<open>build_event\<close> with the service's name, and \<^verbatim>\<open>add_outbox_event\<close>.\<close>

definition user_event_of :: "UserEnv \<Rightarrow> UserDb \<Rightarrow> UserEventType \<Rightarrow> user_event_data \<Rightarrow> user_event" where
  "user_event_of env db event_type data = \<lparr>ev_event_id = ue_uuid env (udb_uuid db), ev_event_type = event_type,
     ev_occurred_at = ue_now env, ev_source = ''user-service'', ev_data = data\<rparr>"

definition emit_user :: "UserEnv \<Rightarrow> UserEventType \<Rightarrow> user_event_data \<Rightarrow> UserDb \<Rightarrow> UserDb" where
  "emit_user env event_type data db = (let event = user_event_of env db event_type data in
     db\<lparr>udb_outbox := udb_outbox db @
          [\<lparr>ox_event_id = ev_event_id event, ox_event_type = event_type, ox_routing_key = event_type, ox_payload = event,
            ox_status = PENDING, ox_attempts = 0, ox_last_error = None, ox_published_at = None\<rparr>],
        udb_uuid := Suc (udb_uuid db)\<rparr>)"


section \<open>shared/schemas/users.py and application/mappers.py\<close>

record CreateUser =
  cu_email :: string
  cu_display_name :: "string option"
  cu_first_name :: "string option"
  cu_last_name :: "string option"

record UpdateUser =
  uu_display_name :: "string option"
  uu_first_name :: "string option"
  uu_last_name :: "string option"

record UserResponse =
  ur_email :: string
  ur_display_name :: "string option"
  ur_first_name :: "string option"
  ur_last_name :: "string option"
  ur_created_at :: int

definition to_response :: "User \<Rightarrow> UserResponse" where
  "to_response u = \<lparr>ur_email = us_email u, ur_display_name = us_display_name u, ur_first_name = us_first_name u,
     ur_last_name = us_last_name u, ur_created_at = us_created_at u\<rparr>"


section \<open>application/commands and application/queries\<close>

definition fetch_user :: "UserDb \<Rightarrow> string \<Rightarrow> User result" where
  "fetch_user db email = bindE (scalar_one_or_none (filter (\<lambda>u. us_email u = email) (udb_users db))) (\<lambda>obj.
     case obj of None \<Rightarrow> user_error 404 USER_NOT_FOUND | Some u \<Rightarrow> Inr u)"

definition event_data_of :: "string \<Rightarrow> string option \<Rightarrow> string option \<Rightarrow> string option \<Rightarrow> user_event_data" where
  "event_data_of email display first last' = [(UK_EMAIL, JStr email), (UK_DISPLAY_NAME, JStr_opt display),
     (UK_FIRST_NAME, JStr_opt first), (UK_LAST_NAME, JStr_opt last')]"

definition create_user :: "UserEnv \<Rightarrow> UserDb \<Rightarrow> CreateUser \<Rightarrow> (UserResponse \<times> UserDb) result" where
  "create_user env db data =
     bindE (scalar_one_or_none (filter (\<lambda>u. us_email u = cu_email data) (udb_users db))) (\<lambda>existing.
     if existing \<noteq> None then user_error 409 USER_ALREADY_EXISTS
     else let u = \<lparr>us_id = udb_next_id db, us_email = cu_email data, us_display_name = cu_display_name data,
                us_first_name = cu_first_name data, us_last_name = cu_last_name data, us_created_at = ue_now env\<rparr> in
       bindE (user_commit (emit_user env USER_CREATED
           (event_data_of (cu_email data) (cu_display_name data) (cu_first_name data) (cu_last_name data))
           (db\<lparr>udb_users := udb_users db @ [u], udb_next_id := udb_next_id db + 1\<rparr>))) (\<lambda>db1.
       Inr (to_response u, db1)))"

text \<open>\<^verbatim>\<open>apply_partial_update\<close> on the three names: a value that is None leaves the attribute alone.\<close>

definition keep_or :: "'a option \<Rightarrow> 'a option \<Rightarrow> 'a option" where
  "keep_or new old = (if new \<noteq> None then new else old)"

definition apply_partial_update :: "User \<Rightarrow> UpdateUser \<Rightarrow> User" where
  "apply_partial_update u data = u\<lparr>us_display_name := keep_or (uu_display_name data) (us_display_name u),
     us_first_name := keep_or (uu_first_name data) (us_first_name u),
     us_last_name := keep_or (uu_last_name data) (us_last_name u)\<rparr>"

definition update_user :: "UserEnv \<Rightarrow> UserDb \<Rightarrow> string \<Rightarrow> UpdateUser \<Rightarrow> (UserResponse \<times> UserDb) result" where
  "update_user env db email data = bindE (fetch_user db email) (\<lambda>u0.
     let u = apply_partial_update u0 data in
     bindE (user_commit (emit_user env USER_UPDATED
         (event_data_of (us_email u) (us_display_name u) (us_first_name u) (us_last_name u))
         (db\<lparr>udb_users := put_row us_id u (udb_users db)\<rparr>))) (\<lambda>db1.
     Inr (to_response u, db1)))"

definition delete_user :: "UserEnv \<Rightarrow> UserDb \<Rightarrow> string \<Rightarrow> (string \<times> UserDb) result" where
  "delete_user env db email = bindE (fetch_user db email) (\<lambda>u.
     bindE (user_commit (emit_user env USER_DELETED [(UK_EMAIL, JStr email)]
         (db\<lparr>udb_users := filter (\<lambda>x. us_id x \<noteq> us_id u) (udb_users db)\<rparr>))) (\<lambda>db1.
     Inr (email, db1)))"

definition list_users :: "UserDb \<Rightarrow> nat \<Rightarrow> nat \<Rightarrow> UserResponse list" where
  "list_users db limit offset = map to_response (take limit (drop offset (sort_key us_id (udb_users db))))"

definition get_user :: "UserDb \<Rightarrow> string \<Rightarrow> UserResponse result" where
  "get_user db email = bindE (fetch_user db email) (\<lambda>u. Inr (to_response u))"


section \<open>The profiles as told by the events\<close>

text \<open>A profile, and the profiles of the table by e-mail.\<close>

type_synonym profile = "string option \<times> string option \<times> string option"

definition profile_of :: "User \<Rightarrow> profile" where
  "profile_of u = (us_display_name u, us_first_name u, us_last_name u)"

definition profiles :: "User list \<Rightarrow> string \<rightharpoonup> profile" where
  "profiles users email = map_option profile_of (List.find (\<lambda>u. us_email u = email) users)"

text \<open>A reader of the events: it stores what a created or updated profile says and forgets a deleted one.\<close>

definition json_str :: "json option \<Rightarrow> string option" where
  "json_str j = (case j of Some (JStr s) \<Rightarrow> Some s | _ \<Rightarrow> None)"

definition apply_user_event :: "(string \<rightharpoonup> profile) \<Rightarrow> user_event \<Rightarrow> (string \<rightharpoonup> profile)" where
  "apply_user_event m e = (case json_str (dict_get (ev_data e) UK_EMAIL) of
     None \<Rightarrow> m
   | Some email \<Rightarrow>
       if ev_event_type e = USER_DELETED then m(email := None)
       else m(email \<mapsto> (json_str (dict_get (ev_data e) UK_DISPLAY_NAME), json_str (dict_get (ev_data e) UK_FIRST_NAME),
         json_str (dict_get (ev_data e) UK_LAST_NAME))))"

definition replay_users :: "user_event list \<Rightarrow> (string \<rightharpoonup> profile)" where
  "replay_users es = foldl apply_user_event Map.empty es"

interpretation user_events: event_sourced Map.empty apply_user_event replay_users
  by unfold_locales (simp_all add: replay_users_def)

lemma apply_event_data:
  "t \<noteq> USER_DELETED \<Longrightarrow> apply_user_event m (user_event_of env db t (event_data_of email d f l)) = m(email \<mapsto> (d, f, l))"
  "apply_user_event m (user_event_of env db USER_DELETED [(UK_EMAIL, JStr email)]) = m(email := None)"
  by (auto simp: apply_user_event_def user_event_of_def event_data_of_def dict_get_def json_str_def JStr_opt_def split: option.splits)

lemma emit_user_fields [simp]:
  "udb_users (emit_user env t data db) = udb_users db"
  "map ox_payload (udb_outbox (emit_user env t data db)) = map ox_payload (udb_outbox db) @ [user_event_of env db t data]"
  by (simp_all add: emit_user_def Let_def)

lemma profiles_snoc:
  assumes "\<forall>u \<in> set users. us_email u \<noteq> us_email v"
  shows "profiles (users @ [v]) = (profiles users)(us_email v \<mapsto> profile_of v)"
  using assms by (induction users) (auto simp: profiles_def fun_eq_iff)

lemma profiles_put:
  assumes "distinct (map us_id users)" and "distinct (map us_email users)" and "u \<in> set users"
    and "us_id v = us_id u" and "us_email v = us_email u"
  shows "profiles (put_row us_id v users) = (profiles users)(us_email u \<mapsto> profile_of v)"
  using assms
proof (induction users)
  case (Cons x users)
  show ?case
  proof (cases "x = u")
    case True
    then have "put_row us_id v users = users" using Cons.prems by (auto simp: put_row_def image_iff intro!: map_idI)
    with True Cons.prems show ?thesis by (auto simp: profiles_def put_row_def fun_eq_iff)
  next
    case False
    with Cons.prems have "us_id x \<noteq> us_id u" "us_email x \<noteq> us_email u" by (auto simp: rev_image_eqI)
    with False Cons show ?thesis by (auto simp: profiles_def put_row_def fun_eq_iff)
  qed
qed simp

lemma profiles_delete:
  assumes "distinct (map us_id users)" and "distinct (map us_email users)" and "u \<in> set users"
  shows "profiles (filter (\<lambda>x. us_id x \<noteq> us_id u) users) = (profiles users)(us_email u := None)"
  using assms
proof (induction users)
  case (Cons x users)
  show ?case
  proof (cases "x = u")
    case True
    then have "filter (\<lambda>x. us_id x \<noteq> us_id u) users = users" "\<forall>y \<in> set users. us_email y \<noteq> us_email u"
      using Cons.prems by (auto simp: filter_id_conv rev_image_eqI)
    with True show ?thesis by (auto simp: profiles_def fun_eq_iff find_None_iff)
  next
    case False
    with Cons.prems have "us_id x \<noteq> us_id u" "us_email x \<noteq> us_email u" by (auto simp: rev_image_eqI)
    with False Cons show ?thesis by (auto simp: profiles_def fun_eq_iff)
  qed
qed simp


section \<open>Runs\<close>

text \<open>
  The commands, in any order and by any caller, and the iterations of the outbox worker, which
  change the status of the rows.
\<close>

inductive user_step :: "UserDb \<Rightarrow> UserDb \<Rightarrow> bool" where
  create: "create_user env db data = Inr (res, db') \<Longrightarrow> user_step db db'"
| update: "update_user env db email udata = Inr (res, db') \<Longrightarrow> user_step db db'"
| delete: "delete_user env db email = Inr (gone, db') \<Longrightarrow> user_step db db'"
| worker: "loop_step max_attempts batch_size (udb_outbox db, log) it = (rows, log') \<Longrightarrow> user_step db (db\<lparr>udb_outbox := rows\<rparr>)"

definition events_agree :: "UserDb \<Rightarrow> bool" where
  "events_agree db \<longleftrightarrow> user_unique_ok db \<and> replay_users (map ox_payload (udb_outbox db)) = profiles (udb_users db)"

lemma process_event_payloads:
  assumes "process_event now m publish (rows, log) ev = (rows', log')"
  shows "map ox_payload rows' = map ox_payload rows \<and> map ox_event_id rows' = map ox_event_id rows"
  using assms by (auto simp: process_event_def mark_sent_def mark_failure_def Let_def split: option.splits)

lemma poll_payloads:
  assumes "foldl (process_event now m publish) (rows, log) evs = (rows', log')"
  shows "map ox_payload rows' = map ox_payload rows \<and> map ox_event_id rows' = map ox_event_id rows"
  using assms
proof (induction evs arbitrary: rows log)
  case (Cons ev evs)
  obtain rows1 log1 where one: "process_event now m publish (rows, log) ev = (rows1, log1)" by fastforce
  from Cons.IH [of rows1 log1] Cons.prems process_event_payloads [OF one] show ?case by (simp add: one)
qed simp

lemma loop_step_payloads:
  assumes "loop_step m n (rows, log) it = (rows', log')"
  shows "map ox_payload rows' = map ox_payload rows \<and> map ox_event_id rows' = map ox_event_id rows"
proof -
  obtain rows1 published where poll: "poll_once (it_now it) m n (it_locked it) (it_publish it) rows = (rows1, published)" by fastforce
  from poll_payloads [OF this [unfolded poll_once_def]] assms show ?thesis
    by (auto simp: loop_step_def poll split: option.splits)
qed

lemma user_error_neq [simp]: "user_error status m \<noteq> Inr x" by (simp add: user_error_def)

lemma user_commit_Inr: "user_commit db = Inr db' \<longleftrightarrow> user_unique_ok db \<and> db' = db"
  by (auto simp: user_commit_def)

lemma fetch_user_Inr: "fetch_user db email = Inr u \<Longrightarrow> u \<in> set (udb_users db) \<and> us_email u = email"
  by (auto simp: fetch_user_def bindE_simps scalar_some filter_eq_Cons_iff split: option.splits)

lemma events_agree_emit:
  assumes "events_agree db" and "db' = emit_user env t data db0 \<and> user_unique_ok db'" and "udb_outbox db0 = udb_outbox db"
    and "profiles (udb_users db0) = apply_user_event (profiles (udb_users db)) (user_event_of env db0 t data)"
  shows "events_agree db'"
  using assms by (auto simp: events_agree_def user_events.rebuild_snoc)

lemma user_step_agree:
  assumes "user_step db db'" and "events_agree db"
  shows "events_agree db'"
  using assms(1)
proof cases
  case (create env data res)
  let ?u = "\<lparr>us_id = udb_next_id db, us_email = cu_email data, us_display_name = cu_display_name data,
    us_first_name = cu_first_name data, us_last_name = cu_last_name data, us_created_at = ue_now env\<rparr>"
  from create have new: "\<forall>u \<in> set (udb_users db). us_email u \<noteq> us_email ?u"
    by (auto simp: create_user_def bindE_simps scalar_none filter_empty_conv split: if_splits)
  from create have emitted: "db' = emit_user env USER_CREATED
      (event_data_of (cu_email data) (cu_display_name data) (cu_first_name data) (cu_last_name data))
      (db\<lparr>udb_users := udb_users db @ [?u], udb_next_id := udb_next_id db + 1\<rparr>) \<and> user_unique_ok db'"
    by (auto simp: create_user_def bindE_simps user_commit_Inr Let_def split: if_splits)
  show ?thesis
    by (rule events_agree_emit [OF assms(2) emitted]) (use profiles_snoc [OF new] in \<open>simp_all add: apply_event_data profile_of_def\<close>)
next
  case (update env email udata res)
  then obtain u where u: "fetch_user db email = Inr u" by (auto simp: update_user_def bindE_simps)
  note run = update [unfolded update_user_def u bindE_Inr Let_def]
  let ?v = "apply_partial_update u udata"
  have v: "us_id ?v = us_id u" "us_email ?v = us_email u" by (simp_all add: apply_partial_update_def)
  have put: "profiles (put_row us_id ?v (udb_users db)) = (profiles (udb_users db))(us_email u \<mapsto> profile_of ?v)"
    using assms(2) fetch_user_Inr [OF u] v by (intro profiles_put) (simp_all add: events_agree_def user_unique_ok_def)
  from run have emitted: "db' = emit_user env USER_UPDATED
      (event_data_of (us_email ?v) (us_display_name ?v) (us_first_name ?v) (us_last_name ?v))
      (db\<lparr>udb_users := put_row us_id ?v (udb_users db)\<rparr>) \<and> user_unique_ok db'"
    by (auto simp: bindE_simps user_commit_Inr)
  show ?thesis
    by (rule events_agree_emit [OF assms(2) emitted]) (simp_all add: put apply_event_data profile_of_def v)
next
  case (delete env email gone)
  then obtain u where u: "fetch_user db email = Inr u" by (auto simp: delete_user_def bindE_simps)
  note run = delete [unfolded delete_user_def u bindE_Inr]
  have del: "profiles (filter (\<lambda>x. us_id x \<noteq> us_id u) (udb_users db)) = (profiles (udb_users db))(us_email u := None)"
    using assms(2) fetch_user_Inr [OF u] by (intro profiles_delete) (simp_all add: events_agree_def user_unique_ok_def)
  from run have emitted: "db' = emit_user env USER_DELETED [(UK_EMAIL, JStr email)]
      (db\<lparr>udb_users := filter (\<lambda>x. us_id x \<noteq> us_id u) (udb_users db)\<rparr>) \<and> user_unique_ok db'"
    by (auto simp: bindE_simps user_commit_Inr)
  show ?thesis
    by (rule events_agree_emit [OF assms(2) emitted]) (use fetch_user_Inr [OF u] in \<open>simp_all add: del apply_event_data\<close>)
next
  case (worker m n log it rows log')
  from loop_step_payloads [OF worker(2)] assms(2) worker(1) show ?thesis by (simp add: events_agree_def user_unique_ok_def)
qed

interpretation user_runs: conserving_system user_step events_agree "\<lambda>_. ()"
  by unfold_locales (simp add: user_step_agree)

definition no_users :: UserDb where
  "no_users = \<lparr>udb_users = [], udb_outbox = [], udb_next_id = 1, udb_uuid = 0\<rparr>"

text \<open>
  C30: the events tell the profiles: after any sequence of commands and of iterations of the outbox worker,
  whatever the broker does, a reader that applies the events of the outbox in order knows exactly
  the profiles of the table; and e-mail addresses stay unique.
\<close>

theorem user_events_tell_profiles:
  assumes "user_step\<^sup>*\<^sup>* no_users db"
  shows "replay_users (map ox_payload (udb_outbox db)) = profiles (udb_users db) \<and> distinct (map us_email (udb_users db))"
proof -
  have "events_agree no_users" by (simp add: events_agree_def no_users_def user_unique_ok_def user_events.rebuild_Nil profiles_def fun_eq_iff)
  from user_runs.run_keeps [OF assms this] show ?thesis by (simp add: events_agree_def user_unique_ok_def)
qed

definition example_env :: UserEnv where
  "example_env = \<lparr>ue_uuid = (\<lambda>n. replicate n CHR ''e''), ue_now = 7\<rparr>"

definition example_user_db :: UserDb where
  "example_user_db = snd (the_ok (create_user example_env no_users
     \<lparr>cu_email = ''ann@x'', cu_display_name = Some ''Ann'', cu_first_name = None, cu_last_name = None\<rparr>))"

theorem user_events_tell_profiles_witness:
  "replay_users (map ox_payload (udb_outbox example_user_db)) ''ann@x'' = Some (Some ''Ann'', None, None)"
proof -
  let ?data = "\<lparr>cu_email = ''ann@x'', cu_display_name = Some ''Ann'', cu_first_name = None, cu_last_name = None\<rparr>"
  have "is_ok (create_user example_env no_users ?data)" by code_simp
  then have "create_user example_env no_users ?data = Inr (the_ok (create_user example_env no_users ?data))" by (rule is_okD)
  then have "create_user example_env no_users ?data = Inr (fst (the_ok (create_user example_env no_users ?data)), example_user_db)"
    unfolding example_user_db_def prod.collapse .
  then have "user_step no_users example_user_db" by (rule user_step.create)
  then have "replay_users (map ox_payload (udb_outbox example_user_db)) = profiles (udb_users example_user_db)"
    using user_events_tell_profiles [OF r_into_rtranclp] by blast
  moreover have "profiles (udb_users example_user_db) ''ann@x'' = Some (Some ''Ann'', None, None)" by code_simp
  ultimately show ?thesis by simp
qed

end
