(* ===== verification/Publisher.thy ===== *)
theory Publisher
  imports Models
begin

text \<open>
  \<^verbatim>\<open>shared/core/messaging/mq.py\<close>: the publisher the outbox worker uses. It keeps a connection, a channel
  and an exchange, opens them again when the connection is closed, and raises when the broker does not
  take the message. Connections are numbered; an exchange belongs to the connection it
  was declared on, and can publish only while that connection is open. Which calls to the broker succeed
  is an argument.
\<close>

section \<open>Configuration\<close>

record RabbitConfig =
  rc_url :: "string option"
  rc_exchange_name :: string

text \<open>\<^verbatim>\<open>from_env\<close>, given the two environment variables; an empty string is falsy.\<close>

definition from_env :: "bool \<Rightarrow> string option \<Rightarrow> string option \<Rightarrow> RabbitConfig result" where
  "from_env required url exchange =
     (if required \<and> (url = None \<or> url = Some []) then Inl (RuntimeError ''RABBIT_URL environment variable is not set'')
      else let exchange_name = strip (case exchange of Some e \<Rightarrow> e | None \<Rightarrow> ''domain_events'') in
        Inr \<lparr>rc_url = url, rc_exchange_name = (if exchange_name = [] then ''domain_events'' else exchange_name)\<rparr>)"


section \<open>The publisher\<close>

record Publisher =
  pb_cfg :: RabbitConfig
  pb_enabled :: bool
  pb_conn :: "(nat \<times> bool) option"
  pb_channel :: "(nat \<times> bool) option"
  pb_exchange :: "nat option"
  pb_next :: nat

definition RabbitPublisher :: "RabbitConfig \<Rightarrow> Publisher" where
  "RabbitPublisher cfg = \<lparr>pb_cfg = cfg, pb_enabled = (rc_url cfg \<noteq> None \<and> rc_url cfg \<noteq> Some []), pb_conn = None, pb_channel = None,
     pb_exchange = None, pb_next = 0\<rparr>"

definition create_publisher :: "bool \<Rightarrow> string option \<Rightarrow> string option \<Rightarrow> (Publisher \<times> RabbitConfig) result" where
  "create_publisher required url exchange = bindE (from_env required url exchange) (\<lambda>cfg. Inr (RabbitPublisher cfg, cfg))"

text \<open>Which calls succeed: connecting, opening a channel, declaring the exchange, publishing.\<close>

record Replies =
  r_connect :: bool
  r_channel :: bool
  r_declare :: bool
  r_publish :: bool

text \<open>A connection, a channel and an exchange one after the other; a failure keeps what was assigned before.\<close>

definition open_exchange :: "Replies \<Rightarrow> Publisher \<Rightarrow> (error + unit) \<times> Publisher" where
  "open_exchange rep pb =
     (if \<not> r_connect rep then (Inl TransportError, pb)
      else let n = pb_next pb; pb1 = pb\<lparr>pb_conn := Some (n, False), pb_next := Suc n\<rparr> in
        if \<not> r_channel rep then (Inl TransportError, pb1)
        else let pb2 = pb1\<lparr>pb_channel := Some (n, False)\<rparr> in
          if \<not> r_declare rep then (Inl TransportError, pb2)
          else (Inr (), pb2\<lparr>pb_exchange := Some n\<rparr>))"

text \<open>Errors of the two \<^verbatim>\<open>close\<close> calls are swallowed.\<close>

definition close :: "Publisher \<Rightarrow> Publisher" where
  "close pb = pb\<lparr>pb_channel := None, pb_exchange := None, pb_conn := None\<rparr>"

definition connected :: "Publisher \<Rightarrow> bool" where
  "connected pb \<longleftrightarrow> pb_exchange pb \<noteq> None \<and> (\<exists>n. pb_conn pb = Some (n, False))"

lemma connected_code [code]:
  "connected pb = (pb_exchange pb \<noteq> None \<and> (case pb_conn pb of Some (n, closed) \<Rightarrow> \<not> closed | None \<Rightarrow> False))"
  by (auto simp: connected_def split: option.splits)

definition start :: "Replies \<Rightarrow> Publisher \<Rightarrow> Publisher" where
  "start rep pb =
     (if \<not> pb_enabled pb then pb
      else if connected pb then pb
      else case open_exchange rep pb of (Inr _, pb') \<Rightarrow> pb' | (Inl _, pb') \<Rightarrow> close pb')"

definition ensure_ready :: "Replies \<Rightarrow> Publisher \<Rightarrow> (error + unit) \<times> Publisher" where
  "ensure_ready rep pb =
     (if \<not> pb_enabled pb then (Inl (RuntimeError ''RabbitPublisher disabled (no RABBIT_URL)''), pb)
      else if connected pb then (Inr (), pb)
      else open_exchange rep pb)"

text \<open>What the broker was given, in order.\<close>

record Publication =
  pu_routing_key :: string
  pu_payload :: json
  pu_message_id :: "string option"
  pu_headers :: "(string \<times> json) list"

definition publish ::
    "Replies \<Rightarrow> string \<Rightarrow> json \<Rightarrow> string option \<Rightarrow> (string \<times> json) list \<Rightarrow> Publisher \<times> Publication list \<Rightarrow>
     (error + unit) \<times> Publisher \<times> Publication list" where
  "publish rep routing_key payload message_id headers = (\<lambda>(pb, log).
     if \<not> pb_enabled pb then (Inr (), pb, log)
     else let rk = strip routing_key in
       if rk = [] then (Inl ValueError, pb, log)
       else case ensure_ready rep pb of
         (Inl e, pb1) \<Rightarrow> (Inl e, pb1, log)
       | (Inr _, pb1) \<Rightarrow>
           (case pb_exchange pb1 of
              None \<Rightarrow> (Inl (RuntimeError ''Exchange is not initialized after _ensure_ready''), pb1, log)
            | Some n \<Rightarrow>
                if pb_conn pb1 = Some (n, False) \<and> r_publish rep
                then (Inr (), pb1, log @ [\<lparr>pu_routing_key = rk, pu_payload = payload, pu_message_id = message_id, pu_headers = headers\<rparr>])
                else (Inl TransportError, pb1, log)))"


section \<open>What publishing means\<close>

text \<open>The exchange, if there is one, belongs to the connection the publisher holds.\<close>

definition publisher_ok :: "Publisher \<Rightarrow> bool" where
  "publisher_ok pb \<longleftrightarrow> (\<forall>n. pb_exchange pb = Some n \<longrightarrow> (\<exists>closed. pb_conn pb = Some (n, closed)))"

definition willing :: "Replies \<Rightarrow> bool" where
  "willing rep \<longleftrightarrow> r_connect rep \<and> r_channel rep \<and> r_declare rep \<and> r_publish rep"

lemma publisher_ok_start: "publisher_ok pb \<Longrightarrow> publisher_ok (start rep pb)"
  by (auto simp: start_def open_exchange_def publisher_ok_def close_def Let_def split: if_splits)

lemma publisher_ok_new: "publisher_ok (RabbitPublisher cfg)" "publisher_ok (close pb)"
  by (simp_all add: publisher_ok_def RabbitPublisher_def close_def)

lemma open_exchange_willing: "willing rep \<Longrightarrow> \<exists>pb' n. open_exchange rep pb = (Inr (), pb') \<and> pb_exchange pb' = Some n \<and> pb_conn pb' = Some (n, False)"
  by (simp add: open_exchange_def willing_def Let_def)

text \<open>
  \<^verbatim>\<open>publish\<close> tells the truth: of an enabled publisher the broker has the message, once and under the stripped key, if the call
  returns, and does not have it if the call raises; a blank key is a ValueError. And it recovers: whatever happened to
  the connection, if the exchange is not a left-over of an earlier one, a willing broker gets the message.
\<close>

theorem publish_truthful:
  assumes "pb_enabled pb" and "publish rep key payload mid headers (pb, log) = (res, pb', log')"
  shows "(res = Inr () \<longrightarrow> strip key \<noteq> [] \<and>
      log' = log @ [\<lparr>pu_routing_key = strip key, pu_payload = payload, pu_message_id = mid, pu_headers = headers\<rparr>]) \<and>
    (\<forall>e. res = Inl e \<longrightarrow> log' = log) \<and> (strip key = [] \<longrightarrow> res = Inl ValueError) \<and>
    (publisher_ok pb \<and> willing rep \<and> strip key \<noteq> [] \<longrightarrow> res = Inr () \<and> publisher_ok pb')"
proof -
  have "res = Inr () \<and> publisher_ok pb'" if ok: "publisher_ok pb" and will: "willing rep" and key: "strip key \<noteq> []"
  proof (cases "connected pb")
    case True
    then obtain n m where "pb_exchange pb = Some n" "pb_conn pb = Some (m, False)" by (auto simp: connected_def)
    moreover from this ok have "m = n" by (simp add: publisher_ok_def)
    ultimately show ?thesis using assms ok will key True
      by (auto simp: publish_def ensure_ready_def willing_def Let_def split: if_splits)
  next
    case False
    obtain pb1 n where "open_exchange rep pb = (Inr (), pb1)" "pb_exchange pb1 = Some n" "pb_conn pb1 = Some (n, False)"
      using open_exchange_willing [OF will] by blast
    then show ?thesis using assms will key False
      by (auto simp: publish_def ensure_ready_def willing_def Let_def publisher_ok_def split: if_splits)
  qed
  moreover have "(res = Inr () \<longrightarrow> strip key \<noteq> [] \<and>
      log' = log @ [\<lparr>pu_routing_key = strip key, pu_payload = payload, pu_message_id = mid, pu_headers = headers\<rparr>]) \<and>
    (\<forall>e. res = Inl e \<longrightarrow> log' = log) \<and> (strip key = [] \<longrightarrow> res = Inl ValueError)"
    using assms by (auto simp: publish_def Let_def split: if_splits prod.splits sum.splits option.splits)
  ultimately show ?thesis by blast
qed

text \<open>
  A reconnection that fails between the connection and the exchange leaves the exchange of the dead connection in place next to the
  new connection; the publisher takes itself for ready, and every later publication fails, whatever the broker does.
\<close>

lemma stale_exchange_wedges:
  assumes "pb_enabled pb" and "pb_exchange pb = Some n" and "pb_conn pb = Some (m, False)" and "n \<noteq> m" and "strip key \<noteq> []"
  shows "publish rep key payload mid headers (pb, log) = (Inl TransportError, pb, log)"
  using assms by (simp add: publish_def ensure_ready_def connected_def)

lemma half_reconnection_leaves_stale_exchange:
  assumes "pb_enabled pb" and "pb_exchange pb = Some n" and "pb_conn pb = Some (n, True)" and "n < pb_next pb" and "strip key \<noteq> []"
    and "r_connect rep" and "\<not> r_channel rep" and "publish rep key payload mid headers (pb, log) = (res, pb', log')"
  shows "pb_enabled pb' \<and> pb_exchange pb' = Some n \<and> pb_conn pb' = Some (pb_next pb, False) \<and> n \<noteq> pb_next pb"
  using assms by (auto simp: publish_def ensure_ready_def connected_def open_exchange_def Let_def split: if_splits)

definition example_publisher :: Publisher where
  "example_publisher = RabbitPublisher \<lparr>rc_url = Some ''amqp://mq'', rc_exchange_name = ''domain_events''\<rparr>"

definition all_well :: Replies where
  "all_well = \<lparr>r_connect = True, r_channel = True, r_declare = True, r_publish = True\<rparr>"

theorem publish_truthful_witness:
  "fst (publish all_well ''bet.placed'' (JInt 1) None [] (example_publisher, [])) = Inr ()"
proof -
  have on: "pb_enabled example_publisher" by code_simp
  obtain res pb' log' where pub: "publish all_well ''bet.placed'' (JInt 1) None [] (example_publisher, []) = (res, pb', log')"
    by (rule prod_cases3)
  have "publisher_ok example_publisher" by (simp add: example_publisher_def publisher_ok_new)
  moreover have "willing all_well" "strip ''bet.placed'' \<noteq> []" by (simp_all add: willing_def all_well_def strip_def is_space_def)
  ultimately have "res = Inr ()" using publish_truthful [OF on pub] by blast
  then show ?thesis unfolding pub fst_conv .
qed

end
