(* ===== verification/Messaging.thy ===== *)
theory Messaging
  imports Models Step_Systems
begin

text \<open>
  \<^verbatim>\<open>shared/core/messaging\<close>: the consumer with its retry and dead-letter queues
  (\<^verbatim>\<open>consumer.py\<close>) and the publisher with its connection (\<^verbatim>\<open>mq.py\<close>). The broker is what RabbitMQ
  documents: a rejected or expired message goes to the dead-letter queue of its queue, an
  unacknowledged one is delivered again when the channel is lost. Whether a call to it
  succeeds is an argument. A message body is known by what \<^verbatim>\<open>json.loads\<close> makes of it.
\<close>

section \<open>consumer.py: queues and messages\<close>

datatype Body = EmptyBody | Garbage | Json json

record Message =
  m_body :: Body
  m_retry_count :: "int option"
  m_headers :: "(string \<times> json) list"
  m_content_type :: "string option"

record QueueArgs =
  qa_message_ttl :: "int option"
  qa_dead_letter :: "string option"

type_synonym topology = "string \<rightharpoonup> QueueArgs"

text \<open>The queues of \<^verbatim>\<open>setup_consumer_topology\<close>; the default exchange routes to the queue of the given name.\<close>

definition setup_consumer_topology :: "string \<Rightarrow> string \<Rightarrow> string \<Rightarrow> int \<Rightarrow> topology" where
  "setup_consumer_topology queue_name retry_queue dlq_queue retry_delay_ms =
     [queue_name \<mapsto> \<lparr>qa_message_ttl = None, qa_dead_letter = Some dlq_queue\<rparr>,
      retry_queue \<mapsto> \<lparr>qa_message_ttl = Some retry_delay_ms, qa_dead_letter = Some queue_name\<rparr>,
      dlq_queue \<mapsto> \<lparr>qa_message_ttl = None, qa_dead_letter = None\<rparr>]"

record ConsumerConfig =
  cc_queue :: string
  cc_retry :: string
  cc_dlq :: string
  cc_retry_delay_ms :: int
  cc_max_retries :: int

definition topology_of :: "ConsumerConfig \<Rightarrow> topology" where
  "topology_of cfg = setup_consumer_topology (cc_queue cfg) (cc_retry cfg) (cc_dlq cfg) (cc_retry_delay_ms cfg)"

text \<open>
  What the broker and the consumer hold: the queues, the messages delivered and never settled,
  those the handler finished, and the state the handler works on.
\<close>

record 's Broker =
  b_queues :: "string \<Rightarrow> Message list"
  b_unacked :: "Message list"
  b_handled :: "Message list"
  b_state :: 's

definition enqueue :: "string \<Rightarrow> Message \<Rightarrow> 's Broker \<Rightarrow> 's Broker" where
  "enqueue q m b = b\<lparr>b_queues := (b_queues b)(q := b_queues b q @ [m])\<rparr>"

definition dead_letter :: "topology \<Rightarrow> string \<Rightarrow> Message \<Rightarrow> 's Broker \<Rightarrow> 's Broker" where
  "dead_letter topo q m b = (case topo q of
     Some args \<Rightarrow> (case qa_dead_letter args of Some q' \<Rightarrow> enqueue q' m b | None \<Rightarrow> b)
   | None \<Rightarrow> b)"

definition leave_unacked :: "Message \<Rightarrow> 's Broker \<Rightarrow> 's Broker" where
  "leave_unacked m b = b\<lparr>b_unacked := b_unacked b @ [m]\<rparr>"


section \<open>consumer.py: one message\<close>

primrec safe_decode_json :: "Body \<Rightarrow> json" where
  "safe_decode_json EmptyBody = JObj []"
| "safe_decode_json Garbage = JObj []"
| "safe_decode_json (Json j) = j"

text \<open>Which of the calls to the broker succeed: the two acknowledgements, the rejection, the publication.\<close>

record Calls =
  c_ack :: bool
  c_reject :: bool
  c_publish :: bool
  c_ack_retry :: bool

type_synonym 's handler = "json \<Rightarrow> 's \<Rightarrow> (error + unit) \<times> 's"

definition retry_count :: "Message \<Rightarrow> int" where
  "retry_count m = (case m_retry_count m of Some c \<Rightarrow> c | None \<Rightarrow> 0)"

definition retry_message :: "Message \<Rightarrow> Message" where
  "retry_message m = m\<lparr>m_retry_count := Some (retry_count m + 1),
     m_content_type := (case m_content_type m of Some (c # cs) \<Rightarrow> Some (c # cs) | _ \<Rightarrow> Some ''application/json'')\<rparr>"

text \<open>The \<^verbatim>\<open>except\<close> branch. A call that raises in it leaves the message unacknowledged.\<close>

definition on_failure :: "ConsumerConfig \<Rightarrow> Calls \<Rightarrow> Message \<Rightarrow> 's Broker \<Rightarrow> 's Broker" where
  "on_failure cfg calls m b =
     (if retry_count m \<ge> cc_max_retries cfg then
        (if c_reject calls then dead_letter (topology_of cfg) (cc_queue cfg) m b else leave_unacked m b)
      else if \<not> c_publish calls then leave_unacked m b
      else let b1 = enqueue (cc_retry cfg) (retry_message m) b in
        if c_ack_retry calls then b1 else leave_unacked m b1)"

definition on_message :: "ConsumerConfig \<Rightarrow> 's handler \<Rightarrow> Calls \<Rightarrow> Message \<Rightarrow> 's Broker \<Rightarrow> 's Broker" where
  "on_message cfg handler calls m b =
     (case handler (safe_decode_json (m_body m)) (b_state b) of
        (Inr _, s) \<Rightarrow>
          let b1 = b\<lparr>b_state := s, b_handled := b_handled b @ [m]\<rparr> in
          if c_ack calls then b1 else on_failure cfg calls m b1
      | (Inl _, s) \<Rightarrow> on_failure cfg calls m (b\<lparr>b_state := s\<rparr>))"

text \<open>
  The consumer takes the first message of its queue; a message of the retry queue expires; when the channel
  is lost, the unacknowledged messages return to the queue.
\<close>

inductive consumer_step :: "ConsumerConfig \<Rightarrow> 's Broker \<Rightarrow> 's Broker \<Rightarrow> bool" for cfg where
  deliver: "b_queues b (cc_queue cfg) = m # ms \<Longrightarrow>
    consumer_step cfg b (on_message cfg handler calls m (b\<lparr>b_queues := (b_queues b)(cc_queue cfg := ms)\<rparr>))"
| expire: "b_queues b (cc_retry cfg) = m # ms \<Longrightarrow>
    consumer_step cfg b (dead_letter (topology_of cfg) (cc_retry cfg) m (b\<lparr>b_queues := (b_queues b)(cc_retry cfg := ms)\<rparr>))"
| reconnect: "consumer_step cfg b (b\<lparr>b_unacked := [], b_queues := (b_queues b)(cc_queue cfg := b_unacked b @ b_queues b (cc_queue cfg))\<rparr>)"

definition cfg_ok :: "ConsumerConfig \<Rightarrow> bool" where
  "cfg_ok cfg \<longleftrightarrow> distinct [cc_queue cfg, cc_retry cfg, cc_dlq cfg]"


section \<open>No message is lost\<close>

text \<open>The bodies of all messages the broker holds or the handler finished.\<close>

definition bodies :: "ConsumerConfig \<Rightarrow> 's Broker \<Rightarrow> Body set" where
  "bodies cfg b = m_body ` (set (b_queues b (cc_queue cfg)) \<union> set (b_queues b (cc_retry cfg)) \<union> set (b_queues b (cc_dlq cfg)) \<union>
     set (b_unacked b) \<union> set (b_handled b))"

lemma topology_dead_letter:
  assumes "cfg_ok cfg"
  shows "dead_letter (topology_of cfg) (cc_queue cfg) m b = enqueue (cc_dlq cfg) m b"
    and "dead_letter (topology_of cfg) (cc_retry cfg) m b = enqueue (cc_queue cfg) m b"
  using assms by (auto simp: cfg_ok_def dead_letter_def topology_of_def setup_consumer_topology_def)

lemma bodies_enqueue:
  assumes "cfg_ok cfg" and "q \<in> {cc_queue cfg, cc_retry cfg, cc_dlq cfg}"
  shows "bodies cfg (enqueue q m b) = insert (m_body m) (bodies cfg b)"
  using assms by (auto simp: bodies_def enqueue_def cfg_ok_def)

lemma bodies_unacked: "bodies cfg (leave_unacked m b) = insert (m_body m) (bodies cfg b)"
  by (auto simp: bodies_def leave_unacked_def)

lemma body_retry [simp]: "m_body (retry_message m) = m_body m"
  by (simp add: retry_message_def)

lemma bodies_state: "bodies cfg (b\<lparr>b_state := s\<rparr>) = bodies cfg b"
  "bodies cfg (b\<lparr>b_state := s, b_handled := b_handled b @ [m]\<rparr>) = insert (m_body m) (bodies cfg b)"
  by (auto simp: bodies_def)

lemma bodies_on_failure: "cfg_ok cfg \<Longrightarrow> bodies cfg (on_failure cfg calls m b) = insert (m_body m) (bodies cfg b)"
  by (simp add: on_failure_def topology_dead_letter bodies_enqueue bodies_unacked Let_def)

lemma bodies_on_message: "cfg_ok cfg \<Longrightarrow> bodies cfg (on_message cfg handler calls m b) = insert (m_body m) (bodies cfg b)"
  by (simp add: on_message_def bodies_on_failure bodies_state Let_def split: prod.splits sum.splits)

lemma consumer_step_bodies:
  assumes "consumer_step cfg b b'" and "cfg_ok cfg"
  shows "bodies cfg b' = bodies cfg b"
  using assms(1)
proof cases
  case (deliver m ms handler calls)
  have "bodies cfg b = insert (m_body m) (bodies cfg (b\<lparr>b_queues := (b_queues b)(cc_queue cfg := ms)\<rparr>))"
    using assms(2) deliver(2) by (auto simp: bodies_def cfg_ok_def)
  then show ?thesis using assms(2) by (simp add: deliver(1) bodies_on_message)
next
  case (expire m ms)
  have "bodies cfg b = insert (m_body m) (bodies cfg (b\<lparr>b_queues := (b_queues b)(cc_retry cfg := ms)\<rparr>))"
    using assms(2) expire(2) by (auto simp: bodies_def cfg_ok_def)
  then show ?thesis using assms(2) by (simp add: expire(1) topology_dead_letter bodies_enqueue)
next
  case reconnect
  show ?thesis unfolding reconnect using assms(2) by (auto simp: bodies_def cfg_ok_def)
qed

interpretation consumer: conserving_system "consumer_step cfg" "\<lambda>_. cfg_ok cfg" "bodies cfg" for cfg
  by unfold_locales (simp add: consumer_step_bodies)

text \<open>
  Nothing is lost and nothing made up: whatever the handler does and whichever calls to the broker fail,
  after any sequence of deliveries, expiries and reconnections the bodies in the queues, unacknowledged or
  handled are exactly those of the beginning.
\<close>

theorem no_message_lost:
  assumes "(consumer_step cfg)\<^sup>*\<^sup>* b b'" and "cfg_ok cfg"
  shows "bodies cfg b' = bodies cfg b"
  using consumer.run_quantity [OF assms(1)] assms(2) by blast


section \<open>Every message is settled\<close>

text \<open>With a broker whose calls succeed.\<close>

definition reliable :: Calls where
  "reliable = \<lparr>c_ack = True, c_reject = True, c_publish = True, c_ack_retry = True\<rparr>"

inductive reliable_step :: "ConsumerConfig \<Rightarrow> 's handler \<Rightarrow> 's Broker \<Rightarrow> 's Broker \<Rightarrow> bool" for cfg handler where
  deliver: "b_queues b (cc_queue cfg) = m # ms \<Longrightarrow>
    reliable_step cfg handler b (on_message cfg handler reliable m (b\<lparr>b_queues := (b_queues b)(cc_queue cfg := ms)\<rparr>))"
| expire: "b_queues b (cc_retry cfg) = m # ms \<Longrightarrow>
    reliable_step cfg handler b (dead_letter (topology_of cfg) (cc_retry cfg) m (b\<lparr>b_queues := (b_queues b)(cc_retry cfg := ms)\<rparr>))"

definition attempts_left :: "ConsumerConfig \<Rightarrow> Message \<Rightarrow> nat" where
  "attempts_left cfg m = nat (cc_max_retries cfg - retry_count m)"

definition consumer_rank :: "ConsumerConfig \<Rightarrow> 's Broker \<Rightarrow> nat" where
  "consumer_rank cfg b = (\<Sum>m \<leftarrow> b_queues b (cc_queue cfg). 2 * attempts_left cfg m + 1) +
     (\<Sum>m \<leftarrow> b_queues b (cc_retry cfg). 2 * attempts_left cfg m + 2)"

text \<open>Only messages that have used up their retries are on the dead-letter queue, apart from those of before.\<close>

definition dlq_ok :: "ConsumerConfig \<Rightarrow> Message set \<Rightarrow> 's Broker \<Rightarrow> bool" where
  "dlq_ok cfg D b \<longleftrightarrow> (\<forall>m \<in> set (b_queues b (cc_dlq cfg)). m \<in> D \<or> cc_max_retries cfg \<le> retry_count m)"

definition settling :: "ConsumerConfig \<Rightarrow> Message set \<Rightarrow> 's Broker \<Rightarrow> bool" where
  "settling cfg D b \<longleftrightarrow> cfg_ok cfg \<and> b_unacked b = [] \<and> dlq_ok cfg D b"

lemma attempts_retry: "retry_count m < cc_max_retries cfg \<Longrightarrow> attempts_left cfg m = Suc (attempts_left cfg (retry_message m))"
  by (simp add: attempts_left_def retry_message_def retry_count_def)

lemma on_failure_reliable:
  assumes "cfg_ok cfg"
  shows "on_failure cfg reliable m b =
    (if cc_max_retries cfg \<le> retry_count m then enqueue (cc_dlq cfg) m b else enqueue (cc_retry cfg) (retry_message m) b)"
  using assms by (simp add: on_failure_def reliable_def topology_dead_letter)

lemma settling_enqueue:
  "settling cfg D b \<Longrightarrow> q \<noteq> cc_dlq cfg \<or> cc_max_retries cfg \<le> retry_count m \<Longrightarrow> settling cfg D (enqueue q m b)"
  by (auto simp: settling_def dlq_ok_def enqueue_def)

lemma rank_enqueue:
  assumes "cfg_ok cfg"
  shows "consumer_rank cfg (enqueue (cc_queue cfg) m b) = consumer_rank cfg b + 2 * attempts_left cfg m + 1"
    and "consumer_rank cfg (enqueue (cc_retry cfg) m b) = consumer_rank cfg b + 2 * attempts_left cfg m + 2"
    and "consumer_rank cfg (enqueue (cc_dlq cfg) m b) = consumer_rank cfg b"
  using assms by (auto simp: consumer_rank_def enqueue_def cfg_ok_def)

lemma on_message_reliable:
  assumes "settling cfg D b"
  shows "settling cfg D (on_message cfg handler reliable m b) \<and>
    consumer_rank cfg (on_message cfg handler reliable m b) < consumer_rank cfg b + 2 * attempts_left cfg m + 1"
proof -
  have ok: "cfg_ok cfg" using assms by (simp add: settling_def)
  have fail: "settling cfg D (on_failure cfg reliable m c) \<and>
    consumer_rank cfg (on_failure cfg reliable m c) < consumer_rank cfg c + 2 * attempts_left cfg m + 1" if "settling cfg D c" for c :: "'a Broker"
    using that ok by (auto simp: on_failure_reliable rank_enqueue attempts_retry cfg_ok_def intro!: settling_enqueue)
  have keep: "settling cfg D (b\<lparr>b_state := s\<rparr>)" "settling cfg D (b\<lparr>b_state := s, b_handled := h\<rparr>)"
    "consumer_rank cfg (b\<lparr>b_state := s\<rparr>) = consumer_rank cfg b"
    "consumer_rank cfg (b\<lparr>b_state := s, b_handled := h\<rparr>) = consumer_rank cfg b" for s h
    using assms by (simp_all add: settling_def dlq_ok_def consumer_rank_def)
  obtain r s where h: "handler (safe_decode_json (m_body m)) (b_state b) = (r, s)" by fastforce
  show ?thesis
  proof (cases r)
    case (Inl e)
    with h fail [OF keep(1)] keep(3) show ?thesis by (simp add: on_message_def)
  next
    case (Inr u)
    with h keep show ?thesis by (simp add: on_message_def reliable_def)
  qed
qed

lemma reliable_step_ranked:
  assumes "reliable_step cfg handler b b'" and "settling cfg D b"
  shows "settling cfg D b' \<and> consumer_rank cfg b' < consumer_rank cfg b"
  using assms(1)
proof cases
  case (deliver m ms)
  let ?b = "b\<lparr>b_queues := (b_queues b)(cc_queue cfg := ms)\<rparr>"
  have "settling cfg D ?b" "consumer_rank cfg b = consumer_rank cfg ?b + 2 * attempts_left cfg m + 1"
    using assms(2) deliver(2) by (auto simp: settling_def dlq_ok_def cfg_ok_def consumer_rank_def)
  with on_message_reliable [of cfg D ?b handler m] show ?thesis by (simp add: deliver(1))
next
  case (expire m ms)
  let ?b = "b\<lparr>b_queues := (b_queues b)(cc_retry cfg := ms)\<rparr>"
  have ok: "cfg_ok cfg" using assms(2) by (simp add: settling_def)
  have "settling cfg D ?b" "consumer_rank cfg b = consumer_rank cfg ?b + 2 * attempts_left cfg m + 2"
    using assms(2) expire(2) by (auto simp: settling_def dlq_ok_def cfg_ok_def consumer_rank_def)
  then show ?thesis using ok
    by (auto simp: expire(1) topology_dead_letter rank_enqueue cfg_ok_def intro!: settling_enqueue)
qed

interpretation settling_run: ranked_system "reliable_step cfg handler" "settling cfg D" "consumer_rank cfg" for cfg handler D
  by unfold_locales (rule reliable_step_ranked)

lemma reliable_step_consumer: "reliable_step cfg handler b b' \<Longrightarrow> consumer_step cfg b b'"
  by (cases rule: reliable_step.cases) (auto intro: consumer_step.intros)

lemma reliable_run_consumer: "(reliable_step cfg handler)\<^sup>*\<^sup>* b b' \<Longrightarrow> (consumer_step cfg)\<^sup>*\<^sup>* b b'"
  by (rule mono_rtranclp [rule_format]) (rule reliable_step_consumer)

lemma reliable_stopped: "(\<forall>c. \<not> reliable_step cfg handler b c) \<Longrightarrow> b_queues b (cc_queue cfg) = [] \<and> b_queues b (cc_retry cfg) = []"
  by (metis list.exhaust reliable_step.intros)

text \<open>
  C29: with a reliable broker and any handler the consumer comes to rest: no run is longer than twice the
  attempts left plus the queued messages, and when it stops both queues are empty, every message was handled
  or is on the dead-letter queue, and there only after its last retry.
\<close>

theorem consumer_settles:
  assumes "cfg_ok cfg" and "b_unacked b = []"
  shows "(\<forall>k b'. (reliable_step cfg handler ^^ k) b b' \<longrightarrow> k \<le> consumer_rank cfg b) \<and>
    (\<exists>b'. (reliable_step cfg handler)\<^sup>*\<^sup>* b b' \<and> (\<forall>c. \<not> reliable_step cfg handler b' c)) \<and>
    (\<forall>b'. (reliable_step cfg handler)\<^sup>*\<^sup>* b b' \<longrightarrow> (\<forall>c. \<not> reliable_step cfg handler b' c) \<longrightarrow>
      b_queues b' (cc_queue cfg) = [] \<and> b_queues b' (cc_retry cfg) = [] \<and>
      bodies cfg b = m_body ` (set (b_handled b') \<union> set (b_queues b' (cc_dlq cfg))) \<and>
      (\<forall>m \<in> set (b_queues b' (cc_dlq cfg)). m \<in> set (b_queues b (cc_dlq cfg)) \<or> cc_max_retries cfg \<le> retry_count m))"
proof -
  let ?D = "set (b_queues b (cc_dlq cfg))"
  have inv: "settling cfg ?D b" using assms by (simp add: settling_def dlq_ok_def)
  have fin: "b_queues b' (cc_queue cfg) = [] \<and> b_queues b' (cc_retry cfg) = [] \<and>
      bodies cfg b = m_body ` (set (b_handled b') \<union> set (b_queues b' (cc_dlq cfg))) \<and>
      (\<forall>m \<in> set (b_queues b' (cc_dlq cfg)). m \<in> ?D \<or> cc_max_retries cfg \<le> retry_count m)"
    if run: "(reliable_step cfg handler)\<^sup>*\<^sup>* b b'" and stop: "\<forall>c. \<not> reliable_step cfg handler b' c" for b'
  proof -
    have "bodies cfg b' = bodies cfg b" using consumer.run_quantity [OF reliable_run_consumer [OF run]] assms(1) by blast
    moreover have "settling cfg ?D b'" using run inv by (rule settling_run.run_inv)
    ultimately show ?thesis using reliable_stopped [OF stop] by (auto simp: bodies_def settling_def dlq_ok_def)
  qed
  have "k \<le> consumer_rank cfg b" if "(reliable_step cfg handler ^^ k) b b'" for k b'
    using settling_run.run_bounded [OF that inv] by linarith
  moreover from settling_run.run_stops [OF inv] have "\<exists>b'. (reliable_step cfg handler)\<^sup>*\<^sup>* b b' \<and> (\<forall>c. \<not> reliable_step cfg handler b' c)" by blast
  ultimately show ?thesis using fin by blast
qed

definition example_cfg :: ConsumerConfig where
  "example_cfg = \<lparr>cc_queue = ''feed'', cc_retry = ''feed.retry'', cc_dlq = ''feed.dlq'', cc_retry_delay_ms = 5000, cc_max_retries = 1\<rparr>"

definition example_message :: Message where
  "example_message = \<lparr>m_body = Garbage, m_retry_count = None, m_headers = [], m_content_type = None\<rparr>"

definition example_broker :: "unit Broker" where
  "example_broker = \<lparr>b_queues = (\<lambda>q. if q = ''feed'' then [example_message] else []), b_unacked = [], b_handled = [], b_state = ()\<rparr>"

lemma example_cfg_ok: "cfg_ok example_cfg"
  by (simp add: cfg_ok_def example_cfg_def)

theorem no_message_lost_witness:
  "bodies example_cfg (on_message example_cfg (\<lambda>j s. (Inl ValueError, s)) reliable example_message
     (example_broker\<lparr>b_queues := (b_queues example_broker)(cc_queue example_cfg := [])\<rparr>)) = {Garbage}"
proof -
  have "b_queues example_broker (cc_queue example_cfg) = [example_message]" by (simp add: example_broker_def example_cfg_def)
  from consumer_step.deliver [OF this] no_message_lost [OF r_into_rtranclp example_cfg_ok]
  have "bodies example_cfg (on_message example_cfg (\<lambda>j s. (Inl ValueError, s)) reliable example_message
     (example_broker\<lparr>b_queues := (b_queues example_broker)(cc_queue example_cfg := [])\<rparr>)) = bodies example_cfg example_broker" by blast
  also have "bodies example_cfg example_broker = {Garbage}"
    by (simp add: bodies_def example_broker_def example_cfg_def example_message_def)
  finally show ?thesis .
qed

theorem consumer_settles_witness:
  "\<exists>b'. (reliable_step example_cfg (\<lambda>j s. (Inl ValueError, s)))\<^sup>*\<^sup>* example_broker b' \<and>
     m_body ` (set (b_handled b') \<union> set (b_queues b' (cc_dlq example_cfg))) = {Garbage}"
proof -
  have "b_unacked example_broker = []" by (simp add: example_broker_def)
  note settled = consumer_settles [OF example_cfg_ok this, of "\<lambda>j s. (Inl ValueError, s)"]
  then obtain b' where b': "(reliable_step example_cfg (\<lambda>j s. (Inl ValueError, s)))\<^sup>*\<^sup>* example_broker b'"
    "\<forall>c. \<not> reliable_step example_cfg (\<lambda>j s. (Inl ValueError, s)) b' c" by blast
  with settled have "bodies example_cfg example_broker = m_body ` (set (b_handled b') \<union> set (b_queues b' (cc_dlq example_cfg)))" by blast
  moreover have "bodies example_cfg example_broker = {Garbage}"
    by (simp add: bodies_def example_broker_def example_cfg_def example_message_def)
  ultimately show ?thesis using b'(1) by metis
qed

end
