(* ===== verification/Table_Feed.thy ===== *)
theory Table_Feed
  imports Messaging "HOL-Library.Sublist"
begin

text \<open>
  The table feed of the gateway (\<^verbatim>\<open>services/gateway-service/app\<close>): the connection manager
  (\<^verbatim>\<open>infrastructure/table_state_ws.py\<close>), the fan-out of table states (\<^verbatim>\<open>table_state_fanout.py\<close>), the
  WebSocket route with its reconcile loop (\<^verbatim>\<open>routes/round_routes.py\<close>) and the forwarding of answers
  (\<^verbatim>\<open>utils/proxy.py\<close>). The answers of game-service, the fate of each send and the connections that come and go
  while a broadcast waits are arguments. The lock of a socket serialises its sends; a send is one step
  here, so the locks are left out.
\<close>

section \<open>infrastructure/table_state_ws.py\<close>

type_synonym websocket = nat

text \<open>Exceptions that matter here.\<close>

datatype feed_exc = WebSocketDisconnect | WsRuntimeError | AttributeError | JSONDecodeError | HTTPError | OtherException

text \<open>The dictionary of the manager, and what every socket has been sent, in order.\<close>

record Feed =
  fd_connections :: "(round_id \<times> websocket list) list"
  fd_sent :: "(websocket \<times> json) list"

definition sockets :: "round_id \<Rightarrow> Feed \<Rightarrow> websocket list" where
  "sockets rid fd = (case dict_get (fd_connections fd) rid of Some ws \<Rightarrow> ws | None \<Rightarrow> [])"

definition connect :: "round_id \<Rightarrow> websocket \<Rightarrow> Feed \<Rightarrow> Feed" where
  "connect rid w fd = fd\<lparr>fd_connections := dict_set rid
     (if w \<in> set (sockets rid fd) then sockets rid fd else sockets rid fd @ [w]) (fd_connections fd)\<rparr>"

definition dict_pop :: "'k \<Rightarrow> ('k \<times> 'v) list \<Rightarrow> ('k \<times> 'v) list" where
  "dict_pop k d = filter (\<lambda>kv. fst kv \<noteq> k) d"

definition disconnect :: "round_id \<Rightarrow> websocket \<Rightarrow> Feed \<Rightarrow> Feed" where
  "disconnect rid w fd =
     (if sockets rid fd = [] then fd
      else let rest = filter (\<lambda>x. x \<noteq> w) (sockets rid fd) in
        fd\<lparr>fd_connections := (if rest = [] then dict_pop rid (fd_connections fd) else dict_set rid rest (fd_connections fd))\<rparr>)"

definition has_subscribers :: "round_id \<Rightarrow> Feed \<Rightarrow> bool" where
  "has_subscribers rid fd \<longleftrightarrow> sockets rid fd \<noteq> []"

definition subscriber_count :: "round_id \<Rightarrow> Feed \<Rightarrow> nat" where
  "subscriber_count rid fd = length (sockets rid fd)"

text \<open>One send: \<open>out\<close> is what \<^verbatim>\<open>websocket.send_json\<close> does.\<close>

definition send_json :: "(websocket \<Rightarrow> feed_exc + unit) \<Rightarrow> round_id \<Rightarrow> websocket \<Rightarrow> json \<Rightarrow> Feed \<Rightarrow> (feed_exc + bool) \<times> Feed" where
  "send_json out rid w payload fd =
     (if w \<notin> set (sockets rid fd) then (Inr False, fd)
      else case out w of
        Inr _ \<Rightarrow> (Inr True, fd\<lparr>fd_sent := fd_sent fd @ [(w, payload)]\<rparr>)
      | Inl e \<Rightarrow> (if e = WebSocketDisconnect \<or> e = WsRuntimeError then (Inr False, disconnect rid w fd) else (Inl e, fd)))"

text \<open>Other tasks connect and disconnect sockets while a broadcast waits.\<close>

datatype ConnOp = Connect round_id websocket | Disconnect round_id websocket

definition run_op :: "Feed \<Rightarrow> ConnOp \<Rightarrow> Feed" where
  "run_op fd op = (case op of Connect rid w \<Rightarrow> connect rid w fd | Disconnect rid w \<Rightarrow> disconnect rid w fd)"

definition run_ops :: "ConnOp list \<Rightarrow> Feed \<Rightarrow> Feed" where
  "run_ops ops fd = foldl run_op fd ops"

record World =
  wd_out :: "websocket \<Rightarrow> feed_exc + unit"
  wd_ops :: "websocket \<Rightarrow> ConnOp list"

fun broadcast_loop :: "World \<Rightarrow> round_id \<Rightarrow> json \<Rightarrow> websocket list \<Rightarrow> nat \<Rightarrow> Feed \<Rightarrow> (feed_exc + nat) \<times> Feed" where
  "broadcast_loop wd rid payload [] sent fd = (Inr sent, fd)"
| "broadcast_loop wd rid payload (w # ws) sent fd =
     (case send_json (wd_out wd) rid w payload (run_ops (wd_ops wd w) fd) of
        (Inl e, fd') \<Rightarrow> (Inl e, fd')
      | (Inr ok, fd') \<Rightarrow> broadcast_loop wd rid payload ws (if ok then sent + 1 else sent) fd')"

definition broadcast_json :: "World \<Rightarrow> round_id \<Rightarrow> json \<Rightarrow> Feed \<Rightarrow> (feed_exc + nat) \<times> Feed" where
  "broadcast_json wd rid payload fd = broadcast_loop wd rid payload (sockets rid fd) 0 fd"


section \<open>infrastructure/table_state_fanout.py and utils/proxy.py\<close>

text \<open>An answer of another service; \<^verbatim>\<open>resp.json()\<close> is None when it raises.\<close>

record Resp =
  rs_status_code :: int
  rs_text :: string
  rs_json :: "json option"




definition error_payload :: "round_id \<Rightarrow> json \<Rightarrow> Resp \<Rightarrow> json" where
  "error_payload rid trigger resp = JObj [(''type'', JStr ''error''), (''round_id'', JStr rid), (''trigger'', trigger),
     (''status_code'', JInt (rs_status_code resp)), (''detail'', JStr (rs_text resp))]"

definition table_state_payload :: "round_id \<Rightarrow> json \<Rightarrow> json \<Rightarrow> json" where
  "table_state_payload rid trigger data = JObj [(''type'', JStr ''table_state''), (''round_id'', JStr rid), (''trigger'', trigger),
     (''data'', data)]"

text \<open>\<open>get\<close> is the answer of game-service to \<^verbatim>\<open>GET /rounds/{round_id}/table-state\<close>, or the exception of the client.\<close>

definition broadcast_table_state :: "(round_id \<Rightarrow> feed_exc + Resp) \<Rightarrow> World \<Rightarrow> round_id \<Rightarrow> json \<Rightarrow> Feed \<Rightarrow> (feed_exc + nat) \<times> Feed" where
  "broadcast_table_state get wd rid trigger fd = (case get rid of
     Inl e \<Rightarrow> (Inl e, fd)
   | Inr resp \<Rightarrow>
       if rs_status_code resp \<ge> 400 then broadcast_json wd rid (error_payload rid trigger resp) fd
       else case rs_json resp of
         None \<Rightarrow> (Inl JSONDecodeError, fd)
       | Some j \<Rightarrow> broadcast_json wd rid (table_state_payload rid trigger j) fd)"


datatype Forwarded = Returned json | Raised int json | Undecodable

definition forward_response :: "Resp \<Rightarrow> Forwarded" where
  "forward_response resp =
     (if rs_status_code resp \<ge> 400 then
        Raised (rs_status_code resp) (case rs_json resp of
            Some (JObj kvs) \<Rightarrow> (case dict_get kvs ''detail'' of Some d \<Rightarrow> d | None \<Rightarrow> JStr (rs_text resp))
          | _ \<Rightarrow> JStr (rs_text resp))
      else case rs_json resp of Some j \<Rightarrow> Returned j | None \<Rightarrow> Undecodable)"


section \<open>routes/round_routes.py: the WebSocket route\<close>

text \<open>
  The route connects, broadcasts and then repeats the broadcast after each sleep. The iterations are a list; \<open>Serving\<close>
  means that the loop has not ended with them. The length of the sleep, taken from the query, is left out.
\<close>

datatype Route = Serving | Returns | Raises feed_exc

fun reconcile_loop :: "round_id \<Rightarrow> websocket \<Rightarrow> json \<Rightarrow> ((round_id \<Rightarrow> feed_exc + Resp) \<times> World) list \<Rightarrow> Feed \<Rightarrow> Route \<times> Feed" where
  "reconcile_loop rid w trigger [] fd = (Serving, fd)"
| "reconcile_loop rid w trigger ((get, wd) # its) fd =
     (case broadcast_table_state get wd rid trigger fd of
        (Inr _, fd') \<Rightarrow> reconcile_loop rid w (JStr ''websocket.reconcile'') its fd'
      | (Inl e, fd') \<Rightarrow> (if e = WebSocketDisconnect then Returns else Raises e, disconnect rid w fd'))"

definition table_state_websocket :: "round_id \<Rightarrow> websocket \<Rightarrow> ((round_id \<Rightarrow> feed_exc + Resp) \<times> World) list \<Rightarrow> Feed \<Rightarrow> Route \<times> Feed" where
  "table_state_websocket rid w its fd = reconcile_loop rid w (JStr ''websocket.connected'') its (connect rid w fd)"


section \<open>The manager is a set of subscriptions\<close>

text \<open>
  What a user of the manager may rely on: the subscriptions are a set of pairs, connecting adds a pair and disconnecting
  removes it. A sequence of calls then acts on the set one call after the other, and whether a pair
  is subscribed in the end is decided by the last call that names it.
\<close>

definition abs_op :: "(round_id \<times> websocket) set \<Rightarrow> ConnOp \<Rightarrow> (round_id \<times> websocket) set" where
  "abs_op S op = (case op of Connect rid w \<Rightarrow> insert (rid, w) S | Disconnect rid w \<Rightarrow> S - {(rid, w)})"

definition op_pair :: "ConnOp \<Rightarrow> round_id \<times> websocket" where
  "op_pair op = (case op of Connect rid w \<Rightarrow> (rid, w) | Disconnect rid w \<Rightarrow> (rid, w))"

definition is_connect :: "ConnOp \<Rightarrow> bool" where
  "is_connect op = (case op of Connect rid w \<Rightarrow> True | Disconnect rid w \<Rightarrow> False)"

lemma abs_op_mem: "p \<in> abs_op S op \<longleftrightarrow> (if op_pair op = p then is_connect op else p \<in> S)"
  by (cases op) (auto simp: abs_op_def op_pair_def is_connect_def)

locale subscription_manager =
  fixes do_op :: "'s \<Rightarrow> ConnOp \<Rightarrow> 's" and subs :: "'s \<Rightarrow> (round_id \<times> websocket) set" and invar :: "'s \<Rightarrow> bool"
  assumes subs_op: "invar s \<Longrightarrow> subs (do_op s op) = abs_op (subs s) op"
    and invar_op: "invar s \<Longrightarrow> invar (do_op s op)"
begin

lemma run_refines: "invar s \<Longrightarrow> invar (foldl do_op s ops) \<and> subs (foldl do_op s ops) = foldl abs_op (subs s) ops"
  by (induction ops arbitrary: s) (simp_all add: subs_op invar_op)

lemma last_call_decides:
  assumes "invar s" and "op_pair op = p" and "\<forall>op' \<in> set later. op_pair op' \<noteq> p"
  shows "p \<in> subs (foldl do_op s (before @ op # later)) \<longleftrightarrow> is_connect op"
proof -
  have "p \<in> foldl abs_op S later \<longleftrightarrow> p \<in> S" for S
    using assms(3) by (induction later arbitrary: S) (simp_all add: abs_op_mem)
  then show ?thesis using run_refines [OF assms(1), of "before @ op # later"] assms(2) by (simp add: abs_op_mem)
qed

lemma kept_without_disconnect:
  assumes "invar s" and "p \<in> subs s" and "\<forall>op \<in> set ops. op_pair op = p \<longrightarrow> is_connect op"
  shows "p \<in> subs (foldl do_op s ops)"
proof -
  have "p \<in> foldl abs_op S ops" if "p \<in> S" for S
    using that assms(3) by (induction ops arbitrary: S) (auto simp: abs_op_mem)
  then show ?thesis using run_refines [OF assms(1)] assms(2) by simp
qed

end

definition subscriptions :: "Feed \<Rightarrow> (round_id \<times> websocket) set" where
  "subscriptions fd = {(rid, w). w \<in> set (sockets rid fd)}"

text \<open>No round has an empty dictionary of sockets, and no socket stands twice.\<close>

definition manager_ok :: "Feed \<Rightarrow> bool" where
  "manager_ok fd \<longleftrightarrow> distinct (map fst (fd_connections fd)) \<and>
     (\<forall>kv \<in> set (fd_connections fd). snd kv \<noteq> [] \<and> distinct (snd kv))"

lemma dict_get_pop [simp]: "dict_get (dict_pop k d) k' = (if k' = k then None else dict_get d k')"
  by (induction d) (auto simp: dict_get_def dict_pop_def)

lemma sockets_connect:
  "sockets rid' (connect rid w fd) = (if rid' \<noteq> rid then sockets rid' fd
     else if w \<in> set (sockets rid fd) then sockets rid fd else sockets rid fd @ [w])"
  by (simp add: sockets_def connect_def)

lemma sockets_disconnect:
  "sockets rid' (disconnect rid w fd) = (if rid' = rid then filter (\<lambda>x. x \<noteq> w) (sockets rid fd) else sockets rid' fd)"
proof (cases "filter (\<lambda>x. x \<noteq> w) (sockets rid fd) = []")
  case True
  then show ?thesis by (simp add: disconnect_def Let_def sockets_def)
next
  case False
  then have "sockets rid fd \<noteq> []" by auto
  with False show ?thesis by (simp add: disconnect_def Let_def) (simp add: sockets_def)
qed

lemma set_dict_set: "kv \<in> set (dict_set k v d) \<Longrightarrow> distinct (map fst d) \<Longrightarrow> kv = (k, v) \<or> kv \<in> set d"
  by (induction d) (auto simp: dict_set_def split: if_splits)

lemma sockets_entry: "manager_ok fd \<Longrightarrow> distinct (sockets rid fd)"
  by (auto simp: manager_ok_def sockets_def dict_get_def dest: map_of_SomeD split: option.splits)

lemma manager_ok_set:
  assumes "manager_ok fd" and "ws \<noteq> []" and "distinct ws"
  shows "manager_ok (fd\<lparr>fd_connections := dict_set rid ws (fd_connections fd)\<rparr>)"
  using assms by (auto simp: manager_ok_def distinct_dict_set dest!: set_dict_set)

lemma manager_ok_connect: "manager_ok fd \<Longrightarrow> manager_ok (connect rid w fd)"
  unfolding connect_def using sockets_entry [of fd rid] by (intro manager_ok_set) auto

lemma manager_ok_disconnect: "manager_ok fd \<Longrightarrow> manager_ok (disconnect rid w fd)"
  using sockets_entry [of fd rid]
  by (auto simp: disconnect_def Let_def intro!: manager_ok_set) (auto simp: manager_ok_def dict_pop_def distinct_map_filter)

interpretation manager: subscription_manager run_op subscriptions manager_ok
proof unfold_locales
  fix fd op
  show "subscriptions (run_op fd op) = abs_op (subscriptions fd) op"
    by (cases op) (auto simp: run_op_def abs_op_def subscriptions_def sockets_connect sockets_disconnect split: if_splits)
  show "manager_ok fd \<Longrightarrow> manager_ok (run_op fd op)"
    by (cases op) (simp_all add: run_op_def manager_ok_connect manager_ok_disconnect)
qed

text \<open>
  The connection manager implements a set of subscriptions: any sequence of connects and disconnects has the effect
  of inserting and removing pairs, no empty entry is left behind, and the two queries answer whether the
  round has a subscriber and how many.
\<close>

theorem manager_refines_set:
  assumes "manager_ok fd"
  shows "subscriptions (run_ops ops fd) = foldl abs_op (subscriptions fd) ops \<and> manager_ok (run_ops ops fd) \<and>
    (has_subscribers rid (run_ops ops fd) \<longleftrightarrow> (\<exists>w. (rid, w) \<in> foldl abs_op (subscriptions fd) ops)) \<and>
    subscriber_count rid (run_ops ops fd) = card {w. (rid, w) \<in> foldl abs_op (subscriptions fd) ops}"
proof -
  have sub: "manager_ok (run_ops ops fd)" "foldl abs_op (subscriptions fd) ops = subscriptions (run_ops ops fd)"
    using manager.run_refines [OF assms, of ops] by (simp_all add: run_ops_def)
  moreover have "{w. (rid, w) \<in> subscriptions (run_ops ops fd)} = set (sockets rid (run_ops ops fd))"
    by (simp add: subscriptions_def)
  moreover have "card (set (sockets rid (run_ops ops fd))) = length (sockets rid (run_ops ops fd))"
    using sub(1) by (intro distinct_card sockets_entry)
  moreover have "has_subscribers rid (run_ops ops fd) \<longleftrightarrow> (\<exists>w. (rid, w) \<in> subscriptions (run_ops ops fd))"
    by (simp add: has_subscribers_def subscriptions_def ex_in_conv)
  ultimately show ?thesis by (simp add: subscriber_count_def)
qed


section \<open>Broadcasts\<close>

lemma run_ops_sent [simp]: "fd_sent (run_ops ops fd) = fd_sent fd"
  by (induction ops arbitrary: fd)
    (simp_all add: run_ops_def run_op_def connect_def disconnect_def Let_def split: ConnOp.splits)

lemma disconnect_sent [simp]: "fd_sent (disconnect rid w fd) = fd_sent fd"
  by (simp add: disconnect_def Let_def)

lemma sockets_sent [simp]: "sockets rid (fd\<lparr>fd_sent := x\<rparr>) = sockets rid fd"
  by (simp add: sockets_def)

lemma subscriptions_same: "subscriptions (fd\<lparr>fd_sent := x\<rparr>) = subscriptions fd" "manager_ok (fd\<lparr>fd_sent := x\<rparr>) = manager_ok fd"
  by (simp_all add: subscriptions_def sockets_def manager_ok_def)

lemma send_json_effect:
  assumes "send_json out rid v payload fd = (Inr ok, fd')" and "manager_ok fd"
  shows "fd_sent fd' = fd_sent fd @ map (\<lambda>w. (w, payload)) (if ok then [v] else [])" and "ok \<Longrightarrow> out v = Inr ()" and "manager_ok fd'"
    and "out v = Inr () \<Longrightarrow> (rid, v) \<in> subscriptions fd \<Longrightarrow> ok"
    and "out w = Inr () \<Longrightarrow> (rid, w) \<in> subscriptions fd \<Longrightarrow> (rid, w) \<in> subscriptions fd'"
proof -
  note defs = send_json_def subscriptions_same manager_ok_disconnect
  show "fd_sent fd' = fd_sent fd @ map (\<lambda>w. (w, payload)) (if ok then [v] else [])" "ok \<Longrightarrow> out v = Inr ()" "manager_ok fd'"
    using assms by (auto simp: defs split: if_splits sum.splits)
  show "out v = Inr () \<Longrightarrow> (rid, v) \<in> subscriptions fd \<Longrightarrow> ok"
    using assms by (auto simp: send_json_def subscriptions_def split: if_splits)
  show "out w = Inr () \<Longrightarrow> (rid, w) \<in> subscriptions fd \<Longrightarrow> (rid, w) \<in> subscriptions fd'"
    using assms(1)
    by (auto simp: send_json_def subscriptions_def sockets_disconnect split: if_splits sum.splits)
qed

text \<open>A socket that works and that nobody disconnects stays subscribed over one send to another socket.\<close>

definition undisturbed :: "World \<Rightarrow> round_id \<Rightarrow> websocket \<Rightarrow> websocket list \<Rightarrow> bool" where
  "undisturbed wd rid w ws \<longleftrightarrow> wd_out wd w = Inr () \<and> (\<forall>v \<in> set ws. \<forall>op \<in> set (wd_ops wd v). op_pair op = (rid, w) \<longrightarrow> is_connect op)"

lemma broadcast_loop_delivers:
  assumes "broadcast_loop wd rid payload ws n fd = (Inr m, fd')" and "manager_ok fd"
  shows "\<exists>D. fd_sent fd' = fd_sent fd @ map (\<lambda>w. (w, payload)) D \<and> m = n + length D \<and> subseq D ws \<and> (\<forall>w \<in> set D. wd_out wd w = Inr ()) \<and>
    (\<forall>w \<in> set ws. undisturbed wd rid w ws \<longrightarrow> (rid, w) \<in> subscriptions fd \<longrightarrow> w \<in> set D) \<and> manager_ok fd'"
  using assms
proof (induction ws arbitrary: n fd)
  case (Cons v ws)
  let ?fd = "run_ops (wd_ops wd v) fd"
  from Cons.prems(1) obtain ok fd1 where send: "send_json (wd_out wd) rid v payload ?fd = (Inr ok, fd1)"
    and rest: "broadcast_loop wd rid payload ws (if ok then n + 1 else n) fd1 = (Inr m, fd')"
    by (auto split: prod.splits sum.splits)
  have ok: "manager_ok ?fd" using manager.run_refines [OF Cons.prems(2)] by (simp add: run_ops_def)
  have stay: "(rid, w) \<in> subscriptions ?fd" if "undisturbed wd rid w (v # ws)" "(rid, w) \<in> subscriptions fd" for w
    unfolding run_ops_def using that by (intro manager.kept_without_disconnect [OF Cons.prems(2)]) (auto simp: undisturbed_def)
  have less: "undisturbed wd rid w (v # ws) \<Longrightarrow> undisturbed wd rid w ws" for w by (simp add: undisturbed_def)
  note one = send_json_effect [OF send ok]
  from Cons.IH [OF rest one(3)] obtain D where D: "fd_sent fd' = fd_sent fd1 @ map (\<lambda>w. (w, payload)) D"
    "m = (if ok then n + 1 else n) + length D" "subseq D ws" "\<forall>w \<in> set D. wd_out wd w = Inr ()"
    "\<forall>w \<in> set ws. undisturbed wd rid w ws \<longrightarrow> (rid, w) \<in> subscriptions fd1 \<longrightarrow> w \<in> set D" "manager_ok fd'"
    by blast
  let ?D = "(if ok then [v] else []) @ D"
  have "w \<in> set ?D" if "w \<in> set (v # ws)" "undisturbed wd rid w (v # ws)" "(rid, w) \<in> subscriptions fd" for w
  proof -
    have out: "wd_out wd w = Inr ()" using that(2) by (simp add: undisturbed_def)
    note here = stay [OF that(2,3)]
    show ?thesis
    proof (cases "w = v")
      case True
      with one(4) out here show ?thesis by simp
    next
      case False
      with that(1) D(5) less [OF that(2)] one(5) [OF out here] show ?thesis by simp
    qed
  qed
  then show ?case using D one(1,2) by (intro exI [of _ ?D]) auto
qed simp

lemma distinct_subseq: "distinct ys \<Longrightarrow> subseq xs ys \<Longrightarrow> distinct xs"
  by (metis distinct_nthsI subseq_conv_nths)

text \<open>
  How a send to a socket can end without stopping the others: it succeeds, or raises one of the exceptions that
  \<^verbatim>\<open>send_json\<close> catches.
\<close>

definition sends_expected :: "World \<Rightarrow> websocket list \<Rightarrow> bool" where
  "sends_expected wd ws \<longleftrightarrow> list_all (\<lambda>w. wd_out wd w \<in> {Inr (), Inl WebSocketDisconnect, Inl WsRuntimeError}) ws"

lemma broadcast_loop_returns:
  "sends_expected wd ws \<Longrightarrow> \<exists>m fd'. broadcast_loop wd rid payload ws n fd = (Inr m, fd')"
proof (induction ws arbitrary: n fd)
  case (Cons w ws)
  then have "sends_expected wd ws" and w: "wd_out wd w \<in> {Inr (), Inl WebSocketDisconnect, Inl WsRuntimeError}"
    by (simp_all add: sends_expected_def)
  moreover have "\<exists>ok fd1. send_json (wd_out wd) rid w payload (run_ops (wd_ops wd w) fd) = (Inr ok, fd1)"
    using w by (cases "w \<in> set (sockets rid (run_ops (wd_ops wd w) fd))") (auto simp: send_json_def)
  ultimately show ?case using Cons.IH by fastforce
qed simp

lemma broadcast_json_delivers:
  assumes "broadcast_json wd rid payload fd = (Inr m, fd')" and "manager_ok fd"
  shows "\<exists>D. fd_sent fd' = fd_sent fd @ map (\<lambda>w. (w, payload)) D \<and> m = length D \<and> distinct D \<and> subseq D (sockets rid fd) \<and>
    (\<forall>w \<in> set D. wd_out wd w = Inr ()) \<and>
    (\<forall>w \<in> set (sockets rid fd). undisturbed wd rid w (sockets rid fd) \<longrightarrow> w \<in> set D) \<and> manager_ok fd'"
proof -
  from broadcast_loop_delivers [OF assms(1) [unfolded broadcast_json_def] assms(2)] obtain D where
    D: "fd_sent fd' = fd_sent fd @ map (\<lambda>w. (w, payload)) D" "m = 0 + length D" "subseq D (sockets rid fd)"
      "\<forall>w \<in> set D. wd_out wd w = Inr ()"
      "\<forall>w \<in> set (sockets rid fd). undisturbed wd rid w (sockets rid fd) \<longrightarrow> (rid, w) \<in> subscriptions fd \<longrightarrow> w \<in> set D" "manager_ok fd'"
    by blast
  have "distinct D" using sockets_entry [OF assms(2)] D(3) by (rule distinct_subseq)
  with D show ?thesis by (intro exI [of _ D]) (simp add: subscriptions_def)
qed

text \<open>
  C28: a broadcast reaches everybody once. However many of the sends fail with a disconnection or a runtime error, the
  broadcast returns; the payload went to some of the sockets subscribed when it began, to none of them twice and in
  their order, the returned count is their number, and a socket that works and that nobody disconnects meanwhile is
  among them, whichever other sockets fail, come or go. Any other exception ends the broadcast where it is raised.
\<close>

theorem broadcast_delivers:
  assumes "manager_ok fd" and "sends_expected wd (sockets rid fd)"
  shows "\<exists>m fd' D. broadcast_json wd rid payload fd = (Inr m, fd') \<and>
    fd_sent fd' = fd_sent fd @ map (\<lambda>w. (w, payload)) D \<and> m = length D \<and> distinct D \<and> subseq D (sockets rid fd) \<and>
    (\<forall>w \<in> set D. wd_out wd w = Inr ()) \<and>
    (\<forall>w \<in> set (sockets rid fd). undisturbed wd rid w (sockets rid fd) \<longrightarrow> w \<in> set D) \<and> manager_ok fd'"
proof -
  obtain m fd' where run: "broadcast_json wd rid payload fd = (Inr m, fd')"
    using broadcast_loop_returns [OF assms(2)] unfolding broadcast_json_def by blast
  from broadcast_json_delivers [OF this assms(1)] this show ?thesis by blast
qed


section \<open>From the event to the sockets\<close>






section \<open>The route outlives its socket\<close>

text \<open>
  A broadcast swallows the disconnection of any socket, so the clause \<^verbatim>\<open>except WebSocketDisconnect\<close> of the route is never entered: as long as
  game-service answers, the loop goes on broadcasting after its own client has left.
\<close>

lemma broadcast_loop_no_disconnect: "fst (broadcast_loop wd rid payload ws n fd) \<noteq> Inl WebSocketDisconnect"
proof (induction ws arbitrary: n fd)
  case (Cons w ws)
  then show ?case by (auto simp: send_json_def split: prod.splits sum.splits if_splits)
qed simp

lemma route_never_returns:
  assumes "\<And>get wd. (get, wd) \<in> set its \<Longrightarrow> get rid \<noteq> Inl WebSocketDisconnect"
  shows "fst (table_state_websocket rid w its fd) \<noteq> Returns"
proof -
  have "fst (broadcast_table_state get wd rid trigger fd) \<noteq> Inl WebSocketDisconnect" if "get rid \<noteq> Inl WebSocketDisconnect" for get wd trigger fd
    using that broadcast_loop_no_disconnect by (auto simp: broadcast_table_state_def broadcast_json_def split: sum.splits option.splits)
  then have "fst (reconcile_loop rid w trigger its fd) \<noteq> Returns" for trigger fd
    using assms
  proof (induction its arbitrary: trigger fd)
    case (Cons it its)
    obtain get wd where it: "it = (get, wd)" by fastforce
    with Cons.prems(2) [of get wd] have "get rid \<noteq> Inl WebSocketDisconnect" by simp
    with Cons.prems(1) have "fst (broadcast_table_state get wd rid trigger fd) \<noteq> Inl WebSocketDisconnect" .
    with Cons.IH [OF Cons.prems(1)] Cons.prems(2) it show ?case by (auto split: prod.splits sum.splits)
  qed simp
  then show ?thesis by (simp add: table_state_websocket_def)
qed


section \<open>A concrete feed\<close>

definition example_feed :: Feed where
  "example_feed = run_ops [Connect ''r'' 1, Connect ''r'' 2, Connect ''q'' 3] \<lparr>fd_connections = [], fd_sent = []\<rparr>"

definition example_world :: World where
  "example_world = \<lparr>wd_out = (\<lambda>w. Inr ()), wd_ops = (\<lambda>w. [])\<rparr>"




lemma example_feed_ok: "manager_ok example_feed"
  by code_simp

theorem manager_refines_set_witness:
  "subscriptions (run_ops [Disconnect ''r'' 1] example_feed) = abs_op (subscriptions example_feed) (Disconnect ''r'' 1)"
  using manager_refines_set [OF example_feed_ok, of "[Disconnect ''r'' 1]"] by simp

definition faulty_world :: World where
  "faulty_world = example_world\<lparr>wd_out := (\<lambda>w. if w = 1 then Inl WebSocketDisconnect else Inr ())\<rparr>"

lemma faulty_world_sends: "sends_expected faulty_world (sockets ''r'' example_feed)"
  "2 \<in> set (sockets ''r'' example_feed)" "undisturbed faulty_world ''r'' 2 (sockets ''r'' example_feed)"
proof -
  show "sends_expected faulty_world (sockets ''r'' example_feed)" "2 \<in> set (sockets ''r'' example_feed)" by code_simp+
  show "undisturbed faulty_world ''r'' 2 (sockets ''r'' example_feed)"
    by (simp add: undisturbed_def example_world_def faulty_world_def)
qed

theorem broadcast_delivers_witness:
  "\<exists>m fd'. broadcast_json faulty_world ''r'' (JInt 7) example_feed = (Inr m, fd') \<and>
     (\<exists>D. 2 \<in> set D \<and> fd_sent fd' = fd_sent example_feed @ map (\<lambda>w. (w, JInt 7)) D)"
  using broadcast_delivers [OF example_feed_ok faulty_world_sends(1), of "JInt 7"] faulty_world_sends(2,3) by blast


end
