(* ===== verification/Game_Api.thy ===== *)
theory Game_Api
  imports Bet_Commands Table_Feed
begin

text \<open>
  How the errors of game-service reach a client: the exception handler of
  \<^verbatim>\<open>services/game-service/app/main.py\<close>, the route of a bet and its counterpart in the gateway. The encoding of
  a response as JSON is an argument.
\<close>

section \<open>The answers of game-service\<close>

text \<open>\<^verbatim>\<open>sub in s\<close> on strings.\<close>

fun contains :: "string \<Rightarrow> string \<Rightarrow> bool" where
  "contains sub [] \<longleftrightarrow> sub = []"
| "contains sub (c # cs) \<longleftrightarrow> take (length sub) (c # cs) = sub \<or> contains sub cs"

definition domain_error_status :: "exc_class \<Rightarrow> string \<Rightarrow> int" where
  "domain_error_status c message =
     (if c = NotFound then 404
      else if c = PlayerNotInHand \<and> contains ''not in this hand'' message then 404
      else if c = StaleStateError then 409
      else if c = DuplicateActionError then 409
      else if c = IdempotencyConflict then 409
      else 400)"

definition detail_response :: "int \<Rightarrow> string \<Rightarrow> Resp" where
  "detail_response status detail = \<lparr>rs_status_code = status, rs_text = detail, rs_json = Some (JObj [(''detail'', JStr detail)])\<rparr>"

text \<open>
  The answer of a route: the result with status 200, what the handler makes of a domain error, the status an
  \<^verbatim>\<open>HTTPException\<close> carries, and for anything else the server error of the framework, which is not JSON.
\<close>

definition answer :: "('a \<Rightarrow> json) \<Rightarrow> 'a result \<Rightarrow> Resp" where
  "answer enc r = (case r of
     Inr x \<Rightarrow> \<lparr>rs_status_code = 200, rs_text = [], rs_json = Some (enc x)\<rparr>
   | Inl (DomainError c message) \<Rightarrow> detail_response (domain_error_status c message) message
   | Inl (HTTPException status detail) \<Rightarrow> detail_response status detail
   | Inl _ \<Rightarrow> \<lparr>rs_status_code = 500, rs_text = ''Internal Server Error'', rs_json = None\<rparr>)"

text \<open>\<^verbatim>\<open>POST /bets\<close> of game-service, and of the gateway in front of it.\<close>

definition route_place_bet :: "(BetResponse \<Rightarrow> json) \<Rightarrow> Env \<Rightarrow> GameDb \<Rightarrow> PlaceBet \<Rightarrow> Resp \<times> GameDb" where
  "route_place_bet enc env db data = (let r = place_bet env db data in
     (answer enc (mapE fst r), case r of Inr (_, db') \<Rightarrow> db' | Inl _ \<Rightarrow> db))"

definition gateway_place_bet :: "(BetResponse \<Rightarrow> json) \<Rightarrow> Env \<Rightarrow> GameDb \<Rightarrow> PlaceBet \<Rightarrow> Forwarded \<times> GameDb" where
  "gateway_place_bet enc env db data = (case route_place_bet enc env db data of (resp, db') \<Rightarrow> (forward_response resp, db'))"


section \<open>What the client is told\<close>

lemma status_4xx: "400 \<le> domain_error_status c m"
  by (simp add: domain_error_status_def)

lemma forward_domain_error:
  "forward_response (answer enc (Inl (DomainError c m))) = Raised (domain_error_status c m) (JStr m)"
  using status_4xx [of c m] by (simp add: answer_def detail_response_def forward_response_def dict_get_def)

lemma gateway_domain_error:
  "place_bet env db data = Inl (DomainError c m) \<Longrightarrow> gateway_place_bet enc env db data = (Raised (domain_error_status c m) (JStr m), db)"
  by (simp add: gateway_place_bet_def route_place_bet_def forward_domain_error)

lemma gateway_success:
  "place_bet env db data = Inr (res, db') \<Longrightarrow> gateway_place_bet enc env db data = (Returned (enc res), db')"
  by (simp add: gateway_place_bet_def route_place_bet_def answer_def forward_response_def)

text \<open>The validator raises domain errors only, and those answered with 404 are exactly the ones about a player who is not in the hand.\<close>

definition rule_error :: "error \<Rightarrow> bool" where
  "rule_error e \<longleftrightarrow> (\<exists>c m. e = DomainError c m \<and> domain_error_status c m = (if c = PlayerNotInHand then 404 else 400))"

lemma rule_error_raise:
  assumes "raise c m = Inl e" and "c \<notin> {NotFound, StaleStateError, DuplicateActionError, IdempotencyConflict}"
    and "c = PlayerNotInHand \<Longrightarrow> m = PLAYER_NOT_IN_HAND"
  shows "rule_error e"
proof -
  have "contains ''not in this hand'' (ErrorMessage_value PLAYER_NOT_IN_HAND)" by code_simp
  then show ?thesis using assms by (auto simp: rule_error_def raise_def domain_error_status_def)
qed

lemma validate_actor_rule_error: "validate_actor ctx pid = Inl e \<Longrightarrow> rule_error e"
  by (auto simp: validate_actor_def dest!: rule_error_raise split: if_splits option.splits)

lemma rule_error_illegal: "rule_error (DomainError IllegalAction m)"
  by (simp add: rule_error_def domain_error_status_def)

lemma validate_action_rule_error: "validate_action ctx p action amount = Inl e \<Longrightarrow> rule_error e"
  unfolding validate_action_def Let_def
  by (auto simp: rule_error_illegal dest!: rule_error_raise split: if_splits)

lemma validate_bet_rule_error: "validate_bet ctx pid action amount rules = Inl e \<Longrightarrow> rule_error e"
  unfolding validate_bet_def using validate_actor_rule_error validate_action_rule_error by (auto simp: bindE_simps)

text \<open>A bet of the round that carries the request's key, when the request has one; and whether it is the bet requested.\<close>

definition key_used_by :: "GameDb \<Rightarrow> PlaceBet \<Rightarrow> Bet \<Rightarrow> bool" where
  "key_used_by db data b \<longleftrightarrow> b \<in> set (db_bets db) \<and> b_round_id b = pb_round_id data \<and>
     b_idempotency_key b = pb_idempotency_key data \<and> pb_idempotency_key data \<notin> {None, Some []}"

definition same_request :: "PlaceBet \<Rightarrow> Bet \<Rightarrow> bool" where
  "same_request data b \<longleftrightarrow> b_player_id b = pb_player_id data \<and> BetAction_value (b_action b) = upper (pb_action data) \<and>
     b_amount b = pb_amount data"

definition conflict_message :: "string \<Rightarrow> round_id \<Rightarrow> string" where
  "conflict_message key rid = ''Idempotency key '' @ [CHR 0x27] @ key @ [CHR 0x27] @ '' already used in round '' @ rid @
     '' with a different payload''"

lemma unused_key_lookup:
  assumes "upper (pb_action data) \<in> VALID_BET_ACTIONS" and "\<nexists>b. key_used_by db data b"
  shows "place_bet_lookup db data = Inr None"
proof (cases "pb_idempotency_key data \<in> {None, Some []}")
  case False
  then obtain c cs where key: "pb_idempotency_key data = Some (c # cs)" by (auto simp: neq_Nil_conv)
  with assms(2) have "filter (\<lambda>b. b_round_id b = pb_round_id data \<and> b_idempotency_key b = pb_idempotency_key data) (db_bets db) = []"
    by (auto simp: key_used_by_def filter_empty_conv)
  with assms(1) key show ?thesis by (simp add: place_bet_lookup_def Let_def)
qed (use assms(1) in \<open>auto simp: place_bet_lookup_def\<close>)

lemma used_key_bet:
  assumes "db_ok db" and "key_used_by db data b" and "upper (pb_action data) \<in> VALID_BET_ACTIONS"
  shows "place_bet env db data = (if same_request data b then Inr (bet_to_response b, db)
    else Inl (idempotency_conflict (the (pb_idempotency_key data)) (pb_round_id data)))"
proof -
  from assms(2) obtain c cs where "pb_idempotency_key data = Some (c # cs)"
    by (cases "pb_idempotency_key data") (auto simp: key_used_by_def neq_Nil_conv)
  with lookup_hit [OF assms(1) _ _ _ this assms(3), of b env] assms(2) show ?thesis
    by (simp add: key_used_by_def same_request_def)
qed

lemma stale_status: "domain_error_status StaleStateError m = 409" "domain_error_status NotFound m = 404"
  "domain_error_status IdempotencyConflict m = 409"
  by (simp_all add: domain_error_status_def)

text \<open>
  C26: what the client of the gateway is told about a bet, in the order of the checks. An unknown action word is answered
  with 400. A request whose key was used in the round is answered with the stored bet when it is the same request, and
  with 409 when it is not. Otherwise there is 404 when there is no such round, 409 when the round has moved on since the
  version the client saw, and 400 with the message of the rule that was broken, or 404 when the player is not in the
  hand. An accepted bet is returned.
\<close>

theorem bet_request_statuses:
  assumes "db_ok db"
  shows "(upper (pb_action data) \<notin> VALID_BET_ACTIONS \<longrightarrow>
      fst (gateway_place_bet enc env db data) = Raised 400 (JStr (''Invalid bet action: '' @ pb_action data))) \<and>
    (upper (pb_action data) \<in> VALID_BET_ACTIONS \<longrightarrow>
      (\<forall>b. key_used_by db data b \<longrightarrow> gateway_place_bet enc env db data =
        (if same_request data b then Returned (enc (bet_to_response b))
         else Raised 409 (JStr (conflict_message (the (pb_idempotency_key data)) (pb_round_id data))), db)) \<and>
      ((\<nexists>b. key_used_by db data b) \<longrightarrow>
        ((\<forall>r \<in> set (db_rounds db). r_round_id r \<noteq> pb_round_id data) \<longrightarrow>
          fst (gateway_place_bet enc env db data) = Raised 404 (JStr ''Round not found'')) \<and>
        (\<forall>r. fetch_round db (pb_round_id data) = Inr r \<longrightarrow>
          (\<forall>k. pb_expected_version data = Some k \<and> k \<noteq> version_or_1 r \<longrightarrow>
            fst (gateway_place_bet enc env db data) = Raised 409 (JStr (stale_message k (version_or_1 r)))) \<and>
          (\<forall>e. (pb_expected_version data = None \<or> pb_expected_version data = Some (version_or_1 r)) \<and>
              validate_bet (build_hand_context r (get_round_players db (pb_round_id data))) (pb_player_id data)
                (upper (pb_action data)) (pb_amount data) NO_LIMIT_HOLDEM = Inl e \<longrightarrow>
            (\<exists>c m. e = DomainError c m \<and>
              fst (gateway_place_bet enc env db data) = Raised (if c = PlayerNotInHand then 404 else 400) (JStr m)))))) \<and>
    (\<forall>res db'. place_bet env db data = Inr (res, db') \<longrightarrow> gateway_place_bet enc env db data = (Returned (enc res), db'))"
proof (intro conjI allI impI)
  assume "upper (pb_action data) \<notin> VALID_BET_ACTIONS"
  then have "place_bet env db data = Inl (DomainError IllegalAction (''Invalid bet action: '' @ pb_action data))"
    by (simp add: place_bet_def place_bet_lookup_def Let_def ErrorMessage_value.simps)
  from gateway_domain_error [OF this]
  show "fst (gateway_place_bet enc env db data) = Raised 400 (JStr (''Invalid bet action: '' @ pb_action data))"
    by (simp add: domain_error_status_def)
next
  fix b assume "upper (pb_action data) \<in> VALID_BET_ACTIONS" and "key_used_by db data b"
  note bet = used_key_bet [OF assms this(2,1), of env]
  show "gateway_place_bet enc env db data = (if same_request data b then Returned (enc (bet_to_response b))
      else Raised 409 (JStr (conflict_message (the (pb_idempotency_key data)) (pb_round_id data))), db)"
    using bet gateway_success [of env db data "bet_to_response b" db enc]
      gateway_domain_error [of env db data IdempotencyConflict _ enc]
    by (simp add: idempotency_conflict_def conflict_message_def stale_status)
next
  assume valid: "upper (pb_action data) \<in> VALID_BET_ACTIONS" and unused: "\<nexists>b. key_used_by db data b"
  note look = unused_key_lookup [OF this]
  {
    assume "\<forall>r \<in> set (db_rounds db). r_round_id r \<noteq> pb_round_id data"
    then have "filter (\<lambda>r. r_round_id r = pb_round_id data) (db_rounds db) = []" by (simp add: filter_empty_conv)
    then have "place_bet env db data = raise NotFound ROUND_NOT_FOUND"
      by (simp add: place_bet_def look place_bet_read_def fetch_round_def fetch_or_raise_def)
    then have "place_bet env db data = Inl (DomainError NotFound ''Round not found'')" by (simp add: raise_def ErrorMessage_value.simps)
    from gateway_domain_error [OF this] show "fst (gateway_place_bet enc env db data) = Raised 404 (JStr ''Round not found'')"
      by (simp add: stale_status)
  }
  fix r assume "fetch_round db (pb_round_id data) = Inr r"
  then have bet: "place_bet env db data = place_bet_write env data (r, get_round_players db (pb_round_id data)) db"
    by (simp add: place_bet_def look place_bet_read_def)
  have refused: "place_bet env db data = Inl e"
    if "apply_action r (get_round_players db (pb_round_id data)) (pb_player_id data) (upper (pb_action data)) (pb_amount data)
      NO_LIMIT_HOLDEM (pb_expected_version data) = Inl e" for e
    using that by (simp add: bet place_bet_write_def)
  show "fst (gateway_place_bet enc env db data) = Raised 409 (JStr (stale_message k (version_or_1 r)))"
    if "pb_expected_version data = Some k \<and> k \<noteq> version_or_1 r" for k
  proof -
    have "place_bet env db data = Inl (DomainError StaleStateError (stale_message k (version_or_1 r)))"
      by (rule refused) (use that in \<open>simp add: apply_action_Inl\<close>)
    from gateway_domain_error [OF this] show ?thesis by (simp add: stale_status)
  qed
  show "\<exists>c m. e = DomainError c m \<and> fst (gateway_place_bet enc env db data) = Raised (if c = PlayerNotInHand then 404 else 400) (JStr m)"
    if a: "(pb_expected_version data = None \<or> pb_expected_version data = Some (version_or_1 r)) \<and>
      validate_bet (build_hand_context r (get_round_players db (pb_round_id data))) (pb_player_id data)
        (upper (pb_action data)) (pb_amount data) NO_LIMIT_HOLDEM = Inl e" for e
  proof -
    from a have "rule_error e" by (blast intro: validate_bet_rule_error)
    then obtain c m where e: "e = DomainError c m" "domain_error_status c m = (if c = PlayerNotInHand then 404 else 400)"
      by (auto simp: rule_error_def simp del: if_split_eq1 split del: if_split)
    have "place_bet env db data = Inl e" by (rule refused) (use a in \<open>simp add: apply_action_Inl\<close>)
    then have "fst (gateway_place_bet enc env db data) = Raised (domain_error_status c m) (JStr m)"
      unfolding e(1) by (simp add: gateway_domain_error)
    then show ?thesis unfolding e(2) by (intro exI conjI) (rule e(1))
  qed
next
  show "gateway_place_bet enc env db data = (Returned (enc res), db')" if "place_bet env db data = Inr (res, db')" for res db'
    using that by (rule gateway_success)
qed

text \<open>A missing ledger entry is not a \<^verbatim>\<open>NotFound\<close> and is answered with 400, unlike every other missing object.\<close>

lemma missing_ledger_entry_is_400: "domain_error_status LedgerEntryNotFound m = 400"
  by (simp add: domain_error_status_def)

text \<open>An outdated version is refused, but the same request that succeeded before is answered as before.\<close>

theorem bet_request_statuses_witness:
  "fst (gateway_place_bet (\<lambda>_. JNone) example_env example_db
     \<lparr>pb_round_id = ''r'', pb_player_id = ''a'', pb_action = ''fold'', pb_amount = 0, pb_idempotency_key = None, pb_expected_version = Some 99\<rparr>) =
     Raised 409 (JStr (stale_message 99 (version_or_1 example_round))) \<and>
   gateway_place_bet (\<lambda>_. JNone) example_env (snd example_placed) ((bet_request ''a'')\<lparr>pb_expected_version := Some 99\<rparr>) =
     (Returned JNone, snd example_placed)"
proof -
  let ?data = "\<lparr>pb_round_id = ''r'', pb_player_id = ''a'', pb_action = ''fold'', pb_amount = 0, pb_idempotency_key = None,
    pb_expected_version = Some 99\<rparr> :: PlaceBet"
  have none: "\<nexists>b. key_used_by example_db ?data b" by (simp add: key_used_by_def)
  have act: "upper (pb_action ?data) \<in> VALID_BET_ACTIONS" by code_simp
  have rnd: "fetch_round example_db (pb_round_id ?data) = Inr example_round" by code_simp
  have ver: "pb_expected_version ?data = Some 99 \<and> 99 \<noteq> version_or_1 example_round" by code_simp
  note stale = bet_request_statuses [OF example_db_ok, of ?data "\<lambda>_. JNone" example_env, THEN conjunct2, THEN conjunct1,
    rule_format, OF act, THEN conjunct2, rule_format, OF none, THEN conjunct2, rule_format, OF rnd, THEN conjunct1,
    rule_format, OF ver]
  let ?again = "(bet_request ''a'')\<lparr>pb_expected_version := Some 99\<rparr>" and ?b = "bet_row example_env example_db (bet_request ''a'') (fst example_acted)"
  have act': "upper (pb_action ?again) \<in> VALID_BET_ACTIONS" by code_simp
  have "?b \<in> set (db_bets (snd example_placed))" "b_round_id ?b = pb_round_id ?again"
    "b_idempotency_key ?b = pb_idempotency_key ?again" "pb_idempotency_key ?again \<notin> {None, Some []}" "same_request ?again ?b"
    by code_simp+
  then have used: "key_used_by (snd example_placed) ?again ?b" and same: "same_request ?again ?b" by (simp_all add: key_used_by_def)
  from bet_request_statuses [OF example_placed_db_ok, of ?again "\<lambda>_. JNone" example_env, THEN conjunct2, THEN conjunct1,
    rule_format, OF act', THEN conjunct1, rule_format, OF used] same stale
  show ?thesis by simp
qed

end
