(* ===== verification/Routing.thy ===== *)
theory Routing
  imports Prelude
begin

text \<open>
  The HTTP routes of the five services: the gateway's (\<^verbatim>\<open>services/gateway-service/app/routes\<close>), each forwarding to one service, and those
  of the services (\<^verbatim>\<open>app/api\<close>), in the order in which they are registered. A request goes to the first route whose method is its
  method and whose path matches; a parameter matches one segment. The WebSocket route is in \<open>Table_Feed\<close>;
  query parameters and bodies, which are passed on as they are, are left out.
\<close>

section \<open>Paths\<close>

datatype Method = M_GET | M_POST | M_PUT | M_DELETE

datatype seg = Lit string | Par string

fun split_slash :: "string \<Rightarrow> string \<Rightarrow> string list" where
  "split_slash acc [] = [rev acc]"
| "split_slash acc (c # cs) = (if c = CHR ''/'' then rev acc # split_slash [] cs else split_slash (c # acc) cs)"

definition parse_seg :: "string \<Rightarrow> seg" where
  "parse_seg s = (case s of c # cs \<Rightarrow> (if c = CHR ''{'' then Par (butlast cs) else Lit s) | [] \<Rightarrow> Lit [])"

text \<open>The template of a path, without its leading slash.\<close>

definition path :: "string \<Rightarrow> seg list" where
  "path s = map parse_seg (tl (split_slash [] s))"

fun matches :: "seg list \<Rightarrow> string list \<Rightarrow> bool" where
  "matches [] [] \<longleftrightarrow> True"
| "matches (Lit s # ts) (x # xs) \<longleftrightarrow> s = x \<and> matches ts xs"
| "matches (Par n # ts) (x # xs) \<longleftrightarrow> x \<noteq> [] \<and> matches ts xs"
| "matches _ _ \<longleftrightarrow> False"

type_synonym route = "Method \<times> seg list"

definition dispatch :: "route list \<Rightarrow> Method \<Rightarrow> string list \<Rightarrow> route option" where
  "dispatch routes m p = List.find (\<lambda>r. fst r = m \<and> matches (snd r) p) routes"


section \<open>The routes of the services\<close>

text \<open>
  A route with the method of the service it calls: each handler makes this one call, with the parameters of the path and the body.
  The routes are listed router by router, in the order of \<^verbatim>\<open>main.py\<close>.
\<close>

definition endpoints :: "(Method \<times> string \<times> string) list \<Rightarrow> (route \<times> string) list" where
  "endpoints rs = map (\<lambda>(m, s, f). ((m, path s), f)) rs"

definition bet_command_router :: "(route \<times> string) list" where
  "bet_command_router = endpoints [
     (M_POST, ''/bets'', ''BetCommandService.place_bet'')]"

definition correction_command_router :: "(route \<times> string) list" where
  "correction_command_router = endpoints [
     (M_GET, ''/rounds/{round_id}/ledger'', ''CorrectionCommandService.get_ledger''),
     (M_GET, ''/rounds/{round_id}/hand-state'', ''CorrectionCommandService.get_hand_state''),
     (M_POST, ''/rounds/{round_id}/corrections/reverse-action'', ''CorrectionCommandService.reverse_action''),
     (M_POST, ''/rounds/{round_id}/corrections/adjust-stack'', ''CorrectionCommandService.adjust_stack''),
     (M_POST, ''/rounds/{round_id}/corrections/reopen-hand'', ''CorrectionCommandService.reopen_hand''),
     (M_POST, ''/rounds/{round_id}/corrections/correct-payout'', ''CorrectionCommandService.correct_payout'')]"

definition game_command_router :: "(route \<times> string) list" where
  "game_command_router = endpoints [
     (M_POST, ''/games'', ''GameCommandService.start_game''),
     (M_POST, ''/games/{game_id}/rounds'', ''GameCommandService.start_round''),
     (M_POST, ''/rounds/{round_id}/resolve'', ''GameCommandService.resolve_hand''),
     (M_POST, ''/rounds/{round_id}/advance-street'', ''GameCommandService.advance_street''),
     (M_POST, ''/rounds/{round_id}/winner'', ''GameCommandService.declare_winner''),
     (M_POST, ''/games/{game_id}/advance-blinds'', ''GameCommandService.advance_blinds''),
     (M_POST, ''/games/{game_id}/end'', ''GameCommandService.end_game'')]"

definition table_runtime_command_router :: "(route \<times> string) list" where
  "table_runtime_command_router = endpoints [
     (M_POST, ''/games/{game_id}/pause'', ''TableRuntimeCommandService.pause_table''),
     (M_POST, ''/games/{game_id}/resume'', ''TableRuntimeCommandService.resume_table''),
     (M_POST, ''/games/{game_id}/record-hand-completed'', ''TableRuntimeCommandService.record_hand_completed''),
     (M_GET, ''/games/{game_id}/session-status'', ''TableRuntimeCommandService.get_session_status'')]"

definition bet_query_router :: "(route \<times> string) list" where
  "bet_query_router = endpoints [
     (M_GET, ''/bets/round/{round_id}'', ''BetQueryService.get_bets_for_round''),
     (M_GET, ''/bets/round/{round_id}/pot'', ''BetQueryService.get_pot''),
     (M_GET, ''/bets/round/{round_id}/players'', ''BetQueryService.get_player_summaries'')]"

definition game_query_router :: "(route \<times> string) list" where
  "game_query_router = endpoints [
     (M_GET, ''/games/{game_id}'', ''GameQueryService.get_game''),
     (M_GET, ''/games/room/{room_id}'', ''GameQueryService.get_game_for_room''),
     (M_GET, ''/games/{game_id}/rounds'', ''GameQueryService.list_rounds''),
     (M_GET, ''/games/{game_id}/rounds/active'', ''GameQueryService.get_active_round''),
     (M_GET, ''/rounds/{round_id}'', ''GameQueryService.get_round''),
     (M_GET, ''/rounds/{round_id}/replay'', ''GameQueryService.get_replay''),
     (M_GET, ''/rounds/{round_id}/timeline'', ''GameQueryService.get_timeline''),
     (M_GET, ''/rounds/{round_id}/settlement-explanation'', ''GameQueryService.get_settlement_explanation''),
     (M_GET, ''/rounds/{round_id}/consistency-check'', ''GameQueryService.check_consistency''),
     (M_GET, ''/rounds/{round_id}/table-state'', ''GameQueryService.get_table_state'')]"

definition game_service_endpoints :: "(route \<times> string) list" where
  "game_service_endpoints = bet_command_router @ correction_command_router @ game_command_router @ table_runtime_command_router @ bet_query_router @ game_query_router @
     endpoints [(M_GET, ''/health'', ''health'')]"

definition room_command_router :: "(route \<times> string) list" where
  "room_command_router = endpoints [
     (M_POST, ''/rooms'', ''RoomCommandService.create_room''),
     (M_POST, ''/rooms/{room_id}/activate'', ''RoomCommandService.activate_room''),
     (M_POST, ''/rooms/{room_id}/finish'', ''RoomCommandService.finish_room''),
     (M_PUT, ''/rooms/{room_id}/blinds'', ''RoomCommandService.set_blind_structure''),
     (M_PUT, ''/rooms/{room_id}/seats'', ''RoomCommandService.reorder_seats''),
     (M_DELETE, ''/rooms/{room_id}'', ''RoomCommandService.delete_room'')]"

definition room_player_command_router :: "(route \<times> string) list" where
  "room_player_command_router = endpoints [
     (M_POST, ''/rooms/join/{code}'', ''RoomPlayerCommandService.join_room_by_code''),
     (M_PUT, ''/players/{player_id}/chips'', ''RoomPlayerCommandService.update_player_chips''),
     (M_POST, ''/players/{player_id}/eliminate'', ''RoomPlayerCommandService.eliminate_player'')]"

definition room_query_router :: "(route \<times> string) list" where
  "room_query_router = endpoints [
     (M_GET, ''/rooms/{room_id}'', ''RoomQueryService.get_room''),
     (M_GET, ''/rooms/code/{code}'', ''RoomQueryService.get_room_by_code''),
     (M_GET, ''/rooms'', ''RoomQueryService.list_rooms'')]"

definition room_player_query_router :: "(route \<times> string) list" where
  "room_player_query_router = endpoints [
     (M_GET, ''/players/{player_id}'', ''RoomPlayerQueryService.get_player'')]"

definition room_service_endpoints :: "(route \<times> string) list" where
  "room_service_endpoints = room_command_router @ room_player_command_router @ room_query_router @ room_player_query_router @
     endpoints [(M_GET, ''/health'', ''health'')]"

definition auth_authentication_command_router :: "(route \<times> string) list" where
  "auth_authentication_command_router = endpoints [
     (M_POST, ''/register'', ''AuthAuthenticationCommandService.register''),
     (M_POST, ''/login'', ''AuthAuthenticationCommandService.login''),
     (M_POST, ''/refresh'', ''AuthAuthenticationCommandService.refresh_tokens''),
     (M_POST, ''/logout'', ''AuthAuthenticationCommandService.logout'')]"

definition auth_password_command_router :: "(route \<times> string) list" where
  "auth_password_command_router = endpoints [
     (M_POST, ''/forgot-password'', ''AuthPasswordCommandService.forgot_password''),
     (M_POST, ''/reset-password'', ''AuthPasswordCommandService.reset_password'')]"

definition auth_user_command_router :: "(route \<times> string) list" where
  "auth_user_command_router = endpoints [
     (M_PUT, ''/auth-users/{user_id}'', ''AuthUserCommandService.update_auth_user''),
     (M_DELETE, ''/auth-users/{user_id}'', ''AuthUserCommandService.delete_auth_user'')]"

definition auth_user_query_router :: "(route \<times> string) list" where
  "auth_user_query_router = endpoints [
     (M_GET, ''/auth-users'', ''AuthUserQueryService.list_users''),
     (M_GET, ''/auth-users/{user_id}'', ''AuthUserQueryService.get_by_id''),
     (M_GET, ''/auth-users/by-email/{email}'', ''AuthUserQueryService.get_auth_user_by_email'')]"

definition auth_service_endpoints :: "(route \<times> string) list" where
  "auth_service_endpoints = auth_authentication_command_router @ auth_password_command_router @ auth_user_command_router @ auth_user_query_router @
     endpoints [(M_GET, ''/health'', ''health'')]"

definition user_command_router :: "(route \<times> string) list" where
  "user_command_router = endpoints [
     (M_POST, ''/users'', ''UserCommandService.create_user''),
     (M_PUT, ''/users/{email}'', ''UserCommandService.update_user''),
     (M_DELETE, ''/users/{email}'', ''UserCommandService.delete_user'')]"

definition user_query_router :: "(route \<times> string) list" where
  "user_query_router = endpoints [
     (M_GET, ''/users'', ''UserQueryService.list_users''),
     (M_GET, ''/users/{email}'', ''UserQueryService.get_user'')]"

definition user_service_endpoints :: "(route \<times> string) list" where
  "user_service_endpoints = user_command_router @ user_query_router @
     endpoints [(M_GET, ''/health'', ''health'')]"

datatype Service = AUTH | USER | ROOM | GAME

primrec service_endpoints :: "Service \<Rightarrow> (route \<times> string) list" where
  "service_endpoints AUTH = auth_service_endpoints"
| "service_endpoints USER = user_service_endpoints"
| "service_endpoints ROOM = room_service_endpoints"
| "service_endpoints GAME = game_service_endpoints"

definition service_routes :: "Service \<Rightarrow> route list" where
  "service_routes svc = map fst (service_endpoints svc)"

definition operation :: "Service \<Rightarrow> Method \<Rightarrow> string list \<Rightarrow> string option" where
  "operation svc m p = map_option snd (List.find (\<lambda>e. fst (fst e) = m \<and> matches (snd (fst e)) p) (service_endpoints svc))"


section \<open>The routes of the gateway\<close>

text \<open>A route, the service its client belongs to, and the method and path it calls there.\<close>

record GatewayRoute =
  gr_route :: route
  gr_service :: Service
  gr_target :: route

definition forwards :: "Service \<Rightarrow> Method \<Rightarrow> string \<Rightarrow> string \<Rightarrow> GatewayRoute" where
  "forwards svc m public target = \<lparr>gr_route = (m, path public), gr_service = svc, gr_target = (m, path target)\<rparr>"

definition gateway_auth_routes :: "GatewayRoute list" where
  "gateway_auth_routes = [
     forwards AUTH M_POST ''/register'' ''/register'', forwards AUTH M_POST ''/login'' ''/login'',
     forwards AUTH M_POST ''/refresh'' ''/refresh'', forwards AUTH M_POST ''/logout'' ''/logout'',
     forwards AUTH M_POST ''/forgot-password'' ''/forgot-password'', forwards AUTH M_POST ''/reset-password'' ''/reset-password'',
     forwards AUTH M_GET ''/auth-users'' ''/auth-users'',
     forwards AUTH M_GET ''/auth-users/{user_id}'' ''/auth-users/{user_id}'',
     forwards AUTH M_GET ''/auth-users/by-email/{email}'' ''/auth-users/by-email/{email}'',
     forwards AUTH M_PUT ''/auth-users/{user_id}'' ''/auth-users/{user_id}'',
     forwards AUTH M_DELETE ''/auth-users/{user_id}'' ''/auth-users/{user_id}'']"

definition gateway_user_routes :: "GatewayRoute list" where
  "gateway_user_routes = [
     forwards USER M_GET ''/users'' ''/users'', forwards USER M_GET ''/users/{email}'' ''/users/{email}'',
     forwards USER M_POST ''/users'' ''/users'', forwards USER M_PUT ''/users/{email}'' ''/users/{email}'',
     forwards USER M_DELETE ''/users/{email}'' ''/users/{email}'']"

definition gateway_room_routes :: "GatewayRoute list" where
  "gateway_room_routes = [
     forwards ROOM M_POST ''/rooms'' ''/rooms'', forwards ROOM M_GET ''/rooms/{room_id}'' ''/rooms/{room_id}'',
     forwards ROOM M_GET ''/rooms/code/{code}'' ''/rooms/code/{code}'', forwards ROOM M_GET ''/rooms'' ''/rooms'',
     forwards ROOM M_POST ''/rooms/join/{code}'' ''/rooms/join/{code}'',
     forwards ROOM M_PUT ''/rooms/{room_id}/blinds'' ''/rooms/{room_id}/blinds'',
     forwards ROOM M_PUT ''/rooms/{room_id}/seats'' ''/rooms/{room_id}/seats'',
     forwards ROOM M_DELETE ''/rooms/{room_id}'' ''/rooms/{room_id}'']"

definition gateway_player_routes :: "GatewayRoute list" where
  "gateway_player_routes = [
     forwards ROOM M_GET ''/players/{player_id}'' ''/players/{player_id}'',
     forwards ROOM M_PUT ''/players/{player_id}/chips'' ''/players/{player_id}/chips'',
     forwards ROOM M_POST ''/players/{player_id}/eliminate'' ''/players/{player_id}/eliminate'']"

definition gateway_game_routes :: "GatewayRoute list" where
  "gateway_game_routes = [
     forwards GAME M_POST ''/games'' ''/games'', forwards GAME M_GET ''/games/{game_id}'' ''/games/{game_id}'',
     forwards GAME M_GET ''/games/room/{room_id}'' ''/games/room/{room_id}'',
     forwards GAME M_POST ''/games/{game_id}/rounds'' ''/games/{game_id}/rounds'',
     forwards GAME M_GET ''/games/{game_id}/rounds'' ''/games/{game_id}/rounds'',
     forwards GAME M_GET ''/games/{game_id}/rounds/active'' ''/games/{game_id}/rounds/active'',
     forwards GAME M_POST ''/games/{game_id}/advance-blinds'' ''/games/{game_id}/advance-blinds'',
     forwards GAME M_POST ''/games/{game_id}/end'' ''/games/{game_id}/end'',
     forwards GAME M_POST ''/games/{game_id}/pause'' ''/games/{game_id}/pause'',
     forwards GAME M_POST ''/games/{game_id}/resume'' ''/games/{game_id}/resume'',
     forwards GAME M_POST ''/games/{game_id}/record-hand-completed'' ''/games/{game_id}/record-hand-completed'',
     forwards GAME M_GET ''/games/{game_id}/session-status'' ''/games/{game_id}/session-status'']"

definition gateway_round_routes :: "GatewayRoute list" where
  "gateway_round_routes = [
     forwards GAME M_GET ''/rounds/{round_id}'' ''/rounds/{round_id}'',
     forwards GAME M_POST ''/rounds/{round_id}/resolve'' ''/rounds/{round_id}/resolve'',
     forwards GAME M_POST ''/rounds/{round_id}/advance-street'' ''/rounds/{round_id}/advance-street'',
     forwards GAME M_POST ''/rounds/{round_id}/winner'' ''/rounds/{round_id}/winner'',
     forwards GAME M_GET ''/rounds/{round_id}/ledger'' ''/rounds/{round_id}/ledger'',
     forwards GAME M_GET ''/rounds/{round_id}/hand-state'' ''/rounds/{round_id}/hand-state'',
     forwards GAME M_GET ''/rounds/{round_id}/replay'' ''/rounds/{round_id}/replay'',
     forwards GAME M_GET ''/rounds/{round_id}/timeline'' ''/rounds/{round_id}/timeline'',
     forwards GAME M_GET ''/rounds/{round_id}/settlement-explanation'' ''/rounds/{round_id}/settlement-explanation'',
     forwards GAME M_GET ''/rounds/{round_id}/consistency-check'' ''/rounds/{round_id}/consistency-check'',
     forwards GAME M_GET ''/rounds/{round_id}/table-state'' ''/rounds/{round_id}/table-state'',
     forwards GAME M_POST ''/rounds/{round_id}/corrections/reverse-action'' ''/rounds/{round_id}/corrections/reverse-action'',
     forwards GAME M_POST ''/rounds/{round_id}/corrections/adjust-stack'' ''/rounds/{round_id}/corrections/adjust-stack'',
     forwards GAME M_POST ''/rounds/{round_id}/corrections/reopen-hand'' ''/rounds/{round_id}/corrections/reopen-hand'',
     forwards GAME M_POST ''/rounds/{round_id}/corrections/correct-payout'' ''/rounds/{round_id}/corrections/correct-payout'']"

definition gateway_bet_routes :: "GatewayRoute list" where
  "gateway_bet_routes = [
     forwards GAME M_POST ''/bets'' ''/bets'', forwards GAME M_GET ''/bets/round/{round_id}'' ''/bets/round/{round_id}'',
     forwards GAME M_GET ''/bets/round/{round_id}/pot'' ''/bets/round/{round_id}/pot'',
     forwards GAME M_GET ''/bets/round/{round_id}/players'' ''/bets/round/{round_id}/players'']"

definition gateway_routes :: "GatewayRoute list" where
  "gateway_routes = gateway_auth_routes @ gateway_user_routes @ gateway_room_routes @ gateway_player_routes @
     gateway_game_routes @ gateway_round_routes @ gateway_bet_routes"

text \<open>The values of the parameters of a path, and the path that is called with them.\<close>

fun params :: "seg list \<Rightarrow> string list \<Rightarrow> (string \<times> string) list" where
  "params (Par n # ts) (x # xs) = (n, x) # params ts xs"
| "params (Lit s # ts) (x # xs) = params ts xs"
| "params _ _ = []"

definition fill :: "(string \<times> string) list \<Rightarrow> seg list \<Rightarrow> string list" where
  "fill env ts = map (\<lambda>t. case t of Lit s \<Rightarrow> s | Par n \<Rightarrow> (case map_of env n of Some x \<Rightarrow> x | None \<Rightarrow> [])) ts"

text \<open>
  The URL is an f-string over the decoded values, which are not quoted again: what follows a question mark or a hash is no longer
  part of the path the service sees.
\<close>

definition url :: "string list \<Rightarrow> string" where
  "url segs = concat (map (\<lambda>s. CHR ''/'' # s) segs)"

definition seen_path :: "string \<Rightarrow> string list" where
  "seen_path u = tl (split_slash [] (takeWhile (\<lambda>c. c \<notin> set ''?#'') u))"

text \<open>
  Values that are their own quotation. Left out are percent signs and dot segments, which the HTTP library rewrites, and
  control characters, with which it raises \<^verbatim>\<open>InvalidURL\<close>.
\<close>

definition plain :: "string \<Rightarrow> bool" where
  "plain s \<longleftrightarrow> list_all (\<lambda>c. c \<notin> set ''?#%/'' \<and> 32 \<le> (of_char c :: nat) \<and> (of_char c :: nat) \<noteq> 127) s \<and> s \<notin> {''.'', ''..''}"

definition gateway_dispatch :: "Method \<Rightarrow> string list \<Rightarrow> GatewayRoute option" where
  "gateway_dispatch m p = List.find (\<lambda>g. fst (gr_route g) = m \<and> matches (snd (gr_route g)) p) gateway_routes"

definition forwarded_path :: "GatewayRoute \<Rightarrow> string list \<Rightarrow> string list" where
  "forwarded_path g p = seen_path (url (fill (params (snd (gr_route g)) p) (snd (gr_target g))))"


section \<open>Matching\<close>

lemma split_slash_append: "CHR ''/'' \<notin> set s \<Longrightarrow> split_slash acc (s @ r) = split_slash (rev s @ acc) r"
  by (induction s arbitrary: acc) auto

lemma split_slash_url: "\<forall>s \<in> set ss. CHR ''/'' \<notin> set s \<Longrightarrow> split_slash acc (url ss) = rev acc # ss"
proof (induction ss arbitrary: acc)
  case (Cons s ss)
  then show ?case using split_slash_append [of s "[]" "url ss"] by (simp add: url_def)
qed (simp add: url_def)

lemma seen_path_url: "list_all plain ss \<Longrightarrow> seen_path (url ss) = ss"
proof -
  assume *: "list_all plain ss"
  then have "takeWhile (\<lambda>c. c \<notin> set ''?#'') (url ss) = url ss"
    by (auto simp: url_def plain_def list_all_iff takeWhile_eq_all_conv)
  moreover have "\<forall>s \<in> set ss. CHR ''/'' \<notin> set s" using * by (auto simp: list_all_iff plain_def)
  ultimately show ?thesis by (simp only: seen_path_def split_slash_url list.sel)
qed

fun pars :: "seg list \<Rightarrow> string list" where
  "pars [] = []"
| "pars (Par n # ts) = n # pars ts"
| "pars (Lit s # ts) = pars ts"

lemma fill_cons: "n \<notin> set (pars ts) \<Longrightarrow> fill ((n, x) # env) ts = fill env ts"
  by (induction ts rule: pars.induct) (auto simp: fill_def)

text \<open>Filling in the values gives back the path.\<close>

lemma fill_params: "matches ts p \<Longrightarrow> distinct (pars ts) \<Longrightarrow> fill (params ts p) ts = p"
proof (induction ts p rule: matches.induct)
  case (3 n ts x xs)
  then have "fill ((n, x) # params ts xs) ts = fill (params ts xs) ts" by (intro fill_cons) simp
  with 3 show ?case by (simp add: fill_def)
qed (simp_all add: fill_def)

text \<open>Two templates that match a common path, and the template of their common paths.\<close>

fun meet_seg :: "seg \<Rightarrow> seg \<Rightarrow> seg option" where
  "meet_seg (Lit a) (Lit b) = (if a = b then Some (Lit a) else None)"
| "meet_seg (Lit a) (Par n) = Some (Lit a)"
| "meet_seg (Par n) t = Some t"

fun meet :: "seg list \<Rightarrow> seg list \<Rightarrow> seg list option" where
  "meet [] [] = Some []"
| "meet (s # ss) (t # ts) = (case (meet_seg s t, meet ss ts) of (Some u, Some us) \<Rightarrow> Some (u # us) | _ \<Rightarrow> None)"
| "meet _ _ = None"

fun seg_matches :: "seg \<Rightarrow> string \<Rightarrow> bool" where
  "seg_matches (Lit s) x \<longleftrightarrow> s = x"
| "seg_matches (Par n) x \<longleftrightarrow> x \<noteq> []"

lemma matches_Cons: "matches (t # ts) p \<longleftrightarrow> (\<exists>x xs. p = x # xs \<and> seg_matches t x \<and> matches ts xs)"
  by (cases t; cases p) simp_all

lemma matches_Nil: "matches [] p \<longleftrightarrow> p = []"
  by (cases p) simp_all

lemma meet_seg_matches: "seg_matches s x \<Longrightarrow> seg_matches t x \<Longrightarrow> \<exists>u. meet_seg s t = Some u \<and> seg_matches u x"
  by (cases s; cases t) auto

lemma meet_matches: "matches ss p \<Longrightarrow> matches ts p \<Longrightarrow> \<exists>us. meet ss ts = Some us \<and> matches us p"
proof (induction ss ts arbitrary: p rule: meet.induct)
  case (2 s ss t ts)
  from 2(2,3) obtain x xs where p: "p = x # xs" "seg_matches s x" "seg_matches t x" "matches ss xs" "matches ts xs"
    by (auto simp: matches_Cons)
  from 2(1) [OF p(4,5)] obtain us where "meet ss ts = Some us" "matches us xs" by blast
  moreover from meet_seg_matches [OF p(2,3)] obtain u where "meet_seg s t = Some u" "seg_matches u x" by blast
  ultimately show ?case using p(1) by (simp add: matches_Cons)
qed (auto simp: matches_Cons matches_Nil)

text \<open>Paths that an earlier route of the service takes away from the route the gateway means.\<close>

definition before :: "'a \<Rightarrow> 'a list \<Rightarrow> 'a list" where
  "before x xs = takeWhile (\<lambda>y. y \<noteq> x) xs"

definition taken_away :: "route list \<Rightarrow> route list \<Rightarrow> route \<Rightarrow> route list" where
  "taken_away gw svc g = concat (map (\<lambda>h.
     if fst h \<noteq> fst g then []
     else case meet (snd g) (snd h) of
       None \<Rightarrow> []
     | Some us \<Rightarrow> (if h \<in> set (before g gw) then [] else [(fst g, us)])) (before g svc))"

lemma before_simps [simp]: "before x [] = []" "before x (y # ys) = (if y = x then [] else y # before x ys)"
  by (simp_all add: before_def)

lemma find_before: "List.find P xs = Some x \<Longrightarrow> y \<in> set (before x xs) \<Longrightarrow> \<not> P y"
proof (induction xs)
  case (Cons a xs)
  then show ?case by (cases "P a"; cases "a = x") auto
qed simp

lemma find_or_before: "x \<in> set xs \<Longrightarrow> P x \<Longrightarrow> \<forall>y \<in> set (before x xs). \<not> P y \<Longrightarrow> List.find P xs = Some x"
proof (induction xs)
  case (Cons a xs)
  then show ?case by (cases "a = x") auto
qed simp

lemma find_map_of: "List.find (\<lambda>e. P (fst e)) es = Some e \<Longrightarrow> map_of es (fst e) = Some (snd e)"
proof (induction es)
  case (Cons a es)
  then show ?case by (cases "P (fst a)") (auto simp: find_Some_iff)
qed simp

lemma dispatch_operation: "dispatch (service_routes svc) m p = Some r \<Longrightarrow> operation svc m p = map_of (service_endpoints svc) r"
  using find_map_of [where P = "\<lambda>r. fst r = m \<and> matches (snd r) p" and es = "service_endpoints svc"]
  by (auto simp: dispatch_def operation_def service_routes_def find_map comp_def)

lemma dispatch_agrees:
  assumes "dispatch gw m p = Some g" and "g \<in> set svc"
    and "\<forall>c \<in> set (taken_away gw svc g). \<not> (fst c = m \<and> matches (snd c) p)"
  shows "dispatch svc m p = Some g"
proof -
  from assms(1) have g: "fst g = m" "matches (snd g) p" by (auto simp: dispatch_def find_Some_iff)
  have "\<not> (fst h = m \<and> matches (snd h) p)" if h: "h \<in> set (before g svc)" for h
  proof
    assume hit: "fst h = m \<and> matches (snd h) p"
    then have "h \<notin> set (before g gw)" using find_before [OF assms(1) [unfolded dispatch_def]] by blast
    moreover from meet_matches g(2) hit obtain us where "meet (snd g) (snd h) = Some us" "matches us p" by blast
    ultimately have "(m, us) \<in> set (taken_away gw svc g)" using h hit g(1) unfolding taken_away_def by force
    with assms(3) \<open>matches us p\<close> show False by force
  qed
  with assms(2) g show ?thesis unfolding dispatch_def by (intro find_or_before) auto
qed


section \<open>The gateway against the services\<close>

text \<open>What the tables say, by inspection of every route.\<close>

abbreviation public_routes :: "route list" where
  "public_routes \<equiv> map gr_route gateway_routes"

definition route_ok :: "GatewayRoute \<Rightarrow> bool" where
  "route_ok g \<longleftrightarrow> gr_target g = gr_route g \<and> distinct (pars (snd (gr_route g))) \<and> gr_route g \<in> set (service_routes (gr_service g))"

definition misrouted :: "Service \<Rightarrow> route list" where
  "misrouted svc = (let gw = public_routes; rs = service_routes svc in
     concat (map (\<lambda>g. taken_away gw rs (gr_route g)) (filter (\<lambda>g. gr_service g = svc) gateway_routes)))"

lemma gateway_routes_ok: "list_all route_ok gateway_routes"
  by code_simp

lemma misrouted_auth: "misrouted AUTH = []"
  by code_simp

lemma misrouted_user: "misrouted USER = []"
  by code_simp

lemma misrouted_room: "misrouted ROOM =
  [(M_POST, [Lit ''rooms'', Lit ''join'', Lit ''activate'']), (M_POST, [Lit ''rooms'', Lit ''join'', Lit ''finish''])]"
  by code_simp

lemma misrouted_game: "misrouted GAME = [(M_GET, [Lit ''games'', Lit ''room'', Lit ''session-status''])]"
  by code_simp

lemmas misrouted_eq = misrouted_auth misrouted_user misrouted_room misrouted_game

text \<open>Routes of the services that the gateway does not offer.\<close>

definition internal_routes :: "Service \<Rightarrow> route list" where
  "internal_routes svc = (let gw = public_routes in filter (\<lambda>r. r \<notin> set gw) (service_routes svc))"

lemma internal_room: "internal_routes ROOM =
  [(M_POST, [Lit ''rooms'', Par ''room_id'', Lit ''activate'']), (M_POST, [Lit ''rooms'', Par ''room_id'', Lit ''finish'']), (M_GET, [Lit ''health''])]"
  by code_simp

lemma internal_others: "internal_routes AUTH = [(M_GET, [Lit ''health''])]" "internal_routes USER = [(M_GET, [Lit ''health''])]"
  "internal_routes GAME = [(M_GET, [Lit ''health''])]"
  by code_simp+

lemma gateway_dispatch_public: "dispatch public_routes m p = map_option gr_route (gateway_dispatch m p)"
  by (simp add: dispatch_def gateway_dispatch_def find_map)

text \<open>Three paths, none of which a client uses: codes have four characters and identifiers are UUIDs.\<close>

definition odd_requests :: "(Method \<times> string list) set" where
  "odd_requests = {(M_POST, [''rooms'', ''join'', ''activate'']), (M_POST, [''rooms'', ''join'', ''finish'']),
     (M_GET, [''games'', ''room'', ''session-status''])}"

lemma misrouted_odd:
  assumes "c \<in> set (misrouted svc)" and "fst c = m" and "matches (snd c) p"
  shows "(m, p) \<in> odd_requests"
  using assms by (cases svc) (auto simp: misrouted_eq odd_requests_def matches_Cons matches_Nil)

text \<open>
  C39: Every request the gateway accepts arrives where it is meant to: the path it calls is the path it was called with, the service
  hands it to the route declared for exactly that method and path, and runs the operation declared there, for all paths
  of plain segments (no reserved and no control character) but three odd ones.
\<close>

theorem gateway_requests_arrive:
  assumes "gateway_dispatch m p = Some g" and "list_all plain p" and "(m, p) \<notin> odd_requests"
  shows "gr_target g = gr_route g \<and> forwarded_path g p = p \<and>
    dispatch (service_routes (gr_service g)) m (forwarded_path g p) = Some (gr_route g) \<and>
    operation (gr_service g) m (forwarded_path g p) = map_of (service_endpoints (gr_service g)) (gr_route g)"
proof -
  have g: "g \<in> set gateway_routes" "matches (snd (gr_route g)) p" using assms(1) by (auto simp: gateway_dispatch_def find_Some_iff)
  then have ok: "gr_target g = gr_route g" "distinct (pars (snd (gr_route g)))" "gr_route g \<in> set (service_routes (gr_service g))"
    using gateway_routes_ok by (auto simp: list_all_iff route_ok_def)
  have same: "forwarded_path g p = p"
    unfolding forwarded_path_def ok(1) fill_params [OF g(2) ok(2)] by (rule seen_path_url [OF assms(2)])
  have "\<not> (fst c = m \<and> matches (snd c) p)" if "c \<in> set (taken_away public_routes (service_routes (gr_service g)) (gr_route g))" for c
  proof -
    have "c \<in> set (misrouted (gr_service g))" using that g(1) unfolding misrouted_def Let_def by auto
    with assms(3) misrouted_odd show ?thesis by blast
  qed
  then have kept: "\<forall>c \<in> set (taken_away public_routes (service_routes (gr_service g)) (gr_route g)). \<not> (fst c = m \<and> matches (snd c) p)" by blast
  have "dispatch public_routes m p = Some (gr_route g)" unfolding gateway_dispatch_public assms(1) by (rule option.map)
  from dispatch_agrees [OF this ok(3) kept] have *: "dispatch (service_routes (gr_service g)) m p = Some (gr_route g)" .
  then show ?thesis unfolding same by (intro conjI ok(1) refl * dispatch_operation)
qed

theorem gateway_requests_arrive_witness:
  "\<exists>g. gateway_dispatch M_GET [''rounds'', ''r1'', ''table-state''] = Some g \<and>
     operation (gr_service g) M_GET (forwarded_path g [''rounds'', ''r1'', ''table-state'']) = Some ''GameQueryService.get_table_state''"
proof -
  let ?g = "forwards GAME M_GET ''/rounds/{round_id}/table-state'' ''/rounds/{round_id}/table-state''"
  have found: "gateway_dispatch M_GET [''rounds'', ''r1'', ''table-state''] = Some ?g" by code_simp
  have "list_all plain [''rounds'', ''r1'', ''table-state'']" by code_simp
  moreover have "(M_GET, [''rounds'', ''r1'', ''table-state'']) \<notin> odd_requests" by (simp add: odd_requests_def)
  ultimately have "operation (gr_service ?g) M_GET (forwarded_path ?g [''rounds'', ''r1'', ''table-state'']) =
      map_of (service_endpoints (gr_service ?g)) (gr_route ?g)"
    using gateway_requests_arrive [OF found] by blast
  moreover have "map_of (service_endpoints (gr_service ?g)) (gr_route ?g) = Some ''GameQueryService.get_table_state''" by code_simp
  ultimately have "operation (gr_service ?g) M_GET (forwarded_path ?g [''rounds'', ''r1'', ''table-state'']) = Some ''GameQueryService.get_table_state''"
    by (rule trans)
  with found show ?thesis by (intro exI conjI)
qed

text \<open>A value with a hash or a question mark reaches the route of another path: a request about one address acts on another.\<close>

lemma unquoted_value_cut:
  "\<exists>g. gateway_dispatch M_DELETE [''users'', ''a@x.org?b''] = Some g \<and> forwarded_path g [''users'', ''a@x.org?b''] = [''users'', ''a@x.org'']"
  by (rule exI [of _ "forwards USER M_DELETE ''/users/{email}'' ''/users/{email}''"], rule conjI) code_simp+

end
