(* ===== verification/Sql_Schema.thy ===== *)
theory Sql_Schema
  imports Prelude
begin

text \<open>
  What the migrations of the services are written in: tables with their columns, constraints and indexes, the
  operations of Alembic on them as its documentation describes them, and what it means for the rows of a database to satisfy a
  schema. An operation the database refuses is \<open>None\<close>. All foreign keys here cascade on deletion.
\<close>

section \<open>Schemas\<close>

datatype SqlType = SqlInteger | SqlString "nat option" | SqlBoolean | SqlDateTime | SqlJSON

datatype ColumnOption = PrimaryKey | Unique | Indexed | NotNull | Nullable | ForeignKey string string | ServerDefault string

text \<open>\<open>CheckGe c n\<close> is the text \<^verbatim>\<open>c >= n\<close>, \<open>CheckIn c vs\<close> the text \<^verbatim>\<open>c IN (vs)\<close>.\<close>

datatype SqlCheck = CheckGe string int | CheckIn string "string list"

datatype TableItem =
    Column string SqlType "ColumnOption list"
  | UniqueConstraint string "string list"
  | CheckConstraint string SqlCheck

record SqlTable =
  t_columns :: "(string \<times> SqlType \<times> ColumnOption list) list"
  t_uniques :: "(string \<times> string list) list"
  t_checks :: "(string \<times> SqlCheck) list"
  t_indexes :: "(string \<times> string list \<times> bool) list"

type_synonym schema = "(string \<times> SqlTable) list"

text \<open>A unique column with an index is one unique index, named after table and column; without an index it is a constraint.\<close>

definition item_uniques :: "string \<Rightarrow> TableItem \<Rightarrow> (string \<times> string list) list" where
  "item_uniques t i = (case i of
     Column c ty opts \<Rightarrow> (if Unique \<in> set opts \<and> Indexed \<notin> set opts then [(t @ ''_'' @ c @ ''_key'', [c])] else [])
   | UniqueConstraint n cs \<Rightarrow> [(n, cs)]
   | CheckConstraint n ck \<Rightarrow> [])"

definition item_indexes :: "string \<Rightarrow> TableItem \<Rightarrow> (string \<times> string list \<times> bool) list" where
  "item_indexes t i = (case i of
     Column c ty opts \<Rightarrow> (if Indexed \<in> set opts then [(''ix_'' @ t @ ''_'' @ c, [c], Unique \<in> set opts)] else [])
   | _ \<Rightarrow> [])"

definition table_of :: "string \<Rightarrow> TableItem list \<Rightarrow> SqlTable" where
  "table_of t items = \<lparr>
     t_columns = concat (map (\<lambda>i. case i of Column c ty opts \<Rightarrow> [(c, ty, opts)] | _ \<Rightarrow> []) items),
     t_uniques = concat (map (item_uniques t) items),
     t_checks = concat (map (\<lambda>i. case i of CheckConstraint n ck \<Rightarrow> [(n, ck)] | _ \<Rightarrow> []) items),
     t_indexes = concat (map (item_indexes t) items)\<rparr>"

text \<open>The sets of columns no two rows may agree on, and the foreign keys of a table.\<close>

definition table_keys :: "SqlTable \<Rightarrow> string list list" where
  "table_keys tb = map (\<lambda>(c, ty, opts). [c]) (filter (\<lambda>(c, ty, opts). PrimaryKey \<in> set opts) (t_columns tb)) @
     map snd (t_uniques tb) @ map (\<lambda>(n, cs, u). cs) (filter (\<lambda>(n, cs, u). u) (t_indexes tb))"

definition table_references :: "SqlTable \<Rightarrow> (string \<times> string \<times> string) list" where
  "table_references tb = concat (map (\<lambda>(c, ty, opts).
     concat (map (\<lambda>opt. case opt of ForeignKey t' c' \<Rightarrow> [(c, t', c')] | _ \<Rightarrow> []) opts)) (t_columns tb))"


section \<open>Operations\<close>

type_synonym operation = "schema \<Rightarrow> schema option"

fun run_ops :: "operation list \<Rightarrow> operation" where
  "run_ops [] s = Some s"
| "run_ops (f # fs) s = (case f s of None \<Rightarrow> None | Some s' \<Rightarrow> run_ops fs s')"

definition references_ok :: "schema \<Rightarrow> SqlTable \<Rightarrow> bool" where
  "references_ok s tb \<longleftrightarrow> list_all (\<lambda>(c, t', c'). case map_of s t' of None \<Rightarrow> False | Some tb' \<Rightarrow> [c'] \<in> set (table_keys tb')) (table_references tb)"

definition create_table :: "string \<Rightarrow> TableItem list \<Rightarrow> operation" where
  "create_table t items s = (let tb = table_of t items in
     if map_of s t \<noteq> None \<or> \<not> references_ok s tb then None else Some (s @ [(t, tb)]))"

text \<open>A table that another one refers to cannot be dropped.\<close>

definition drop_table :: "string \<Rightarrow> operation" where
  "drop_table t s = (let rest = filter (\<lambda>(n, tb). n \<noteq> t) s in
     if map_of s t = None \<or> list_ex (\<lambda>(n, tb). t \<in> set (map (\<lambda>(c, t', c'). t') (table_references tb))) rest then None else Some rest)"

definition alter :: "string \<Rightarrow> (SqlTable \<Rightarrow> SqlTable option) \<Rightarrow> operation" where
  "alter t f s = (case map_of s t of None \<Rightarrow> None | Some tb \<Rightarrow>
     (case f tb of None \<Rightarrow> None | Some tb' \<Rightarrow> Some (map (\<lambda>(n, x). (n, if n = t then tb' else x)) s)))"

definition column_names :: "SqlTable \<Rightarrow> string list" where
  "column_names tb = map fst (t_columns tb)"

definition has_default :: "ColumnOption list \<Rightarrow> bool" where
  "has_default opts = list_ex (\<lambda>opt. case opt of ServerDefault d \<Rightarrow> True | _ \<Rightarrow> False) opts"

text \<open>A required column without a default cannot be added to a table with rows, and is refused here.\<close>

definition add_column :: "string \<Rightarrow> string \<Rightarrow> SqlType \<Rightarrow> ColumnOption list \<Rightarrow> operation" where
  "add_column t c ty opts = alter t (\<lambda>tb.
     if c \<in> set (column_names tb) \<or> NotNull \<in> set opts \<and> \<not> has_default opts then None
     else Some (tb\<lparr>t_columns := t_columns tb @ [(c, ty, opts)],
       t_uniques := t_uniques tb @ item_uniques t (Column c ty opts), t_indexes := t_indexes tb @ item_indexes t (Column c ty opts)\<rparr>))"

definition check_column :: "SqlCheck \<Rightarrow> string" where
  "check_column ck = (case ck of CheckGe c n \<Rightarrow> c | CheckIn c vs \<Rightarrow> c)"

text \<open>With a column go the constraints and indexes on it.\<close>

definition drop_column :: "string \<Rightarrow> string \<Rightarrow> operation" where
  "drop_column t c = alter t (\<lambda>tb.
     if c \<notin> set (column_names tb) then None
     else Some \<lparr>t_columns = filter (\<lambda>(n, x). n \<noteq> c) (t_columns tb), t_uniques = filter (\<lambda>(n, cs). c \<notin> set cs) (t_uniques tb),
       t_checks = filter (\<lambda>(n, ck). check_column ck \<noteq> c) (t_checks tb), t_indexes = filter (\<lambda>(n, cs, u). c \<notin> set cs) (t_indexes tb)\<rparr>)"

definition create_index :: "string \<Rightarrow> string \<Rightarrow> string list \<Rightarrow> bool \<Rightarrow> operation" where
  "create_index n t cs unique = alter t (\<lambda>tb.
     if n \<in> set (map fst (t_indexes tb)) \<or> \<not> set cs \<subseteq> set (column_names tb) then None
     else Some (tb\<lparr>t_indexes := t_indexes tb @ [(n, cs, unique)]\<rparr>))"

definition drop_index :: "string \<Rightarrow> string \<Rightarrow> operation" where
  "drop_index n t = alter t (\<lambda>tb.
     if n \<notin> set (map fst (t_indexes tb)) then None else Some (tb\<lparr>t_indexes := filter (\<lambda>(m, x). m \<noteq> n) (t_indexes tb)\<rparr>))"

definition create_unique_constraint :: "string \<Rightarrow> string \<Rightarrow> string list \<Rightarrow> operation" where
  "create_unique_constraint n t cs = alter t (\<lambda>tb.
     if n \<in> set (map fst (t_uniques tb)) \<or> \<not> set cs \<subseteq> set (column_names tb) then None else Some (tb\<lparr>t_uniques := t_uniques tb @ [(n, cs)]\<rparr>))"

definition create_check_constraint :: "string \<Rightarrow> string \<Rightarrow> SqlCheck \<Rightarrow> operation" where
  "create_check_constraint n t ck = alter t (\<lambda>tb.
     if n \<in> set (map fst (t_checks tb)) \<or> check_column ck \<notin> set (column_names tb) then None else Some (tb\<lparr>t_checks := t_checks tb @ [(n, ck)]\<rparr>))"

definition drop_unique_constraint :: "string \<Rightarrow> string \<Rightarrow> operation" where
  "drop_unique_constraint n t = alter t (\<lambda>tb.
     if n \<notin> set (map fst (t_uniques tb)) then None else Some (tb\<lparr>t_uniques := filter (\<lambda>(m, x). m \<noteq> n) (t_uniques tb)\<rparr>))"

definition drop_check_constraint :: "string \<Rightarrow> string \<Rightarrow> operation" where
  "drop_check_constraint n t = alter t (\<lambda>tb.
     if n \<notin> set (map fst (t_checks tb)) then None else Some (tb\<lparr>t_checks := filter (\<lambda>(m, x). m \<noteq> n) (t_checks tb)\<rparr>))"


section \<open>Rows that satisfy a schema\<close>

text \<open>
  A row gives values to columns by name; a column it does not name is left to the database (serial identifiers, time stamps).
  As in SQL, a constraint with a null in it holds. The width of integers and strings is left out.
\<close>

datatype SqlValue = VNull | VInt int | VText string | VBool bool | VTime | VJson

type_synonym row = "(string \<times> SqlValue) list"

definition optional :: "('a \<Rightarrow> SqlValue) \<Rightarrow> 'a option \<Rightarrow> SqlValue" where
  "optional f v = (case v of None \<Rightarrow> VNull | Some x \<Rightarrow> f x)"

fun row_key :: "string list \<Rightarrow> row \<Rightarrow> SqlValue list option" where
  "row_key [] r = Some []"
| "row_key (c # cs) r = (case map_of r c of None \<Rightarrow> None | Some v \<Rightarrow>
     if v = VNull then None else (case row_key cs r of None \<Rightarrow> None | Some vs \<Rightarrow> Some (v # vs)))"

definition check_holds :: "SqlCheck \<Rightarrow> row \<Rightarrow> bool" where
  "check_holds ck r = (case ck of
     CheckGe c n \<Rightarrow> (case map_of r c of Some (VInt i) \<Rightarrow> n \<le> i | _ \<Rightarrow> True)
   | CheckIn c vs \<Rightarrow> (case map_of r c of Some (VText x) \<Rightarrow> x \<in> set vs | _ \<Rightarrow> True))"

definition unique_keys :: "schema \<Rightarrow> (string \<times> string list) list" where
  "unique_keys s = concat (map (\<lambda>(t, tb). map (Pair t) (table_keys tb)) s)"

definition foreign_keys :: "schema \<Rightarrow> (string \<times> string \<times> string \<times> string) list" where
  "foreign_keys s = concat (map (\<lambda>(t, tb). map (Pair t) (table_references tb)) s)"

definition check_constraints :: "schema \<Rightarrow> (string \<times> SqlCheck) list" where
  "check_constraints s = concat (map (\<lambda>(t, tb). map (\<lambda>(n, ck). (t, ck)) (t_checks tb)) s)"

definition required_columns :: "schema \<Rightarrow> (string \<times> string list) list" where
  "required_columns s = map (\<lambda>(t, tb). (t, map fst (filter (\<lambda>(c, ty, opts). NotNull \<in> set opts \<or> PrimaryKey \<in> set opts) (t_columns tb)))) s"

type_synonym store = "string \<Rightarrow> row list"

definition unique_holds :: "store \<Rightarrow> string \<times> string list \<Rightarrow> bool" where
  "unique_holds rows k = distinct (List.map_filter (row_key (snd k)) (rows (fst k)))"

definition reference_holds :: "store \<Rightarrow> string \<times> string \<times> string \<times> string \<Rightarrow> bool" where
  "reference_holds rows f = (case f of (t, c, t', c') \<Rightarrow>
     list_all (\<lambda>r. case row_key [c] r of None \<Rightarrow> True | Some v \<Rightarrow> v \<in> set (List.map_filter (row_key [c']) (rows t'))) (rows t))"

definition required_holds :: "store \<Rightarrow> string \<times> string list \<Rightarrow> bool" where
  "required_holds rows q = list_all (\<lambda>r. list_all (\<lambda>c. map_of r c \<noteq> Some VNull) (snd q)) (rows (fst q))"

definition satisfies :: "schema \<Rightarrow> store \<Rightarrow> bool" where
  "satisfies s rows \<longleftrightarrow> list_all (unique_holds rows) (unique_keys s) \<and> list_all (reference_holds rows) (foreign_keys s) \<and>
     list_all (\<lambda>(t, ck). list_all (check_holds ck) (rows t)) (check_constraints s) \<and> list_all (required_holds rows) (required_columns s)"


section \<open>Constraints on encoded rows\<close>

lemma map_filter_map: "List.map_filter f (map g xs) = List.map_filter (\<lambda>x. f (g x)) xs"
  by (induction xs) (simp_all add: List.map_filter_simps split: option.split)

lemma distinct_map_inj: "inj g \<Longrightarrow> distinct (map g xs) \<longleftrightarrow> distinct xs"
  by (simp add: distinct_map inj_on_subset [OF _ subset_UNIV])

lemma map_filter_total: "(\<And>x. f x = Some (g x)) \<Longrightarrow> List.map_filter f xs = map g xs"
  by (induction xs) (simp_all add: List.map_filter_simps)

lemma unique_rows:
  assumes "\<And>r. row_key cs (enc r) = Some (g (f r))" and "inj g"
  shows "distinct (List.map_filter (row_key cs) (map enc rs)) \<longleftrightarrow> distinct (map f rs)"
proof -
  have "List.map_filter (row_key cs) (map enc rs) = map g (map f rs)"
    unfolding map_filter_map map_filter_total [of "\<lambda>r. row_key cs (enc r)" "\<lambda>r. g (f r)", OF assms(1)] by simp
  then show ?thesis by (simp only: distinct_map_inj [OF assms(2)])
qed

lemma unique_rows_unnamed:
  assumes "\<And>r. row_key cs (enc r) = None"
  shows "distinct (List.map_filter (row_key cs) (map enc rs))"
  unfolding map_filter_map by (induction rs) (simp_all add: List.map_filter_simps assms)

lemma unique_rows_null:
  assumes "\<And>r. row_key cs (enc r) = (if p r then Some (g (f r)) else None)" and "inj g"
  shows "distinct (List.map_filter (row_key cs) (map enc rs)) \<longleftrightarrow> distinct (map f (filter p rs))"
proof -
  have "List.map_filter (row_key cs) (map enc rs) = map g (map f (filter p rs))"
    unfolding map_filter_map by (induction rs) (simp_all add: List.map_filter_simps assms(1))
  then show ?thesis by (simp only: distinct_map_inj [OF assms(2)])
qed

lemma reference_rows:
  assumes "\<And>r. row_key [c] (enc r) = Some (g (f r))" and "\<And>r. row_key [c'] (enc' r) = Some (g (f' r))" and "inj g"
  shows "list_all (\<lambda>r. case row_key [c] r of None \<Rightarrow> True | Some v \<Rightarrow> v \<in> set (List.map_filter (row_key [c']) (map enc' rs'))) (map enc rs) \<longleftrightarrow>
    list_all (\<lambda>r. f r \<in> set (map f' rs')) rs"
proof -
  have *: "g x \<in> set (map (\<lambda>r. g (f' r)) rs') \<longleftrightarrow> x \<in> set (map f' rs')" for x using assms(3) by (auto dest: injD)
  show ?thesis
    unfolding map_filter_map map_filter_total [of "\<lambda>r. row_key [c'] (enc' r)" "\<lambda>r. g (f' r)", OF assms(2)]
    by (simp only: list.pred_map comp_def assms(1) option.case *)
qed

end
