(* ===== verification/Migrations.thy ===== *)
theory Migrations
  imports Sql_Schema Game_Db Room_Service Auth_Service User_Service
begin

text \<open>
  The migrations of the four databases (\<^verbatim>\<open>alembic/versions\<close> of the services), call by call, and what they leave
  behind: the constraints that the commits of the model check are exactly those of the migrated database.
\<close>

section \<open>game-service\<close>

definition games_items :: "TableItem list" where
  "games_items = [
     Column ''id'' SqlInteger [PrimaryKey],
     Column ''game_id'' (SqlString None) [Unique, NotNull, Indexed],
     Column ''room_id'' (SqlString None) [NotNull, Indexed],
     Column ''status'' (SqlString None) [NotNull, ServerDefault ''WAITING''],
     Column ''current_blind_level'' SqlInteger [NotNull, ServerDefault ''1''],
     Column ''level_started_at'' SqlDateTime [Nullable],
     Column ''current_dealer_seat'' SqlInteger [NotNull, ServerDefault ''1''],
     Column ''current_small_blind_seat'' SqlInteger [NotNull, ServerDefault ''2''],
     Column ''current_big_blind_seat'' SqlInteger [NotNull, ServerDefault ''3''],
     Column ''created_at'' SqlDateTime [ServerDefault ''now()'', NotNull],
     CheckConstraint ''ck_games_blind_level_positive'' (CheckGe ''current_blind_level'' 1),
     CheckConstraint ''ck_games_status_enum'' (CheckIn ''status'' [''WAITING'', ''ACTIVE'', ''PAUSED'', ''FINISHED''])]"

definition game_rounds_items :: "TableItem list" where
  "game_rounds_items = [
     Column ''id'' SqlInteger [PrimaryKey],
     Column ''round_id'' (SqlString None) [Unique, NotNull, Indexed],
     Column ''game_id'' (SqlString None) [ForeignKey ''games'' ''game_id'', NotNull, Indexed],
     Column ''round_number'' SqlInteger [NotNull],
     Column ''dealer_seat'' SqlInteger [NotNull],
     Column ''small_blind_seat'' SqlInteger [NotNull],
     Column ''big_blind_seat'' SqlInteger [NotNull],
     Column ''small_blind_amount'' SqlInteger [NotNull],
     Column ''big_blind_amount'' SqlInteger [NotNull],
     Column ''ante_amount'' SqlInteger [NotNull, ServerDefault ''0''],
     Column ''status'' (SqlString None) [NotNull, ServerDefault ''ACTIVE''],
     Column ''pot_amount'' SqlInteger [NotNull, ServerDefault ''0''],
     Column ''street'' (SqlString None) [NotNull, ServerDefault ''PRE_FLOP''],
     Column ''acting_player_id'' (SqlString None) [Nullable],
     Column ''current_highest_bet'' SqlInteger [NotNull, ServerDefault ''0''],
     Column ''minimum_raise_amount'' SqlInteger [NotNull, ServerDefault ''0''],
     Column ''is_action_closed'' SqlBoolean [NotNull, ServerDefault ''false''],
     Column ''last_aggressor_seat'' SqlInteger [Nullable],
     Column ''engine_version'' (SqlString None) [NotNull, ServerDefault ''0.15.0''],
     Column ''state_version'' SqlInteger [NotNull, ServerDefault ''1''],
     Column ''created_at'' SqlDateTime [ServerDefault ''now()'', NotNull],
     Column ''completed_at'' SqlDateTime [Nullable],
     UniqueConstraint ''uq_rounds_game_round_number'' [''game_id'', ''round_number''],
     CheckConstraint ''ck_rounds_pot_non_negative'' (CheckGe ''pot_amount'' 0),
     CheckConstraint ''ck_rounds_highest_bet_non_negative'' (CheckGe ''current_highest_bet'' 0),
     CheckConstraint ''ck_rounds_min_raise_non_negative'' (CheckGe ''minimum_raise_amount'' 0),
     CheckConstraint ''ck_rounds_status_enum'' (CheckIn ''status'' [''ACTIVE'', ''COMPLETED'']),
     CheckConstraint ''ck_rounds_street_enum'' (CheckIn ''street'' [''PRE_FLOP'', ''FLOP'', ''TURN'', ''RIVER'', ''SHOWDOWN'']),
     CheckConstraint ''ck_rounds_state_version_positive'' (CheckGe ''state_version'' 1)]"

definition game_round_players_items :: "TableItem list" where
  "game_round_players_items = [
     Column ''id'' SqlInteger [PrimaryKey],
     Column ''round_id'' (SqlString None) [ForeignKey ''rounds'' ''round_id'', NotNull, Indexed],
     Column ''player_id'' (SqlString None) [NotNull],
     Column ''seat_number'' SqlInteger [NotNull],
     Column ''stack_remaining'' SqlInteger [NotNull, ServerDefault ''0''],
     Column ''committed_this_street'' SqlInteger [NotNull, ServerDefault ''0''],
     Column ''committed_this_hand'' SqlInteger [NotNull, ServerDefault ''0''],
     Column ''has_folded'' SqlBoolean [NotNull, ServerDefault ''false''],
     Column ''is_all_in'' SqlBoolean [NotNull, ServerDefault ''false''],
     Column ''is_active_in_hand'' SqlBoolean [NotNull, ServerDefault ''true''],
     UniqueConstraint ''uq_round_players_round_player'' [''round_id'', ''player_id''],
     UniqueConstraint ''uq_round_players_round_seat'' [''round_id'', ''seat_number''],
     CheckConstraint ''ck_round_players_stack_non_negative'' (CheckGe ''stack_remaining'' 0),
     CheckConstraint ''ck_round_players_street_commit_non_negative'' (CheckGe ''committed_this_street'' 0),
     CheckConstraint ''ck_round_players_hand_commit_non_negative'' (CheckGe ''committed_this_hand'' 0)]"

definition game_round_payouts_items :: "TableItem list" where
  "game_round_payouts_items = [
     Column ''id'' SqlInteger [PrimaryKey],
     Column ''round_id'' (SqlString None) [ForeignKey ''rounds'' ''round_id'', NotNull, Indexed],
     Column ''pot_index'' SqlInteger [NotNull, ServerDefault ''0''],
     Column ''pot_type'' (SqlString None) [NotNull, ServerDefault ''main''],
     Column ''player_id'' (SqlString None) [NotNull],
     Column ''amount'' SqlInteger [NotNull],
     CheckConstraint ''ck_round_payouts_amount_non_negative'' (CheckGe ''amount'' 0)]"

definition game_bets_items :: "TableItem list" where
  "game_bets_items = [
     Column ''id'' SqlInteger [PrimaryKey],
     Column ''bet_id'' (SqlString None) [Unique, NotNull, Indexed],
     Column ''round_id'' (SqlString None) [ForeignKey ''rounds'' ''round_id'', NotNull, Indexed],
     Column ''player_id'' (SqlString None) [NotNull, Indexed],
     Column ''action'' (SqlString None) [NotNull],
     Column ''amount'' SqlInteger [NotNull, ServerDefault ''0''],
     Column ''idempotency_key'' (SqlString None) [Nullable, Unique, Indexed],
     Column ''created_at'' SqlDateTime [ServerDefault ''now()'', NotNull],
     CheckConstraint ''ck_bets_amount_non_negative'' (CheckGe ''amount'' 0),
     CheckConstraint ''ck_bets_action_enum'' (CheckIn ''action'' [''FOLD'', ''CHECK'', ''CALL'', ''BET'', ''RAISE'', ''ALL_IN''])]"

definition game_hand_ledger_entries_items :: "TableItem list" where
  "game_hand_ledger_entries_items = [
     Column ''id'' SqlInteger [PrimaryKey],
     Column ''entry_id'' (SqlString None) [Unique, NotNull, Indexed],
     Column ''round_id'' (SqlString None) [ForeignKey ''rounds'' ''round_id'', NotNull, Indexed],
     Column ''entry_type'' (SqlString None) [NotNull, Indexed],
     Column ''player_id'' (SqlString None) [Nullable],
     Column ''amount'' SqlInteger [Nullable],
     Column ''detail'' SqlJSON [Nullable],
     Column ''original_entry_id'' (SqlString None) [Nullable, Indexed],
     Column ''dealer_id'' (SqlString None) [Nullable],
     Column ''created_at'' SqlDateTime [ServerDefault ''now()'', NotNull],
     CheckConstraint ''ck_ledger_entry_type_enum'' (CheckIn ''entry_type'' [''BLIND_POSTED'', ''ANTE_POSTED'', ''BET_PLACED'', ''STREET_DEALT'', ''PAYOUT_AWARDED'',
       ''ROUND_COMPLETED'', ''ACTION_REVERSED'', ''STACK_ADJUSTED'', ''HAND_REOPENED'', ''PAYOUT_CORRECTED''])]"

definition game_room_snapshots_items :: "TableItem list" where
  "game_room_snapshots_items = [
     Column ''id'' SqlInteger [PrimaryKey],
     Column ''game_id'' (SqlString None) [ForeignKey ''games'' ''game_id'', Unique, NotNull, Indexed],
     Column ''room_id'' (SqlString None) [NotNull],
     Column ''starting_dealer_seat'' SqlInteger [NotNull, ServerDefault ''1''],
     Column ''created_at'' SqlDateTime [ServerDefault ''now()'', NotNull]]"

definition game_room_snapshot_players_items :: "TableItem list" where
  "game_room_snapshot_players_items = [
     Column ''id'' SqlInteger [PrimaryKey],
     Column ''game_id'' (SqlString None) [ForeignKey ''games'' ''game_id'', NotNull, Indexed],
     Column ''player_id'' (SqlString None) [NotNull],
     Column ''seat_number'' SqlInteger [NotNull],
     Column ''chip_count'' SqlInteger [NotNull, ServerDefault ''0''],
     Column ''is_active'' SqlBoolean [NotNull, ServerDefault ''true''],
     Column ''is_eliminated'' SqlBoolean [NotNull, ServerDefault ''false''],
     UniqueConstraint ''uq_room_snap_players_game_player'' [''game_id'', ''player_id''],
     UniqueConstraint ''uq_room_snap_players_game_seat'' [''game_id'', ''seat_number''],
     CheckConstraint ''ck_room_snap_players_chips_non_negative'' (CheckGe ''chip_count'' 0)]"

definition game_room_snapshot_blind_levels_items :: "TableItem list" where
  "game_room_snapshot_blind_levels_items = [
     Column ''id'' SqlInteger [PrimaryKey],
     Column ''game_id'' (SqlString None) [ForeignKey ''games'' ''game_id'', NotNull, Indexed],
     Column ''level'' SqlInteger [NotNull],
     Column ''small_blind'' SqlInteger [NotNull],
     Column ''big_blind'' SqlInteger [NotNull],
     Column ''ante'' SqlInteger [NotNull, ServerDefault ''0''],
     Column ''duration_minutes'' SqlInteger [Nullable],
     UniqueConstraint ''uq_room_snap_blind_levels_game_level'' [''game_id'', ''level'']]"

definition game_outbox_events_items :: "TableItem list" where
  "game_outbox_events_items = [
     Column ''id'' SqlInteger [PrimaryKey],
     Column ''event_id'' (SqlString None) [Unique, NotNull, Indexed],
     Column ''event_type'' (SqlString None) [NotNull, Indexed],
     Column ''routing_key'' (SqlString None) [NotNull, Indexed],
     Column ''payload'' SqlJSON [NotNull],
     Column ''status'' (SqlString None) [NotNull, ServerDefault ''PENDING''],
     Column ''attempts'' SqlInteger [NotNull, ServerDefault ''0''],
     Column ''last_error'' (SqlString None) [Nullable],
     Column ''created_at'' SqlDateTime [ServerDefault ''now()'', NotNull],
     Column ''published_at'' SqlDateTime [Nullable]]"

definition game_upgrade_001 :: operation where
  "game_upgrade_001 = run_ops [
     create_table ''games'' games_items,
     create_table ''rounds'' game_rounds_items,
     create_table ''round_players'' game_round_players_items,
     create_table ''round_payouts'' game_round_payouts_items,
     create_table ''bets'' game_bets_items,
     create_index ''ix_bets_round_created'' ''bets'' [''round_id'', ''created_at''] False,
     create_table ''hand_ledger_entries'' game_hand_ledger_entries_items,
     create_index ''ix_ledger_round_created'' ''hand_ledger_entries'' [''round_id'', ''created_at''] False,
     create_index ''ix_ledger_round_original'' ''hand_ledger_entries'' [''round_id'', ''original_entry_id''] False,
     create_table ''room_snapshots'' game_room_snapshots_items,
     create_table ''room_snapshot_players'' game_room_snapshot_players_items,
     create_table ''room_snapshot_blind_levels'' game_room_snapshot_blind_levels_items,
     create_table ''outbox_events'' game_outbox_events_items]"

definition game_downgrade_001 :: operation where
  "game_downgrade_001 = run_ops [
     drop_table ''outbox_events'',
     drop_table ''room_snapshot_blind_levels'',
     drop_table ''room_snapshot_players'',
     drop_table ''room_snapshots'',
     drop_table ''hand_ledger_entries'',
     drop_table ''bets'',
     drop_table ''round_payouts'',
     drop_table ''round_players'',
     drop_table ''rounds'',
     drop_table ''games'']"

text \<open>The second revision asks for what is there and adds what is missing.\<close>

definition game_upgrade_002 :: operation where
  "game_upgrade_002 s = (case map_of s ''bets'' of None \<Rightarrow> None | Some bets \<Rightarrow>
     run_ops [
       if ''idempotency_key'' \<notin> set (column_names bets) then add_column ''bets'' ''idempotency_key'' (SqlString None) [Nullable] else Some,
       if ''ix_bets_idempotency_key'' \<notin> set (map fst (t_indexes bets))
       then create_index ''ix_bets_idempotency_key'' ''bets'' [''idempotency_key''] True else Some] s)"

definition game_downgrade_002 :: operation where
  "game_downgrade_002 s = (case map_of s ''bets'' of None \<Rightarrow> None | Some bets \<Rightarrow>
     run_ops [
       if ''ix_bets_idempotency_key'' \<in> set (map fst (t_indexes bets)) then drop_index ''ix_bets_idempotency_key'' ''bets'' else Some,
       if ''idempotency_key'' \<in> set (column_names bets) then drop_column ''bets'' ''idempotency_key'' else Some] s)"

definition game_upgrade_003 :: operation where
  "game_upgrade_003 = run_ops [
     drop_index ''ix_bets_idempotency_key'' ''bets'',
     create_unique_constraint ''uq_bets_round_idempotency'' ''bets'' [''round_id'', ''idempotency_key''],
     create_index ''ix_bets_idempotency_key'' ''bets'' [''idempotency_key''] False]"

definition game_downgrade_003 :: operation where
  "game_downgrade_003 = run_ops [
     drop_index ''ix_bets_idempotency_key'' ''bets'',
     drop_unique_constraint ''uq_bets_round_idempotency'' ''bets'',
     create_index ''ix_bets_idempotency_key'' ''bets'' [''idempotency_key''] True]"

definition game_upgrade_004 :: operation where
  "game_upgrade_004 = run_ops [
     add_column ''games'' ''hands_played'' SqlInteger [NotNull, ServerDefault ''0''],
     add_column ''games'' ''hands_at_current_level'' SqlInteger [NotNull, ServerDefault ''0''],
     create_check_constraint ''ck_games_hands_played_non_negative'' ''games'' (CheckGe ''hands_played'' 0),
     create_check_constraint ''ck_games_hands_at_level_non_negative'' ''games'' (CheckGe ''hands_at_current_level'' 0)]"

definition game_downgrade_004 :: operation where
  "game_downgrade_004 = run_ops [
     drop_check_constraint ''ck_games_hands_at_level_non_negative'' ''games'',
     drop_check_constraint ''ck_games_hands_played_non_negative'' ''games'',
     drop_column ''games'' ''hands_at_current_level'',
     drop_column ''games'' ''hands_played'']"

definition game_upgrade_005 :: operation where
  "game_upgrade_005 = run_ops [
     add_column ''room_snapshots'' ''antes_enabled'' SqlBoolean [NotNull, ServerDefault ''false'']]"

definition game_downgrade_005 :: operation where
  "game_downgrade_005 = run_ops [
     drop_column ''room_snapshots'' ''antes_enabled'']"


section \<open>room-service\<close>

definition rooms_items :: "TableItem list" where
  "rooms_items = [
     Column ''id'' SqlInteger [PrimaryKey],
     Column ''room_id'' (SqlString None) [Unique, NotNull, Indexed],
     Column ''code'' (SqlString (Some 4)) [Unique, NotNull, Indexed],
     Column ''name'' (SqlString None) [Nullable],
     Column ''status'' (SqlString None) [NotNull, ServerDefault ''WAITING''],
     Column ''max_players'' SqlInteger [NotNull],
     Column ''starting_chips'' SqlInteger [NotNull],
     Column ''antes_enabled'' SqlBoolean [NotNull, ServerDefault ''false''],
     Column ''starting_dealer_seat'' SqlInteger [NotNull, ServerDefault ''1''],
     Column ''created_by'' (SqlString None) [NotNull],
     Column ''created_at'' SqlDateTime [ServerDefault ''now()'', NotNull]]"

definition room_players_items :: "TableItem list" where
  "room_players_items = [
     Column ''id'' SqlInteger [PrimaryKey],
     Column ''room_id'' (SqlString None) [NotNull, Indexed],
     Column ''player_id'' (SqlString None) [Unique, NotNull, Indexed],
     Column ''player_name'' (SqlString None) [NotNull],
     Column ''seat_number'' SqlInteger [NotNull],
     Column ''chip_count'' SqlInteger [NotNull],
     Column ''is_active'' SqlBoolean [NotNull, ServerDefault ''true''],
     Column ''is_eliminated'' SqlBoolean [NotNull, ServerDefault ''false''],
     Column ''joined_at'' SqlDateTime [ServerDefault ''now()'', NotNull]]"

definition room_blind_levels_items :: "TableItem list" where
  "room_blind_levels_items = [
     Column ''id'' SqlInteger [PrimaryKey],
     Column ''room_id'' (SqlString None) [NotNull, Indexed],
     Column ''level'' SqlInteger [NotNull],
     Column ''small_blind'' SqlInteger [NotNull],
     Column ''big_blind'' SqlInteger [NotNull],
     Column ''ante'' SqlInteger [NotNull, ServerDefault ''0''],
     Column ''duration_minutes'' SqlInteger [NotNull]]"

definition room_outbox_events_items :: "TableItem list" where
  "room_outbox_events_items = [
     Column ''id'' SqlInteger [PrimaryKey],
     Column ''event_id'' (SqlString None) [Unique, NotNull, Indexed],
     Column ''event_type'' (SqlString None) [NotNull, Indexed],
     Column ''routing_key'' (SqlString None) [NotNull, Indexed],
     Column ''payload'' SqlJSON [NotNull],
     Column ''status'' (SqlString None) [NotNull, ServerDefault ''PENDING''],
     Column ''attempts'' SqlInteger [NotNull, ServerDefault ''0''],
     Column ''last_error'' (SqlString None) [Nullable],
     Column ''created_at'' SqlDateTime [ServerDefault ''now()'', NotNull],
     Column ''published_at'' SqlDateTime [Nullable]]"

definition room_upgrade_001 :: operation where
  "room_upgrade_001 = run_ops [
     create_table ''rooms'' rooms_items,
     create_table ''room_players'' room_players_items,
     create_table ''blind_levels'' room_blind_levels_items,
     create_table ''outbox_events'' room_outbox_events_items]"

definition room_downgrade_001 :: operation where
  "room_downgrade_001 = run_ops [
     drop_table ''outbox_events'',
     drop_table ''blind_levels'',
     drop_table ''room_players'',
     drop_table ''rooms'']"


section \<open>auth-service\<close>

definition auth_users_items :: "TableItem list" where
  "auth_users_items = [
     Column ''id'' SqlInteger [PrimaryKey],
     Column ''email'' (SqlString None) [Unique, NotNull],
     Column ''password'' (SqlString None) [NotNull],
     Column ''roles'' SqlJSON [NotNull],
     Column ''last_login_at'' SqlDateTime [Nullable]]"

definition auth_sessions_items :: "TableItem list" where
  "auth_sessions_items = [
     Column ''id'' (SqlString (Some 36)) [PrimaryKey],
     Column ''user_id'' SqlInteger [ForeignKey ''auth_users'' ''id'', NotNull, Indexed],
     Column ''refresh_token_hash'' (SqlString (Some 128)) [NotNull],
     Column ''expires_at'' SqlDateTime [NotNull],
     Column ''revoked_at'' SqlDateTime [Nullable],
     Column ''created_at'' SqlDateTime [NotNull, ServerDefault ''now()''],
     Column ''last_seen_at'' SqlDateTime [NotNull, ServerDefault ''now()''],
     Column ''ip'' (SqlString (Some 64)) [Nullable],
     Column ''user_agent'' (SqlString (Some 512)) [Nullable]]"

definition auth_password_reset_tokens_items :: "TableItem list" where
  "auth_password_reset_tokens_items = [
     Column ''id'' (SqlString (Some 36)) [PrimaryKey],
     Column ''user_id'' SqlInteger [ForeignKey ''auth_users'' ''id'', NotNull, Indexed],
     Column ''token_hash'' (SqlString (Some 128)) [NotNull, Unique],
     Column ''expires_at'' SqlDateTime [NotNull],
     Column ''used_at'' SqlDateTime [Nullable],
     Column ''created_at'' SqlDateTime [NotNull, ServerDefault ''now()'']]"

definition auth_upgrade_001 :: operation where
  "auth_upgrade_001 = run_ops [
     create_table ''auth_users'' auth_users_items,
     create_table ''auth_sessions'' auth_sessions_items,
     create_table ''password_reset_tokens'' auth_password_reset_tokens_items]"

definition auth_downgrade_001 :: operation where
  "auth_downgrade_001 = run_ops [
     drop_table ''password_reset_tokens'',
     drop_table ''auth_sessions'',
     drop_table ''auth_users'']"


section \<open>user-service\<close>

definition users_items :: "TableItem list" where
  "users_items = [
     Column ''id'' SqlInteger [PrimaryKey],
     Column ''email'' (SqlString None) [Unique, NotNull, Indexed],
     Column ''display_name'' (SqlString None) [Nullable],
     Column ''first_name'' (SqlString None) [Nullable],
     Column ''last_name'' (SqlString None) [Nullable],
     Column ''created_at'' SqlDateTime [ServerDefault ''now()'', NotNull]]"

definition user_outbox_events_items :: "TableItem list" where
  "user_outbox_events_items = [
     Column ''id'' SqlInteger [PrimaryKey],
     Column ''event_id'' (SqlString None) [Unique, NotNull, Indexed],
     Column ''event_type'' (SqlString None) [NotNull, Indexed],
     Column ''routing_key'' (SqlString None) [NotNull, Indexed],
     Column ''payload'' SqlJSON [NotNull],
     Column ''status'' (SqlString None) [NotNull, ServerDefault ''PENDING''],
     Column ''attempts'' SqlInteger [NotNull, ServerDefault ''0''],
     Column ''last_error'' (SqlString None) [Nullable],
     Column ''created_at'' SqlDateTime [ServerDefault ''now()'', NotNull],
     Column ''published_at'' SqlDateTime [Nullable]]"

definition user_upgrade_001 :: operation where
  "user_upgrade_001 = run_ops [
     create_table ''users'' users_items,
     create_table ''outbox_events'' user_outbox_events_items]"

definition user_downgrade_001 :: operation where
  "user_downgrade_001 = run_ops [
     drop_table ''outbox_events'',
     drop_table ''users'']"


section \<open>The databases\<close>

text \<open>\<^verbatim>\<open>alembic upgrade head\<close>: the revisions in the order of their \<^verbatim>\<open>down_revision\<close>.\<close>

definition game_upgrade :: operation where
  "game_upgrade = run_ops [game_upgrade_001, game_upgrade_002, game_upgrade_003, game_upgrade_004, game_upgrade_005]"

definition migrated :: "operation \<Rightarrow> schema" where
  "migrated f = (case f [] of None \<Rightarrow> [] | Some s \<Rightarrow> s)"


section \<open>The rows of the model in these tables\<close>

text \<open>Attributes to columns, as in the classes of \<^verbatim>\<open>domain/models.py\<close>. No constraint looks into times and JSON values.\<close>

definition game_row :: "Game \<Rightarrow> row" where
  "game_row r = [
     (''game_id'', VText (g_game_id r)),
     (''room_id'', VText (g_room_id r)),
     (''status'', VText (GameStatus_value (g_status r))),
     (''current_blind_level'', VInt (g_current_blind_level r)),
     (''level_started_at'', optional (\<lambda>_. VTime) (g_level_started_at r)),
     (''current_dealer_seat'', VInt (g_current_dealer_seat r)),
     (''current_small_blind_seat'', VInt (g_current_small_blind_seat r)),
     (''current_big_blind_seat'', VInt (g_current_big_blind_seat r)),
     (''hands_played'', VInt (g_hands_played r)),
     (''hands_at_current_level'', VInt (g_hands_at_current_level r))]"

definition round_row :: "Round \<Rightarrow> row" where
  "round_row r = [
     (''round_id'', VText (r_round_id r)),
     (''game_id'', VText (r_game_id r)),
     (''round_number'', VInt (r_round_number r)),
     (''dealer_seat'', VInt (r_dealer_seat r)),
     (''small_blind_seat'', VInt (r_small_blind_seat r)),
     (''big_blind_seat'', VInt (r_big_blind_seat r)),
     (''small_blind_amount'', VInt (r_small_blind_amount r)),
     (''big_blind_amount'', VInt (r_big_blind_amount r)),
     (''ante_amount'', VInt (r_ante_amount r)),
     (''status'', VText (RoundStatus_value (r_status r))),
     (''pot_amount'', VInt (r_pot_amount r)),
     (''street'', VText (Street_value (r_street r))),
     (''acting_player_id'', optional VText (r_acting_player_id r)),
     (''current_highest_bet'', VInt (r_current_highest_bet r)),
     (''minimum_raise_amount'', VInt (r_minimum_raise_amount r)),
     (''is_action_closed'', VBool (r_is_action_closed r)),
     (''last_aggressor_seat'', optional VInt (r_last_aggressor_seat r)),
     (''engine_version'', VText (r_engine_version r)),
     (''state_version'', optional VInt (r_state_version r)),
     (''completed_at'', optional (\<lambda>_. VTime) (r_completed_at r))]"

definition round_player_row :: "RoundPlayer \<Rightarrow> row" where
  "round_player_row r = [
     (''round_id'', VText (rp_round_id r)),
     (''player_id'', VText (rp_player_id r)),
     (''seat_number'', VInt (rp_seat_number r)),
     (''stack_remaining'', VInt (rp_stack_remaining r)),
     (''committed_this_street'', VInt (rp_committed_this_street r)),
     (''committed_this_hand'', VInt (rp_committed_this_hand r)),
     (''has_folded'', VBool (rp_has_folded r)),
     (''is_all_in'', VBool (rp_is_all_in r)),
     (''is_active_in_hand'', VBool (rp_is_active_in_hand r))]"

definition round_payout_row :: "RoundPayout \<Rightarrow> row" where
  "round_payout_row r = [
     (''round_id'', VText (po_round_id r)),
     (''pot_index'', VInt (po_pot_index r)),
     (''pot_type'', VText (po_pot_type r)),
     (''player_id'', VText (po_player_id r)),
     (''amount'', VInt (po_amount r))]"

definition bet_row :: "Bet \<Rightarrow> row" where
  "bet_row r = [
     (''bet_id'', VText (b_bet_id r)),
     (''round_id'', VText (b_round_id r)),
     (''player_id'', VText (b_player_id r)),
     (''action'', VText (BetAction_value (b_action r))),
     (''amount'', VInt (b_amount r)),
     (''idempotency_key'', optional VText (b_idempotency_key r))]"

definition ledger_row :: "HandLedgerEntry \<Rightarrow> row" where
  "ledger_row r = [
     (''entry_id'', VText (le_entry_id r)),
     (''round_id'', VText (le_round_id r)),
     (''entry_type'', VText (LedgerEntryType_value (le_entry_type r))),
     (''player_id'', optional VText (le_player_id r)),
     (''amount'', optional VInt (le_amount r)),
     (''detail'', optional (\<lambda>_. VJson) (le_detail r)),
     (''original_entry_id'', optional VText (le_original_entry_id r)),
     (''dealer_id'', optional VText (le_dealer_id r))]"

definition snapshot_row :: "RoomSnapshot \<Rightarrow> row" where
  "snapshot_row r = [
     (''game_id'', VText (s_game_id r)),
     (''room_id'', VText (s_room_id r)),
     (''starting_dealer_seat'', VInt (s_starting_dealer_seat r)),
     (''antes_enabled'', VBool (s_antes_enabled r))]"

definition snapshot_player_row :: "RoomSnapshotPlayer \<Rightarrow> row" where
  "snapshot_player_row r = [
     (''game_id'', VText (sp_game_id r)),
     (''player_id'', VText (sp_player_id r)),
     (''seat_number'', VInt (sp_seat_number r)),
     (''chip_count'', VInt (sp_chip_count r)),
     (''is_active'', VBool (sp_is_active r)),
     (''is_eliminated'', VBool (sp_is_eliminated r))]"

definition snapshot_level_row :: "RoomSnapshotBlindLevel \<Rightarrow> row" where
  "snapshot_level_row r = [
     (''game_id'', VText (sb_game_id r)),
     (''level'', VInt (sb_level r)),
     (''small_blind'', VInt (sb_small_blind r)),
     (''big_blind'', VInt (sb_big_blind r)),
     (''ante'', VInt (sb_ante r)),
     (''duration_minutes'', optional VInt (sb_duration_minutes r))]"

primrec OutboxStatus_value :: "OutboxStatus \<Rightarrow> string" where
  "OutboxStatus_value PENDING = ''PENDING''"
| "OutboxStatus_value SENT = ''SENT''"
| "OutboxStatus_value FAILED = ''FAILED''"

definition outbox_event_row :: "('t \<Rightarrow> string) \<Rightarrow> ('t, 'd) OutboxEvent \<Rightarrow> row" where
  "outbox_event_row value r = [
     (''event_id'', VText (ox_event_id r)),
     (''event_type'', VText (value (ox_event_type r))),
     (''routing_key'', VText (value (ox_routing_key r))),
     (''payload'', VJson),
     (''status'', VText (OutboxStatus_value (ox_status r))),
     (''attempts'', VInt (ox_attempts r)),
     (''last_error'', optional VText (ox_last_error r)),
     (''published_at'', optional (\<lambda>_. VTime) (ox_published_at r))]"

definition room_row :: "Room \<Rightarrow> row" where
  "room_row r = [
     (''room_id'', VText (rm_room_id r)),
     (''code'', VText (rm_code r)),
     (''name'', optional VText (rm_name r)),
     (''status'', VText (RoomStatus_value (rm_status r))),
     (''max_players'', VInt (rm_max_players r)),
     (''starting_chips'', VInt (rm_starting_chips r)),
     (''antes_enabled'', VBool (rm_antes_enabled r)),
     (''starting_dealer_seat'', VInt (rm_starting_dealer_seat r)),
     (''created_by'', VText (rm_created_by r)),
     (''created_at'', VTime)]"

definition room_player_row :: "RoomPlayer \<Rightarrow> row" where
  "room_player_row r = [
     (''room_id'', VText (rmp_room_id r)),
     (''player_id'', VText (rmp_player_id r)),
     (''player_name'', VText (rmp_player_name r)),
     (''seat_number'', VInt (rmp_seat_number r)),
     (''chip_count'', VInt (rmp_chip_count r)),
     (''is_active'', VBool (rmp_is_active r)),
     (''is_eliminated'', VBool (rmp_is_eliminated r)),
     (''joined_at'', VTime)]"

definition blind_level_row :: "BlindLevel \<Rightarrow> row" where
  "blind_level_row r = [
     (''room_id'', VText (rml_room_id r)),
     (''level'', VInt (rml_level r)),
     (''small_blind'', VInt (rml_small_blind r)),
     (''big_blind'', VInt (rml_big_blind r)),
     (''ante'', VInt (rml_ante r)),
     (''duration_minutes'', VInt (rml_duration_minutes r))]"

definition auth_user_row :: "AuthUser \<Rightarrow> row" where
  "auth_user_row r = [
     (''id'', VInt (au_id r)),
     (''email'', VText (au_email r)),
     (''password'', VText (au_password r)),
     (''roles'', VJson),
     (''last_login_at'', optional (\<lambda>_. VTime) (au_last_login_at r))]"

definition auth_session_row :: "AuthSession \<Rightarrow> row" where
  "auth_session_row r = [
     (''id'', VText (as_id r)),
     (''user_id'', VInt (as_user_id r)),
     (''refresh_token_hash'', VText (as_refresh_token_hash r)),
     (''expires_at'', VTime),
     (''revoked_at'', optional (\<lambda>_. VTime) (as_revoked_at r)),
     (''last_seen_at'', VTime)]"

definition reset_token_row :: "PasswordResetToken \<Rightarrow> row" where
  "reset_token_row r = [
     (''id'', VText (prt_id r)),
     (''user_id'', VInt (prt_user_id r)),
     (''token_hash'', VText (prt_token_hash r)),
     (''expires_at'', VTime),
     (''used_at'', optional (\<lambda>_. VTime) (prt_used_at r))]"

definition user_row :: "User \<Rightarrow> row" where
  "user_row r = [
     (''id'', VInt (us_id r)),
     (''email'', VText (us_email r)),
     (''display_name'', optional VText (us_display_name r)),
     (''first_name'', optional VText (us_first_name r)),
     (''last_name'', optional VText (us_last_name r)),
     (''created_at'', VTime)]"

text \<open>The tables of the model under their names.\<close>

definition game_store :: "GameDb \<Rightarrow> store" where
  "game_store db t = (case map_of [
     (''games'', map game_row (db_games db)),
     (''rounds'', map round_row (db_rounds db)),
     (''round_players'', map round_player_row (db_round_players db)),
     (''round_payouts'', map round_payout_row (db_round_payouts db)),
     (''bets'', map bet_row (db_bets db)),
     (''hand_ledger_entries'', map ledger_row (db_ledger db)),
     (''room_snapshots'', map snapshot_row (db_snapshots db)),
     (''room_snapshot_players'', map snapshot_player_row (db_snapshot_players db)),
     (''room_snapshot_blind_levels'', map snapshot_level_row (db_snapshot_levels db)),
     (''outbox_events'', map (outbox_event_row GameEventType_value) (db_outbox db))] t of None \<Rightarrow> [] | Some rs \<Rightarrow> rs)"

definition room_store :: "RoomDb \<Rightarrow> store" where
  "room_store db t = (case map_of [
     (''rooms'', map room_row (rdb_rooms db)),
     (''room_players'', map room_player_row (rdb_players db)),
     (''blind_levels'', map blind_level_row (rdb_levels db)),
     (''outbox_events'', map (outbox_event_row RoomEventType_value) (rdb_outbox db))] t of None \<Rightarrow> [] | Some rs \<Rightarrow> rs)"

definition auth_store :: "AuthDb \<Rightarrow> store" where
  "auth_store db t = (case map_of [
     (''auth_users'', map auth_user_row (ad_users db)),
     (''auth_sessions'', map auth_session_row (ad_sessions db)),
     (''password_reset_tokens'', map reset_token_row (ad_resets db))] t of None \<Rightarrow> [] | Some rs \<Rightarrow> rs)"

definition user_store :: "UserDb \<Rightarrow> store" where
  "user_store db t = (case map_of [
     (''users'', map user_row (udb_users db)),
     (''outbox_events'', map (outbox_event_row UserEventType_value) (udb_outbox db))] t of None \<Rightarrow> [] | Some rs \<Rightarrow> rs)"


section \<open>What the migrations leave behind\<close>

lemma upgrades_run: "game_upgrade [] \<noteq> None" "room_upgrade_001 [] \<noteq> None" "auth_upgrade_001 [] \<noteq> None" "user_upgrade_001 [] \<noteq> None"
  by code_simp+

lemma game_unique_keys: "unique_keys (migrated game_upgrade) =
  [(''games'', [''id'']), (''games'', [''game_id'']), (''rounds'', [''id'']), (''rounds'', [''game_id'', ''round_number'']), (''rounds'',
   [''round_id'']), (''round_players'', [''id'']), (''round_players'', [''round_id'', ''player_id'']), (''round_players'', [''round_id'',
   ''seat_number'']), (''round_payouts'', [''id'']), (''bets'', [''id'']), (''bets'', [''round_id'', ''idempotency_key'']), (''bets'', [''bet_id'']),
   (''hand_ledger_entries'', [''id'']), (''hand_ledger_entries'', [''entry_id'']), (''room_snapshots'', [''id'']), (''room_snapshots'', [''game_id'']),
   (''room_snapshot_players'', [''id'']), (''room_snapshot_players'', [''game_id'', ''player_id'']), (''room_snapshot_players'', [''game_id'',
   ''seat_number'']), (''room_snapshot_blind_levels'', [''id'']), (''room_snapshot_blind_levels'', [''game_id'', ''level'']), (''outbox_events'',
   [''id'']), (''outbox_events'', [''event_id''])]"
  by code_simp

lemma game_foreign_keys: "foreign_keys (migrated game_upgrade) =
  [(''rounds'', ''game_id'', ''games'', ''game_id''), (''round_players'', ''round_id'', ''rounds'', ''round_id''), (''round_payouts'', ''round_id'',
   ''rounds'', ''round_id''), (''bets'', ''round_id'', ''rounds'', ''round_id''), (''hand_ledger_entries'', ''round_id'', ''rounds'', ''round_id''),
   (''room_snapshots'', ''game_id'', ''games'', ''game_id''), (''room_snapshot_players'', ''game_id'', ''games'', ''game_id''),
   (''room_snapshot_blind_levels'', ''game_id'', ''games'', ''game_id'')]"
  by code_simp

lemma game_check_constraints: "check_constraints (migrated game_upgrade) =
  [(''games'', CheckGe ''current_blind_level'' 1), (''games'', CheckIn ''status'' [''WAITING'', ''ACTIVE'', ''PAUSED'', ''FINISHED'']), (''games'',
   CheckGe ''hands_played'' 0), (''games'', CheckGe ''hands_at_current_level'' 0), (''rounds'', CheckGe ''pot_amount'' 0), (''rounds'',
   CheckGe ''current_highest_bet'' 0), (''rounds'', CheckGe ''minimum_raise_amount'' 0), (''rounds'', CheckIn ''status'' [''ACTIVE'', ''COMPLETED'']),
   (''rounds'', CheckIn ''street'' [''PRE_FLOP'', ''FLOP'', ''TURN'', ''RIVER'', ''SHOWDOWN'']), (''rounds'', CheckGe ''state_version'' 1),
   (''round_players'', CheckGe ''stack_remaining'' 0), (''round_players'', CheckGe ''committed_this_street'' 0), (''round_players'',
   CheckGe ''committed_this_hand'' 0), (''round_payouts'', CheckGe ''amount'' 0), (''bets'', CheckGe ''amount'' 0), (''bets'',
   CheckIn ''action'' [''FOLD'', ''CHECK'', ''CALL'', ''BET'', ''RAISE'', ''ALL_IN'']), (''hand_ledger_entries'',
   CheckIn ''entry_type'' [''BLIND_POSTED'', ''ANTE_POSTED'', ''BET_PLACED'', ''STREET_DEALT'', ''PAYOUT_AWARDED'', ''ROUND_COMPLETED'',
   ''ACTION_REVERSED'', ''STACK_ADJUSTED'', ''HAND_REOPENED'', ''PAYOUT_CORRECTED'']), (''room_snapshot_players'', CheckGe ''chip_count'' 0)]"
  by code_simp

lemma game_required_columns: "required_columns (migrated game_upgrade) =
  [(''games'', [''id'', ''game_id'', ''room_id'', ''status'', ''current_blind_level'', ''current_dealer_seat'', ''current_small_blind_seat'',
   ''current_big_blind_seat'', ''created_at'', ''hands_played'', ''hands_at_current_level'']), (''rounds'', [''id'', ''round_id'', ''game_id'',
   ''round_number'', ''dealer_seat'', ''small_blind_seat'', ''big_blind_seat'', ''small_blind_amount'', ''big_blind_amount'', ''ante_amount'', ''status'',
   ''pot_amount'', ''street'', ''current_highest_bet'', ''minimum_raise_amount'', ''is_action_closed'', ''engine_version'', ''state_version'',
   ''created_at'']), (''round_players'', [''id'', ''round_id'', ''player_id'', ''seat_number'', ''stack_remaining'', ''committed_this_street'',
   ''committed_this_hand'', ''has_folded'', ''is_all_in'', ''is_active_in_hand'']), (''round_payouts'', [''id'', ''round_id'', ''pot_index'',
   ''pot_type'', ''player_id'', ''amount'']), (''bets'', [''id'', ''bet_id'', ''round_id'', ''player_id'', ''action'', ''amount'', ''created_at'']),
   (''hand_ledger_entries'', [''id'', ''entry_id'', ''round_id'', ''entry_type'', ''created_at'']), (''room_snapshots'', [''id'', ''game_id'',
   ''room_id'', ''starting_dealer_seat'', ''created_at'', ''antes_enabled'']), (''room_snapshot_players'', [''id'', ''game_id'', ''player_id'',
   ''seat_number'', ''chip_count'', ''is_active'', ''is_eliminated'']), (''room_snapshot_blind_levels'', [''id'', ''game_id'', ''level'', ''small_blind'',
   ''big_blind'', ''ante'']), (''outbox_events'', [''id'', ''event_id'', ''event_type'', ''routing_key'', ''payload'', ''status'', ''attempts'',
   ''created_at''])]"
  by code_simp

lemma room_unique_keys: "unique_keys (migrated room_upgrade_001) =
  [(''rooms'', [''id'']), (''rooms'', [''room_id'']), (''rooms'', [''code'']), (''room_players'', [''id'']), (''room_players'', [''player_id'']),
   (''blind_levels'', [''id'']), (''outbox_events'', [''id'']), (''outbox_events'', [''event_id''])]"
  by code_simp

lemma room_foreign_keys: "foreign_keys (migrated room_upgrade_001) =
  []"
  by code_simp

lemma room_check_constraints: "check_constraints (migrated room_upgrade_001) =
  []"
  by code_simp

lemma room_required_columns: "required_columns (migrated room_upgrade_001) =
  [(''rooms'', [''id'', ''room_id'', ''code'', ''status'', ''max_players'', ''starting_chips'', ''antes_enabled'', ''starting_dealer_seat'',
   ''created_by'', ''created_at'']), (''room_players'', [''id'', ''room_id'', ''player_id'', ''player_name'', ''seat_number'', ''chip_count'',
   ''is_active'', ''is_eliminated'', ''joined_at'']), (''blind_levels'', [''id'', ''room_id'', ''level'', ''small_blind'', ''big_blind'', ''ante'',
   ''duration_minutes'']), (''outbox_events'', [''id'', ''event_id'', ''event_type'', ''routing_key'', ''payload'', ''status'', ''attempts'',
   ''created_at''])]"
  by code_simp

lemma auth_unique_keys: "unique_keys (migrated auth_upgrade_001) =
  [(''auth_users'', [''id'']), (''auth_users'', [''email'']), (''auth_sessions'', [''id'']), (''password_reset_tokens'', [''id'']),
   (''password_reset_tokens'', [''token_hash''])]"
  by code_simp

lemma auth_foreign_keys: "foreign_keys (migrated auth_upgrade_001) =
  [(''auth_sessions'', ''user_id'', ''auth_users'', ''id''), (''password_reset_tokens'', ''user_id'', ''auth_users'', ''id'')]"
  by code_simp

lemma auth_check_constraints: "check_constraints (migrated auth_upgrade_001) =
  []"
  by code_simp

lemma auth_required_columns: "required_columns (migrated auth_upgrade_001) =
  [(''auth_users'', [''id'', ''email'', ''password'', ''roles'']), (''auth_sessions'', [''id'', ''user_id'', ''refresh_token_hash'', ''expires_at'',
   ''created_at'', ''last_seen_at'']), (''password_reset_tokens'', [''id'', ''user_id'', ''token_hash'', ''expires_at'', ''created_at''])]"
  by code_simp

lemma user_unique_keys: "unique_keys (migrated user_upgrade_001) =
  [(''users'', [''id'']), (''users'', [''email'']), (''outbox_events'', [''id'']), (''outbox_events'', [''event_id''])]"
  by code_simp

lemma user_foreign_keys: "foreign_keys (migrated user_upgrade_001) =
  []"
  by code_simp

lemma user_check_constraints: "check_constraints (migrated user_upgrade_001) =
  []"
  by code_simp

lemma user_required_columns: "required_columns (migrated user_upgrade_001) =
  [(''users'', [''id'', ''email'', ''created_at'']), (''outbox_events'', [''id'', ''event_id'', ''event_type'', ''routing_key'', ''payload'', ''status'',
   ''attempts'', ''created_at''])]"
  by code_simp

section \<open>The constraints, one by one\<close>

lemmas encode_defs = game_row_def round_row_def round_player_row_def round_payout_row_def bet_row_def ledger_row_def snapshot_row_def
  snapshot_player_row_def snapshot_level_row_def outbox_event_row_def room_row_def room_player_row_def blind_level_row_def auth_user_row_def
  auth_session_row_def reset_token_row_def user_row_def optional_def

lemma games_game_id_unique: "distinct (List.map_filter (row_key [''game_id'']) (map game_row rs)) \<longleftrightarrow> distinct (map g_game_id rs)"
  by (rule unique_rows [where g = "\<lambda>x. [VText x]"]) (simp_all add: encode_defs inj_def)

lemma rounds_round_id_unique: "distinct (List.map_filter (row_key [''round_id'']) (map round_row rs)) \<longleftrightarrow> distinct (map r_round_id rs)"
  by (rule unique_rows [where g = "\<lambda>x. [VText x]"]) (simp_all add: encode_defs inj_def)

lemma rounds_game_id_round_number_unique:
  "distinct (List.map_filter (row_key [''game_id'', ''round_number'']) (map round_row rs)) \<longleftrightarrow> distinct (map (\<lambda>r. (r_game_id r, r_round_number r)) rs)"
  by (rule unique_rows [where g = "\<lambda>(x, y). [VText x, VInt y]"]) (auto simp: encode_defs inj_def)

lemma round_players_round_id_player_id_unique:
  "distinct (List.map_filter (row_key [''round_id'', ''player_id'']) (map round_player_row rs)) \<longleftrightarrow> distinct (map (\<lambda>r. (rp_round_id r, rp_player_id r)) rs)"
  by (rule unique_rows [where g = "\<lambda>(x, y). [VText x, VText y]"]) (auto simp: encode_defs inj_def)

lemma round_players_round_id_seat_number_unique:
  "distinct (List.map_filter (row_key [''round_id'', ''seat_number'']) (map round_player_row rs)) \<longleftrightarrow> distinct (map (\<lambda>r. (rp_round_id r, rp_seat_number r)) rs)"
  by (rule unique_rows [where g = "\<lambda>(x, y). [VText x, VInt y]"]) (auto simp: encode_defs inj_def)

lemma bets_bet_id_unique: "distinct (List.map_filter (row_key [''bet_id'']) (map bet_row rs)) \<longleftrightarrow> distinct (map b_bet_id rs)"
  by (rule unique_rows [where g = "\<lambda>x. [VText x]"]) (simp_all add: encode_defs inj_def)

lemma bets_idempotency_unique: "distinct (List.map_filter (row_key [''round_id'', ''idempotency_key'']) (map bet_row rs)) \<longleftrightarrow>
    distinct (map (\<lambda>b. (b_round_id b, b_idempotency_key b)) (filter (\<lambda>b. b_idempotency_key b \<noteq> None) rs))"
  by (rule unique_rows_null [where g = "\<lambda>(x, y). [VText x, optional VText y]"])
     (auto simp: encode_defs inj_def split: option.splits)

lemma ledger_entry_id_unique: "distinct (List.map_filter (row_key [''entry_id'']) (map ledger_row rs)) \<longleftrightarrow> distinct (map le_entry_id rs)"
  by (rule unique_rows [where g = "\<lambda>x. [VText x]"]) (simp_all add: encode_defs inj_def)

lemma snapshots_game_id_unique: "distinct (List.map_filter (row_key [''game_id'']) (map snapshot_row rs)) \<longleftrightarrow> distinct (map s_game_id rs)"
  by (rule unique_rows [where g = "\<lambda>x. [VText x]"]) (simp_all add: encode_defs inj_def)

lemma snapshot_players_game_id_player_id_unique:
  "distinct (List.map_filter (row_key [''game_id'', ''player_id'']) (map snapshot_player_row rs)) \<longleftrightarrow> distinct (map (\<lambda>r. (sp_game_id r, sp_player_id r)) rs)"
  by (rule unique_rows [where g = "\<lambda>(x, y). [VText x, VText y]"]) (auto simp: encode_defs inj_def)

lemma snapshot_players_game_id_seat_number_unique:
  "distinct (List.map_filter (row_key [''game_id'', ''seat_number'']) (map snapshot_player_row rs)) \<longleftrightarrow> distinct (map (\<lambda>r. (sp_game_id r, sp_seat_number r)) rs)"
  by (rule unique_rows [where g = "\<lambda>(x, y). [VText x, VInt y]"]) (auto simp: encode_defs inj_def)

lemma snapshot_levels_game_id_level_unique:
  "distinct (List.map_filter (row_key [''game_id'', ''level'']) (map snapshot_level_row rs)) \<longleftrightarrow> distinct (map (\<lambda>r. (sb_game_id r, sb_level r)) rs)"
  by (rule unique_rows [where g = "\<lambda>(x, y). [VText x, VInt y]"]) (auto simp: encode_defs inj_def)

lemma outbox_event_id_unique: "distinct (List.map_filter (row_key [''event_id'']) (map (outbox_event_row v) rs)) \<longleftrightarrow> distinct (map ox_event_id rs)"
  by (rule unique_rows [where g = "\<lambda>x. [VText x]"]) (simp_all add: encode_defs inj_def)

lemma rooms_room_id_unique: "distinct (List.map_filter (row_key [''room_id'']) (map room_row rs)) \<longleftrightarrow> distinct (map rm_room_id rs)"
  by (rule unique_rows [where g = "\<lambda>x. [VText x]"]) (simp_all add: encode_defs inj_def)

lemma rooms_code_unique: "distinct (List.map_filter (row_key [''code'']) (map room_row rs)) \<longleftrightarrow> distinct (map rm_code rs)"
  by (rule unique_rows [where g = "\<lambda>x. [VText x]"]) (simp_all add: encode_defs inj_def)

lemma room_players_player_id_unique: "distinct (List.map_filter (row_key [''player_id'']) (map room_player_row rs)) \<longleftrightarrow> distinct (map rmp_player_id rs)"
  by (rule unique_rows [where g = "\<lambda>x. [VText x]"]) (simp_all add: encode_defs inj_def)

lemma auth_users_id_unique: "distinct (List.map_filter (row_key [''id'']) (map auth_user_row rs)) \<longleftrightarrow> distinct (map au_id rs)"
  by (rule unique_rows [where g = "\<lambda>x. [VInt x]"]) (simp_all add: encode_defs inj_def)

lemma auth_users_email_unique: "distinct (List.map_filter (row_key [''email'']) (map auth_user_row rs)) \<longleftrightarrow> distinct (map au_email rs)"
  by (rule unique_rows [where g = "\<lambda>x. [VText x]"]) (simp_all add: encode_defs inj_def)

lemma auth_sessions_id_unique: "distinct (List.map_filter (row_key [''id'']) (map auth_session_row rs)) \<longleftrightarrow> distinct (map as_id rs)"
  by (rule unique_rows [where g = "\<lambda>x. [VText x]"]) (simp_all add: encode_defs inj_def)

lemma reset_tokens_id_unique: "distinct (List.map_filter (row_key [''id'']) (map reset_token_row rs)) \<longleftrightarrow> distinct (map prt_id rs)"
  by (rule unique_rows [where g = "\<lambda>x. [VText x]"]) (simp_all add: encode_defs inj_def)

lemma reset_tokens_token_hash_unique: "distinct (List.map_filter (row_key [''token_hash'']) (map reset_token_row rs)) \<longleftrightarrow> distinct (map prt_token_hash rs)"
  by (rule unique_rows [where g = "\<lambda>x. [VText x]"]) (simp_all add: encode_defs inj_def)

lemma users_id_unique: "distinct (List.map_filter (row_key [''id'']) (map user_row rs)) \<longleftrightarrow> distinct (map us_id rs)"
  by (rule unique_rows [where g = "\<lambda>x. [VInt x]"]) (simp_all add: encode_defs inj_def)

lemma users_email_unique: "distinct (List.map_filter (row_key [''email'']) (map user_row rs)) \<longleftrightarrow> distinct (map us_email rs)"
  by (rule unique_rows [where g = "\<lambda>x. [VText x]"]) (simp_all add: encode_defs inj_def)

text \<open>Serial identifiers are given by the database.\<close>

lemma serial_ids:
  "distinct (List.map_filter (row_key [''id'']) (map game_row rs0))"
  "distinct (List.map_filter (row_key [''id'']) (map round_row rs1))"
  "distinct (List.map_filter (row_key [''id'']) (map round_player_row rs2))"
  "distinct (List.map_filter (row_key [''id'']) (map round_payout_row rs3))"
  "distinct (List.map_filter (row_key [''id'']) (map bet_row rs4))"
  "distinct (List.map_filter (row_key [''id'']) (map ledger_row rs5))"
  "distinct (List.map_filter (row_key [''id'']) (map snapshot_row rs6))"
  "distinct (List.map_filter (row_key [''id'']) (map snapshot_player_row rs7))"
  "distinct (List.map_filter (row_key [''id'']) (map snapshot_level_row rs8))"
  "distinct (List.map_filter (row_key [''id'']) (map (outbox_event_row v) rs9))"
  "distinct (List.map_filter (row_key [''id'']) (map room_row rs10))"
  "distinct (List.map_filter (row_key [''id'']) (map room_player_row rs11))"
  "distinct (List.map_filter (row_key [''id'']) (map blind_level_row rs12))"
  by (rule unique_rows_unnamed; simp add: encode_defs)+

lemmas unique_eqs = serial_ids games_game_id_unique rounds_round_id_unique rounds_game_id_round_number_unique round_players_round_id_player_id_unique round_players_round_id_seat_number_unique bets_bet_id_unique bets_idempotency_unique ledger_entry_id_unique snapshots_game_id_unique snapshot_players_game_id_player_id_unique snapshot_players_game_id_seat_number_unique snapshot_levels_game_id_level_unique outbox_event_id_unique rooms_room_id_unique rooms_code_unique room_players_player_id_unique auth_users_id_unique auth_users_email_unique auth_sessions_id_unique reset_tokens_id_unique reset_tokens_token_hash_unique users_id_unique users_email_unique

lemma rounds_reference: "list_all (\<lambda>r. case row_key [''game_id''] r of None \<Rightarrow> True
      | Some v \<Rightarrow> v \<in> set (List.map_filter (row_key [''game_id'']) (map game_row rs'))) (map round_row rs) \<longleftrightarrow> list_all (\<lambda>r. r_game_id r \<in> set (map g_game_id rs')) rs"
  by (rule reference_rows [where g = "\<lambda>x. [VText x]"]) (simp_all add: encode_defs inj_def)

lemma round_players_reference: "list_all (\<lambda>r. case row_key [''round_id''] r of None \<Rightarrow> True
      | Some v \<Rightarrow> v \<in> set (List.map_filter (row_key [''round_id'']) (map round_row rs'))) (map round_player_row rs) \<longleftrightarrow> list_all (\<lambda>r. rp_round_id r \<in> set (map r_round_id rs')) rs"
  by (rule reference_rows [where g = "\<lambda>x. [VText x]"]) (simp_all add: encode_defs inj_def)

lemma round_payouts_reference: "list_all (\<lambda>r. case row_key [''round_id''] r of None \<Rightarrow> True
      | Some v \<Rightarrow> v \<in> set (List.map_filter (row_key [''round_id'']) (map round_row rs'))) (map round_payout_row rs) \<longleftrightarrow> list_all (\<lambda>r. po_round_id r \<in> set (map r_round_id rs')) rs"
  by (rule reference_rows [where g = "\<lambda>x. [VText x]"]) (simp_all add: encode_defs inj_def)

lemma bets_reference: "list_all (\<lambda>r. case row_key [''round_id''] r of None \<Rightarrow> True
      | Some v \<Rightarrow> v \<in> set (List.map_filter (row_key [''round_id'']) (map round_row rs'))) (map bet_row rs) \<longleftrightarrow> list_all (\<lambda>r. b_round_id r \<in> set (map r_round_id rs')) rs"
  by (rule reference_rows [where g = "\<lambda>x. [VText x]"]) (simp_all add: encode_defs inj_def)

lemma ledger_reference: "list_all (\<lambda>r. case row_key [''round_id''] r of None \<Rightarrow> True
      | Some v \<Rightarrow> v \<in> set (List.map_filter (row_key [''round_id'']) (map round_row rs'))) (map ledger_row rs) \<longleftrightarrow> list_all (\<lambda>r. le_round_id r \<in> set (map r_round_id rs')) rs"
  by (rule reference_rows [where g = "\<lambda>x. [VText x]"]) (simp_all add: encode_defs inj_def)

lemma snapshots_reference: "list_all (\<lambda>r. case row_key [''game_id''] r of None \<Rightarrow> True
      | Some v \<Rightarrow> v \<in> set (List.map_filter (row_key [''game_id'']) (map game_row rs'))) (map snapshot_row rs) \<longleftrightarrow> list_all (\<lambda>r. s_game_id r \<in> set (map g_game_id rs')) rs"
  by (rule reference_rows [where g = "\<lambda>x. [VText x]"]) (simp_all add: encode_defs inj_def)

lemma snapshot_players_reference: "list_all (\<lambda>r. case row_key [''game_id''] r of None \<Rightarrow> True
      | Some v \<Rightarrow> v \<in> set (List.map_filter (row_key [''game_id'']) (map game_row rs'))) (map snapshot_player_row rs) \<longleftrightarrow> list_all (\<lambda>r. sp_game_id r \<in> set (map g_game_id rs')) rs"
  by (rule reference_rows [where g = "\<lambda>x. [VText x]"]) (simp_all add: encode_defs inj_def)

lemma snapshot_levels_reference: "list_all (\<lambda>r. case row_key [''game_id''] r of None \<Rightarrow> True
      | Some v \<Rightarrow> v \<in> set (List.map_filter (row_key [''game_id'']) (map game_row rs'))) (map snapshot_level_row rs) \<longleftrightarrow> list_all (\<lambda>r. sb_game_id r \<in> set (map g_game_id rs')) rs"
  by (rule reference_rows [where g = "\<lambda>x. [VText x]"]) (simp_all add: encode_defs inj_def)

lemma auth_sessions_reference: "list_all (\<lambda>r. case row_key [''user_id''] r of None \<Rightarrow> True
      | Some v \<Rightarrow> v \<in> set (List.map_filter (row_key [''id'']) (map auth_user_row rs'))) (map auth_session_row rs) \<longleftrightarrow> list_all (\<lambda>r. as_user_id r \<in> set (map au_id rs')) rs"
  by (rule reference_rows [where g = "\<lambda>x. [VInt x]"]) (simp_all add: encode_defs inj_def)

lemma reset_tokens_reference: "list_all (\<lambda>r. case row_key [''user_id''] r of None \<Rightarrow> True
      | Some v \<Rightarrow> v \<in> set (List.map_filter (row_key [''id'']) (map auth_user_row rs'))) (map reset_token_row rs) \<longleftrightarrow> list_all (\<lambda>r. prt_user_id r \<in> set (map au_id rs')) rs"
  by (rule reference_rows [where g = "\<lambda>x. [VInt x]"]) (simp_all add: encode_defs inj_def)

lemmas reference_eqs = rounds_reference round_players_reference round_payouts_reference bets_reference ledger_reference snapshots_reference snapshot_players_reference snapshot_levels_reference auth_sessions_reference reset_tokens_reference

lemmas store_defs = game_store_def room_store_def auth_store_def user_store_def

lemma game_tables:
  "game_store db ''games'' = map game_row (db_games db)" "game_store db ''rounds'' = map round_row (db_rounds db)"
  "game_store db ''round_players'' = map round_player_row (db_round_players db)" "game_store db ''round_payouts'' = map round_payout_row (db_round_payouts db)"
  "game_store db ''bets'' = map bet_row (db_bets db)" "game_store db ''hand_ledger_entries'' = map ledger_row (db_ledger db)"
  "game_store db ''room_snapshots'' = map snapshot_row (db_snapshots db)" "game_store db ''room_snapshot_players'' = map snapshot_player_row (db_snapshot_players db)"
  "game_store db ''room_snapshot_blind_levels'' = map snapshot_level_row (db_snapshot_levels db)"
  "game_store db ''outbox_events'' = map (outbox_event_row GameEventType_value) (db_outbox db)"
  by (simp_all add: game_store_def)

lemma auth_tables:
  "auth_store adb ''auth_users'' = map auth_user_row (ad_users adb)" "auth_store adb ''auth_sessions'' = map auth_session_row (ad_sessions adb)"
  "auth_store adb ''password_reset_tokens'' = map reset_token_row (ad_resets adb)"
  by (simp_all add: auth_store_def)

lemma game_uniques: "list_all (unique_holds (game_store db)) (unique_keys (migrated game_upgrade)) \<longleftrightarrow> unique_ok db"
  unfolding game_unique_keys unique_holds_def unique_ok_def
  by (simp only: list.pred_inject fst_conv snd_conv game_tables unique_eqs simp_thms) blast

lemma room_uniques: "list_all (unique_holds (room_store db)) (unique_keys (migrated room_upgrade_001)) \<longleftrightarrow> room_unique_ok db"
  unfolding room_unique_keys unique_holds_def room_unique_ok_def by (simp add: store_defs unique_eqs)

lemma auth_uniques: "list_all (unique_holds (auth_store db)) (unique_keys (migrated auth_upgrade_001)) \<and>
    list_all (reference_holds (auth_store db)) (foreign_keys (migrated auth_upgrade_001)) \<longleftrightarrow> auth_unique_ok db"
  unfolding auth_unique_keys auth_foreign_keys unique_holds_def reference_holds_def auth_unique_ok_def
  by (simp only: list.pred_inject prod.case fst_conv snd_conv auth_tables unique_eqs reference_eqs simp_thms conj_assoc)

lemma user_uniques: "list_all (unique_holds (user_store db)) (unique_keys (migrated user_upgrade_001)) \<longleftrightarrow> user_unique_ok db"
  unfolding user_unique_keys unique_holds_def user_unique_ok_def by (simp add: store_defs unique_eqs)

lemma game_references: "list_all (reference_holds (game_store db)) (foreign_keys (migrated game_upgrade)) \<longleftrightarrow> foreign_ok db"
  unfolding game_foreign_keys reference_holds_def foreign_ok_def Let_def
  by (simp only: list.pred_inject prod.case game_tables reference_eqs simp_thms)

text \<open>The check constraints of each table, with the columns that must not be null.\<close>

lemma game_status_check: "check_holds (CheckIn ''status'' [''WAITING'', ''ACTIVE'', ''PAUSED'', ''FINISHED'']) (game_row r)"
  by (cases "g_status r") (simp_all add: check_holds_def encode_defs)

lemma round_status_check: "check_holds (CheckIn ''status'' [''ACTIVE'', ''COMPLETED'']) (round_row r)"
  by (cases "r_status r") (simp_all add: check_holds_def encode_defs)

lemma street_check: "check_holds (CheckIn ''street'' [''PRE_FLOP'', ''FLOP'', ''TURN'', ''RIVER'', ''SHOWDOWN'']) (round_row r)"
  by (cases "r_street r") (simp_all add: check_holds_def encode_defs)

lemma action_check: "check_holds (CheckIn ''action'' [''FOLD'', ''CHECK'', ''CALL'', ''BET'', ''RAISE'', ''ALL_IN'']) (bet_row r)"
  by (cases "b_action r") (simp_all add: check_holds_def encode_defs)

lemma entry_type_check: "check_holds (CheckIn ''entry_type'' [''BLIND_POSTED'', ''ANTE_POSTED'', ''BET_PLACED'', ''STREET_DEALT'', ''PAYOUT_AWARDED'',
     ''ROUND_COMPLETED'', ''ACTION_REVERSED'', ''STACK_ADJUSTED'', ''HAND_REOPENED'', ''PAYOUT_CORRECTED'']) (ledger_row r)"
  by (cases "le_entry_type r") (simp_all add: check_holds_def encode_defs)

lemmas enum_checks = game_status_check round_status_check street_check action_check entry_type_check

lemma amount_checks:
  "check_holds (CheckGe ''current_blind_level'' n) (game_row g) \<longleftrightarrow> n \<le> g_current_blind_level g"
  "check_holds (CheckGe ''hands_played'' n) (game_row g) \<longleftrightarrow> n \<le> g_hands_played g"
  "check_holds (CheckGe ''hands_at_current_level'' n) (game_row g) \<longleftrightarrow> n \<le> g_hands_at_current_level g"
  "check_holds (CheckGe ''pot_amount'' n) (round_row r) \<longleftrightarrow> n \<le> r_pot_amount r"
  "check_holds (CheckGe ''current_highest_bet'' n) (round_row r) \<longleftrightarrow> n \<le> r_current_highest_bet r"
  "check_holds (CheckGe ''minimum_raise_amount'' n) (round_row r) \<longleftrightarrow> n \<le> r_minimum_raise_amount r"
  "check_holds (CheckGe ''state_version'' n) (round_row r) \<longleftrightarrow> (\<forall>v. r_state_version r = Some v \<longrightarrow> n \<le> v)"
  "check_holds (CheckGe ''stack_remaining'' n) (round_player_row p) \<longleftrightarrow> n \<le> rp_stack_remaining p"
  "check_holds (CheckGe ''committed_this_street'' n) (round_player_row p) \<longleftrightarrow> n \<le> rp_committed_this_street p"
  "check_holds (CheckGe ''committed_this_hand'' n) (round_player_row p) \<longleftrightarrow> n \<le> rp_committed_this_hand p"
  "check_holds (CheckGe ''amount'' n) (round_payout_row q) \<longleftrightarrow> n \<le> po_amount q"
  "check_holds (CheckGe ''amount'' n) (bet_row b) \<longleftrightarrow> n \<le> b_amount b"
  "check_holds (CheckGe ''chip_count'' n) (snapshot_player_row c) \<longleftrightarrow> n \<le> sp_chip_count c"
  by (simp_all add: check_holds_def encode_defs split: option.split)

lemma game_check_constraints_hold:
  "list_all (\<lambda>(t, ck). list_all (check_holds ck) (game_store db t)) (check_constraints (migrated game_upgrade)) \<and>
   (\<forall>r \<in> set (db_rounds db). r_state_version r \<noteq> None) \<longleftrightarrow> checks_ok db"
  unfolding game_check_constraints
  by (simp add: game_tables list.pred_map comp_def enum_checks amount_checks)
     (auto simp: checks_ok_def list_all_iff Game_ck_def Round_ck_def RoundPlayer_ck_def RoundPayout_ck_def Bet_ck_def RoomSnapshotPlayer_ck_def)

lemma game_required: "list_all (required_holds (game_store db)) (required_columns (migrated game_upgrade)) \<longleftrightarrow>
   (\<forall>r \<in> set (db_rounds db). r_state_version r \<noteq> None)"
  unfolding game_required_columns required_holds_def
  by (simp add: game_tables list.pred_map comp_def encode_defs split: option.split) (simp add: list_all_iff split: option.split)

lemma other_required:
  "list_all (required_holds (room_store rdb)) (required_columns (migrated room_upgrade_001))"
  "list_all (required_holds (auth_store adb)) (required_columns (migrated auth_upgrade_001))"
  "list_all (required_holds (user_store udb)) (required_columns (migrated user_upgrade_001))"
  unfolding room_required_columns auth_required_columns user_required_columns required_holds_def
  by (simp_all add: store_defs list.pred_map comp_def encode_defs) (simp_all add: list_all_iff)


section \<open>The migrated databases\<close>

text \<open>
  C40: the constraints on which the model of the services rests are those of the migrated databases. The revisions of the four
  services run from an empty database to the last one, and the tables of a service pass its commit exactly when their rows satisfy
  every primary key, unique constraint and index, foreign key, check and required column that the revisions have left.
\<close>

theorem commits_check_migrated_constraints:
  "(game_upgrade [] \<noteq> None \<and> room_upgrade_001 [] \<noteq> None \<and> auth_upgrade_001 [] \<noteq> None \<and> user_upgrade_001 [] \<noteq> None) \<and>
   (db_ok db \<longleftrightarrow> satisfies (migrated game_upgrade) (game_store db)) \<and>
   (room_unique_ok rdb \<longleftrightarrow> satisfies (migrated room_upgrade_001) (room_store rdb)) \<and>
   (auth_unique_ok adb \<longleftrightarrow> satisfies (migrated auth_upgrade_001) (auth_store adb)) \<and>
   (user_unique_ok udb \<longleftrightarrow> satisfies (migrated user_upgrade_001) (user_store udb))"
proof (intro conjI upgrades_run)
  show "db_ok db \<longleftrightarrow> satisfies (migrated game_upgrade) (game_store db)"
    unfolding satisfies_def db_ok_def game_uniques game_references game_required game_check_constraints_hold [symmetric] ..
  show "room_unique_ok rdb \<longleftrightarrow> satisfies (migrated room_upgrade_001) (room_store rdb)"
    unfolding satisfies_def room_uniques by (simp add: room_foreign_keys room_check_constraints other_required)
  show "auth_unique_ok adb \<longleftrightarrow> satisfies (migrated auth_upgrade_001) (auth_store adb)"
    unfolding satisfies_def auth_uniques [symmetric] by (simp add: auth_check_constraints other_required)
  show "user_unique_ok udb \<longleftrightarrow> satisfies (migrated user_upgrade_001) (user_store udb)"
    unfolding satisfies_def user_uniques by (simp add: user_foreign_keys user_check_constraints other_required)
qed

text \<open>A downgrade takes back its revision, up to the order in which indexes are listed.\<close>

definition game_revision :: "nat \<Rightarrow> schema" where
  "game_revision n = migrated (run_ops (take n [game_upgrade_001, game_upgrade_002, game_upgrade_003, game_upgrade_004, game_upgrade_005]))"

definition same_table :: "SqlTable \<Rightarrow> SqlTable \<Rightarrow> bool" where
  "same_table a b \<longleftrightarrow> t_columns a = t_columns b \<and> t_uniques a = t_uniques b \<and> t_checks a = t_checks b \<and>
     set (t_indexes a) = set (t_indexes b)"

definition same_schema :: "schema option \<Rightarrow> schema \<Rightarrow> bool" where
  "same_schema s s' \<longleftrightarrow> (case s of None \<Rightarrow> False | Some s \<Rightarrow> list_all2 (\<lambda>x y. fst x = fst y \<and> same_table (snd x) (snd y)) s s')"

lemma downgrade_001_undoes: "same_schema (game_downgrade_001 (game_revision 1)) []"
  by code_simp

lemma downgrade_003_undoes: "same_schema (game_downgrade_003 (game_revision 3)) (game_revision 2)"
  by code_simp

lemma downgrade_004_undoes: "same_schema (game_downgrade_004 (game_revision 4)) (game_revision 3)"
  by code_simp

lemma downgrade_005_undoes: "same_schema (game_downgrade_005 (game_revision 5)) (game_revision 4)"
  by code_simp

lemma other_downgrades_undo: "same_schema (room_downgrade_001 (migrated room_upgrade_001)) []"
  "same_schema (auth_downgrade_001 (migrated auth_upgrade_001)) []" "same_schema (user_downgrade_001 (migrated user_upgrade_001)) []"
  by code_simp+

text \<open>
  But for the second one: the first revision already makes the column and its index, the second finds them and does nothing,
  and its downgrade drops them.
\<close>

lemma second_downgrade_drops_column:
  "game_revision 2 = game_revision 1"
  "\<not> same_schema (game_downgrade_002 (game_revision 2)) (game_revision 1)"
  "map_option (\<lambda>s. map_option (\<lambda>tb. ''idempotency_key'' \<in> set (column_names tb)) (map_of s ''bets'')) (game_downgrade_002 (game_revision 2)) = Some (Some False)"
  by code_simp+

end
