(* ===== verification/Spec2Isabelle.thy ===== *)
theory Spec2Isabelle
  imports Positions Blind_Posting Street_Progression Action_Pipeline Settlement_Explainer Table_Runtime Hand_Ledger
    Corrections Table_Commands Queries Betting_Round Hand_Play Outbox_Worker Scenario_Runner Room_Game Auth_Sessions
    User_Service Publisher Game_Api Routing Migrations
begin

text \<open>
  \<^bold>\<open>The poker-room backend.\<close> Five Python services keep poker rooms: room-service (rooms,
  players, seats, blinds), game-service (games, hands, betting, settlement), auth-service,
  user-service and a gateway, with shared code for events and persistence under
  \<^verbatim>\<open>src/shared\<close>. This development models them from the pure engine up to the commands on the
  databases, and the events from the outbox over the message broker to the sockets of the gateway. It proves that chips are
  neither made nor lost, that the betting engine implements the rules it states, that the
  ledger tells the same story as the rows, that concurrent and repeated requests are safe, that a refresh
  token works once, and that no event or message is lost.

  \<^bold>\<open>How the code is modelled.\<close> Every function, method and class modelled is a definition of the same
  name (with a suffix or prefix where a name clashes), in the theory of its source file.
  Enumerations are datatypes with their string values (\<open>Street_value\<close>), tables and
  dataclasses records. A fallible operation returns \<open>error + 'a\<close>, each \<^verbatim>\<open>raise\<close> being a branch
  (\<open>Prelude\<close>: \<open>bindE\<close>; \<open>Domain_Types\<close>: \<open>error\<close>). Python integers are \<open>int\<close>, dictionaries
  association lists in insertion order. A command takes the tables and returns the tables it
  commits; \<open>commit\<close> checks the constraints of the schema; an error leaves the tables alone.
  What the code gets from outside is an argument: identifiers (\<^verbatim>\<open>uuid4\<close>, the \<open>n\<close>-th draw),
  random draws, the clock (one reading per command), the answers of other services and of the
  message broker. No hypothesis is made on them except where a statement names it.

  \<^bold>\<open>Theories and sources.\<close> Under \<^verbatim>\<open>services/game-service/app\<close>:

  \<^item> \<open>Domain_Types\<close>, \<open>Models\<close>: \<^verbatim>\<open>domain/constants.py\<close>, \<^verbatim>\<open>exceptions.py\<close>, \<^verbatim>\<open>rules.py\<close>, \<^verbatim>\<open>models.py\<close>.
  \<^item> \<open>Positions\<close>, \<open>Blind_Posting\<close>, \<open>Turn_Engine\<close>, \<open>Validator\<close>, \<open>Action_Pipeline\<close>, \<open>Street_Progression\<close>,
    \<open>Side_Pots\<close>, \<open>Payout_Validation\<close>, \<open>Table_Runtime\<close>: the files of \<^verbatim>\<open>domain/engine\<close>.
  \<^item> \<open>Hand_Ledger\<close>: \<^verbatim>\<open>domain/ledger\<close>; \<open>Settlement_Explainer\<close>: \<^verbatim>\<open>domain/reporting\<close>;
    \<open>Scenario_Runner\<close>: \<^verbatim>\<open>domain/scenario_runner.py\<close>.
  \<^item> \<open>Room_Adapter\<close>, \<open>Game_Db\<close>: \<^verbatim>\<open>domain/integration\<close>, \<^verbatim>\<open>infrastructure/room_config.py\<close>,
    \<^verbatim>\<open>infrastructure/repositories\<close>, \<^verbatim>\<open>application/action_helpers.py\<close>.
  \<^item> \<open>Bet_Commands\<close>, \<open>Game_Commands\<close>, \<open>Corrections\<close>, \<open>Table_Commands\<close>, \<open>Mappers\<close>, \<open>Queries\<close>:
    \<^verbatim>\<open>application/commands\<close>, \<^verbatim>\<open>hand_completion.py\<close>, \<^verbatim>\<open>mappers.py\<close>, \<^verbatim>\<open>application/queries\<close>.

  Under \<^verbatim>\<open>services\<close> and \<^verbatim>\<open>shared\<close>:

  \<^item> \<open>Room_Service\<close>: \<^verbatim>\<open>room-service/app\<close>; \<open>Auth_Service\<close>: \<^verbatim>\<open>auth-service/app\<close> (sessions, tokens, passwords; the hash and
    the signature are parameters); \<open>User_Service\<close>: \<^verbatim>\<open>user-service/app\<close> and \<^verbatim>\<open>core/db/crud.py\<close>.
  \<^item> \<open>Outbox_Worker\<close>: \<^verbatim>\<open>core/outbox/worker.py\<close>; \<open>Messaging\<close>: \<^verbatim>\<open>core/messaging/consumer.py\<close> (retry and dead-letter
    queues); \<open>Publisher\<close>: \<^verbatim>\<open>core/messaging/mq.py\<close> (the connection and its state).
  \<^item> \<open>Table_Feed\<close>: \<^verbatim>\<open>table_state_ws.py\<close>, \<^verbatim>\<open>table_state_fanout.py\<close>, the WebSocket route and \<^verbatim>\<open>utils/proxy.py\<close> of the
    gateway; \<open>Game_Api\<close>: the exception handler of \<^verbatim>\<open>game-service/app/main.py\<close> and the route of a bet on both sides;
    \<open>Routing\<close>: the route tables of all services.
  \<^item> \<open>Sql_Schema\<close>, \<open>Migrations\<close>: \<^verbatim>\<open>alembic/versions\<close> of the four services with a database, and their rows.

  Five theories hold systems built from these operations:
  \<open>Betting_Round\<close> (the accepted actions of one street), \<open>Hand_Play\<close> (requests on a hand, in any
  order), \<open>Room_Lifecycle\<close> (commands on rooms), \<open>Room_Game\<close> (game-service calling
  room-service) and \<open>Auth_Sessions\<close> (requests on accounts). \<open>Prelude\<close> and \<open>Step_Systems\<close> are shared.

  \<^bold>\<open>Interfaces.\<close> Contracts are locales, interpreted on the model's definitions where these are
  given: \<open>turn_order\<close> (\<open>next_to_act\<close>), \<open>bet_validator\<close> (\<open>validate_bet\<close>), \<open>pot_calculator\<close>
  (\<open>calculate_side_pots\<close>), \<open>event_sourced\<close> and \<open>event_refinement\<close> (ledger, timeline, the events of profiles),
  \<open>entity\<close> (fetch and put of rows: games, rounds, rooms, room players), \<open>aging_rows\<close> (sessions and reset tokens,
  which once over stay over), \<open>subscription_manager\<close> (the sockets of a round), \<open>conserving_system\<close>
  (hands, rooms, accounts, profiles, the consumer) and \<open>ranked_system\<close> (betting rounds, the outbox, the consumer).

  \<^bold>\<open>What is proved.\<close>

  \<^item> \<^emph>\<open>Engine.\<close> \<open>hand_ok\<close> (the pot is what was committed, no negative amount, all-in players
    without chips, the player on turn able to act, nobody behind the last aggressor owing) is
    kept by every action; the validator accepts exactly the actions of a declarative table
    and raises each of its errors exactly in its situation; the actions a table state offers are what the validator accepts, amounts
    included; the index walk for the next player is the clockwise walk; when
    a street closes; a betting round ends, within the chips of the players able to act.
  \<^item> \<^emph>\<open>Pots.\<close> Side pots conserve chips and give a live player exactly what was matched;
    payouts stay within them.
  \<^item> \<^emph>\<open>Commands.\<close> \<open>place_bet\<close> refines the engine on the tables, is idempotent by key and loses
    no concurrent update; starting a round, advancing a street, settling a hand and preparing
    the next; corrections. Along any sequence of bets and street changes everything above
    holds, and from any deal to the settlement the stacks keep their total. A bet and a street change are stated row by row:
    what they write, and that nothing else changes.
  \<^item> \<^emph>\<open>Ledger.\<close> A replay is the history of the rebuilt state, the rebuilt state is the signed
    sum of the entries, and the consistency check is exactly the agreement of rows and ledger.
  \<^item> \<^emph>\<open>Session and events.\<close> Pausing is undone by resuming, and a paused table starts no round; the hand counter never runs ahead;
    snapshots are read back as written; the outbox loses and invents no event, and drains.
  \<^item> \<^emph>\<open>Rooms.\<close> No chair is taken twice as long as no reordering doubles one; a room only moves forward, whatever is
    requested of any room, and its seating is frozen once
    a game can run; a game starts from exactly its room's configuration.

  \<^item> \<^emph>\<open>Accounts and profiles.\<close> A refresh token buys one pair of tokens and is over; a password reset ends every
    session; the session of a login lives until it is spent, and its refresh token buys tokens for the roles
    the account has by then; the account tables stay well-formed; the events of
    user-service rebuild its profiles.
  \<^item> \<^emph>\<open>Messages and the table feed.\<close> The consumer loses no message and comes to rest with every message handled or
    dead-lettered; the publisher answers truthfully; a broadcast reaches every working socket once; an event
    about a watched round becomes one table state, or one error, at every subscriber whose socket takes it.
  \<^item> \<^emph>\<open>Schema.\<close> The constraints the commits of the model check are exactly those the migrations leave in the database.
  \<^item> \<^emph>\<open>The client's side.\<close> The status of every answer to a bet, keyed replays included; every request to the gateway reaches the operation meant.

  Theorems not in the list of properties record defects of the code, each with a concrete run:
  one check closing an unopened street, a pot paid twice when it is named twice, a correction
  lost to a concurrent bet, a bet reversed after its pot was paid (which makes chips), blinds that rise on a paused table, a hand stuck at its first turn, two players on one seat, a room
  left active by a failed start, two refreshes racing for one token, a password too long to hash, a WebSocket route that outlives its client, a publisher
  wedged by a half reconnection, a URL cut at an unquoted value, a downgrade that drops more than its revision made.

  \<^bold>\<open>Bounds.\<close> Loops are structural recursion or folds, so nothing runs on fuel. The drawing of a room code is bounded by the
  code itself (100 attempts). The loops that run as long as the process does (outbox, consumer, the reconcile loop of a socket)
  are given the list of their iterations or are step relations; \<open>outbox_drains\<close> and \<open>consumer_settles\<close> state how many
  steps are enough.

  \<^bold>\<open>Not modelled.\<close> Logging, middleware, configuration and the start and stop of the processes; the gateway's HTTP client
  and health checks; the validation of request bodies by the framework beyond the schemas used here; percent signs, dot
  segments and control characters in URLs; letters outside ASCII where the code changes case; the width of integer and string columns; the connection scripts of the migrations.
\<close>

end
